(* ===== verification/Prelude.thy ===== *)
theory Prelude
  imports Main "HOL-Library.Word" "HOL-Library.Finite_Map" "HOL-Library.Sublist"
begin

text \<open>
  The shared vocabulary of the development: the Go scalar types the code uses, byte strings and
  their big-endian readings (\<^verbatim>\<open>encoding/binary\<close>, \<^verbatim>\<open>math/big\<close>), Go maps as finite maps with an
  executable "some entry satisfies" test, and the generic lemmas the components rest on.

  Conventions used throughout.  A Go \<^verbatim>\<open>[]byte\<close>, \<^verbatim>\<open>[32]byte\<close> or digest is a list of 8-bit words; a Go
  \<^verbatim>\<open>string\<close> is a HOL \<^typ>\<open>string\<close>, one character per byte; \<^verbatim>\<open>uint8\<close>, \<^verbatim>\<open>uint16\<close>, \<^verbatim>\<open>uint32\<close> and
  \<^verbatim>\<open>uint64\<close> keep their width; a Go \<^verbatim>\<open>int\<close> that is configuration (a limit, a threshold) is an
  \<^typ>\<open>int\<close>, a \<^verbatim>\<open>len\<close> is a \<^typ>\<open>nat\<close>; \<^verbatim>\<open>*big.Int\<close> is \<^typ>\<open>int\<close>; a Go map is an \<^typ>\<open>('a, 'b) fmap\<close>;
  a function that may return an error has type \<^typ>\<open>'e + 'a\<close> with \<^const>\<open>Inl\<close> the error.
\<close>

section \<open>Scalar types and byte strings\<close>

type_synonym u8 = "8 word"
type_synonym u16 = "16 word"
type_synonym u32 = "32 word"
type_synonym u64 = "64 word"
type_synonym bytes = "8 word list"

text \<open>Big-endian bytes of an integer in a fixed width, and the integer a byte string denotes.\<close>

primrec be_bytes :: "nat \<Rightarrow> int \<Rightarrow> bytes" where
  "be_bytes 0 v = []"
| "be_bytes (Suc n) v = be_bytes n (v div 256) @ [word_of_int (v mod 256)]"

definition be_int :: "bytes \<Rightarrow> int" where
  "be_int bs = foldl (\<lambda>a b. a * 256 + uint b) 0 bs"

definition str_bytes :: "string \<Rightarrow> bytes" where
  "str_bytes s = map of_char s"

lemma be_int_Nil [simp]: "be_int [] = 0"
  by (simp add: be_int_def)

lemma be_int_snoc [simp]: "be_int (bs @ [b]) = be_int bs * 256 + uint b"
  by (simp add: be_int_def)

lemma length_be_bytes [simp]: "length (be_bytes n v) = n"
  by (induction n arbitrary: v) auto

lemma uint_byte_bounds [simp]: "0 \<le> uint (b :: u8)" "uint (b :: u8) < 256"
  using uint_bounded [of b] by auto

lemma be_int_nonneg [simp]: "0 \<le> be_int bs"
  by (induction bs rule: rev_induct) auto

lemma be_int_less: "be_int bs < 256 ^ length bs"
proof (induction bs rule: rev_induct)
  case (snoc b bs)
  have "be_int bs * 256 + uint b < (be_int bs + 1) * 256"
    using uint_byte_bounds(2) [of b] by (simp add: algebra_simps)
  also have "\<dots> \<le> 256 ^ length bs * 256"
    using snoc by simp
  finally show ?case by (simp add: mult.commute)
qed simp

lemma be_int_be_bytes: "be_int (be_bytes n v) = v mod 256 ^ n"
proof (induction n arbitrary: v)
  case (Suc n)
  have "uint (word_of_int (v mod 256) :: u8) = v mod 256"
    by (simp add: uint_word_of_int)
  then have "be_int (be_bytes (Suc n) v) = (v div 256) mod 256 ^ n * 256 + v mod 256"
    by (simp add: Suc)
  also have "\<dots> = v mod (256 * 256 ^ n)"
    by (simp add: zmod_zmult2_eq)
  finally show ?case by simp
qed simp

lemma be_int_be_bytes_id [simp]: "0 \<le> v \<Longrightarrow> v < 256 ^ n \<Longrightarrow> be_int (be_bytes n v) = v"
  by (simp add: be_int_be_bytes)

lemma be_bytes_be_int: "be_bytes (length bs) (be_int bs) = bs"
proof (induction bs rule: rev_induct)
  case (snoc b bs)
  have q: "(be_int bs * 256 + uint b) div 256 = be_int bs"
    by (simp add: div_plus_div_distrib_dvd_left)
  have r: "(be_int bs * 256 + uint b) mod 256 = uint b"
    by (simp add: mod_add_eq [symmetric])
  show ?case by (simp add: q r snoc)
qed simp

lemma be_bytes_be_int' [simp]: "length bs = n \<Longrightarrow> be_bytes n (be_int bs) = bs"
  using be_bytes_be_int by blast

lemma be_bytes_inject:
  "0 \<le> v \<Longrightarrow> v < 256 ^ n \<Longrightarrow> 0 \<le> w \<Longrightarrow> w < 256 ^ n \<Longrightarrow> be_bytes n v = be_bytes n w \<longleftrightarrow> v = w"
  by (metis be_int_be_bytes_id)

lemma be_int_append: "be_int (xs @ ys) = be_int xs * 256 ^ length ys + be_int ys"
proof (induction ys rule: rev_induct)
  case (snoc y ys)
  have "be_int (xs @ ys @ [y]) = be_int ((xs @ ys) @ [y])" by simp
  also have "\<dots> = be_int (xs @ ys) * 256 + uint y" by (rule be_int_snoc)
  finally show ?case by (simp add: snoc algebra_simps)
qed simp

lemma be_int_Cons: "be_int (x # xs) = uint x * 256 ^ length xs + be_int xs"
  using be_int_append [of "[x]" xs] by (simp add: be_int_def)

lemma be_int_inject: "length xs = length ys \<Longrightarrow> be_int xs = be_int ys \<longleftrightarrow> xs = ys"
  by (metis be_bytes_be_int)

text \<open>Strings and their bytes: Go's conversion \<^verbatim>\<open>[]byte(s)\<close> loses nothing.\<close>

definition bytes_str :: "bytes \<Rightarrow> string" where
  "bytes_str bs = map (\<lambda>b. char_of (unat b)) bs"

lemma of_char_less_256: "(of_char c :: nat) < 256"
  by simp

lemma unat_of_char_byte: "unat (of_char c :: u8) = of_char c"
proof -
  have "unat (of_nat (of_char c) :: u8) = of_char c mod 2 ^ 8"
    by (simp add: unat_of_nat)
  then show ?thesis by (simp add: of_nat_of_char)
qed

lemma bytes_str_str_bytes [simp]: "bytes_str (str_bytes s) = s"
  by (induction s) (simp_all add: bytes_str_def str_bytes_def unat_of_char_byte)

lemma of_char_char_of_byte [simp]: "(of_char (char_of (unat b) :: char) :: u8) = b"
proof -
  have "unat b < 256" using unsigned_less [of b, where ?'a = nat] by simp
  then have "unat (of_char (char_of (unat b) :: char) :: u8) = unat b"
    by (simp add: unat_of_char_byte)
  then show ?thesis by (simp add: word_unat_eq_iff)
qed

lemma str_bytes_bytes_str [simp]: "str_bytes (bytes_str bs) = bs"
  by (induction bs) (simp_all add: bytes_str_def str_bytes_def)

lemma str_bytes_inject [simp]: "str_bytes s = str_bytes t \<longleftrightarrow> s = t"
  by (metis bytes_str_str_bytes)

lemma length_str_bytes [simp]: "length (str_bytes s) = length s"
  by (simp add: str_bytes_def)

lemma length_bytes_str [simp]: "length (bytes_str s) = length s"
  by (simp add: bytes_str_def)

lemma str_bytes_Nil_iff [simp]: "str_bytes s = [] \<longleftrightarrow> s = []"
  by (simp add: str_bytes_def)

section \<open>Go maps\<close>

text \<open>
  \<^verbatim>\<open>for k, v := range m { if P(k, v) { return true } }; return false\<close>: the order of the iteration
  does not matter to the answer, so the loop is a test of the finite map.
\<close>

definition fm_ex :: "('k \<Rightarrow> 'v \<Rightarrow> bool) \<Rightarrow> ('k, 'v) fmap \<Rightarrow> bool" where
  "fm_ex P m = (\<not> fmpred (\<lambda>k v. \<not> P k v) m)"

text \<open>\<^verbatim>\<open>_, ok := m[k]\<close> and \<^verbatim>\<open>len(m)\<close>.\<close>

definition fm_has :: "'k \<Rightarrow> ('k, 'v) fmap \<Rightarrow> bool" where
  "fm_has k m = (fmlookup m k \<noteq> None)"

definition fm_size :: "('k, 'v) fmap \<Rightarrow> nat" where
  "fm_size m = fcard (fmdom m)"

lemma fm_ex_iff: "fm_ex P m \<longleftrightarrow> (\<exists>k v. fmlookup m k = Some v \<and> P k v)"
  by (auto simp: fm_ex_def fmpred_iff)

lemma fm_exI: "fmlookup m k = Some v \<Longrightarrow> P k v \<Longrightarrow> fm_ex P m"
  by (auto simp: fm_ex_iff)

lemma fm_ex_empty [simp]: "\<not> fm_ex P fmempty"
  by (simp add: fm_ex_iff)

lemma fm_ex_upd_new:
  "fmlookup m k = None \<Longrightarrow> fm_ex P (fmupd k v m) \<longleftrightarrow> P k v \<or> fm_ex P m"
  unfolding fm_ex_iff by (metis fmupd_lookup option.distinct(1) option.inject)

lemma fm_has_iff: "fm_has k m \<longleftrightarrow> (\<exists>v. fmlookup m k = Some v)"
  by (auto simp: fm_has_def)

lemma fm_has_empty [simp]: "\<not> fm_has k fmempty"
  by (simp add: fm_has_def)

lemma fm_has_upd [simp]: "fm_has k (fmupd k' v m) \<longleftrightarrow> k = k' \<or> fm_has k m"
  by (auto simp: fm_has_def)

lemma fm_has_drop [simp]: "fm_has k (fmdrop k' m) \<longleftrightarrow> k \<noteq> k' \<and> fm_has k m"
  by (auto simp: fm_has_def)

lemma fm_size_empty [simp]: "fm_size fmempty = 0"
  by (simp add: fm_size_def)

lemma fm_size_upd:
  "fm_size (fmupd k v m) = (if fm_has k m then fm_size m else Suc (fm_size m))"
  by (auto simp: fm_size_def fm_has_def fcard_finsert_if fmlookup_dom_iff)

lemma fm_size_filter_le: "fm_size (fmfilter P m) \<le> fm_size m"
  by (auto simp: fm_size_def intro!: fcard_mono)

text \<open>
  A counter incremented for the entries that satisfy a test, and \<^verbatim>\<open>m[k]\<close> with the zero value of a
  missing entry.
\<close>

definition fm_count :: "('k \<Rightarrow> 'v \<Rightarrow> bool) \<Rightarrow> ('k, 'v) fmap \<Rightarrow> nat" where
  "fm_count P m =
    fcard (ffilter (\<lambda>k. case fmlookup m k of None \<Rightarrow> False | Some v \<Rightarrow> P k v) (fmdom m))"

definition fm_get :: "'v \<Rightarrow> ('k, 'v) fmap \<Rightarrow> 'k \<Rightarrow> 'v" where
  "fm_get z m k = (case fmlookup m k of None \<Rightarrow> z | Some v \<Rightarrow> v)"

lemma fm_get_Some [simp]: "fmlookup m k = Some v \<Longrightarrow> fm_get z m k = v"
  by (simp add: fm_get_def)

lemma fm_count_card: "fm_count P m = card {k. \<exists>v. fmlookup m k = Some v \<and> P k v}"
proof -
  have "fset (ffilter (\<lambda>k. case fmlookup m k of None \<Rightarrow> False | Some v \<Rightarrow> P k v) (fmdom m))
      = {k. \<exists>v. fmlookup m k = Some v \<and> P k v}"
    by (auto simp: fmlookup_dom_iff split: option.splits)
  then show ?thesis by (simp add: fm_count_def fcard.rep_eq)
qed

lemma fm_size_card: "fm_size m = card {k. fmlookup m k \<noteq> None}"
proof -
  have "fset (fmdom m) = {k. fmlookup m k \<noteq> None}" by (auto simp: fmlookup_dom_iff)
  then show ?thesis by (simp add: fm_size_def fcard.rep_eq)
qed

lemma fm_count_one:
  assumes "fmlookup m k = Some v" "P k v"
    and "\<And>k' v'. fmlookup m k' = Some v' \<Longrightarrow> P k' v' \<Longrightarrow> k' = k"
  shows "fm_count P m = 1"
proof -
  have "{k. \<exists>v. fmlookup m k = Some v \<and> P k v} = {k}" using assms by blast
  then show ?thesis by (simp add: fm_count_card)
qed

text \<open>Two maps indexed by one another have as many counted entries as entries.\<close>

lemma fm_count_index:
  assumes fwd: "\<And>k v. fmlookup m k = Some v \<Longrightarrow> P k v \<Longrightarrow> fmlookup idx (f v) = Some k"
    and bwd: "\<And>i k. fmlookup idx i = Some k \<Longrightarrow> \<exists>v. fmlookup m k = Some v \<and> P k v \<and> f v = i"
  shows "fm_count P m = fm_size idx"
proof -
  let ?K = "{k. \<exists>v. fmlookup m k = Some v \<and> P k v}" and ?I = "{i. fmlookup idx i \<noteq> None}"
  let ?g = "\<lambda>i. the (fmlookup idx i)"
  have "bij_betw ?g ?I ?K"
  proof (rule bij_betw_imageI)
    show "inj_on ?g ?I"
    proof (rule inj_onI)
      fix i j assume "i \<in> ?I" "j \<in> ?I" "?g i = ?g j"
      then obtain k where "fmlookup idx i = Some k" "fmlookup idx j = Some k" by auto
      then show "i = j" using bwd [of i k] bwd [of j k] by auto
    qed
    show "?g ` ?I = ?K"
    proof
      show "?g ` ?I \<subseteq> ?K" using bwd by fastforce
      show "?K \<subseteq> ?g ` ?I"
      proof
        fix k assume "k \<in> ?K"
        then obtain v where "fmlookup idx (f v) = Some k" using fwd by blast
        then show "k \<in> ?g ` ?I" by (intro image_eqI [of _ _ "f v"]) auto
      qed
    qed
  qed
  then have "card ?I = card ?K" by (rule bij_betw_same_card)
  then show ?thesis by (simp add: fm_count_card fm_size_card)
qed

lemma fm_size_index:
  assumes "\<And>k v. fmlookup m k = Some v \<Longrightarrow> fmlookup idx (f v) = Some k"
    and "\<And>i k. fmlookup idx i = Some k \<Longrightarrow> \<exists>v. fmlookup m k = Some v \<and> f v = i"
  shows "fm_size m = fm_size idx"
proof -
  have "fm_count (\<lambda>_ _. True) m = fm_size idx"
    by (rule fm_count_index [where f = f]) (use assms in auto)
  moreover have "fm_count (\<lambda>_ _. True) m = fm_size m"
    by (simp add: fm_count_card fm_size_card)
  ultimately show ?thesis by simp
qed

section \<open>Results\<close>

text \<open>Outcomes: whether a call of type \<^typ>\<open>'e + 'a\<close> returned a nil error.\<close>

definition is_ok :: "'e + 'a \<Rightarrow> bool" where
  "is_ok r = (case r of Inl _ \<Rightarrow> False | Inr _ \<Rightarrow> True)"

text \<open>\<^verbatim>\<open>if err := a; err != nil { return err }; b\<close>.\<close>

definition then_ok :: "'e + unit \<Rightarrow> 'e + 'a \<Rightarrow> 'e + 'a" where
  "then_ok a b = (case a of Inl e \<Rightarrow> Inl e | Inr _ \<Rightarrow> b)"

lemma then_ok_iff: "then_ok a b = Inr x \<longleftrightarrow> a = Inr () \<and> b = Inr x"
  by (auto simp: then_ok_def split: sum.splits)

lemma then_ok_simps [simp]: "then_ok (Inr u) b = b" "then_ok (Inl e) b = Inl e"
  by (simp_all add: then_ok_def)

lemma is_ok_simps [simp]: "is_ok (Inr x)" "\<not> is_ok (Inl e)"
  by (simp_all add: is_ok_def)

lemma is_ok_iff: "is_ok r \<longleftrightarrow> (\<exists>x. r = Inr x)"
  by (cases r) auto

end
