(* ===== verification/Wire_Stream.thy ===== *)
theory Wire_Stream
  imports Stdlib
begin

text \<open>
  Byte-level readers and writers of \<^verbatim>\<open>internal/wire\<close>: the big-endian scalars of
  \<^verbatim>\<open>primitives.go\<close>, the offset-based readers and appenders of \<^verbatim>\<open>stream.go\<close> and the repeated
  records of \<^verbatim>\<open>records.go\<close>.  An offset is an \<^typ>\<open>int\<close>, so the code's negative-offset branches are
  branches of the model; an error is the constant part of its message.

  Every reader is characterised by one equivalence over \<open>seg raw off bs\<close> ("\<open>bs\<close> stands in
  \<open>raw\<close> at \<open>off\<close>"): it returns \<open>(x, off')\<close> exactly when the encoding of \<open>x\<close> stands at
  \<open>off\<close> and \<open>off'\<close> is its end.  The locale \<open>item_codec\<close> lifts that law from one record to the
  counted lists of the wire format; the list codecs are its interpretations.
\<close>

named_theorems reader_iff "readers as equivalences over segments"

type_synonym werror = string

section \<open>Segments\<close>

definition seg :: "bytes \<Rightarrow> int \<Rightarrow> bytes \<Rightarrow> bool" where
  "seg raw off bs \<longleftrightarrow>
    0 \<le> off \<and> nat off + length bs \<le> length raw \<and> take (length bs) (drop (nat off) raw) = bs"

lemma seg_append: "seg raw off (a @ b) \<longleftrightarrow> seg raw off a \<and> seg raw (off + int (length a)) b"
proof (cases "0 \<le> off")
  case True
  then have n: "nat (off + int (length a)) = nat off + length a" by simp
  let ?d = "drop (nat off) raw"
  have tk: "take (length a + length b) ?d = take (length a) ?d @ take (length b) (drop (length a) ?d)"
    by (rule take_add)
  show ?thesis
  proof
    assume s: "seg raw off (a @ b)"
    then have le: "nat off + length a + length b \<le> length raw"
      and eq: "take (length a) ?d @ take (length b) (drop (length a) ?d) = a @ b"
      by (auto simp: seg_def tk)
    then have "take (length a) ?d = a" and "take (length b) (drop (length a) ?d) = b"
      by auto
    with le True show "seg raw off a \<and> seg raw (off + int (length a)) b"
      by (simp add: seg_def n add.commute)
  next
    assume "seg raw off a \<and> seg raw (off + int (length a)) b"
    with True show "seg raw off (a @ b)"
      by (auto simp: seg_def n tk add.commute add.left_commute)
  qed
qed (simp add: seg_def)

lemma seg_0_whole: "seg raw 0 bs \<and> int (length bs) = int (length raw) \<longleftrightarrow> raw = bs"
  by (auto simp: seg_def)

lemma seg_inject: "seg raw off a \<Longrightarrow> seg raw off b \<Longrightarrow> length a = length b \<Longrightarrow> a = b"
  by (metis seg_def)

lemma seg_end: "seg raw off bs \<Longrightarrow> off + int (length bs) \<le> int (length raw)"
  by (auto simp: seg_def)

section \<open>primitives.go\<close>

definition Uint16 :: "u16 \<Rightarrow> bytes" where
  "Uint16 v = be_bytes 2 (uint v)"

definition Uint32 :: "u32 \<Rightarrow> bytes" where
  "Uint32 v = be_bytes 4 (uint v)"

definition Bool_bytes :: "bool \<Rightarrow> bytes" where
  "Bool_bytes v = (if v then [1] else [0])"

definition DecodeUint16 :: "bytes \<Rightarrow> werror + u16" where
  "DecodeUint16 bs =
    (if length bs \<noteq> 2 then Inl ''uint16 must be 2 bytes'' else Inr (word_of_int (be_int bs)))"

definition DecodeUint32 :: "bytes \<Rightarrow> werror + u32" where
  "DecodeUint32 bs =
    (if length bs \<noteq> 4 then Inl ''uint32 must be 4 bytes'' else Inr (word_of_int (be_int bs)))"

definition DecodeBool :: "bytes \<Rightarrow> werror + bool" where
  "DecodeBool bs =
    (if length bs \<noteq> 1 then Inl ''bool must be 1 byte''
     else if bs ! 0 = 0 then Inr False
     else if bs ! 0 = 1 then Inr True
     else Inl ''bool must be 0 or 1'')"

section \<open>stream.go\<close>

definition NonNilBytes :: "bytes option \<Rightarrow> bytes option" where
  "NonNilBytes bs = (case bs of None \<Rightarrow> Some [] | Some v \<Rightarrow> Some v)"

definition subslice :: "bytes \<Rightarrow> int \<Rightarrow> int \<Rightarrow> bytes" where
  "subslice bs lo hi = take (nat (hi - lo)) (drop (nat lo) bs)"

definition ReadUint16 :: "bytes \<Rightarrow> int \<Rightarrow> werror + (u16 \<times> int)" where
  "ReadUint16 raw off =
    (if off < 0 then Inl ''invalid uint16 offset''
     else if int (length raw) - off < 2 then Inl ''truncated uint16''
     else Inr (word_of_int (be_int (subslice raw off (off + 2))), off + 2))"

definition ReadUint32 :: "bytes \<Rightarrow> int \<Rightarrow> werror + (u32 \<times> int)" where
  "ReadUint32 raw off =
    (if off < 0 then Inl ''invalid uint32 offset''
     else if int (length raw) - off < 4 then Inl ''truncated uint32''
     else Inr (word_of_int (be_int (subslice raw off (off + 4))), off + 4))"

definition ReadBytesWithLimit :: "int \<Rightarrow> bytes \<Rightarrow> int \<Rightarrow> werror + (bytes \<times> int)" where
  "ReadBytesWithLimit maxItemBytes raw off =
    (case ReadUint32 raw off of
       Inl e \<Rightarrow> Inl e
     | Inr (len, off) \<Rightarrow>
         if maxItemBytes > 0 \<and> uint len > maxItemBytes then Inl ''byte field too large''
         else if int (length raw) - off < uint len then Inl ''truncated byte field''
         else Inr (subslice raw off (off + uint len), off + uint len))"

definition ReadBytes :: "bytes \<Rightarrow> int \<Rightarrow> werror + (bytes \<times> int)" where
  "ReadBytes raw off = ReadBytesWithLimit 0 raw off"

definition AppendUint16 :: "bytes \<Rightarrow> u16 \<Rightarrow> bytes" where
  "AppendUint16 out v = out @ be_bytes 2 (uint v)"

definition AppendUint32 :: "bytes \<Rightarrow> u32 \<Rightarrow> bytes" where
  "AppendUint32 out v = out @ be_bytes 4 (uint v)"

definition AppendBytesChecked :: "bytes \<Rightarrow> bytes \<Rightarrow> werror + bytes" where
  "AppendBytesChecked out value =
    (if int (length value) > 0xFFFFFFFF then Inl ''byte field length exceeds uint32''
     else Inr (out @ Uint32 (word_of_int (int (length value))) @ value))"

section \<open>Lemmas on scalars and readers\<close>

lemma length_Uint16 [simp]: "length (Uint16 v) = 2"
  by (simp add: Uint16_def)

lemma length_Uint32 [simp]: "length (Uint32 v) = 4"
  by (simp add: Uint32_def)

lemma uint16_lt: "uint (v :: u16) < 256 ^ 2"
  using uint_bounded [of v] by simp

lemma uint32_lt: "uint (v :: u32) < 256 ^ 4"
  using uint_bounded [of v] by simp

lemma be_int_Uint16 [simp]: "be_int (Uint16 v) = uint v"
  unfolding Uint16_def by (rule be_int_be_bytes_id) (use uint16_lt in auto)

lemma be_int_Uint32 [simp]: "be_int (Uint32 v) = uint v"
  unfolding Uint32_def by (rule be_int_be_bytes_id) (use uint32_lt in auto)

lemma Uint16_be_int: "length bs = 2 \<Longrightarrow> Uint16 (word_of_int (be_int bs)) = bs"
  using be_int_less [of bs] be_int_nonneg [of bs]
  by (simp add: Uint16_def uint_word_of_int_eq take_bit_int_eq_self)

lemma Uint32_be_int: "length bs = 4 \<Longrightarrow> Uint32 (word_of_int (be_int bs)) = bs"
  using be_int_less [of bs] be_int_nonneg [of bs]
  by (simp add: Uint32_def uint_word_of_int_eq take_bit_int_eq_self)

lemma Uint16_inject [simp]: "Uint16 a = Uint16 b \<longleftrightarrow> a = b"
  by (metis be_int_Uint16 word_uint_eqI)

lemma Uint32_inject [simp]: "Uint32 a = Uint32 b \<longleftrightarrow> a = b"
  by (metis be_int_Uint32 word_uint_eqI)

lemma DecodeUint16_iff [reader_iff]: "DecodeUint16 bs = Inr v \<longleftrightarrow> bs = Uint16 v"
  by (auto simp: DecodeUint16_def Uint16_be_int)

lemma DecodeUint32_iff [reader_iff]: "DecodeUint32 bs = Inr v \<longleftrightarrow> bs = Uint32 v"
  by (auto simp: DecodeUint32_def Uint32_be_int)

lemma DecodeBool_iff [reader_iff]: "DecodeBool bs = Inr v \<longleftrightarrow> bs = Bool_bytes v"
  by (cases bs) (auto simp: DecodeBool_def Bool_bytes_def)

lemma subslice_seg:
  "0 \<le> off \<Longrightarrow> int n \<le> int (length raw) - off \<Longrightarrow> seg raw off (subslice raw off (off + int n))
    \<and> length (subslice raw off (off + int n)) = n"
  by (auto simp: seg_def subslice_def min_def)

lemma seg_subslice: "seg raw off bs \<Longrightarrow> subslice raw off (off + int (length bs)) = bs"
  by (auto simp: seg_def subslice_def)

lemma ReadUint16_iff [reader_iff]:
  "ReadUint16 raw off = Inr (v, off') \<longleftrightarrow> seg raw off (Uint16 v) \<and> off' = off + 2"
proof
  assume r: "ReadUint16 raw off = Inr (v, off')"
  then have b: "0 \<le> off" "int 2 \<le> int (length raw) - off" by (auto simp: ReadUint16_def split: if_splits)
  with r have "v = word_of_int (be_int (subslice raw off (off + int 2)))" "off' = off + 2"
    by (auto simp: ReadUint16_def)
  with subslice_seg [OF b] show "seg raw off (Uint16 v) \<and> off' = off + 2" by (simp add: Uint16_be_int)
next
  assume s: "seg raw off (Uint16 v) \<and> off' = off + 2"
  then show "ReadUint16 raw off = Inr (v, off')"
    using seg_subslice [of raw off "Uint16 v"] by (auto simp: ReadUint16_def seg_def)
qed

lemma ReadUint32_iff [reader_iff]:
  "ReadUint32 raw off = Inr (v, off') \<longleftrightarrow> seg raw off (Uint32 v) \<and> off' = off + 4"
proof
  assume r: "ReadUint32 raw off = Inr (v, off')"
  then have b: "0 \<le> off" "int 4 \<le> int (length raw) - off" by (auto simp: ReadUint32_def split: if_splits)
  with r have "v = word_of_int (be_int (subslice raw off (off + int 4)))" "off' = off + 4"
    by (auto simp: ReadUint32_def)
  with subslice_seg [OF b] show "seg raw off (Uint32 v) \<and> off' = off + 4" by (simp add: Uint32_be_int)
next
  assume s: "seg raw off (Uint32 v) \<and> off' = off + 4"
  then show "ReadUint32 raw off = Inr (v, off')"
    using seg_subslice [of raw off "Uint32 v"] by (auto simp: ReadUint32_def seg_def)
qed

text \<open>The length-prefixed encoding of one byte string.\<close>

definition lp :: "bytes \<Rightarrow> bytes" where
  "lp v = Uint32 (word_of_int (int (length v))) @ v"

definition fits32 :: "bytes \<Rightarrow> bool" where
  "fits32 v \<longleftrightarrow> int (length v) \<le> 0xFFFFFFFF"

definition within :: "int \<Rightarrow> bytes \<Rightarrow> bool" where
  "within cap v \<longleftrightarrow> cap > 0 \<longrightarrow> int (length v) \<le> cap"

lemma length_lp [simp]: "length (lp v) = 4 + length v"
  by (simp add: lp_def)

lemma uint32_of_len: "fits32 v \<Longrightarrow> uint (word_of_nat (length v) :: u32) = int (length v)"
  by (simp add: fits32_def unsigned_of_nat take_bit_nat_eq_self)

lemma fits32_iff_u32: "fits32 v \<longleftrightarrow> (\<exists>n :: u32. uint n = int (length v))"
proof
  assume "\<exists>n :: u32. uint n = int (length v)"
  then obtain n :: u32 where "uint n = int (length v)" ..
  with uint_bounded [of n] show "fits32 v" by (simp add: fits32_def)
qed (use uint32_of_len in blast)

lemma AppendBytesChecked_iff [reader_iff]:
  "AppendBytesChecked out v = Inr out' \<longleftrightarrow> fits32 v \<and> out' = out @ lp v"
  by (auto simp: AppendBytesChecked_def fits32_def lp_def)

lemma ReadBytesWithLimit_iff [reader_iff]:
  "ReadBytesWithLimit cap raw off = Inr (v, off') \<longleftrightarrow>
    fits32 v \<and> within cap v \<and> seg raw off (lp v) \<and> off' = off + int (length (lp v))"
  (is "?L \<longleftrightarrow> ?R")
proof
  assume l: ?L
  then obtain n o4 where rd: "ReadUint32 raw off = Inr (n, o4)"
    by (cases "ReadUint32 raw off") (auto simp: ReadBytesWithLimit_def)
  then have "o4 = off + 4" by (simp add: reader_iff)
  with l rd have cap: "cap > 0 \<longrightarrow> uint n \<le> cap" and rem: "uint n \<le> int (length raw) - (off + 4)"
    and v: "v = subslice raw (off + 4) (off + 4 + uint n)" and o': "off' = off + 4 + uint n"
    by (auto simp: ReadBytesWithLimit_def split: if_splits)
  from rd have s4: "seg raw off (Uint32 n)" by (simp add: reader_iff)
  then have "0 \<le> off + 4" by (simp add: seg_def)
  with rem v subslice_seg [of "off + 4" "nat (uint n)" raw]
  have sv: "seg raw (off + 4) v" and lv: "int (length v) = uint n" by auto
  from lv have f: "fits32 v" unfolding fits32_iff_u32 by metis
  have "lp v = Uint32 n @ v" by (simp add: lp_def lv)
  with s4 sv f cap lv o' show ?R by (simp add: seg_append within_def)
next
  assume r: ?R
  let ?n = "word_of_int (int (length v)) :: u32"
  from r have u: "uint ?n = int (length v)" by (simp add: uint32_of_len)
  from r have "ReadUint32 raw off = Inr (?n, off + 4)" and sv: "seg raw (off + 4) v"
    by (auto simp: lp_def seg_append reader_iff)
  with r u seg_subslice [OF sv] seg_end [OF sv] show ?L
    by (auto simp: ReadBytesWithLimit_def within_def)
qed

section \<open>Counted loops\<close>

text \<open>
  The two loop shapes of \<^verbatim>\<open>records.go\<close>: the encoder appends every item to \<open>out\<close> and stops at the
  first error; the decoder runs \<open>count\<close> times, threading the offset.
\<close>

fun encode_items :: "('a \<Rightarrow> bytes \<Rightarrow> werror + bytes) \<Rightarrow> 'a list \<Rightarrow> bytes \<Rightarrow> werror + bytes" where
  "encode_items put [] out = Inr out"
| "encode_items put (x # xs) out =
    (case put x out of Inl e \<Rightarrow> Inl e | Inr out' \<Rightarrow> encode_items put xs out')"

fun decode_items ::
  "(bytes \<Rightarrow> int \<Rightarrow> werror + ('a \<times> int)) \<Rightarrow> nat \<Rightarrow> bytes \<Rightarrow> int \<Rightarrow> werror + ('a list \<times> int)" where
  "decode_items get 0 raw off = Inr ([], off)"
| "decode_items get (Suc n) raw off =
    (case get raw off of
       Inl e \<Rightarrow> Inl e
     | Inr (x, off) \<Rightarrow>
         (case decode_items get n raw off of Inl e \<Rightarrow> Inl e | Inr (xs, off) \<Rightarrow> Inr (x # xs, off)))"

text \<open>
  The contract of one wire record: \<open>put\<close> appends \<open>enc x\<close> exactly when \<open>x\<close> is encodable, and
  \<open>get\<close> accepts at an offset exactly the encodings of the encodable values within its caps.
\<close>

locale item_codec =
  fixes put :: "'a \<Rightarrow> bytes \<Rightarrow> werror + bytes"
    and get :: "bytes \<Rightarrow> int \<Rightarrow> werror + ('a \<times> int)"
    and enc :: "'a \<Rightarrow> bytes"
    and good :: "'a \<Rightarrow> bool"
    and cap :: "'a \<Rightarrow> bool"
    and minlen :: nat
  assumes put_iff: "put x out = Inr out' \<longleftrightarrow> good x \<and> out' = out @ enc x"
    and get_iff: "get raw off = Inr (x, off') \<longleftrightarrow>
      good x \<and> cap x \<and> seg raw off (enc x) \<and> off' = off + int (length (enc x))"
    and enc_minlen: "minlen \<le> length (enc x)"
begin

definition enc_list :: "'a list \<Rightarrow> bytes" where
  "enc_list xs = concat (map enc xs)"

lemma enc_list_simps [simp]: "enc_list [] = []" "enc_list (x # xs) = enc x @ enc_list xs"
  by (simp_all add: enc_list_def)

lemma enc_list_minlen: "minlen * length xs \<le> length (enc_list xs)"
  using enc_minlen by (induction xs) (auto intro: add_mono)

lemma encode_items_iff:
  "encode_items put xs out = Inr out' \<longleftrightarrow> list_all good xs \<and> out' = out @ enc_list xs"
proof (induction xs arbitrary: out)
  case (Cons x xs)
  show ?case
  proof (cases "put x out")
    case (Inl e)
    then have "\<not> good x" using put_iff [of x out "out @ enc x"] by auto
    with Inl show ?thesis by simp
  next
    case (Inr o1)
    then show ?thesis using put_iff [of x out o1] by (simp add: Cons.IH)
  qed
qed auto

lemma decode_items_iff:
  "0 \<le> off \<Longrightarrow> off \<le> int (length raw) \<Longrightarrow> decode_items get n raw off = Inr (xs, off') \<longleftrightarrow>
    length xs = n \<and> list_all good xs \<and> list_all cap xs
    \<and> seg raw off (enc_list xs) \<and> off' = off + int (length (enc_list xs))"
proof (induction n arbitrary: off xs)
  case 0
  then show ?case by (auto simp: seg_def)
next
  case (Suc n)
  show ?case
  proof (cases xs)
    case Nil
    then show ?thesis by (auto split: sum.splits)
  next
    case (Cons y ys)
    show ?thesis
    proof (cases "get raw off = Inr (y, off + int (length (enc y)))")
      case True
      then have h: "good y" "cap y" "seg raw off (enc y)" by (simp_all add: get_iff)
      note e = seg_end [OF h(3)]
      have "0 \<le> off + int (length (enc y))" using Suc.prems by simp
      note ih = Suc.IH [OF this e, of ys]
      have "decode_items get (Suc n) raw off = Inr (y # ys, off') \<longleftrightarrow>
          decode_items get n raw (off + int (length (enc y))) = Inr (ys, off')"
        by (auto simp: True split: sum.splits)
      with ih h show ?thesis by (auto simp: Cons seg_append)
    next
      case False
      then have "\<not> (good y \<and> cap y \<and> seg raw off (enc y))" by (simp add: get_iff)
      moreover have "decode_items get (Suc n) raw off \<noteq> Inr (xs, off')"
      proof
        assume "decode_items get (Suc n) raw off = Inr (xs, off')"
        then obtain o1 where "get raw off = Inr (y, o1)"
          by (auto simp: Cons split: sum.splits)
        with False show False by (simp add: get_iff)
      qed
      ultimately show ?thesis by (auto simp: Cons seg_append)
    qed
  qed
qed

end

end
