(* ===== verification/Wire_Records.thy ===== *)
theory Wire_Records
  imports Wire_Stream
begin

text \<open>
  The repeated records of \<^verbatim>\<open>internal/wire/records.go\<close>: lists of \<^verbatim>\<open>uint32\<close>, of byte strings, and of
  party-scoped byte strings, pairs and triples.  All share the shape "count, then items"; each
  decoder is shown to accept exactly what its encoder produces, within the caps it is given.
\<close>

section \<open>Data\<close>

record PartyBytes =
  pb_Party :: u32
  pb_Bytes :: bytes

record PartyBytePair =
  pp_Party :: u32
  pp_First :: bytes
  pp_Second :: bytes

record PartyTriple =
  pt_Party :: u32
  pt_First :: bytes
  pt_Second :: bytes
  pt_Third :: bytes

definition maxRecordCount :: int where
  "maxRecordCount = 65535"

definition validateRecordCountWithLimit ::
  "bytes \<Rightarrow> int \<Rightarrow> u32 \<Rightarrow> int \<Rightarrow> int \<Rightarrow> werror + unit" where
  "validateRecordCountWithLimit raw off count minRecordLen maxItems =
    (if off > int (length raw) then Inl ''invalid offset''
     else if maxItems > 0 \<and> uint count > maxItems then Inl ''count too large''
     else if uint count > maxRecordCount then Inl ''count too large''
     else if int (length raw) - off < uint count * minRecordLen then Inl ''invalid length''
     else Inr ())"

section \<open>The counted shape shared by the record codecs\<close>

definition encode_counted ::
  "('a \<Rightarrow> bytes \<Rightarrow> werror + bytes) \<Rightarrow> 'a list \<Rightarrow> werror + bytes" where
  "encode_counted put items =
    (if int (length items) > 0xFFFFFFFF then Inl ''count exceeds uint32''
     else encode_items put items (Uint32 (word_of_int (int (length items)))))"

definition decode_counted ::
  "(bytes \<Rightarrow> int \<Rightarrow> werror + ('a \<times> int)) \<Rightarrow> nat \<Rightarrow> int \<Rightarrow> bytes \<Rightarrow> werror + 'a list" where
  "decode_counted get minRecordLen maxItems raw =
    (case ReadUint32 raw 0 of
       Inl e \<Rightarrow> Inl e
     | Inr (count, off) \<Rightarrow>
         (case validateRecordCountWithLimit raw off count (int minRecordLen) maxItems of
            Inl e \<Rightarrow> Inl e
          | Inr _ \<Rightarrow>
              (case decode_items get (unat count) raw off of
                 Inl e \<Rightarrow> Inl e
               | Inr (out, off) \<Rightarrow>
                   if off \<noteq> int (length raw) then Inl ''trailing bytes'' else Inr out)))"

section \<open>Item writers and readers (the loop bodies)\<close>

definition put_uint32 :: "u32 \<Rightarrow> bytes \<Rightarrow> werror + bytes" where
  "put_uint32 item out = Inr (out @ Uint32 item)"

definition put_bytes :: "bytes \<Rightarrow> bytes \<Rightarrow> werror + bytes" where
  "put_bytes item out = AppendBytesChecked out item"

definition put_party_bytes :: "PartyBytes \<Rightarrow> bytes \<Rightarrow> werror + bytes" where
  "put_party_bytes r out = AppendBytesChecked (out @ Uint32 (pb_Party r)) (pb_Bytes r)"

definition put_party_pair :: "PartyBytePair \<Rightarrow> bytes \<Rightarrow> werror + bytes" where
  "put_party_pair r out =
    (case AppendBytesChecked (out @ Uint32 (pp_Party r)) (pp_First r) of
       Inl e \<Rightarrow> Inl e
     | Inr out \<Rightarrow> AppendBytesChecked out (pp_Second r))"

definition put_party_triple :: "PartyTriple \<Rightarrow> bytes \<Rightarrow> werror + bytes" where
  "put_party_triple r out =
    (case AppendBytesChecked (out @ Uint32 (pt_Party r)) (pt_First r) of
       Inl e \<Rightarrow> Inl e
     | Inr out \<Rightarrow>
         (case AppendBytesChecked out (pt_Second r) of
            Inl e \<Rightarrow> Inl e
          | Inr out \<Rightarrow> AppendBytesChecked out (pt_Third r)))"

definition get_party_bytes :: "int \<Rightarrow> bytes \<Rightarrow> int \<Rightarrow> werror + (PartyBytes \<times> int)" where
  "get_party_bytes maxItemBytes raw off =
    (case ReadUint32 raw off of
       Inl e \<Rightarrow> Inl e
     | Inr (party, off) \<Rightarrow>
         (case ReadBytesWithLimit maxItemBytes raw off of
            Inl e \<Rightarrow> Inl e
          | Inr (v, off) \<Rightarrow> Inr (\<lparr>pb_Party = party, pb_Bytes = v\<rparr>, off)))"

definition get_party_pair :: "int \<Rightarrow> bytes \<Rightarrow> int \<Rightarrow> werror + (PartyBytePair \<times> int)" where
  "get_party_pair maxItemBytes raw off =
    (case ReadUint32 raw off of
       Inl e \<Rightarrow> Inl e
     | Inr (party, off) \<Rightarrow>
         (case ReadBytesWithLimit maxItemBytes raw off of
            Inl e \<Rightarrow> Inl e
          | Inr (a, off) \<Rightarrow>
              (case ReadBytesWithLimit maxItemBytes raw off of
                 Inl e \<Rightarrow> Inl e
               | Inr (b, off) \<Rightarrow>
                   Inr (\<lparr>pp_Party = party, pp_First = a, pp_Second = b\<rparr>, off))))"

definition get_party_triple ::
  "int \<Rightarrow> int \<Rightarrow> int \<Rightarrow> bytes \<Rightarrow> int \<Rightarrow> werror + (PartyTriple \<times> int)" where
  "get_party_triple maxFirst maxSecond maxThird raw off =
    (case ReadUint32 raw off of
       Inl e \<Rightarrow> Inl e
     | Inr (party, off) \<Rightarrow>
         (case ReadBytesWithLimit maxFirst raw off of
            Inl e \<Rightarrow> Inl e
          | Inr (a, off) \<Rightarrow>
              (case ReadBytesWithLimit maxSecond raw off of
                 Inl e \<Rightarrow> Inl e
               | Inr (b, off) \<Rightarrow>
                   (case ReadBytesWithLimit maxThird raw off of
                      Inl e \<Rightarrow> Inl e
                    | Inr (c, off) \<Rightarrow>
                        Inr (\<lparr>pt_Party = party, pt_First = a, pt_Second = b, pt_Third = c\<rparr>, off)))))"

section \<open>The exported codecs\<close>

definition EncodeUint32ListChecked :: "u32 list \<Rightarrow> werror + bytes" where
  "EncodeUint32ListChecked items = encode_counted put_uint32 items"

text \<open>\<^verbatim>\<open>DecodeUint32ListWithLimit\<close> checks the exact length up front instead of trailing bytes.\<close>

definition DecodeUint32ListWithLimit :: "bytes \<Rightarrow> int \<Rightarrow> werror + u32 list" where
  "DecodeUint32ListWithLimit raw maxItems =
    (case ReadUint32 raw 0 of
       Inl e \<Rightarrow> Inl e
     | Inr (count, off) \<Rightarrow>
         if uint count > maxRecordCount then Inl ''uint32 list count too large''
         else if maxItems > 0 \<and> uint count > maxItems then Inl ''uint32 list count too large''
         else if int (length raw) - off \<noteq> uint count * 4 then Inl ''invalid party id list length''
         else
           (case decode_items ReadUint32 (unat count) raw off of
              Inl e \<Rightarrow> Inl e
            | Inr (out, off) \<Rightarrow> Inr out))"

definition EncodeBytesListChecked :: "bytes list \<Rightarrow> werror + bytes" where
  "EncodeBytesListChecked items = encode_counted put_bytes items"

definition DecodeBytesListWithLimit :: "bytes \<Rightarrow> int \<Rightarrow> int \<Rightarrow> werror + bytes list" where
  "DecodeBytesListWithLimit raw maxItems maxItemBytes =
    decode_counted (ReadBytesWithLimit maxItemBytes) 4 maxItems raw"

definition EncodePartyBytesChecked :: "PartyBytes list \<Rightarrow> werror + bytes" where
  "EncodePartyBytesChecked records = encode_counted put_party_bytes records"

definition DecodePartyBytesWithLimit :: "bytes \<Rightarrow> int \<Rightarrow> int \<Rightarrow> werror + PartyBytes list" where
  "DecodePartyBytesWithLimit raw maxItems maxItemBytes =
    decode_counted (get_party_bytes maxItemBytes) 8 maxItems raw"

definition EncodePartyBytePairsChecked :: "PartyBytePair list \<Rightarrow> werror + bytes" where
  "EncodePartyBytePairsChecked records = encode_counted put_party_pair records"

definition DecodePartyBytePairsWithLimit :: "bytes \<Rightarrow> int \<Rightarrow> int \<Rightarrow> werror + PartyBytePair list" where
  "DecodePartyBytePairsWithLimit raw maxItems maxItemBytes =
    decode_counted (get_party_pair maxItemBytes) 12 maxItems raw"

definition EncodePartyTriplesChecked :: "PartyTriple list \<Rightarrow> werror + bytes" where
  "EncodePartyTriplesChecked records = encode_counted put_party_triple records"

definition DecodePartyTriplesWithLimit ::
  "bytes \<Rightarrow> int \<Rightarrow> int \<Rightarrow> int \<Rightarrow> int \<Rightarrow> werror + PartyTriple list" where
  "DecodePartyTriplesWithLimit raw maxItems maxFirst maxSecond maxThird =
    decode_counted (get_party_triple maxFirst maxSecond maxThird) 16 maxItems raw"

section \<open>Counted lists over one record contract\<close>

definition count_ok :: "int \<Rightarrow> 'a list \<Rightarrow> bool" where
  "count_ok maxItems xs \<longleftrightarrow>
    int (length xs) \<le> maxRecordCount \<and> (maxItems > 0 \<longrightarrow> int (length xs) \<le> maxItems)"

lemma uint_count: "length xs \<le> 0xFFFFFFFF \<Longrightarrow> uint (word_of_nat (length xs) :: u32) = int (length xs)"
  by (simp add: unsigned_of_nat take_bit_nat_eq_self)

lemma Uint32_count:
  "length xs = unat (count :: u32) \<Longrightarrow> Uint32 (word_of_int (int (length xs))) = Uint32 count"
  by simp

lemma unat_u32_le: "unat (c :: u32) \<le> 0xFFFFFFFF"
  using unsigned_less [of c, where ?'a = nat] by simp

context item_codec
begin

lemma encode_counted_iff:
  "encode_counted put xs = Inr raw \<longleftrightarrow>
    int (length xs) \<le> 0xFFFFFFFF \<and> list_all good xs
    \<and> raw = Uint32 (word_of_int (int (length xs))) @ enc_list xs"
  by (auto simp: encode_counted_def encode_items_iff)

lemma decode_counted_iff:
  "decode_counted get minlen maxItems raw = Inr xs \<longleftrightarrow>
    list_all good xs \<and> list_all cap xs \<and> count_ok maxItems xs
    \<and> raw = Uint32 (word_of_int (int (length xs))) @ enc_list xs" (is "?L \<longleftrightarrow> ?R")
proof
  assume l: ?L
  then obtain count where rd: "ReadUint32 raw 0 = Inr (count, 4)"
    by (cases "ReadUint32 raw 0") (auto simp: decode_counted_def reader_iff)
  then have s4: "seg raw 0 (Uint32 count)" and len: "4 \<le> int (length raw)"
    using seg_end [of raw 0 "Uint32 count"] by (simp_all add: reader_iff)
  from l rd have v: "validateRecordCountWithLimit raw 4 count (int minlen) maxItems = Inr ()"
    and it: "decode_items get (unat count) raw 4 = Inr (xs, int (length raw))"
    by (auto simp: decode_counted_def split: sum.splits if_splits)
  from it len have x: "length xs = unat count" "list_all good xs" "list_all cap xs"
    "seg raw 4 (enc_list xs)" "int (length raw) = 4 + int (length (enc_list xs))"
    by (auto simp: decode_items_iff)
  have "raw = Uint32 count @ enc_list xs"
    using x s4 seg_0_whole [of raw "Uint32 count @ enc_list xs"] by (simp add: seg_append)
  moreover have "uint count = int (length xs)" using x(1) by simp
  with v have "count_ok maxItems xs"
    by (auto simp: count_ok_def validateRecordCountWithLimit_def split: if_splits)
  ultimately show ?R using x Uint32_count by metis
next
  assume r: ?R
  let ?c = "word_of_int (int (length xs)) :: u32"
  from r have c: "uint ?c = int (length xs)" "unat ?c = length xs"
    by (simp_all add: count_ok_def maxRecordCount_def unsigned_of_nat take_bit_nat_eq_self)
  have ml: "int minlen * int (length xs) \<le> int (length (enc_list xs))"
    using enc_list_minlen [of xs] by (simp flip: of_nat_mult)
  have s: "seg raw 0 (Uint32 ?c)" "seg raw 4 (enc_list xs)"
    using r seg_0_whole [of raw "Uint32 ?c @ enc_list xs"] by (auto simp: seg_append)
  have "ReadUint32 raw 0 = Inr (?c, 4)" using s by (simp add: reader_iff)
  moreover have "validateRecordCountWithLimit raw 4 ?c (int minlen) maxItems = Inr ()"
    using r c ml by (auto simp: validateRecordCountWithLimit_def count_ok_def mult.commute)
  moreover have "decode_items get (unat ?c) raw 4 = Inr (xs, int (length raw))"
    using r s c by (subst decode_items_iff) auto
  ultimately show ?L by (simp add: decode_counted_def)
qed

text \<open>A list the encoder accepts within the caps decodes to itself, and nothing else does.\<close>

lemma counted_exact:
  assumes "list_all cap xs" "count_ok maxItems xs" "encode_counted put xs = Inr raw"
  shows "decode_counted get minlen maxItems raw = Inr xs"
  using assms by (simp add: encode_counted_iff decode_counted_iff)

lemma counted_canonical:
  assumes "decode_counted get minlen maxItems raw = Inr xs"
  shows "encode_counted put xs = Inr raw"
  using assms by (auto simp: encode_counted_iff decode_counted_iff count_ok_def maxRecordCount_def)

end

section \<open>The codecs are instances of the contract\<close>

definition enc_party_bytes :: "PartyBytes \<Rightarrow> bytes" where
  "enc_party_bytes r = Uint32 (pb_Party r) @ lp (pb_Bytes r)"

definition enc_party_pair :: "PartyBytePair \<Rightarrow> bytes" where
  "enc_party_pair r = Uint32 (pp_Party r) @ lp (pp_First r) @ lp (pp_Second r)"

definition enc_party_triple :: "PartyTriple \<Rightarrow> bytes" where
  "enc_party_triple r = Uint32 (pt_Party r) @ lp (pt_First r) @ lp (pt_Second r) @ lp (pt_Third r)"

lemma get_party_bytes_iff:
  "get_party_bytes cap raw off = Inr (r, off') \<longleftrightarrow>
    fits32 (pb_Bytes r) \<and> within cap (pb_Bytes r) \<and> seg raw off (enc_party_bytes r)
    \<and> off' = off + int (length (enc_party_bytes r))"
proof -
  have "get_party_bytes cap raw off = Inr (r, off') \<longleftrightarrow>
      (\<exists>o1. ReadUint32 raw off = Inr (pb_Party r, o1)
        \<and> ReadBytesWithLimit cap raw o1 = Inr (pb_Bytes r, off'))"
    by (cases r) (auto simp: get_party_bytes_def split: sum.splits)
  then show ?thesis by (auto simp: reader_iff enc_party_bytes_def seg_append)
qed

lemma get_party_pair_iff:
  "get_party_pair cap raw off = Inr (r, off') \<longleftrightarrow>
    (fits32 (pp_First r) \<and> fits32 (pp_Second r)) \<and> (within cap (pp_First r) \<and> within cap (pp_Second r))
    \<and> seg raw off (enc_party_pair r) \<and> off' = off + int (length (enc_party_pair r))"
proof -
  have "get_party_pair cap raw off = Inr (r, off') \<longleftrightarrow>
      (\<exists>o1 o2. ReadUint32 raw off = Inr (pp_Party r, o1)
        \<and> ReadBytesWithLimit cap raw o1 = Inr (pp_First r, o2)
        \<and> ReadBytesWithLimit cap raw o2 = Inr (pp_Second r, off'))"
    by (cases r) (auto simp: get_party_pair_def split: sum.splits)
  then show ?thesis by (auto simp: reader_iff enc_party_pair_def seg_append add.assoc)
qed

lemma get_party_triple_iff:
  "get_party_triple c1 c2 c3 raw off = Inr (r, off') \<longleftrightarrow>
    (fits32 (pt_First r) \<and> fits32 (pt_Second r) \<and> fits32 (pt_Third r))
    \<and> (within c1 (pt_First r) \<and> within c2 (pt_Second r) \<and> within c3 (pt_Third r))
    \<and> seg raw off (enc_party_triple r) \<and> off' = off + int (length (enc_party_triple r))"
proof -
  have "get_party_triple c1 c2 c3 raw off = Inr (r, off') \<longleftrightarrow>
      (\<exists>o1 o2 o3. ReadUint32 raw off = Inr (pt_Party r, o1)
        \<and> ReadBytesWithLimit c1 raw o1 = Inr (pt_First r, o2)
        \<and> ReadBytesWithLimit c2 raw o2 = Inr (pt_Second r, o3)
        \<and> ReadBytesWithLimit c3 raw o3 = Inr (pt_Third r, off'))"
    by (cases r) (auto simp: get_party_triple_def split: sum.splits)
  then show ?thesis by (auto simp: reader_iff enc_party_triple_def seg_append add.assoc)
qed

interpretation u32_item: item_codec put_uint32 ReadUint32 Uint32 "\<lambda>_. True" "\<lambda>_. True" 4
  by unfold_locales (auto simp: put_uint32_def reader_iff)

interpretation bytes_item: item_codec put_bytes "ReadBytesWithLimit c" lp fits32 "within c" 4 for c
  by unfold_locales (auto simp: put_bytes_def reader_iff)

interpretation party_bytes_item: item_codec put_party_bytes "get_party_bytes c" enc_party_bytes
    "\<lambda>r. fits32 (pb_Bytes r)" "\<lambda>r. within c (pb_Bytes r)" 8 for c
  by unfold_locales
     (auto simp: put_party_bytes_def reader_iff get_party_bytes_iff enc_party_bytes_def)

interpretation party_pair_item: item_codec put_party_pair "get_party_pair c" enc_party_pair
    "\<lambda>r. fits32 (pp_First r) \<and> fits32 (pp_Second r)"
    "\<lambda>r. within c (pp_First r) \<and> within c (pp_Second r)" 12 for c
proof unfold_locales
  fix r out out'
  show "put_party_pair r out = Inr out' \<longleftrightarrow>
      (fits32 (pp_First r) \<and> fits32 (pp_Second r)) \<and> out' = out @ enc_party_pair r"
    by (auto simp: put_party_pair_def enc_party_pair_def reader_iff AppendBytesChecked_def fits32_def
        lp_def split: sum.splits if_splits)
qed (auto simp: get_party_pair_iff enc_party_pair_def)

interpretation party_triple_item: item_codec put_party_triple "get_party_triple c1 c2 c3" enc_party_triple
    "\<lambda>r. fits32 (pt_First r) \<and> fits32 (pt_Second r) \<and> fits32 (pt_Third r)"
    "\<lambda>r. within c1 (pt_First r) \<and> within c2 (pt_Second r) \<and> within c3 (pt_Third r)" 16 for c1 c2 c3
proof unfold_locales
  fix r out out'
  show "put_party_triple r out = Inr out' \<longleftrightarrow>
      (fits32 (pt_First r) \<and> fits32 (pt_Second r) \<and> fits32 (pt_Third r)) \<and> out' = out @ enc_party_triple r"
    by (auto simp: put_party_triple_def enc_party_triple_def AppendBytesChecked_def fits32_def
        lp_def split: sum.splits if_splits)
qed (auto simp: get_party_triple_iff enc_party_triple_def)

lemma DecodeUint32ListWithLimit_iff:
  "DecodeUint32ListWithLimit raw maxItems = Inr xs \<longleftrightarrow>
    count_ok maxItems xs \<and> EncodeUint32ListChecked xs = Inr raw"
proof -
  have len: "length (u32_item.enc_list xs) = 4 * length xs" for xs
    by (induction xs) auto
  have "DecodeUint32ListWithLimit raw maxItems = Inr xs \<longleftrightarrow>
      decode_counted ReadUint32 4 maxItems raw = Inr xs"
  proof (cases "ReadUint32 raw 0")
    case (Inr p)
    then obtain count where rd: "ReadUint32 raw 0 = Inr (count, 4)"
      by (cases p) (auto simp: reader_iff)
    then have four: "4 \<le> int (length raw)"
      using seg_end [of raw 0 "Uint32 count"] by (simp add: reader_iff)
    have exact: "int (length raw) - 4 = uint count * 4"
      if "decode_items ReadUint32 (unat count) raw 4 = Inr (ys, int (length raw))" for ys
      using that four by (auto simp: u32_item.decode_items_iff len)
    have trail: "o' = int (length raw)" if "decode_items ReadUint32 (unat count) raw 4 = Inr (ys, o')"
      and "int (length raw) - 4 = uint count * 4" for ys o'
      using that four by (auto simp: u32_item.decode_items_iff len)
    show ?thesis
      using four exact trail
      by (auto simp: DecodeUint32ListWithLimit_def decode_counted_def rd
          validateRecordCountWithLimit_def split: sum.splits if_splits)
  qed (simp add: DecodeUint32ListWithLimit_def decode_counted_def)
  then show ?thesis
    by (auto simp: u32_item.decode_counted_iff EncodeUint32ListChecked_def u32_item.encode_counted_iff
        count_ok_def maxRecordCount_def list_all_iff)
qed

lemma DecodeBytesListWithLimit_iff:
  "DecodeBytesListWithLimit raw maxItems maxItemBytes = Inr xs \<longleftrightarrow>
    count_ok maxItems xs \<and> list_all (within maxItemBytes) xs \<and> EncodeBytesListChecked xs = Inr raw"
  by (auto simp: DecodeBytesListWithLimit_def EncodeBytesListChecked_def
      bytes_item.decode_counted_iff bytes_item.encode_counted_iff count_ok_def maxRecordCount_def)

text \<open>
  C19: (\<^verbatim>\<open>internal/wire/records.go\<close>) \<^verbatim>\<open>DecodePartyTriplesWithLimit\<close> accepts a byte string exactly when
  it is the encoding of a list of party-scoped triples within the caps: every encodable list
  round-trips, there is one accepted encoding per list, and truncated, over-counted, over-long or
  trailing input is refused.
\<close>

theorem DecodePartyTriples_iff:
  "DecodePartyTriplesWithLimit raw maxItems c1 c2 c3 = Inr rs \<longleftrightarrow>
    count_ok maxItems rs
    \<and> list_all (\<lambda>r. within c1 (pt_First r) \<and> within c2 (pt_Second r) \<and> within c3 (pt_Third r)) rs
    \<and> EncodePartyTriplesChecked rs = Inr raw"
  by (auto simp: DecodePartyTriplesWithLimit_def EncodePartyTriplesChecked_def
      party_triple_item.decode_counted_iff party_triple_item.encode_counted_iff
      count_ok_def maxRecordCount_def)

end
