(* ===== verification/Wire_Frame.thy ===== *)
theory Wire_Frame
  imports Wire_Stream
begin

text \<open>
  The typed TLV frame of \<^verbatim>\<open>internal/wire/envelope.go\<close>: four magic bytes, a length-prefixed type id, a
  version and a body of fields with strictly increasing non-zero tags.  A nil field value is
  \<^const>\<open>None\<close>.  The three decode modes differ in sharing only (view, copy) or return no fields
  (validate-only), which is what the model keeps of them.  The result of the theory is that
  \<^verbatim>\<open>UnmarshalFieldsWithLimits\<close> accepts exactly the image of \<^verbatim>\<open>MarshalFields\<close> within the limits.
\<close>

section \<open>Data and limits\<close>

definition magic :: bytes where
  "magic = str_bytes ''TSS1''"

record Field =
  Tag :: u16
  Value :: "bytes option"

datatype fieldDecodeMode = fieldDecodeView | fieldDecodeCopy | fieldDecodeValidateOnly

record FrameLimits =
  MaxTotalBytes :: int
  MaxFields :: int
  MaxFieldBytes :: int

definition DefaultFrameLimits :: FrameLimits where
  "DefaultFrameLimits = \<lparr>MaxTotalBytes = 2 ^ 20, MaxFields = 256, MaxFieldBytes = 2 ^ 20\<rparr>"

definition withDefaults :: "FrameLimits \<Rightarrow> FrameLimits" where
  "withDefaults l =
    (let d = DefaultFrameLimits;
         l = (if MaxTotalBytes l = 0 then l\<lparr>MaxTotalBytes := MaxTotalBytes d\<rparr> else l);
         l = (if MaxFields l = 0 then l\<lparr>MaxFields := MaxFields d\<rparr> else l)
     in (if MaxFieldBytes l = 0 then l\<lparr>MaxFieldBytes := MaxFieldBytes d\<rparr> else l))"

definition frame_limits_validate :: "FrameLimits \<Rightarrow> werror + unit" where
  "frame_limits_validate l =
    (if MaxTotalBytes l \<le> 0 then Inl ''wire MaxTotalBytes must be positive''
     else if MaxFields l \<le> 0 then Inl ''wire MaxFields must be positive''
     else if MaxFieldBytes l \<le> 0 then Inl ''wire MaxFieldBytes must be positive''
     else Inr ())"

section \<open>Encoding\<close>

text \<open>\<open>checkFields started prev fs\<close> is the validation loop, with \<open>started\<close> for \<^verbatim>\<open>i > 0\<close>.\<close>

fun checkFields :: "bool \<Rightarrow> u16 \<Rightarrow> Field list \<Rightarrow> werror + unit" where
  "checkFields started prev [] = Inr ()"
| "checkFields started prev (f # fs) =
    (if Tag f = 0 then Inl ''wire field tag 0 is invalid''
     else case Value f of
       None \<Rightarrow> Inl ''nil wire field''
     | Some v \<Rightarrow>
         if int (length v) > 0xFFFFFFFF then Inl ''wire field too large''
         else if started \<and> Tag f \<le> prev then Inl ''wire fields must be strictly increasing''
         else checkFields True (Tag f) fs)"

fun appendFields :: "bytes \<Rightarrow> Field list \<Rightarrow> bytes" where
  "appendFields out [] = out"
| "appendFields out (f # fs) =
    (let v = (case Value f of None \<Rightarrow> [] | Some v \<Rightarrow> v) in
     appendFields (AppendUint32 (AppendUint16 out (Tag f)) (word_of_int (int (length v))) @ v) fs)"

definition marshalFieldBody :: "Field list \<Rightarrow> werror + bytes" where
  "marshalFieldBody flds =
    (if int (length flds) > 0xFFFF then Inl ''too many wire fields''
     else case checkFields False 0 flds of
       Inl e \<Rightarrow> Inl e
     | Inr _ \<Rightarrow> Inr (appendFields (AppendUint16 [] (word_of_int (int (length flds)))) flds))"

definition MarshalFields :: "u16 \<Rightarrow> string \<Rightarrow> Field list \<Rightarrow> werror + bytes" where
  "MarshalFields version typeID flds =
    (if typeID = [] then Inl ''empty wire type id''
     else if \<not> utf8_valid_string typeID then Inl ''wire type id must be valid UTF-8''
     else if int (length typeID) > 0xFFFF then Inl ''wire type id too long''
     else case marshalFieldBody flds of
       Inl e \<Rightarrow> Inl e
     | Inr body \<Rightarrow>
         let out = magic;
             out = AppendUint16 out (word_of_int (int (length typeID)));
             out = out @ str_bytes typeID;
             out = AppendUint16 out version
         in Inr (out @ body))"

section \<open>Decoding\<close>

text \<open>The field loop of \<^verbatim>\<open>decodeFieldBody\<close>, run \<open>n\<close> times; \<^verbatim>\<open>uint64(MaxFieldBytes)\<close> wraps.\<close>

fun decodeFieldLoop ::
  "bytes \<Rightarrow> FrameLimits \<Rightarrow> fieldDecodeMode \<Rightarrow> nat \<Rightarrow> bool \<Rightarrow> u16 \<Rightarrow> int \<Rightarrow> werror + (Field list \<times> int)" where
  "decodeFieldLoop raw limits mode 0 started prev off = Inr ([], off)"
| "decodeFieldLoop raw limits mode (Suc n) started prev off =
    (case ReadUint16 raw off of
       Inl e \<Rightarrow> Inl e
     | Inr (tag, off) \<Rightarrow>
         if tag = 0 then Inl ''wire field tag 0 is invalid''
         else if started \<and> tag \<le> prev then Inl ''wire fields must be strictly increasing''
         else
           (case ReadUint32 raw off of
              Inl e \<Rightarrow> Inl e
            | Inr (len, off) \<Rightarrow>
                if int (length raw) - off < uint len then Inl ''truncated wire field''
                else if uint len > MaxFieldBytes limits mod 2 ^ 64 then Inl ''wire field too large''
                else
                  let value = subslice raw off (off + uint len) in
                  (case decodeFieldLoop raw limits mode n True tag (off + uint len) of
                     Inl e \<Rightarrow> Inl e
                   | Inr (flds, off') \<Rightarrow>
                       Inr (if mode \<noteq> fieldDecodeValidateOnly
                            then \<lparr>Tag = tag, Value = Some value\<rparr> # flds else flds, off'))))"

definition decodeFieldBody ::
  "bytes \<Rightarrow> int \<Rightarrow> FrameLimits \<Rightarrow> fieldDecodeMode \<Rightarrow> werror + (Field list \<times> int)" where
  "decodeFieldBody raw off limits mode =
    (if int (length raw) - off < 2 then Inl ''truncated field body''
     else case ReadUint16 raw off of
       Inl e \<Rightarrow> Inl e
     | Inr (fieldCount, off) \<Rightarrow>
         if uint fieldCount > MaxFields limits then Inl ''too many fields''
         else decodeFieldLoop raw limits mode (unat fieldCount) False 0 off)"

definition unmarshalFieldsWithLimits ::
  "bytes \<Rightarrow> string \<Rightarrow> FrameLimits \<Rightarrow> fieldDecodeMode \<Rightarrow> werror + (u16 \<times> Field list)" where
  "unmarshalFieldsWithLimits raw expectedTypeID limits0 mode =
    (let limits = withDefaults limits0 in
     case frame_limits_validate limits of
       Inl e \<Rightarrow> Inl e
     | Inr _ \<Rightarrow>
         if expectedTypeID = [] then Inl ''empty expected wire type id''
         else if length raw < length magic + 2 + 2 + 2 then Inl ''wire input too short''
         else if int (length raw) > MaxTotalBytes limits then Inl ''wire input too large''
         else if take (length magic) raw \<noteq> magic then Inl ''invalid wire magic''
         else
           (case ReadUint16 raw (int (length magic)) of
              Inl e \<Rightarrow> Inl e
            | Inr (typeLen, off) \<Rightarrow>
                if typeLen = 0 then Inl ''empty wire type id''
                else if int (length raw) - off < uint typeLen then Inl ''truncated wire type id''
                else
                  let typeID = bytes_str (subslice raw off (off + uint typeLen)) in
                  if \<not> utf8_valid_string typeID then Inl ''wire type id must be valid UTF-8''
                  else if typeID \<noteq> expectedTypeID then Inl ''unexpected wire type id''
                  else
                    (case ReadUint16 raw (off + uint typeLen) of
                       Inl e \<Rightarrow> Inl e
                     | Inr (version, off) \<Rightarrow>
                         (case decodeFieldBody raw off limits mode of
                            Inl e \<Rightarrow> Inl e
                          | Inr (flds, newOff) \<Rightarrow>
                              if newOff \<noteq> int (length raw)
                              then Inl ''trailing bytes after wire message''
                              else Inr (version, flds)))))"

definition UnmarshalFieldsWithLimits ::
  "bytes \<Rightarrow> string \<Rightarrow> FrameLimits \<Rightarrow> werror + (u16 \<times> Field list)" where
  "UnmarshalFieldsWithLimits raw expectedTypeID limits =
    unmarshalFieldsWithLimits raw expectedTypeID limits fieldDecodeCopy"

definition UnmarshalFields :: "bytes \<Rightarrow> string \<Rightarrow> werror + (u16 \<times> Field list)" where
  "UnmarshalFields raw expectedTypeID =
    UnmarshalFieldsWithLimits raw expectedTypeID DefaultFrameLimits"

definition validateMessageFrame :: "bytes \<Rightarrow> string \<Rightarrow> u16 \<Rightarrow> FrameLimits \<Rightarrow> werror + unit" where
  "validateMessageFrame raw wireType wireVersion limits =
    (case unmarshalFieldsWithLimits raw wireType limits fieldDecodeValidateOnly of
       Inl e \<Rightarrow> Inl e
     | Inr (version, _) \<Rightarrow> if version \<noteq> wireVersion then Inl ''got version'' else Inr ())"

fun RequireExactTags :: "Field list \<Rightarrow> u16 list \<Rightarrow> werror + unit" where
  "RequireExactTags flds tags =
    (if length flds \<noteq> length tags then Inl ''got fields''
     else if list_all2 (\<lambda>f t. Tag f = t) flds tags then Inr ()
     else Inl ''unexpected field tag'')"

section \<open>ids (validate.go)\<close>

fun checkStrictSorted :: "bool \<Rightarrow> u32 \<Rightarrow> u32 list \<Rightarrow> werror + unit" where
  "checkStrictSorted started prev [] = Inr ()"
| "checkStrictSorted started prev (i # is) =
    (if i = 0 then Inl ''party id 0 is reserved''
     else if started \<and> i \<le> prev then Inl ''party ids must be strictly increasing''
     else checkStrictSorted True i is)"

definition ValidateStrictSortedIDs :: "u32 list \<Rightarrow> werror + unit" where
  "ValidateStrictSortedIDs ids =
    (if ids = [] then Inl ''party set is empty'' else checkStrictSorted False 0 ids)"

section \<open>Lemmas: field bodies\<close>

definition field_value :: "Field \<Rightarrow> bytes" where
  "field_value f = (case Value f of None \<Rightarrow> [] | Some v \<Rightarrow> v)"

definition enc_field :: "Field \<Rightarrow> bytes" where
  "enc_field f = Uint16 (Tag f) @ lp (field_value f)"

definition enc_fields :: "Field list \<Rightarrow> bytes" where
  "enc_fields fs = concat (map enc_field fs)"

lemma enc_fields_simps [simp]: "enc_fields [] = []" "enc_fields (f # fs) = enc_field f @ enc_fields fs"
  by (simp_all add: enc_fields_def)

lemma appendFields_eq: "appendFields out fs = out @ enc_fields fs"
  by (induction fs arbitrary: out)
     (auto simp: AppendUint16_def AppendUint32_def enc_field_def field_value_def lp_def
        Uint16_def Uint32_def Let_def)

lemma marshalFieldBody_iff:
  "marshalFieldBody fs = Inr body \<longleftrightarrow>
    length fs \<le> 0xFFFF \<and> checkFields False 0 fs = Inr ()
    \<and> body = Uint16 (word_of_int (int (length fs))) @ enc_fields fs"
  by (auto simp: marshalFieldBody_def appendFields_eq AppendUint16_def Uint16_def split: sum.splits)

lemma ReadUint32_slice_iff:
  "ReadUint32 raw off = Inr (n, o4) \<and> uint n \<le> int (length raw) - o4 \<longleftrightarrow>
    (\<exists>v. fits32 v \<and> seg raw off (lp v) \<and> uint n = int (length v) \<and> o4 = off + 4
      \<and> subslice raw o4 (o4 + uint n) = v)" (is "?L \<longleftrightarrow> ?R")
proof
  assume l: ?L
  let ?v = "subslice raw o4 (o4 + uint n)"
  from l have "ReadBytesWithLimit 0 raw off = Inr (?v, o4 + uint n)"
    by (simp add: ReadBytesWithLimit_def)
  with l show ?R by (auto simp: reader_iff)
next
  assume ?R
  then obtain v where v: "fits32 v" "seg raw off (lp v)" "uint n = int (length v)" "o4 = off + 4"
    by blast
  then have "n = word_of_int (int (length v))" by (metis word_of_int_uint)
  with v have "seg raw off (Uint32 n)" by (simp add: lp_def seg_append)
  with v seg_end [OF v(2)] show ?L by (simp add: reader_iff)
qed

lemma decodeFieldLoop_Suc:
  assumes "mode \<noteq> fieldDecodeValidateOnly"
  shows "decodeFieldLoop raw limits mode (Suc n) st prev off = Inr (fs, off') \<longleftrightarrow>
    (\<exists>tag v fs'. fs = \<lparr>Tag = tag, Value = Some v\<rparr> # fs' \<and> tag \<noteq> 0 \<and> \<not> (st \<and> tag \<le> prev)
      \<and> fits32 v \<and> int (length v) \<le> MaxFieldBytes limits mod 2 ^ 64
      \<and> seg raw off (Uint16 tag @ lp v)
      \<and> decodeFieldLoop raw limits mode n True tag (6 + off + int (length v)) = Inr (fs', off'))"
  (is "?L \<longleftrightarrow> ?R")
proof
  assume l: ?L
  then obtain tag o2 where t: "ReadUint16 raw off = Inr (tag, o2)" "tag \<noteq> 0" "\<not> (st \<and> tag \<le> prev)"
    by (cases "ReadUint16 raw off") (auto split: if_splits)
  with l obtain len o4 where r: "ReadUint32 raw o2 = Inr (len, o4)"
    by (cases "ReadUint32 raw o2") (auto split: if_splits)
  from l t r have b: "uint len \<le> int (length raw) - o4" "uint len \<le> MaxFieldBytes limits mod 2 ^ 64"
    by (auto split: if_splits)
  from r b(1) obtain v where v: "fits32 v" "seg raw o2 (lp v)" "uint len = int (length v)"
    "o4 = o2 + 4" "subslice raw o4 (o4 + uint len) = v"
    using ReadUint32_slice_iff [of raw o2 len o4] by blast
  from l t r b v assms obtain fs' where
    "fs = \<lparr>Tag = tag, Value = Some v\<rparr> # fs'"
    "decodeFieldLoop raw limits mode n True tag (o4 + uint len) = Inr (fs', off')"
    by (auto simp: Let_def split: sum.splits if_splits)
  with t v b show ?R by (auto simp: reader_iff seg_append)
next
  assume ?R
  then obtain tag v fs' where x: "fs = \<lparr>Tag = tag, Value = Some v\<rparr> # fs'" "tag \<noteq> 0"
    "\<not> (st \<and> tag \<le> prev)" "fits32 v" "int (length v) \<le> MaxFieldBytes limits mod 2 ^ 64"
    "seg raw off (Uint16 tag)" "seg raw (off + 2) (lp v)"
    "decodeFieldLoop raw limits mode n True tag (6 + off + int (length v)) = Inr (fs', off')"
    by (auto simp: seg_append)
  then have t: "ReadUint16 raw off = Inr (tag, off + 2)" by (simp add: reader_iff)
  let ?n = "word_of_nat (length v) :: u32"
  have n: "uint ?n = int (length v)" using x by (simp add: uint32_of_len)
  from x(7) have sv: "seg raw (off + 2 + 4) v" by (simp add: lp_def seg_append)
  from x(7) have "ReadUint32 raw (off + 2) = Inr (?n, off + 2 + 4)"
    by (simp add: lp_def seg_append reader_iff)
  with t x n seg_subslice [OF sv] seg_end [OF sv] assms show ?L
    by (auto simp: Let_def)
qed

lemma checkFields_Cons:
  "checkFields st prev (f # fs) = Inr () \<longleftrightarrow>
    Tag f \<noteq> 0 \<and> (\<exists>v. Value f = Some v \<and> fits32 v) \<and> \<not> (st \<and> Tag f \<le> prev)
    \<and> checkFields True (Tag f) fs = Inr ()"
  by (auto simp: fits32_def split: option.splits)

lemma decodeFieldLoop_iff:
  assumes m: "mode \<noteq> fieldDecodeValidateOnly"
  shows "0 \<le> off \<Longrightarrow> off \<le> int (length raw) \<Longrightarrow>
    decodeFieldLoop raw limits mode n st prev off = Inr (fs, off') \<longleftrightarrow>
      length fs = n \<and> checkFields st prev fs = Inr ()
      \<and> list_all (\<lambda>f. int (length (field_value f)) \<le> MaxFieldBytes limits mod 2 ^ 64) fs
      \<and> seg raw off (enc_fields fs) \<and> off' = off + int (length (enc_fields fs))"
proof (induction n arbitrary: st prev off fs)
  case 0
  then show ?case by (auto simp: seg_def)
next
  case (Suc n)
  show ?case
  proof (cases fs)
    case Nil
    then show ?thesis unfolding decodeFieldLoop_Suc [OF m] by simp
  next
    case (Cons f fs')
    obtain tag val where f: "f = \<lparr>Tag = tag, Value = val\<rparr>" by (cases f)
    show ?thesis
    proof (cases "\<exists>v. val = Some v \<and> fits32 v \<and> seg raw off (Uint16 tag @ lp v)")
      case True
      then obtain v where v: "val = Some v" "fits32 v" "seg raw off (Uint16 tag @ lp v)" by blast
      have "6 + off + int (length v) \<le> int (length raw)" "0 \<le> 6 + off + int (length v)"
        using seg_end [OF v(3)] Suc.prems by auto
      from Suc.IH [OF this(2,1), of True tag fs'] v show ?thesis
        unfolding decodeFieldLoop_Suc [OF m] Cons checkFields_Cons
        by (auto simp: f field_value_def enc_field_def seg_append add.commute add.left_commute)
    next
      case False
      then show ?thesis
        unfolding decodeFieldLoop_Suc [OF m] Cons checkFields_Cons
        by (auto simp: f field_value_def enc_field_def seg_append)
    qed
  qed
qed

lemma decodeFieldLoop_validate_only:
  "decodeFieldLoop raw limits fieldDecodeValidateOnly n st prev off =
    map_sum id (\<lambda>(fs, o'). ([], o')) (decodeFieldLoop raw limits fieldDecodeCopy n st prev off)"
  by (induction n arbitrary: st prev off) (auto simp: Let_def split: sum.splits)

lemma decodeFieldBody_iff:
  assumes m: "mode \<noteq> fieldDecodeValidateOnly" and off: "0 \<le> off"
  shows "decodeFieldBody raw off limits mode = Inr (fs, off') \<longleftrightarrow>
    int (length fs) \<le> MaxFields limits
    \<and> list_all (\<lambda>f. int (length (field_value f)) \<le> MaxFieldBytes limits mod 2 ^ 64) fs
    \<and> (\<exists>body. marshalFieldBody fs = Inr body \<and> seg raw off body \<and> off' = off + int (length body))"
  (is "?L \<longleftrightarrow> ?R")
proof
  assume l: ?L
  then obtain c where c: "ReadUint16 raw off = Inr (c, off + 2)"
    by (cases "ReadUint16 raw off") (auto simp: decodeFieldBody_def reader_iff split: if_splits)
  with l have lp: "decodeFieldLoop raw limits mode (unat c) False 0 (off + 2) = Inr (fs, off')"
    and cm: "uint c \<le> MaxFields limits"
    by (auto simp: decodeFieldBody_def split: if_splits)
  from c have sc: "seg raw off (Uint16 c)" by (simp add: reader_iff)
  have "0 \<le> off + 2" "off + 2 \<le> int (length raw)" using seg_end [OF sc] off by simp_all
  note it = decodeFieldLoop_iff [OF m this, THEN iffD1, OF lp]
  have len: "length fs = unat c" using it by simp
  have u: "uint c = int (length fs)" by (simp add: len)
  have "length fs \<le> 0xFFFF" unfolding len using unsigned_less [of c, where ?'a = nat] by simp
  with it have "marshalFieldBody fs = Inr (Uint16 c @ enc_fields fs)"
    by (simp add: marshalFieldBody_iff len)
  moreover have "seg raw off (Uint16 c @ enc_fields fs)" using it sc by (simp add: seg_append)
  moreover have "off' = off + int (length (Uint16 c @ enc_fields fs))" using it by simp
  ultimately show ?R using it cm unfolding u by blast
next
  assume r: ?R
  let ?c = "word_of_int (int (length fs)) :: u16"
  from r have seg: "seg raw off (Uint16 ?c)" "seg raw (off + 2) (enc_fields fs)" "length fs \<le> 0xFFFF"
    "checkFields False 0 fs = Inr ()" "off' = off + 2 + int (length (enc_fields fs))"
    by (auto simp: marshalFieldBody_iff seg_append)
  have u: "uint ?c = int (length fs)" "unat ?c = length fs"
    using seg(3) by (simp_all add: unsigned_of_nat take_bit_nat_eq_self)
  have b: "0 \<le> off + 2" "off + 2 \<le> int (length raw)" using seg_end [OF seg(1)] off by simp_all
  have "decodeFieldLoop raw limits mode (unat ?c) False 0 (off + 2) = Inr (fs, off')"
    using r seg u by (subst decodeFieldLoop_iff [OF m b]) auto
  moreover have "ReadUint16 raw off = Inr (?c, off + 2)" using seg by (simp add: reader_iff)
  ultimately show ?L using r u b by (simp add: decodeFieldBody_def)
qed

section \<open>Lemmas: whole frames\<close>

definition frame_within :: "FrameLimits \<Rightarrow> bytes \<Rightarrow> Field list \<Rightarrow> bool" where
  "frame_within limits raw fs \<longleftrightarrow>
    (let l = withDefaults limits in
     frame_limits_validate l = Inr () \<and> int (length raw) \<le> MaxTotalBytes l
     \<and> int (length fs) \<le> MaxFields l
     \<and> list_all (\<lambda>f. int (length (field_value f)) \<le> MaxFieldBytes l mod 2 ^ 64) fs)"

lemma length_magic [simp]: "length magic = 4"
  by (simp add: magic_def)

lemma MarshalFields_iff:
  "MarshalFields version typeID fs = Inr raw \<longleftrightarrow>
    typeID \<noteq> [] \<and> utf8_valid_string typeID \<and> length typeID \<le> 0xFFFF
    \<and> (\<exists>body. marshalFieldBody fs = Inr body
        \<and> raw = magic @ Uint16 (word_of_int (int (length typeID))) @ str_bytes typeID
                @ Uint16 version @ body)"
  by (auto simp: MarshalFields_def AppendUint16_def Uint16_def Let_def split: sum.splits)

lemma unmarshalFields_sound:
  assumes m: "mode \<noteq> fieldDecodeValidateOnly"
    and un: "unmarshalFieldsWithLimits raw ty limits mode = Inr (version, fs)"
  shows "frame_within limits raw fs \<and> MarshalFields version ty fs = Inr raw"
proof -
  let ?l = "withDefaults limits"
  from un have v: "frame_limits_validate ?l = Inr ()" and ty: "ty \<noteq> []"
    and short: "10 \<le> length raw" and total: "int (length raw) \<le> MaxTotalBytes ?l"
    and mg: "take 4 raw = magic"
    by (auto simp: unmarshalFieldsWithLimits_def Let_def split: sum.splits if_splits)
  from un v ty short total mg obtain tl where r1: "ReadUint16 raw 4 = Inr (tl, 6)"
    by (cases "ReadUint16 raw 4") (auto simp: unmarshalFieldsWithLimits_def Let_def reader_iff)
  from un v ty short total mg r1 have tl: "tl \<noteq> 0" "uint tl \<le> int (length raw) - 6"
    "utf8_valid_string ty" "ty = bytes_str (subslice raw 6 (6 + uint tl))"
    by (auto simp: unmarshalFieldsWithLimits_def Let_def split: if_splits sum.splits)
  from un v ty short total mg r1 tl obtain o' where r2: "ReadUint16 raw (6 + uint tl) = Inr (version, o')"
    and body: "decodeFieldBody raw o' ?l mode = Inr (fs, int (length raw))"
    by (cases "ReadUint16 raw (6 + uint tl)")
       (auto simp: unmarshalFieldsWithLimits_def Let_def split: if_splits sum.splits)
  from r2 have o': "o' = 8 + uint tl" and s3: "seg raw (6 + uint tl) (Uint16 version)"
    by (simp_all add: reader_iff)
  have n: "int (nat (uint tl)) = uint tl" by simp
  from subslice_seg [of 6 "nat (uint tl)" raw] tl
  have s2: "seg raw 6 (str_bytes ty)" and lty: "int (length ty) = uint tl" by auto
  have "0 \<le> o'" by (simp add: o')
  from decodeFieldBody_iff [OF m this, THEN iffD1, OF body] obtain bd where
    bd: "marshalFieldBody fs = Inr bd" "seg raw o' bd" "int (length raw) = o' + int (length bd)"
    and lims: "int (length fs) \<le> MaxFields ?l"
      "list_all (\<lambda>f. int (length (field_value f)) \<le> MaxFieldBytes ?l mod 2 ^ 64) fs"
    by blast
  have s0: "seg raw 0 magic" using mg short by (simp add: seg_def)
  have s1: "seg raw 4 (Uint16 tl)" using r1 by (simp add: reader_iff)
  have tlw: "Uint16 (word_of_int (int (length ty))) = Uint16 tl" by (simp only: lty word_of_int_uint)
  have "seg raw 0 (magic @ Uint16 tl @ str_bytes ty @ Uint16 version @ bd)"
    using s0 s1 s2 s3 bd(2) by (simp add: seg_append lty o' add.commute)
  then have "raw = magic @ Uint16 tl @ str_bytes ty @ Uint16 version @ bd"
    using bd(3) lty seg_0_whole [of raw "magic @ Uint16 tl @ str_bytes ty @ Uint16 version @ bd"]
    by (simp add: o')
  moreover have "length ty \<le> 0xFFFF" using lty uint_bounded [of tl] by simp
  ultimately show ?thesis
    using ty tl bd(1) v total lims tlw by (simp add: MarshalFields_iff frame_within_def Let_def)
qed

lemma unmarshalFields_complete:
  assumes m: "mode \<noteq> fieldDecodeValidateOnly"
    and w: "frame_within limits raw fs" and ma: "MarshalFields version ty fs = Inr raw"
  shows "unmarshalFieldsWithLimits raw ty limits mode = Inr (version, fs)"
proof -
  let ?l = "withDefaults limits"
  let ?tl = "word_of_nat (length ty) :: u16"
  from ma obtain bd where ty: "ty \<noteq> []" "utf8_valid_string ty" "length ty \<le> 0xFFFF"
    and bd: "marshalFieldBody fs = Inr bd"
    and raw: "raw = magic @ Uint16 ?tl @ str_bytes ty @ Uint16 version @ bd"
    by (auto simp: MarshalFields_iff)
  have u: "uint ?tl = int (length ty)" using ty by (simp add: unsigned_of_nat take_bit_nat_eq_self)
  have tl0: "?tl \<noteq> 0" using u ty(1) by (metis length_0_conv of_nat_eq_0_iff unsigned_0)
  have "seg raw 0 (magic @ Uint16 ?tl @ str_bytes ty @ Uint16 version @ bd)"
    using raw seg_0_whole by blast
  then have s: "seg raw 4 (Uint16 ?tl)" "seg raw 6 (str_bytes ty)"
    "seg raw (6 + uint ?tl) (Uint16 version)" "seg raw (6 + uint ?tl + 2) bd"
    by (simp_all add: seg_append u)
  have two: "2 \<le> length bd" using bd by (auto simp: marshalFieldBody_iff)
  have len: "int (length raw) = 6 + uint ?tl + 2 + int (length bd)" by (simp add: raw u)
  have r1: "ReadUint16 raw 4 = Inr (?tl, 6)" using s(1) by (simp add: reader_iff)
  have r2: "ReadUint16 raw (6 + uint ?tl) = Inr (version, 6 + uint ?tl + 2)"
    using s(3) by (simp add: reader_iff)
  have id: "bytes_str (subslice raw 6 (6 + uint ?tl)) = ty"
    using seg_subslice [OF s(2)] by (simp add: u)
  have body: "decodeFieldBody raw (6 + uint ?tl + 2) ?l mode = Inr (fs, int (length raw))"
    using bd s(4) len w by (subst decodeFieldBody_iff [OF m]) (auto simp: frame_within_def Let_def)
  have "10 \<le> length raw" "take 4 raw = magic" using two ty by (auto simp: raw Suc_leI)
  then show ?thesis
    using w ty tl0 r1 r2 id body len two
    by (simp add: unmarshalFieldsWithLimits_def frame_within_def Let_def)
qed

lemma unmarshalFields_validate_only:
  "unmarshalFieldsWithLimits raw ty limits fieldDecodeValidateOnly =
    map_sum id (\<lambda>(v, fs). (v, [])) (unmarshalFieldsWithLimits raw ty limits fieldDecodeCopy)"
  by (simp add: unmarshalFieldsWithLimits_def decodeFieldBody_def decodeFieldLoop_validate_only
      Let_def split: sum.splits)

lemma checkStrictSorted_iff:
  "checkStrictSorted st prev ids = Inr () \<longleftrightarrow>
    0 \<notin> set ids \<and> sorted_wrt (<) ids \<and> (st \<longrightarrow> (\<forall>i\<in>set ids. prev < i))"
proof (induction ids arbitrary: st prev)
  case (Cons i ids)
  have "prev < i \<Longrightarrow> (\<forall>j\<in>set ids. i < j) \<Longrightarrow> (\<forall>j\<in>set ids. prev < j)"
    by (meson order.strict_trans)
  then show ?case using Cons.IH [of True i] by (auto simp: not_le)
qed simp

lemma ValidateStrictSortedIDs_iff:
  "ValidateStrictSortedIDs ids = Inr () \<longleftrightarrow> ids \<noteq> [] \<and> 0 \<notin> set ids \<and> sorted_wrt (<) ids"
  by (simp add: ValidateStrictSortedIDs_def checkStrictSorted_iff)

lemma checkFields_iff:
  "checkFields st prev fs = Inr () \<longleftrightarrow>
    0 \<notin> set (map Tag fs) \<and> sorted_wrt (<) (map Tag fs) \<and> (st \<longrightarrow> (\<forall>t\<in>set (map Tag fs). prev < t))
    \<and> list_all (\<lambda>f. \<exists>v. Value f = Some v \<and> fits32 v) fs"
proof (induction fs arbitrary: st prev)
  case (Cons f fs)
  have "prev < Tag f \<Longrightarrow> (\<forall>g\<in>set fs. Tag f < Tag g) \<Longrightarrow> (\<forall>g\<in>set fs. prev < Tag g)"
    by (meson order.strict_trans)
  then show ?case using Cons.IH [of True "Tag f"] unfolding checkFields_Cons by (auto simp: not_le)
qed simp

section \<open>Properties\<close>

text \<open>
  C17: (\<^verbatim>\<open>internal/wire/envelope.go\<close>) \<^verbatim>\<open>UnmarshalFieldsWithLimits\<close> accepts a byte string, with a version and a
  field list, exactly when the limits hold and \<^verbatim>\<open>MarshalFields\<close> of that version, the expected type id and
  those fields produces it.  So every message round-trips, no two byte strings decode to the same
  message, and a foreign type id, bad magic, unsorted tag, truncated value or trailing byte is refused.
\<close>

theorem UnmarshalFieldsWithLimits_iff:
  "UnmarshalFieldsWithLimits raw typeID limits = Inr (version, fs) \<longleftrightarrow>
    frame_within limits raw fs \<and> MarshalFields version typeID fs = Inr raw"
  unfolding UnmarshalFieldsWithLimits_def
  using unmarshalFields_sound unmarshalFields_complete by blast

text \<open>
  C18: (\<^verbatim>\<open>internal/wire/envelope.go\<close>) The preflight \<^verbatim>\<open>validateMessageFrame\<close>, which materialises no field,
  accepts exactly the inputs that \<^verbatim>\<open>UnmarshalFieldsWithLimits\<close> decodes with the expected version.
\<close>

theorem validateMessageFrame_iff:
  "validateMessageFrame raw typeID version limits = Inr () \<longleftrightarrow>
    (\<exists>fs. UnmarshalFieldsWithLimits raw typeID limits = Inr (version, fs))"
  by (cases "unmarshalFieldsWithLimits raw typeID limits fieldDecodeCopy")
     (auto simp: validateMessageFrame_def UnmarshalFieldsWithLimits_def unmarshalFields_validate_only
        split: if_splits)

end
