(* ===== verification/Wire_Schema.thy ===== *)
theory Wire_Schema
  imports Wire_Records Wire_Frame
begin

text \<open>
  The struct-tag schemas of \<^verbatim>\<open>internal/wire/schema.go\<close>: a Go type as far as the codec inspects it, the
  parser of \<^verbatim>\<open>wire:"..."\<close> tags, the inference of wire kinds, and the matching of decoded fields against a
  schema.  Interface implementations are looked up by type name in a record of methods, which is a
  parameter.  The theory shows that a parsed schema is non-empty, has non-zero strictly increasing tags,
  refers only to types inside the struct, and gives every field only the options its kind consumes; and
  that \<^verbatim>\<open>matchFields\<close> succeeds exactly when the present fields are the required ones and some of the
  optional ones.
\<close>

section \<open>Library functions on strings\<close>

fun splitOn :: "char \<Rightarrow> string \<Rightarrow> string list" where
  "splitOn c [] = [[]]"
| "splitOn c (x # xs) =
    (if x = c then [] # splitOn c xs
     else case splitOn c xs of [] \<Rightarrow> [[x]] | w # ws \<Rightarrow> (x # w) # ws)"

fun splitFirst :: "char \<Rightarrow> string \<Rightarrow> string list" where
  "splitFirst c [] = [[]]"
| "splitFirst c (x # xs) =
    (if x = c then [[], xs]
     else case splitFirst c xs of [] \<Rightarrow> [[x]] | w # ws \<Rightarrow> (x # w) # ws)"

definition ascii_space :: "char \<Rightarrow> bool" where
  "ascii_space c \<longleftrightarrow> of_char c \<in> {9, 10, 11, 12, 13, 32 :: nat}"

definition TrimSpace :: "string \<Rightarrow> string" where
  "TrimSpace s = rev (dropWhile ascii_space (rev (dropWhile ascii_space s)))"

definition digit_val :: "char \<Rightarrow> int option" where
  "digit_val c = (let n = of_char c :: int in if 48 \<le> n \<and> n \<le> 57 then Some (n - 48) else None)"

fun digits_val :: "int \<Rightarrow> string \<Rightarrow> int option" where
  "digits_val acc [] = Some acc"
| "digits_val acc (c # cs) =
    (case digit_val c of None \<Rightarrow> None | Some d \<Rightarrow> digits_val (10 * acc + d) cs)"

definition ParseUint16 :: "string \<Rightarrow> int option" where
  "ParseUint16 s =
    (if s = [] then None
     else case digits_val 0 s of None \<Rightarrow> None | Some n \<Rightarrow> if n > 0xFFFF then None else Some n)"

definition Atoi :: "string \<Rightarrow> int option" where
  "Atoi s =
    (let (neg, ds) = (case s of [] \<Rightarrow> (False, [])
                      | c # cs \<Rightarrow> if c = CHR ''-'' then (True, cs)
                                  else if c = CHR ''+'' then (False, cs) else (False, s))
     in if ds = [] then None
        else case digits_val 0 ds of
          None \<Rightarrow> None
        | Some n \<Rightarrow>
            let v = (if neg then - n else n) in
            if v < - (2 ^ 63) \<or> v \<ge> 2 ^ 63 then None else Some v)"

section \<open>Go types and methods\<close>

datatype wireKind =
    kindU8 | kindU16 | kindU32 | kindBool | kindBytes | kindString | kindU32List | kindBytesList
  | kindPartyBytes | kindPartyBytePairs | kindNested | kindCustom | kindCustomList
  | kindBigInt | kindBigUint | kindBigPos | kindRecord | kindRecordList | kindMap

datatype 't structField =
  StructField (sf_Name: string) (sf_Exported: bool) (sf_Tag: "string option") (sf_Type: 't)

text \<open>\<open>TBig\<close> is \<^verbatim>\<open>big.Int\<close>; \<open>TOther\<close> stands for every type the codec has no case for.\<close>

datatype gtype =
    TUint8 | TUint16 | TUint32 | TInt | TBool | TString | TBig
  | TArray nat gtype
  | TSlice gtype
  | TMap gtype gtype
  | TPtr gtype
  | TStruct "gtype structField list"
  | TNamed string gtype
  | TOther

datatype rkind = Uint8K | Uint16K | Uint32K | IntK | BoolK | StringK | SliceK | ArrayK | StructK | PointerK | MapK | OtherK

fun underlying :: "gtype \<Rightarrow> gtype" where
  "underlying (TNamed n t) = underlying t"
| "underlying t = t"

definition rkind_of :: "gtype \<Rightarrow> rkind" where
  "rkind_of t =
    (case underlying t of
       TUint8 \<Rightarrow> Uint8K | TUint16 \<Rightarrow> Uint16K | TUint32 \<Rightarrow> Uint32K | TInt \<Rightarrow> IntK | TBool \<Rightarrow> BoolK
     | TString \<Rightarrow> StringK | TBig \<Rightarrow> StructK | TArray _ _ \<Rightarrow> ArrayK | TSlice _ \<Rightarrow> SliceK
     | TMap _ _ \<Rightarrow> MapK | TPtr _ \<Rightarrow> PointerK | TStruct _ \<Rightarrow> StructK | _ \<Rightarrow> OtherK)"

definition elemType :: "gtype \<Rightarrow> gtype" where
  "elemType t =
    (case underlying t of
       TArray _ e \<Rightarrow> e | TSlice e \<Rightarrow> e | TMap _ e \<Rightarrow> e | TPtr e \<Rightarrow> e | _ \<Rightarrow> TOther)"

definition keyType :: "gtype \<Rightarrow> gtype" where
  "keyType t = (case underlying t of TMap k _ \<Rightarrow> k | _ \<Rightarrow> TOther)"

definition arrayLen :: "gtype \<Rightarrow> int" where
  "arrayLen t = (case underlying t of TArray n _ \<Rightarrow> int n | _ \<Rightarrow> 0)"

definition structFields :: "gtype \<Rightarrow> gtype structField list" where
  "structFields t = (case underlying t of TStruct fs \<Rightarrow> fs | _ \<Rightarrow> [])"

fun indirectType :: "gtype \<Rightarrow> gtype" where
  "indirectType (TPtr t) = indirectType t"
| "indirectType t = t"

text \<open>
  A value of an interface type is known to the codec only through its methods: custom field codecs,
  validation hooks, the message identity and whole-message codecs, each found by type name.
\<close>

type_synonym FieldLimits = "string \<Rightarrow> int option"

datatype 'c rvalue =
    VU8 u8 | VU16 u16 | VU32 u32 | VInt int | VBool bool | VString string | VBytes bytes
  | VU32s "u32 list" | VInts "int list" | VBytesList "bytes list"
  | VPartyBytes "PartyBytes list" | VPartyPairs "PartyBytePair list"
  | VBig int | VCustom 'c | VCustoms "'c option list"
  | VPtr "'c rvalue option" | VStruct "'c rvalue list" | VStructs "'c rvalue list"
  | VMap "(u32 \<times> 'c rvalue) list option"

record 'c methods =
  MarshalWireValue :: "string \<Rightarrow> ('c \<Rightarrow> werror + bytes option) option"
  UnmarshalWireValue :: "string \<Rightarrow> (bytes \<Rightarrow> werror + ('c \<times> int)) option"
  BeforeMarshalWire :: "string \<Rightarrow> ('c rvalue \<Rightarrow> werror + 'c rvalue) option"
  ValidateWire :: "string \<Rightarrow> ('c rvalue \<Rightarrow> werror + unit) option"
  AfterUnmarshalWire :: "string \<Rightarrow> ('c rvalue \<Rightarrow> werror + 'c rvalue) option"
  WireMessage :: "string \<Rightarrow> (string \<times> u16) option"
  MarshalWireMessage :: "string \<Rightarrow> ('c rvalue \<Rightarrow> FieldLimits \<Rightarrow> werror + bytes option) option"
  UnmarshalWireMessage :: "string \<Rightarrow> (bytes \<Rightarrow> FrameLimits \<Rightarrow> FieldLimits \<Rightarrow> werror + 'c rvalue) option"

definition typeName :: "gtype \<Rightarrow> string" where
  "typeName t = (case t of TNamed n _ \<Rightarrow> n | TBig \<Rightarrow> ''Int'' | _ \<Rightarrow> [])"

definition methodOf :: "(string \<Rightarrow> 'm option) \<Rightarrow> gtype \<Rightarrow> 'm option" where
  "methodOf ms t = (case t of TNamed n _ \<Rightarrow> ms n | TPtr (TNamed n _) \<Rightarrow> ms n | _ \<Rightarrow> None)"

definition implementsVM :: "'c methods \<Rightarrow> gtype \<Rightarrow> bool" where
  "implementsVM M t \<longleftrightarrow> methodOf (MarshalWireValue M) t \<noteq> None"

definition supportsValueCodec :: "'c methods \<Rightarrow> gtype \<Rightarrow> bool" where
  "supportsValueCodec M t \<longleftrightarrow>
    methodOf (MarshalWireValue M) t \<noteq> None \<and> methodOf (UnmarshalWireValue M) t \<noteq> None"

section \<open>Field schemas\<close>

record fieldSchema =
  fs_tag :: u16
  fs_name :: string
  fs_kind :: wireKind
  fs_typ :: gtype
  fixedLen :: int
  fixedLenSet :: bool
  maxBytes :: string
  maxItems :: string
  maxBits :: string
  optional :: bool
  mapKeyType :: gtype
  mapValueType :: gtype
  mapValueKind :: wireKind

definition knownKindNames :: "string list" where
  "knownKindNames = [''u8'', ''u16'', ''u32'', ''bool'', ''bytes'', ''string'', ''u32list'',
    ''byteslist'', ''partybytes'', ''partybytepairs'', ''nested'', ''custom'', ''customlist'',
    ''bigint'', ''biguint'', ''bigpos'', ''record'', ''recordlist'', ''map'']"

definition isKnownKind :: "string \<Rightarrow> bool" where
  "isKnownKind s \<longleftrightarrow> s \<in> set knownKindNames"

definition isBig :: "gtype \<Rightarrow> bool" where
  "isBig t \<longleftrightarrow> t = TBig \<or> t = TPtr TBig"

definition parseDomainKind :: "'c methods \<Rightarrow> string \<Rightarrow> gtype \<Rightarrow> werror + wireKind" where
  "parseDomainKind M k t =
    (if k = ''nested'' then
       (if methodOf (WireMessage M) t = None then Inl ''nested requires Message implementation''
        else Inr kindNested)
     else if k = ''custom'' then Inr kindCustom
     else if k = ''customlist'' then
       (if rkind_of t \<noteq> SliceK then Inl ''customlist requires slice''
        else if \<not> supportsValueCodec M (elemType t)
        then Inl ''customlist item must implement ValueMarshaler and ValueUnmarshaler''
        else Inr kindCustomList)
     else if k = ''bigint'' then
       (if isBig t then Inr kindBigInt else Inl ''bigint requires big.Int or *big.Int'')
     else if k = ''biguint'' then
       (if isBig t then Inr kindBigUint else Inl ''biguint requires big.Int or *big.Int'')
     else if k = ''bigpos'' then
       (if isBig t then Inr kindBigPos else Inl ''bigpos requires big.Int or *big.Int'')
     else if k = ''record'' then
       (if rkind_of (indirectType t) \<noteq> StructK then Inl ''record requires struct or *struct''
        else Inr kindRecord)
     else if k = ''recordlist'' then
       (if rkind_of t \<noteq> SliceK \<or> rkind_of (indirectType (elemType t)) \<noteq> StructK
        then Inl ''recordlist requires []struct or []*struct'' else Inr kindRecordList)
     else if k = ''map'' then
       (if rkind_of t \<noteq> MapK then Inl ''map requires map[K]V'' else Inr kindMap)
     else Inl ''unknown wire kind'')"

definition parseCompositeKind :: "'c methods \<Rightarrow> string \<Rightarrow> gtype \<Rightarrow> werror + wireKind" where
  "parseCompositeKind M k t =
    (if k = ''u32list'' then
       (if rkind_of t \<noteq> SliceK then Inl ''u32list requires []uint32 or []int''
        else if rkind_of (indirectType (elemType t)) \<in> {Uint32K, IntK} then Inr kindU32List
        else Inl ''u32list requires []uint32 or []int'')
     else if k = ''byteslist'' then
       (if rkind_of t \<noteq> SliceK then Inl ''byteslist requires slice''
        else if rkind_of (elemType t) \<noteq> SliceK \<or> rkind_of (elemType (elemType t)) \<noteq> Uint8K
        then Inl ''byteslist requires [][]byte'' else Inr kindBytesList)
     else if k = ''partybytes'' then
       (if rkind_of t \<noteq> SliceK then Inl ''partybytes requires []PartyBytes[T]'' else Inr kindPartyBytes)
     else if k = ''partybytepairs'' then
       (if rkind_of t \<noteq> SliceK then Inl ''partybytepairs requires []PartyBytePair[T]''
        else Inr kindPartyBytePairs)
     else parseDomainKind M k t)"

definition parseKind :: "'c methods \<Rightarrow> string \<Rightarrow> gtype \<Rightarrow> werror + wireKind" where
  "parseKind M k t =
    (if k = ''u8'' then (if rkind_of t \<noteq> Uint8K then Inl ''u8 requires uint8'' else Inr kindU8)
     else if k = ''u16'' then (if rkind_of t \<noteq> Uint16K then Inl ''u16 requires uint16'' else Inr kindU16)
     else if k = ''u32'' then
       (if rkind_of t \<in> {Uint32K, IntK} then Inr kindU32 else Inl ''u32 requires uint32 or int'')
     else if k = ''bool'' then (if rkind_of t \<noteq> BoolK then Inl ''bool requires bool'' else Inr kindBool)
     else if k = ''bytes'' then
       (if rkind_of t \<in> {SliceK, ArrayK} \<and> rkind_of (elemType t) = Uint8K then Inr kindBytes
        else Inl ''bytes requires []byte or [N]byte'')
     else if k = ''string'' then
       (if rkind_of t \<noteq> StringK then Inl ''string requires string'' else Inr kindString)
     else parseCompositeKind M k t)"

definition inferSliceKind :: "gtype \<Rightarrow> werror + wireKind" where
  "inferSliceKind t =
    (let el = indirectType (elemType t) in
     case rkind_of el of
       Uint8K \<Rightarrow> Inr kindBytes
     | Uint32K \<Rightarrow> Inr kindU32List
     | IntK \<Rightarrow> Inr kindU32List
     | SliceK \<Rightarrow> if rkind_of (elemType el) = Uint8K then Inr kindBytesList
                 else Inl ''cannot infer wire kind for slice''
     | StructK \<Rightarrow> Inr kindRecordList
     | PointerK \<Rightarrow> if rkind_of (elemType el) = StructK then Inr kindRecordList
                   else Inl ''cannot infer wire kind for slice of pointers''
     | _ \<Rightarrow> Inl ''cannot infer wire kind for slice'')"

definition inferKind :: "'c methods \<Rightarrow> gtype \<Rightarrow> werror + wireKind" where
  "inferKind M t0 =
    (let t = indirectType t0 in
     if implementsVM M t then Inr kindCustom
     else case rkind_of t of
       Uint8K \<Rightarrow> Inr kindU8
     | Uint16K \<Rightarrow> Inr kindU16
     | Uint32K \<Rightarrow> Inr kindU32
     | IntK \<Rightarrow> Inr kindU32
     | BoolK \<Rightarrow> Inr kindBool
     | StringK \<Rightarrow> Inr kindString
     | SliceK \<Rightarrow> inferSliceKind t
     | ArrayK \<Rightarrow> if rkind_of (elemType t) = Uint8K then Inr kindBytes
                 else Inl ''cannot infer wire kind for array''
     | StructK \<Rightarrow> Inr kindRecord
     | PointerK \<Rightarrow> if rkind_of (elemType t) = StructK then Inr kindRecord
                   else Inl ''cannot infer wire kind for pointer''
     | _ \<Rightarrow> Inl ''cannot infer wire kind'')"

definition inferMapValueKind :: "'c methods \<Rightarrow> gtype \<Rightarrow> werror + wireKind" where
  "inferMapValueKind M t =
    (let i = indirectType t in
     if implementsVM M i then Inr kindCustom
     else case rkind_of i of
       Uint8K \<Rightarrow> Inr kindU8
     | Uint16K \<Rightarrow> Inr kindU16
     | Uint32K \<Rightarrow> Inr kindU32
     | BoolK \<Rightarrow> Inr kindBool
     | StringK \<Rightarrow> Inr kindString
     | SliceK \<Rightarrow> if rkind_of (elemType i) = Uint8K then Inr kindBytes
                 else Inl ''slice map values are only supported for []byte''
     | ArrayK \<Rightarrow> if rkind_of (elemType i) = Uint8K then Inr kindBytes
                 else Inl ''array map values are only supported for [N]byte''
     | StructK \<Rightarrow> Inr kindRecord
     | _ \<Rightarrow> Inl ''cannot infer map value kind'')"

definition fieldTagKind :: "'c methods \<Rightarrow> string list \<Rightarrow> gtype \<Rightarrow> werror + (wireKind \<times> nat)" where
  "fieldTagKind M parts typ =
    (if length parts > 1 \<and> isKnownKind (TrimSpace (parts ! 1)) then
       (case parseKind M (TrimSpace (parts ! 1)) typ of Inl e \<Rightarrow> Inl e | Inr k \<Rightarrow> Inr (k, 2))
     else (case inferKind M typ of Inl e \<Rightarrow> Inl e | Inr k \<Rightarrow> Inr (k, 1)))"

section \<open>Options\<close>

definition limitNameStart :: "char \<Rightarrow> bool" where
  "limitNameStart c \<longleftrightarrow> (let n = of_char c :: nat in 97 \<le> n \<and> n \<le> 122)"

definition limitNameRest :: "char \<Rightarrow> bool" where
  "limitNameRest c \<longleftrightarrow>
    (let n = of_char c :: nat in (97 \<le> n \<and> n \<le> 122) \<or> (48 \<le> n \<and> n \<le> 57) \<or> n = 95)"

definition validLimitName :: "string \<Rightarrow> bool" where
  "validLimitName name =
    (case name of [] \<Rightarrow> False | c # cs \<Rightarrow> limitNameStart c \<and> list_all limitNameRest cs)"

definition setOption :: "string \<Rightarrow> string \<Rightarrow> fieldSchema \<Rightarrow> werror + fieldSchema" where
  "setOption key val fs =
    (if key = ''len'' then
       (case Atoi val of
          None \<Rightarrow> Inl ''invalid len value''
        | Some n \<Rightarrow> if n \<le> 0 then Inl ''len must be positive''
                    else Inr (fs\<lparr>fixedLen := n, fixedLenSet := True\<rparr>))
     else if key = ''max_bytes'' then
       (if \<not> validLimitName val then Inl ''invalid max_bytes limit name'' else Inr (fs\<lparr>maxBytes := val\<rparr>))
     else if key = ''max_items'' then
       (if \<not> validLimitName val then Inl ''invalid max_items limit name'' else Inr (fs\<lparr>maxItems := val\<rparr>))
     else if key = ''max_bits'' then
       (if \<not> validLimitName val then Inl ''invalid max_bits limit name'' else Inr (fs\<lparr>maxBits := val\<rparr>))
     else Inl ''unknown option'')"

fun parseOptions :: "string list \<Rightarrow> string list \<Rightarrow> fieldSchema \<Rightarrow> werror + fieldSchema" where
  "parseOptions seen [] fs = Inr fs"
| "parseOptions seen (o1 # os) fs =
    (let opt = TrimSpace o1 in
     if opt = [] then parseOptions seen os fs
     else if opt = ''optional'' then
       (if ''optional'' \<in> set seen then Inl ''duplicate wire option''
        else parseOptions (''optional'' # seen) os (fs\<lparr>optional := True\<rparr>))
     else case splitFirst (CHR ''='') opt of
       [k, v] \<Rightarrow>
         (let key = TrimSpace k; val = TrimSpace v in
          if key \<in> set seen then Inl ''duplicate wire option''
          else case setOption key val fs of
            Inl e \<Rightarrow> Inl e
          | Inr fs \<Rightarrow> parseOptions (key # seen) os fs)
     | _ \<Rightarrow> Inl ''invalid option'')"

definition kindConsumesFixedLen :: "wireKind \<Rightarrow> bool" where
  "kindConsumesFixedLen k \<longleftrightarrow>
    k \<in> {kindBytes, kindString, kindCustom, kindBigInt, kindBigUint, kindBigPos}"

definition kindSupportsFixedLen :: "fieldSchema \<Rightarrow> bool" where
  "kindSupportsFixedLen fs \<longleftrightarrow>
    (if fs_kind fs \<in> {kindBytes, kindString, kindCustom, kindCustomList, kindBigInt, kindBigUint, kindBigPos}
     then True
     else if fs_kind fs = kindMap then kindConsumesFixedLen (mapValueKind fs)
     else False)"

definition kindConsumesMaxBytes :: "wireKind \<Rightarrow> bool" where
  "kindConsumesMaxBytes k \<longleftrightarrow>
    k \<in> {kindBytes, kindString, kindCustom, kindBigInt, kindBigUint, kindBigPos}"

definition kindSupportsMaxBytes :: "fieldSchema \<Rightarrow> bool" where
  "kindSupportsMaxBytes fs \<longleftrightarrow>
    (if fs_kind fs \<in> {kindBytes, kindString, kindBytesList, kindPartyBytes, kindPartyBytePairs,
          kindNested, kindCustom, kindCustomList, kindBigInt, kindBigUint, kindBigPos}
     then True
     else if fs_kind fs = kindMap then kindConsumesMaxBytes (mapValueKind fs)
     else False)"

definition kindSupportsMaxItems :: "wireKind \<Rightarrow> bool" where
  "kindSupportsMaxItems k \<longleftrightarrow>
    k \<in> {kindU32List, kindBytesList, kindPartyBytes, kindPartyBytePairs,
         kindCustom, kindCustomList, kindRecordList, kindMap}"

definition kindSupportsMaxBits :: "fieldSchema \<Rightarrow> bool" where
  "kindSupportsMaxBits fs \<longleftrightarrow>
    (if fs_kind fs \<in> {kindBytes, kindBigInt, kindBigUint, kindBigPos} then True
     else if fs_kind fs = kindMap then mapValueKind fs = kindBytes
     else False)"

definition kindSupportsOptional :: "wireKind \<Rightarrow> bool" where
  "kindSupportsOptional k \<longleftrightarrow>
    k \<in> {kindNested, kindCustom, kindBigInt, kindBigUint, kindBigPos, kindRecord}"

definition validateFieldOptions :: "fieldSchema \<Rightarrow> werror + unit" where
  "validateFieldOptions fs =
    (if fixedLenSet fs \<and> \<not> kindSupportsFixedLen fs then Inl ''len is not supported''
     else if maxBytes fs \<noteq> [] \<and> \<not> kindSupportsMaxBytes fs then Inl ''max_bytes is not supported''
     else if maxItems fs \<noteq> [] \<and> \<not> kindSupportsMaxItems (fs_kind fs) then Inl ''max_items is not supported''
     else if maxBits fs \<noteq> [] \<and> \<not> kindSupportsMaxBits fs then Inl ''max_bits is not supported''
     else Inr ())"

section \<open>Parsing a struct type\<close>

definition initMapSchema :: "'c methods \<Rightarrow> fieldSchema \<Rightarrow> werror + fieldSchema" where
  "initMapSchema M fs =
    (let t = fs_typ fs in
     if rkind_of t \<noteq> MapK then Inl ''map requires map[K]V''
     else if rkind_of (keyType t) \<noteq> Uint32K then Inl ''map key must be uint32-compatible''
     else case inferMapValueKind M (elemType t) of
       Inl e \<Rightarrow> Inl e
     | Inr valueKind \<Rightarrow>
         if rkind_of (elemType t) = PointerK \<and> valueKind \<noteq> kindCustom \<and> valueKind \<noteq> kindRecord
         then Inl ''pointer map values require custom or record kind''
         else Inr (fs\<lparr>mapKeyType := keyType t, mapValueType := elemType t, mapValueKind := valueKind\<rparr>))"

definition initMapField :: "'c methods \<Rightarrow> fieldSchema \<Rightarrow> werror + fieldSchema" where
  "initMapField M fs =
    (if fs_kind fs \<noteq> kindMap then Inr fs
     else case initMapSchema M fs of
       Inl e \<Rightarrow> Inl e
     | Inr fs \<Rightarrow>
         let valueType = indirectType (mapValueType fs) in
         if mapValueKind fs = kindBytes \<and> rkind_of valueType = ArrayK then
           (if fixedLenSet fs \<and> arrayLen valueType \<noteq> fixedLen fs
            then Inl ''len does not match map array value length''
            else Inr (fs\<lparr>fixedLen := arrayLen valueType, fixedLenSet := True\<rparr>))
         else Inr fs)"

definition initPartyBytesSchema :: "bool \<Rightarrow> fieldSchema \<Rightarrow> werror + unit" where
  "initPartyBytesSchema pair fs =
    (let el = elemType (fs_typ fs); wantFields = (if pair then 3 else 2); flds = structFields el in
     if rkind_of el \<noteq> StructK then Inl ''requires a slice of structs''
     else if length flds \<noteq> wantFields then Inl ''wrong number of element fields''
     else if \<not> sf_Exported (flds ! 0) \<or> rkind_of (sf_Type (flds ! 0)) \<noteq> Uint32K
     then Inl ''party field must be exported uint32-compatible''
     else if list_ex (\<lambda>f. \<not> sf_Exported f \<or> rkind_of (sf_Type f) \<noteq> SliceK
                          \<or> rkind_of (elemType (sf_Type f)) \<noteq> Uint8K) (tl flds)
     then Inl ''byte field must be exported []byte''
     else Inr ())"

text \<open>The checks \<^verbatim>\<open>parseFieldTag\<close> makes once kind and options are known.\<close>

definition finishField :: "'c methods \<Rightarrow> gtype \<Rightarrow> fieldSchema \<Rightarrow> werror + fieldSchema" where
  "finishField M typ fs0 =
    (case (if fs_kind fs0 = kindBytes \<and> rkind_of typ = ArrayK then
             (if fixedLenSet fs0 \<and> arrayLen typ \<noteq> fixedLen fs0
              then Inl ''len does not match array length''
              else Inr (fs0\<lparr>fixedLen := arrayLen typ, fixedLenSet := True\<rparr>))
           else Inr fs0) of
       Inl e \<Rightarrow> Inl e
     | Inr fs \<Rightarrow>
         if optional fs \<and> rkind_of typ \<noteq> PointerK then Inl ''optional requires pointer field''
         else if optional fs \<and> \<not> kindSupportsOptional (fs_kind fs) then Inl ''optional is not supported''
         else (case initMapField M fs of
           Inl e \<Rightarrow> Inl e
         | Inr fs \<Rightarrow>
             (case validateFieldOptions fs of
                Inl e \<Rightarrow> Inl e
              | Inr _ \<Rightarrow>
                  (case (if fs_kind fs = kindPartyBytes then initPartyBytesSchema False fs
                         else if fs_kind fs = kindPartyBytePairs then initPartyBytesSchema True fs
                         else Inr ()) of
                     Inl e \<Rightarrow> Inl e
                   | Inr _ \<Rightarrow> Inr fs))))"

definition parseFieldTag :: "'c methods \<Rightarrow> gtype structField \<Rightarrow> string \<Rightarrow> werror + fieldSchema" where
  "parseFieldTag M f tagStr =
    (let parts = splitOn (CHR 0x2C) tagStr in
     if parts = [] then Inl ''empty wire tag''
     else case ParseUint16 (TrimSpace (parts ! 0)) of
       None \<Rightarrow> Inl ''invalid tag number''
     | Some tag \<Rightarrow>
         if tag < 1 \<or> tag > 65535 then Inl ''tag must be in [1, 65535]''
         else (case fieldTagKind M parts (sf_Type f) of
           Inl e \<Rightarrow> Inl e
         | Inr (kind, optStart) \<Rightarrow>
             (case parseOptions [] (drop optStart parts)
                     \<lparr>fs_tag = word_of_int tag, fs_name = sf_Name f, fs_kind = kind, fs_typ = sf_Type f,
                      fixedLen = 0, fixedLenSet = False, maxBytes = [], maxItems = [], maxBits = [],
                      optional = False, mapKeyType = TOther, mapValueType = TOther,
                      mapValueKind = kindU8\<rparr> of
                Inl e \<Rightarrow> Inl e
              | Inr fs \<Rightarrow> finishField M (sf_Type f) fs)))"

fun parseFields ::
  "'c methods \<Rightarrow> u16 list \<Rightarrow> gtype structField list \<Rightarrow> werror + fieldSchema list" where
  "parseFields M seen [] = Inr []"
| "parseFields M seen (f # fs) =
    (if \<not> sf_Exported f then
       (if sf_Tag f \<noteq> None \<and> sf_Tag f \<noteq> Some ''-'' then Inl ''unexported field has wire tag''
        else parseFields M seen fs)
     else case sf_Tag f of
       None \<Rightarrow> parseFields M seen fs
     | Some tagStr \<Rightarrow>
         if tagStr = ''-'' then parseFields M seen fs
         else (case parseFieldTag M f tagStr of
           Inl e \<Rightarrow> Inl e
         | Inr sch \<Rightarrow>
             if fs_tag sch \<in> set seen then Inl ''duplicate tag''
             else (case parseFields M (fs_tag sch # seen) fs of
                     Inl e \<Rightarrow> Inl e
                   | Inr rest \<Rightarrow> Inr (sch # rest))))"

definition parseSchema :: "'c methods \<Rightarrow> gtype \<Rightarrow> werror + fieldSchema list" where
  "parseSchema M t =
    (if rkind_of t \<noteq> StructK then Inl ''expected struct''
     else case parseFields M [] (structFields t) of
       Inl e \<Rightarrow> Inl e
     | Inr flds \<Rightarrow> if flds = [] then Inl ''no wire-tagged fields'' else Inr (sort_key fs_tag flds))"

fun fieldTag :: "string \<Rightarrow> fieldSchema list \<Rightarrow> werror + u16" where
  "fieldTag fieldName [] = Inl ''field not found''"
| "fieldTag fieldName (f # fs) = (if fs_name f = fieldName then Inr (fs_tag f) else fieldTag fieldName fs)"

definition FieldTag :: "'c methods \<Rightarrow> gtype \<Rightarrow> string \<Rightarrow> werror + u16" where
  "FieldTag M t fieldName =
    (case parseSchema M (indirectType t) of Inl e \<Rightarrow> Inl e | Inr s \<Rightarrow> fieldTag fieldName s)"

section \<open>Matching decoded fields\<close>

fun matchFields :: "fieldSchema list \<Rightarrow> Field list \<Rightarrow> werror + Field option list" where
  "matchFields [] [] = Inr []"
| "matchFields [] (f # fs) = Inl ''unexpected field tag''"
| "matchFields (s # ss) [] =
    (if optional s then map_sum id (Cons None) (matchFields ss [])
     else Inl ''missing required field tag'')"
| "matchFields (s # ss) (f # fs) =
    (if Tag f = fs_tag s then map_sum id (Cons (Some f)) (matchFields ss fs)
     else if Tag f > fs_tag s \<and> optional s then map_sum id (Cons None) (matchFields ss (f # fs))
     else if Tag f > fs_tag s then Inl ''missing required field tag''
     else Inl ''unexpected field tag'')"

section \<open>What a parsed schema satisfies\<close>

lemma setOption_frame:
  assumes "setOption key val fs = Inr fs'"
  shows "fs_tag fs' = fs_tag fs \<and> fs_name fs' = fs_name fs \<and> fs_kind fs' = fs_kind fs
    \<and> fs_typ fs' = fs_typ fs \<and> mapValueKind fs' = mapValueKind fs"
  using assms by (auto simp: setOption_def split: if_splits option.splits)

lemma parseOptions_frame:
  "parseOptions seen os fs = Inr fs' \<Longrightarrow>
    fs_tag fs' = fs_tag fs \<and> fs_name fs' = fs_name fs \<and> fs_kind fs' = fs_kind fs
    \<and> fs_typ fs' = fs_typ fs \<and> mapValueKind fs' = mapValueKind fs"
proof (induction seen os fs rule: parseOptions.induct)
  case (2 seen o1 os fs)
  show ?case
  proof (cases "splitFirst (CHR ''='') (TrimSpace o1)")
    case Nil
    with 2 show ?thesis by (auto simp: Let_def split: if_splits)
  next
    case (Cons k ks)
    show ?thesis
    proof (cases "\<exists>v. ks = [v]")
      case True
      then obtain v where v: "ks = [v]" ..
      show ?thesis
      proof (cases "setOption (TrimSpace k) (TrimSpace v) fs")
        case (Inr fs2)
        note f2 = setOption_frame [OF Inr]
        from 2 Cons v Inr f2 show ?thesis by (auto simp: Let_def split: if_splits)
      qed (use 2 Cons v in \<open>auto simp: Let_def split: if_splits\<close>)
    next
      case False
      with 2 Cons show ?thesis by (auto simp: Let_def split: if_splits list.splits)
    qed
  qed
qed simp

definition field_from :: "'c methods \<Rightarrow> gtype structField \<Rightarrow> fieldSchema \<Rightarrow> bool" where
  "field_from M sf f \<longleftrightarrow>
    fs_tag f \<noteq> 0 \<and> fs_typ f = sf_Type sf \<and> fs_name f = sf_Name sf
    \<and> validateFieldOptions f = Inr ()
    \<and> (optional f \<longrightarrow> rkind_of (fs_typ f) = PointerK \<and> kindSupportsOptional (fs_kind f))
    \<and> (fs_kind f = kindMap \<longrightarrow> rkind_of (fs_typ f) = MapK \<and> mapValueType f = elemType (fs_typ f)
        \<and> inferMapValueKind M (elemType (fs_typ f)) = Inr (mapValueKind f))
    \<and> (fs_kind f = kindBytes \<and> rkind_of (fs_typ f) = ArrayK
        \<longrightarrow> fixedLenSet f \<and> fixedLen f = arrayLen (fs_typ f))"

lemma initMapField_inv:
  assumes "initMapField M fs = Inr fs'"
  shows "fs_tag fs' = fs_tag fs \<and> fs_name fs' = fs_name fs \<and> fs_kind fs' = fs_kind fs
    \<and> fs_typ fs' = fs_typ fs \<and> optional fs' = optional fs
    \<and> (fs_kind fs \<noteq> kindMap \<longrightarrow> fs' = fs)
    \<and> (fs_kind fs = kindMap \<longrightarrow> rkind_of (fs_typ fs) = MapK \<and> mapValueType fs' = elemType (fs_typ fs)
        \<and> inferMapValueKind M (elemType (fs_typ fs)) = Inr (mapValueKind fs'))"
proof (cases "fs_kind fs = kindMap")
  case True
  with assms obtain fs2 where 2: "initMapSchema M fs = Inr fs2"
    by (auto simp: initMapField_def split: sum.splits)
  then have f: "fs_tag fs2 = fs_tag fs" "fs_name fs2 = fs_name fs" "fs_kind fs2 = fs_kind fs"
    "fs_typ fs2 = fs_typ fs" "optional fs2 = optional fs" "rkind_of (fs_typ fs) = MapK"
    "mapValueType fs2 = elemType (fs_typ fs)" "inferMapValueKind M (elemType (fs_typ fs)) = Inr (mapValueKind fs2)"
    by (auto simp: initMapSchema_def Let_def split: if_splits sum.splits)
  from assms True 2 have "\<exists>n b. fs' = fs2\<lparr>fixedLen := n, fixedLenSet := b\<rparr>"
    by (cases fs2) (auto simp: initMapField_def Let_def split: if_splits)
  with f True show ?thesis by auto
qed (use assms in \<open>auto simp: initMapField_def\<close>)

lemma finishField_inv:
  assumes "finishField M (sf_Type sf) fs = Inr f" "fs_tag fs \<noteq> 0" "fs_typ fs = sf_Type sf"
    "fs_name fs = sf_Name sf"
  shows "field_from M sf f"
proof -
  obtain fs1 where 1: "(if fs_kind fs = kindBytes \<and> rkind_of (sf_Type sf) = ArrayK then
        (if fixedLenSet fs \<and> arrayLen (sf_Type sf) \<noteq> fixedLen fs
         then Inl ''len does not match array length''
         else Inr (fs\<lparr>fixedLen := arrayLen (sf_Type sf), fixedLenSet := True\<rparr>)) else Inr fs) = Inr fs1"
    and 2: "optional fs1 \<longrightarrow> rkind_of (sf_Type sf) = PointerK \<and> kindSupportsOptional (fs_kind fs1)"
    and 3: "initMapField M fs1 = Inr f" and 4: "validateFieldOptions f = Inr ()"
    using assms(1) by (auto simp: finishField_def split: if_splits sum.splits)
  have e: "fs_tag fs1 = fs_tag fs" "fs_typ fs1 = fs_typ fs" "fs_name fs1 = fs_name fs"
    "fs_kind fs1 = fs_kind fs" "optional fs1 = optional fs"
    "fs_kind fs = kindBytes \<and> rkind_of (sf_Type sf) = ArrayK \<longrightarrow>
       fixedLenSet fs1 \<and> fixedLen fs1 = arrayLen (sf_Type sf)"
    using 1 by (auto split: if_splits)
  show ?thesis using initMapField_inv [OF 3] 2 4 e assms by (auto simp: field_from_def)
qed

lemma parseFieldTag_inv:
  assumes "parseFieldTag M sf tagStr = Inr f"
  shows "field_from M sf f"
proof -
  obtain tag kind os fs where t: "1 \<le> tag" "tag \<le> 65535"
    and p: "parseOptions [] os
       \<lparr>fs_tag = word_of_int tag, fs_name = sf_Name sf, fs_kind = kind, fs_typ = sf_Type sf,
        fixedLen = 0, fixedLenSet = False, maxBytes = [], maxItems = [], maxBits = [],
        optional = False, mapKeyType = TOther, mapValueType = TOther, mapValueKind = kindU8\<rparr> = Inr fs"
    and f: "finishField M (sf_Type sf) fs = Inr f"
    using assms
    by (fastforce simp: parseFieldTag_def Let_def not_less split: if_splits option.splits sum.splits)
  have "uint (word_of_int tag :: u16) = tag" using t by (simp add: uint_word_of_int_eq take_bit_int_eq_self)
  then have "(word_of_int tag :: u16) \<noteq> 0" using t by (metis not_one_le_zero unsigned_0)
  with parseOptions_frame [OF p] f show ?thesis by (auto intro: finishField_inv)
qed

lemma parseFields_inv:
  "parseFields M seen sfs = Inr fs \<Longrightarrow>
    distinct (map fs_tag fs) \<and> set (map fs_tag fs) \<inter> set seen = {}
    \<and> (\<forall>f\<in>set fs. \<exists>sf\<in>set sfs. field_from M sf f)"
proof (induction M seen sfs arbitrary: fs rule: parseFields.induct)
  case (2 M seen sf sfs)
  show ?case
  proof (cases "sf_Exported sf \<and> (\<exists>t. sf_Tag sf = Some t \<and> t \<noteq> ''-'')")
    case False
    then have skip: "parseFields M seen sfs = Inr fs"
      using "2.prems" by (cases "sf_Tag sf") (auto split: if_splits)
    have "distinct (map fs_tag fs) \<and> set (map fs_tag fs) \<inter> set seen = {}
        \<and> (\<forall>f\<in>set fs. \<exists>sf\<in>set sfs. field_from M sf f)"
    proof (cases "sf_Exported sf")
      case True
      with False show ?thesis using "2.IH"(2,3) skip by (cases "sf_Tag sf") auto
    next
      case unex: False
      show ?thesis
      proof (cases "sf_Tag sf \<noteq> None \<and> sf_Tag sf \<noteq> Some ''-''")
        case True
        with unex "2.prems" show ?thesis by auto
      qed (use unex "2.IH"(1) skip in auto)
    qed
    then show ?thesis by (meson list.set_intros(2))
  next
    case True
    then obtain t where t: "sf_Tag sf = Some t" "t \<noteq> ''-''" by blast
    with True "2.prems" obtain sch rest where p: "parseFieldTag M sf t = Inr sch" "fs_tag sch \<notin> set seen"
      and r: "parseFields M (fs_tag sch # seen) sfs = Inr rest" and fs: "fs = sch # rest"
      by (auto split: if_splits sum.splits)
    from "2.IH"(4) [OF _ t p(1,2) r] True have "distinct (map fs_tag rest) \<and>
        set (map fs_tag rest) \<inter> set (fs_tag sch # seen) = {} \<and> (\<forall>f\<in>set rest. \<exists>sf\<in>set sfs. field_from M sf f)"
      by simp
    with parseFieldTag_inv [OF p(1)] p(2) fs show ?thesis by auto
  qed
qed simp

lemma parseSchema_inv:
  assumes "parseSchema M t = Inr s"
  shows "s \<noteq> [] \<and> sorted_wrt (<) (map fs_tag s) \<and> rkind_of t = StructK
    \<and> (\<forall>f\<in>set s. \<exists>sf\<in>set (structFields t). field_from M sf f)"
proof -
  obtain fs where p: "parseFields M [] (structFields t) = Inr fs" "fs \<noteq> []" and s: "s = sort_key fs_tag fs"
    and st: "rkind_of t = StructK"
    using assms by (auto simp: parseSchema_def split: if_splits sum.splits)
  have "distinct (map fs_tag s)" using parseFields_inv [OF p(1)] by (simp add: s distinct_map)
  moreover have "sorted (map fs_tag s)" by (simp add: s)
  ultimately have "sorted_wrt (<) (map fs_tag s)" by (simp add: strict_sorted_iff)
  with parseFields_inv [OF p(1)] p(2) s st show ?thesis
    by (metis set_sort set_empty)
qed

lemma inferMapValueKind_not_map: "inferMapValueKind M t = Inr k \<Longrightarrow> k \<noteq> kindMap"
  by (auto simp: inferMapValueKind_def Let_def split: if_splits rkind.splits)

section \<open>Matching\<close>

text \<open>The fields present in a match, in order.\<close>

definition present :: "Field option list \<Rightarrow> Field list" where
  "present ms = map the (filter (\<lambda>m. m \<noteq> None) ms)"

lemma present_simps [simp]:
  "present [] = []" "present (None # ms) = present ms" "present (Some f # ms) = f # present ms"
  by (simp_all add: present_def)

definition matches :: "fieldSchema list \<Rightarrow> Field option list \<Rightarrow> bool" where
  "matches ss ms \<longleftrightarrow>
    list_all2 (\<lambda>s m. case m of None \<Rightarrow> optional s | Some f \<Rightarrow> Tag f = fs_tag s) ss ms"

lemma matches_simps [simp]:
  "matches [] ms \<longleftrightarrow> ms = []"
  "matches (s # ss) (m # ms) \<longleftrightarrow>
    (case m of None \<Rightarrow> optional s | Some f \<Rightarrow> Tag f = fs_tag s) \<and> matches ss ms"
  "matches (s # ss) [] \<longleftrightarrow> False"
  by (auto simp: matches_def)

lemma matches_tags: "matches ss ms \<Longrightarrow> f \<in> set (present ms) \<Longrightarrow> Tag f \<in> set (map fs_tag ss)"
proof (induction ss arbitrary: ms)
  case (Cons s ss)
  then show ?case by (cases ms) (auto split: option.splits)
qed simp

lemma matchFields_iff:
  "sorted_wrt (<) (map fs_tag ss) \<Longrightarrow>
    matchFields ss fs = Inr ms \<longleftrightarrow> matches ss ms \<and> present ms = fs"
proof (induction ss fs arbitrary: ms rule: matchFields.induct)
  case (3 s ss)
  show ?case
  proof (cases ms)
    case (Cons m ms')
    with 3 show ?thesis
      by (cases m; cases "matchFields ss []") (auto split: if_splits)
  qed (use 3 in \<open>auto split: if_splits sum.splits simp: map_sum_def\<close>)
next
  case (4 s ss f fs)
  show ?case
  proof (cases ms)
    case Nil
    with 4 show ?thesis
      by (cases "matchFields ss fs"; cases "matchFields ss (f # fs)") auto
  next
    case (Cons m ms')
    show ?thesis
    proof (cases m)
      case None
      have no: "\<not> (matches ss ms' \<and> present ms' = f # fs)" if "\<not> Tag f > fs_tag s"
      proof
        assume "matches ss ms' \<and> present ms' = f # fs"
        then have "Tag f \<in> set (map fs_tag ss)" using matches_tags [of ss ms' f] by simp
        with "4.prems" that show False by auto
      qed
      show ?thesis
      proof (cases "Tag f > fs_tag s")
        case True
        with 4 None Cons show ?thesis by (cases "matchFields ss (f # fs)") auto
      next
        case False
        with no None Cons 4 show ?thesis by (cases "matchFields ss fs") auto
      qed
    next
      case (Some g)
      with 4 Cons show ?thesis
        by (cases "matchFields ss fs"; cases "matchFields ss (f # fs)") auto
    qed
  qed
qed auto

end
