(* ===== verification/Wire_Fields.thy ===== *)
theory Wire_Fields
  imports Wire_Schema
begin

text \<open>
  The codecs of single field values in \<^verbatim>\<open>internal/wire\<close> that do not recurse into other structs:
  \<^verbatim>\<open>codec_simple.go\<close>, the limit checks of \<^verbatim>\<open>codec.go\<close>, the lists and custom values of
  \<^verbatim>\<open>codec_compound.go\<close> and the big integers of \<^verbatim>\<open>codec_bigint.go\<close>.  A \<^verbatim>\<open>reflect.Value\<close> is a value of
  \<open>'c rvalue\<close>; using one at a shape its static type does not have is the panic of package \<^verbatim>\<open>reflect\<close> and an
  error of the model.
\<close>

definition panic :: "werror + 'a" where
  "panic = Inl ''reflect panic''"

definition isPtr :: "gtype \<Rightarrow> bool" where
  "isPtr t \<longleftrightarrow> rkind_of t = PointerK"

section \<open>Limits\<close>

definition getLimit :: "string \<Rightarrow> FieldLimits \<Rightarrow> werror + int" where
  "getLimit name L =
    (case L name of
       None \<Rightarrow> Inl ''missing field limit''
     | Some v \<Rightarrow> if v \<le> 0 then Inl ''field limit must be positive'' else Inr v)"

text \<open>The recurring \<^verbatim>\<open>if fs.maxItems != "" { v, err := fs.getLimit(...) }\<close>, with 0 for no limit.\<close>

definition optLimit :: "string \<Rightarrow> FieldLimits \<Rightarrow> werror + int" where
  "optLimit name L = (if name = [] then Inr 0 else getLimit name L)"

definition checkFixedLen :: "fieldSchema \<Rightarrow> bytes \<Rightarrow> werror + unit" where
  "checkFixedLen fs raw =
    (if fixedLenSet fs \<and> int (length raw) \<noteq> fixedLen fs then Inl ''wrong length'' else Inr ())"

definition checkByteLimits :: "fieldSchema \<Rightarrow> bytes \<Rightarrow> FieldLimits \<Rightarrow> werror + unit" where
  "checkByteLimits fs raw L =
    (case checkFixedLen fs raw of
       Inl e \<Rightarrow> Inl e
     | Inr _ \<Rightarrow>
         if maxBytes fs \<noteq> [] then
           (case getLimit (maxBytes fs) L of
              Inl e \<Rightarrow> Inl e
            | Inr mx \<Rightarrow> if int (length raw) > mx then Inl ''bytes length exceeds max_bytes'' else Inr ())
         else Inr ())"

definition checkCustomItemLimit :: "fieldSchema \<Rightarrow> bytes \<Rightarrow> FieldLimits \<Rightarrow> werror + unit" where
  "checkCustomItemLimit fs raw L =
    (if maxItems fs = [] then Inr ()
     else case ReadUint32 raw 0 of
       Inl e \<Rightarrow> Inl e
     | Inr (count, _) \<Rightarrow>
         if uint count > maxRecordCount then Inl ''custom item count exceeds global limit''
         else (case getLimit (maxItems fs) L of
                 Inl e \<Rightarrow> Inl e
               | Inr mx \<Rightarrow> if uint count > mx then Inl ''custom item count exceeds max_items'' else Inr ()))"

definition checkBitsLimit :: "fieldSchema \<Rightarrow> int \<Rightarrow> FieldLimits \<Rightarrow> werror + unit" where
  "checkBitsLimit fs bits L =
    (if maxBits fs = [] then Inr ()
     else case getLimit (maxBits fs) L of
       Inl e \<Rightarrow> Inl e
     | Inr mx \<Rightarrow> if bits > mx then Inl ''bit length exceeds max_bits'' else Inr ())"

section \<open>Scalars, bytes and strings\<close>

definition decodeU8 :: "bytes \<Rightarrow> werror + 'c rvalue" where
  "decodeU8 raw = (case raw of [b] \<Rightarrow> Inr (VU8 b) | _ \<Rightarrow> Inl ''u8: wrong length'')"

definition decodeU16 :: "bytes \<Rightarrow> werror + 'c rvalue" where
  "decodeU16 raw = map_sum id VU16 (DecodeUint16 raw)"

definition uintValue :: "fieldSchema \<Rightarrow> 'c rvalue \<Rightarrow> werror + int" where
  "uintValue fs v =
    (case v of
       VInt i \<Rightarrow> if rkind_of (fs_typ fs) = IntK then Inr (i mod 2 ^ 64) else panic
     | VU32 u \<Rightarrow> if rkind_of (fs_typ fs) = Uint32K then Inr (uint u) else panic
     | _ \<Rightarrow> panic)"

definition encodeU32 :: "fieldSchema \<Rightarrow> 'c rvalue \<Rightarrow> werror + bytes" where
  "encodeU32 fs v =
    (case uintValue fs v of
       Inl e \<Rightarrow> Inl e
     | Inr n \<Rightarrow> if n > 0xFFFFFFFF then Inl ''uint32 value exceeds max'' else Inr (Uint32 (word_of_int n)))"

definition setUintValue :: "fieldSchema \<Rightarrow> u32 \<Rightarrow> werror + 'c rvalue" where
  "setUintValue fs v =
    (case rkind_of (fs_typ fs) of IntK \<Rightarrow> Inr (VInt (uint v)) | Uint32K \<Rightarrow> Inr (VU32 v) | _ \<Rightarrow> panic)"

definition decodeU32 :: "fieldSchema \<Rightarrow> bytes \<Rightarrow> werror + 'c rvalue" where
  "decodeU32 fs raw = (case DecodeUint32 raw of Inl e \<Rightarrow> Inl e | Inr v \<Rightarrow> setUintValue fs v)"

definition decodeBool :: "bytes \<Rightarrow> werror + 'c rvalue" where
  "decodeBool raw = map_sum id VBool (DecodeBool raw)"

text \<open>\<open>bytesTyped\<close>: the static type is \<^verbatim>\<open>[]byte\<close>, or \<^verbatim>\<open>[N]byte\<close> and the value has \<^verbatim>\<open>N\<close> bytes.\<close>

definition bytesTyped :: "fieldSchema \<Rightarrow> bytes \<Rightarrow> bool" where
  "bytesTyped fs b \<longleftrightarrow>
    (case rkind_of (fs_typ fs) of
       SliceK \<Rightarrow> rkind_of (elemType (fs_typ fs)) = Uint8K
     | ArrayK \<Rightarrow> rkind_of (elemType (fs_typ fs)) = Uint8K \<and> int (length b) = arrayLen (fs_typ fs)
     | _ \<Rightarrow> False)"

definition encodeBytes :: "fieldSchema \<Rightarrow> 'c rvalue \<Rightarrow> FieldLimits \<Rightarrow> werror + bytes" where
  "encodeBytes fs v L =
    (case v of
       VBytes raw \<Rightarrow>
         if \<not> bytesTyped fs raw then panic
         else (case checkByteLimits fs raw L of
                 Inl e \<Rightarrow> Inl e
               | Inr _ \<Rightarrow>
                   (case checkBitsLimit fs (int (length raw) * 8) L of Inl e \<Rightarrow> Inl e | Inr _ \<Rightarrow> Inr raw))
     | _ \<Rightarrow> panic)"

definition setBytesValue :: "fieldSchema \<Rightarrow> bytes \<Rightarrow> werror + 'c rvalue" where
  "setBytesValue fs out =
    (if rkind_of (fs_typ fs) = ArrayK \<and> int (length out) \<noteq> arrayLen (fs_typ fs)
     then Inl ''array bytes length''
     else if \<not> bytesTyped fs out then panic else Inr (VBytes out))"

definition decodeBytes :: "fieldSchema \<Rightarrow> bytes \<Rightarrow> FieldLimits \<Rightarrow> werror + 'c rvalue" where
  "decodeBytes fs raw L =
    (case checkByteLimits fs raw L of
       Inl e \<Rightarrow> Inl e
     | Inr _ \<Rightarrow>
         (case checkBitsLimit fs (int (length raw) * 8) L of
            Inl e \<Rightarrow> Inl e
          | Inr _ \<Rightarrow> setBytesValue fs raw))"

definition encodeString :: "fieldSchema \<Rightarrow> 'c rvalue \<Rightarrow> FieldLimits \<Rightarrow> werror + bytes" where
  "encodeString fs v L =
    (case v of
       VString s \<Rightarrow>
         if rkind_of (fs_typ fs) \<noteq> StringK then panic
         else if \<not> utf8_valid_string s then Inl ''string is not valid UTF-8''
         else (case checkByteLimits fs (str_bytes s) L of Inl e \<Rightarrow> Inl e | Inr _ \<Rightarrow> Inr (str_bytes s))
     | _ \<Rightarrow> panic)"

definition decodeString :: "fieldSchema \<Rightarrow> bytes \<Rightarrow> FieldLimits \<Rightarrow> werror + 'c rvalue" where
  "decodeString fs raw L =
    (case checkByteLimits fs raw L of
       Inl e \<Rightarrow> Inl e
     | Inr _ \<Rightarrow>
         if \<not> utf8_valid raw then Inl ''string is not valid UTF-8''
         else if rkind_of (fs_typ fs) \<noteq> StringK then panic
         else Inr (VString (bytes_str raw)))"

section \<open>Lists\<close>

definition countWithin :: "int \<Rightarrow> 'a list \<Rightarrow> bool" where
  "countWithin mx xs \<longleftrightarrow> mx > 0 \<longrightarrow> int (length xs) \<le> mx"

definition put_int :: "int \<Rightarrow> bytes \<Rightarrow> werror + bytes" where
  "put_int i out =
    (if i < 0 \<or> i > 0xFFFFFFFF then Inl ''u32list item out of uint32 range''
     else Inr (out @ Uint32 (word_of_int i)))"

definition encodeMaxItems ::
  "('a \<Rightarrow> bytes \<Rightarrow> werror + bytes) \<Rightarrow> fieldSchema \<Rightarrow> 'a list \<Rightarrow> FieldLimits \<Rightarrow> werror + bytes" where
  "encodeMaxItems put fs xs L =
    (if int (length xs) > 0xFFFFFFFF then Inl ''count exceeds max''
     else case optLimit (maxItems fs) L of
       Inl e \<Rightarrow> Inl e
     | Inr mi \<Rightarrow> if \<not> countWithin mi xs then Inl ''count exceeds max_items'' else encode_counted put xs)"

definition encodeU32List :: "fieldSchema \<Rightarrow> 'c rvalue \<Rightarrow> FieldLimits \<Rightarrow> werror + bytes" where
  "encodeU32List fs v L =
    (case v of
       VU32s xs \<Rightarrow>
         if rkind_of (elemType (fs_typ fs)) \<noteq> Uint32K then panic else encodeMaxItems put_uint32 fs xs L
     | VInts xs \<Rightarrow>
         if rkind_of (elemType (fs_typ fs)) \<noteq> IntK then panic else encodeMaxItems put_int fs xs L
     | _ \<Rightarrow> panic)"

definition decodeU32List :: "fieldSchema \<Rightarrow> bytes \<Rightarrow> FieldLimits \<Rightarrow> werror + 'c rvalue" where
  "decodeU32List fs raw L =
    (case optLimit (maxItems fs) L of
       Inl e \<Rightarrow> Inl e
     | Inr mx \<Rightarrow>
         (case DecodeUint32ListWithLimit raw mx of
            Inl e \<Rightarrow> Inl e
          | Inr xs \<Rightarrow>
              (case rkind_of (elemType (fs_typ fs)) of
                 Uint32K \<Rightarrow> Inr (VU32s xs)
               | IntK \<Rightarrow> Inr (VInts (map uint xs))
               | _ \<Rightarrow> panic)))"

definition put_bytes_max :: "int \<Rightarrow> bytes \<Rightarrow> bytes \<Rightarrow> werror + bytes" where
  "put_bytes_max mx item out =
    (if mx > 0 \<and> int (length item) > mx then Inl ''item length exceeds max_bytes''
     else AppendBytesChecked out item)"

definition put_party_bytes_max :: "int \<Rightarrow> PartyBytes \<Rightarrow> bytes \<Rightarrow> werror + bytes" where
  "put_party_bytes_max mx r out =
    (if mx > 0 \<and> int (length (pb_Bytes r)) > mx then Inl ''item length exceeds max_bytes''
     else put_party_bytes r out)"

definition put_party_pair_max :: "int \<Rightarrow> PartyBytePair \<Rightarrow> bytes \<Rightarrow> werror + bytes" where
  "put_party_pair_max mx r out =
    (if mx > 0 \<and> int (length (pp_First r)) > mx then Inl ''First length exceeds max_bytes''
     else if mx > 0 \<and> int (length (pp_Second r)) > mx then Inl ''Second length exceeds max_bytes''
     else put_party_pair r out)"

text \<open>The common frame of the counted encoders and decoders: the two limits, then the items.\<close>

definition encodeLimited ::
  "(int \<Rightarrow> 'a \<Rightarrow> bytes \<Rightarrow> werror + bytes) \<Rightarrow> fieldSchema \<Rightarrow> 'a list \<Rightarrow> FieldLimits \<Rightarrow> werror + bytes" where
  "encodeLimited put fs xs L =
    (if int (length xs) > 0xFFFFFFFF then Inl ''count exceeds max''
     else case optLimit (maxBytes fs) L of
       Inl e \<Rightarrow> Inl e
     | Inr mb \<Rightarrow>
         (case optLimit (maxItems fs) L of
            Inl e \<Rightarrow> Inl e
          | Inr mi \<Rightarrow>
              if \<not> countWithin mi xs then Inl ''count exceeds max_items''
              else encode_counted (put mb) xs))"

definition decodeLimited ::
  "(int \<Rightarrow> bytes \<Rightarrow> int \<Rightarrow> werror + ('a \<times> int)) \<Rightarrow> nat \<Rightarrow> fieldSchema \<Rightarrow> bytes \<Rightarrow> FieldLimits
    \<Rightarrow> werror + 'a list" where
  "decodeLimited get minRecordLen fs raw L =
    (case optLimit (maxItems fs) L of
       Inl e \<Rightarrow> Inl e
     | Inr mi \<Rightarrow>
         (case optLimit (maxBytes fs) L of
            Inl e \<Rightarrow> Inl e
          | Inr mb \<Rightarrow> decode_counted (get mb) minRecordLen mi raw))"

definition encodeBytesList :: "fieldSchema \<Rightarrow> 'c rvalue \<Rightarrow> FieldLimits \<Rightarrow> werror + bytes" where
  "encodeBytesList fs v L = (case v of VBytesList xs \<Rightarrow> encodeLimited put_bytes_max fs xs L | _ \<Rightarrow> panic)"

definition decodeBytesList :: "fieldSchema \<Rightarrow> bytes \<Rightarrow> FieldLimits \<Rightarrow> werror + 'c rvalue" where
  "decodeBytesList fs raw L = map_sum id VBytesList (decodeLimited ReadBytesWithLimit 4 fs raw L)"

definition encodePartyBytes :: "fieldSchema \<Rightarrow> 'c rvalue \<Rightarrow> FieldLimits \<Rightarrow> werror + bytes" where
  "encodePartyBytes fs v L =
    (case v of VPartyBytes xs \<Rightarrow> encodeLimited put_party_bytes_max fs xs L | _ \<Rightarrow> panic)"

definition decodePartyBytes :: "fieldSchema \<Rightarrow> bytes \<Rightarrow> FieldLimits \<Rightarrow> werror + 'c rvalue" where
  "decodePartyBytes fs raw L = map_sum id VPartyBytes (decodeLimited get_party_bytes 8 fs raw L)"

definition encodePartyBytePairs :: "fieldSchema \<Rightarrow> 'c rvalue \<Rightarrow> FieldLimits \<Rightarrow> werror + bytes" where
  "encodePartyBytePairs fs v L =
    (case v of VPartyPairs xs \<Rightarrow> encodeLimited put_party_pair_max fs xs L | _ \<Rightarrow> panic)"

definition decodePartyBytePairs :: "fieldSchema \<Rightarrow> bytes \<Rightarrow> FieldLimits \<Rightarrow> werror + 'c rvalue" where
  "decodePartyBytePairs fs raw L = map_sum id VPartyPairs (decodeLimited get_party_pair 12 fs raw L)"

section \<open>Big integers\<close>

text \<open>\<^verbatim>\<open>big.Int.Bytes\<close>, the minimal big-endian magnitude, and \<^verbatim>\<open>big.Int.BitLen\<close>.\<close>

function mag_bytes :: "int \<Rightarrow> bytes" where
  "mag_bytes n = (if n \<le> 0 then [] else mag_bytes (n div 256) @ [word_of_int (n mod 256)])"
  by auto
termination by (relation "measure nat") auto

function bit_len :: "int \<Rightarrow> int" where
  "bit_len n = (if n \<le> 0 then 0 else 1 + bit_len (n div 2))"
  by auto
termination by (relation "measure nat") auto

declare mag_bytes.simps [simp del] bit_len.simps [simp del]

definition BitLen :: "int \<Rightarrow> int" where
  "BitLen x = bit_len \<bar>x\<bar>"

definition encodeBigIntSigned :: "int option \<Rightarrow> werror + bytes" where
  "encodeBigIntSigned x =
    (case x of
       None \<Rightarrow> Inr [0]
     | Some x \<Rightarrow>
         if x = 0 then Inr [0]
         else if x < 0 then Inr (1 # mag_bytes \<bar>x\<bar>)
         else Inr (0 # mag_bytes \<bar>x\<bar>))"

definition decodeBigIntSigned :: "bytes \<Rightarrow> werror + int" where
  "decodeBigIntSigned b =
    (case b of
       [] \<Rightarrow> Inl ''signed integer: empty encoding''
     | sign # mag \<Rightarrow>
         if sign \<noteq> 0 \<and> sign \<noteq> 1 then Inl ''signed integer: invalid sign byte''
         else if mag = [] then
           (if sign = 0 then Inr 0 else Inl ''signed integer: negative zero is invalid'')
         else if hd mag = 0 then Inl ''signed integer: non-minimal magnitude (leading zero)''
         else Inr (if sign = 1 then - be_int mag else be_int mag))"

definition encodeBigUint :: "int option \<Rightarrow> werror + bytes" where
  "encodeBigUint x =
    (case x of
       None \<Rightarrow> Inr []
     | Some x \<Rightarrow>
         if x < 0 then Inl ''unsigned integer: negative value''
         else if x = 0 then Inr []
         else Inr (mag_bytes \<bar>x\<bar>))"

definition decodeBigUint :: "bytes \<Rightarrow> werror + int" where
  "decodeBigUint b =
    (if b = [] then Inr 0
     else if hd b = 0 then Inl ''unsigned integer: non-minimal encoding''
     else Inr (be_int b))"

definition encodeBigPos :: "int option \<Rightarrow> werror + bytes" where
  "encodeBigPos x =
    (case x of
       None \<Rightarrow> Inl ''positive integer: nil value''
     | Some x \<Rightarrow> if x \<le> 0 then Inl ''positive integer: must be > 0'' else Inr (mag_bytes \<bar>x\<bar>))"

definition decodeBigPos :: "bytes \<Rightarrow> werror + int" where
  "decodeBigPos b =
    (if b = [] then Inl ''positive integer: empty encoding''
     else if hd b = 0 then Inl ''positive integer: non-minimal encoding''
     else let x = be_int b in
       if x \<le> 0 then Inl ''positive integer: value must be positive'' else Inr x)"

definition bigIntFromValue :: "fieldSchema \<Rightarrow> 'c rvalue \<Rightarrow> werror + int option" where
  "bigIntFromValue fs v =
    (case v of
       VPtr None \<Rightarrow> if fs_typ fs = TPtr TBig then Inr None else panic
     | VPtr (Some (VBig x)) \<Rightarrow> if fs_typ fs = TPtr TBig then Inr (Some x) else panic
     | VBig x \<Rightarrow> if fs_typ fs = TBig then Inr (Some x) else panic
     | _ \<Rightarrow> panic)"

definition setBigIntValue :: "fieldSchema \<Rightarrow> int \<Rightarrow> werror + 'c rvalue" where
  "setBigIntValue fs x =
    (if fs_typ fs = TPtr TBig then Inr (VPtr (Some (VBig x)))
     else if fs_typ fs = TBig then Inr (VBig x) else panic)"

text \<open>
  The three encode dispatchers differ in the codec and in \<^verbatim>\<open>required\<close>: \<^verbatim>\<open>bigint\<close> and \<^verbatim>\<open>biguint\<close> refuse a
  nil pointer themselves, \<^verbatim>\<open>bigpos\<close> leaves that to \<^verbatim>\<open>encodeBigPos\<close>.
\<close>

definition encodeBigDispatch ::
  "bool \<Rightarrow> (int option \<Rightarrow> werror + bytes) \<Rightarrow> fieldSchema \<Rightarrow> 'c rvalue \<Rightarrow> FieldLimits \<Rightarrow> werror + bytes" where
  "encodeBigDispatch required enc fs v L =
    (case bigIntFromValue fs v of
       Inl e \<Rightarrow> Inl e
     | Inr x \<Rightarrow>
         if required \<and> x = None then Inl ''required field is nil''
         else (case checkBitsLimit fs (case x of None \<Rightarrow> 0 | Some y \<Rightarrow> BitLen y) L of
                 Inl e \<Rightarrow> Inl e
               | Inr _ \<Rightarrow>
                   (case enc x of
                      Inl e \<Rightarrow> Inl e
                    | Inr out \<Rightarrow> (case checkByteLimits fs out L of Inl e \<Rightarrow> Inl e | Inr _ \<Rightarrow> Inr out))))"

definition encodeBigIntDispatch :: "fieldSchema \<Rightarrow> 'c rvalue \<Rightarrow> FieldLimits \<Rightarrow> werror + bytes" where
  "encodeBigIntDispatch fs v L = encodeBigDispatch True encodeBigIntSigned fs v L"

definition encodeBigUintDispatch :: "fieldSchema \<Rightarrow> 'c rvalue \<Rightarrow> FieldLimits \<Rightarrow> werror + bytes" where
  "encodeBigUintDispatch fs v L = encodeBigDispatch True encodeBigUint fs v L"

definition encodeBigPosDispatch :: "fieldSchema \<Rightarrow> 'c rvalue \<Rightarrow> FieldLimits \<Rightarrow> werror + bytes" where
  "encodeBigPosDispatch fs v L = encodeBigDispatch False encodeBigPos fs v L"

definition decodeBigDispatch ::
  "(bytes \<Rightarrow> werror + int) \<Rightarrow> fieldSchema \<Rightarrow> bytes \<Rightarrow> FieldLimits \<Rightarrow> werror + 'c rvalue" where
  "decodeBigDispatch dec fs raw L =
    (case checkByteLimits fs raw L of
       Inl e \<Rightarrow> Inl e
     | Inr _ \<Rightarrow>
         (case dec raw of
            Inl e \<Rightarrow> Inl e
          | Inr x \<Rightarrow>
              (case checkBitsLimit fs (BitLen x) L of Inl e \<Rightarrow> Inl e | Inr _ \<Rightarrow> setBigIntValue fs x)))"

definition decodeBigIntDispatch :: "fieldSchema \<Rightarrow> bytes \<Rightarrow> FieldLimits \<Rightarrow> werror + 'c rvalue" where
  "decodeBigIntDispatch fs raw L = decodeBigDispatch decodeBigIntSigned fs raw L"

definition decodeBigUintDispatch :: "fieldSchema \<Rightarrow> bytes \<Rightarrow> FieldLimits \<Rightarrow> werror + 'c rvalue" where
  "decodeBigUintDispatch fs raw L = decodeBigDispatch decodeBigUint fs raw L"

definition decodeBigPosDispatch :: "fieldSchema \<Rightarrow> bytes \<Rightarrow> FieldLimits \<Rightarrow> werror + 'c rvalue" where
  "decodeBigPosDispatch fs raw L = decodeBigDispatch decodeBigPos fs raw L"

section \<open>Custom values\<close>

definition unmarshalCompleteCustomValue ::
  "(bytes \<Rightarrow> werror + ('c \<times> int)) \<Rightarrow> bytes \<Rightarrow> werror + 'c" where
  "unmarshalCompleteCustomValue u raw =
    (case u raw of
       Inl e \<Rightarrow> Inl e
     | Inr (x, consumed) \<Rightarrow>
         if consumed < 0 \<or> consumed > int (length raw) then Inl ''invalid consumed byte count''
         else if consumed \<noteq> int (length raw) then Inl ''trailing custom value data''
         else Inr x)"

definition encodeCustom :: "'c methods \<Rightarrow> fieldSchema \<Rightarrow> 'c rvalue \<Rightarrow> FieldLimits \<Rightarrow> werror + bytes" where
  "encodeCustom M fs v L =
    (case (case v of
             VPtr None \<Rightarrow> if isPtr (fs_typ fs) then Inl ''nil custom field'' else panic
           | VPtr (Some (VCustom c)) \<Rightarrow> if isPtr (fs_typ fs) then Inr c else panic
           | VCustom c \<Rightarrow> if isPtr (fs_typ fs) then panic else Inr c
           | _ \<Rightarrow> panic) of
       Inl e \<Rightarrow> Inl e
     | Inr c \<Rightarrow>
         (case methodOf (MarshalWireValue M) (fs_typ fs) of
            None \<Rightarrow> Inl ''does not implement MarshalWireValue''
          | Some m \<Rightarrow>
              (case m c of
                 Inl e \<Rightarrow> Inl e
               | Inr None \<Rightarrow> Inl ''custom field returned nil''
               | Inr (Some out) \<Rightarrow>
                   (case checkByteLimits fs out L of
                      Inl e \<Rightarrow> Inl e
                    | Inr _ \<Rightarrow>
                        (case checkCustomItemLimit fs out L of Inl e \<Rightarrow> Inl e | Inr _ \<Rightarrow> Inr out)))))"

definition decodeCustom :: "'c methods \<Rightarrow> fieldSchema \<Rightarrow> bytes \<Rightarrow> FieldLimits \<Rightarrow> werror + 'c rvalue" where
  "decodeCustom M fs raw L =
    (case checkByteLimits fs raw L of
       Inl e \<Rightarrow> Inl e
     | Inr _ \<Rightarrow>
         (case checkCustomItemLimit fs raw L of
            Inl e \<Rightarrow> Inl e
          | Inr _ \<Rightarrow>
              (case methodOf (UnmarshalWireValue M) (fs_typ fs) of
                 None \<Rightarrow> Inl ''does not implement UnmarshalWireValue''
               | Some u \<Rightarrow>
                   (case unmarshalCompleteCustomValue u raw of
                      Inl e \<Rightarrow> Inl e
                    | Inr c \<Rightarrow> Inr (if isPtr (fs_typ fs) then VPtr (Some (VCustom c)) else VCustom c)))))"

definition put_custom ::
  "('c \<Rightarrow> werror + bytes option) option \<Rightarrow> fieldSchema \<Rightarrow> FieldLimits \<Rightarrow> 'c option \<Rightarrow> bytes \<Rightarrow> werror + bytes" where
  "put_custom mo fs L elem out =
    (case elem of
       None \<Rightarrow> Inl ''customlist item is nil''
     | Some c \<Rightarrow>
         (case mo of
            None \<Rightarrow> Inl ''customlist item does not implement MarshalWireValue''
          | Some m \<Rightarrow>
              (case m c of
                 Inl e \<Rightarrow> Inl e
               | Inr None \<Rightarrow> Inl ''customlist item returned nil''
               | Inr (Some item) \<Rightarrow>
                   (case checkByteLimits fs item L of Inl e \<Rightarrow> Inl e | Inr _ \<Rightarrow> AppendBytesChecked out item))))"

definition get_custom ::
  "(bytes \<Rightarrow> werror + ('c \<times> int)) option \<Rightarrow> fieldSchema \<Rightarrow> int \<Rightarrow> bytes \<Rightarrow> int
    \<Rightarrow> werror + ('c option \<times> int)" where
  "get_custom uo fs maxItemBytes raw off =
    (case ReadBytesWithLimit maxItemBytes raw off of
       Inl e \<Rightarrow> Inl e
     | Inr (item, next) \<Rightarrow>
         (case checkFixedLen fs item of
            Inl e \<Rightarrow> Inl e
          | Inr _ \<Rightarrow>
              (case uo of
                 None \<Rightarrow> Inl ''customlist item does not implement UnmarshalWireValue''
               | Some u \<Rightarrow>
                   (case unmarshalCompleteCustomValue u item of
                      Inl e \<Rightarrow> Inl e
                    | Inr c \<Rightarrow> Inr (Some c, next)))))"

definition encodeCustomList :: "'c methods \<Rightarrow> fieldSchema \<Rightarrow> 'c rvalue \<Rightarrow> FieldLimits \<Rightarrow> werror + bytes" where
  "encodeCustomList M fs v L =
    (case v of
       VCustoms xs \<Rightarrow>
         if \<not> isPtr (elemType (fs_typ fs)) \<and> None \<in> set xs then panic
         else encodeMaxItems (put_custom (methodOf (MarshalWireValue M) (elemType (fs_typ fs))) fs L) fs xs L
     | _ \<Rightarrow> panic)"

definition decodeCustomList :: "'c methods \<Rightarrow> fieldSchema \<Rightarrow> bytes \<Rightarrow> FieldLimits \<Rightarrow> werror + 'c rvalue" where
  "decodeCustomList M fs raw L =
    map_sum id VCustoms
      (decodeLimited (get_custom (methodOf (UnmarshalWireValue M) (elemType (fs_typ fs))) fs) 4 fs raw L)"

end
