(* ===== verification/Wire_Codec.thy ===== *)
theory Wire_Codec
  imports Wire_Fields
begin

text \<open>
  Structs, record lists, maps and messages: \<^verbatim>\<open>codec_record.go\<close>, \<^verbatim>\<open>codec_map.go\<close>, the dispatchers
  \<^verbatim>\<open>encode\<close> and \<^verbatim>\<open>decode\<close> of \<^verbatim>\<open>codec.go\<close>, \<^verbatim>\<open>record_value.go\<close> and the object-level \<^verbatim>\<open>Marshal\<close> and
  \<^verbatim>\<open>Unmarshal\<close> of \<^verbatim>\<open>message.go\<close>.  The recursion descends the Go type of the field; the functions that are
  mutually recursive in the code take the dispatcher as an argument here.
\<close>

section \<open>Structs\<close>

definition structOf :: "gtype \<Rightarrow> gtype" where
  "structOf t = (if isPtr t then elemType t else t)"

definition deref :: "gtype \<Rightarrow> 'c rvalue \<Rightarrow> werror + 'c rvalue" where
  "deref t v =
    (case v of
       VPtr p \<Rightarrow> if isPtr t then (case p of None \<Rightarrow> Inl ''nil pointer'' | Some w \<Rightarrow> Inr w) else panic
     | _ \<Rightarrow> if isPtr t then panic else Inr v)"

definition refTo :: "gtype \<Rightarrow> 'c rvalue \<Rightarrow> 'c rvalue" where
  "refTo t v = (if isPtr t then VPtr (Some v) else v)"

definition shouldOmit :: "fieldSchema \<Rightarrow> 'c rvalue \<Rightarrow> bool" where
  "shouldOmit fs v \<longleftrightarrow> optional fs \<and> isPtr (fs_typ fs) \<and> v = VPtr None"

text \<open>\<^verbatim>\<open>runBeforeMarshalHook\<close> and \<^verbatim>\<open>runValidateHook\<close>, and their counterparts after decoding.\<close>

definition runBeforeMarshalHook :: "'c methods \<Rightarrow> gtype \<Rightarrow> 'c rvalue \<Rightarrow> werror + 'c rvalue" where
  "runBeforeMarshalHook M st v =
    (case methodOf (BeforeMarshalWire M) st of None \<Rightarrow> Inr v | Some h \<Rightarrow> h v)"

definition runValidateHook :: "'c methods \<Rightarrow> gtype \<Rightarrow> 'c rvalue \<Rightarrow> werror + 'c rvalue" where
  "runValidateHook M st v =
    (case methodOf (ValidateWire M) st of
       None \<Rightarrow> Inr v
     | Some h \<Rightarrow> (case h v of Inl e \<Rightarrow> Inl e | Inr _ \<Rightarrow> Inr v))"

definition runAfterUnmarshalHook :: "'c methods \<Rightarrow> gtype \<Rightarrow> 'c rvalue \<Rightarrow> werror + 'c rvalue" where
  "runAfterUnmarshalHook M st v =
    (case methodOf (AfterUnmarshalWire M) st of None \<Rightarrow> Inr v | Some h \<Rightarrow> h v)"

definition beforeEncode :: "'c methods \<Rightarrow> gtype \<Rightarrow> 'c rvalue \<Rightarrow> werror + 'c rvalue" where
  "beforeEncode M st v =
    (case runBeforeMarshalHook M st v of Inl e \<Rightarrow> Inl e | Inr v \<Rightarrow> runValidateHook M st v)"

definition afterDecode :: "'c methods \<Rightarrow> gtype \<Rightarrow> 'c rvalue \<Rightarrow> werror + 'c rvalue" where
  "afterDecode M st v =
    (case runAfterUnmarshalHook M st v of Inl e \<Rightarrow> Inl e | Inr v \<Rightarrow> runValidateHook M st v)"

fun encodeFields ::
  "(fieldSchema \<Rightarrow> 'c rvalue \<Rightarrow> werror + bytes) \<Rightarrow> fieldSchema list \<Rightarrow> 'c rvalue list \<Rightarrow> werror + Field list" where
  "encodeFields enc [] [] = Inr []"
| "encodeFields enc (f # fs) (v # vs) =
    (if shouldOmit f v then encodeFields enc fs vs
     else case enc f v of
       Inl e \<Rightarrow> Inl e
     | Inr raw \<Rightarrow>
         (case encodeFields enc fs vs of
            Inl e \<Rightarrow> Inl e
          | Inr flds \<Rightarrow> Inr (\<lparr>Tag = fs_tag f, Value = Some raw\<rparr> # flds)))"
| "encodeFields enc _ _ = panic"

text \<open>Schema lookup and field loop of \<^verbatim>\<open>Marshal\<close> and \<^verbatim>\<open>marshalRecordValue\<close>.\<close>

definition encodeStruct ::
  "(fieldSchema \<Rightarrow> 'c rvalue \<Rightarrow> werror + bytes) \<Rightarrow> 'c methods \<Rightarrow> gtype \<Rightarrow> 'c rvalue \<Rightarrow> werror + Field list" where
  "encodeStruct enc M st v =
    (case parseSchema M st of
       Inl e \<Rightarrow> Inl e
     | Inr s \<Rightarrow> (case v of VStruct vals \<Rightarrow> encodeFields enc s vals | _ \<Rightarrow> panic))"

definition marshalRecordValue ::
  "(fieldSchema \<Rightarrow> 'c rvalue \<Rightarrow> werror + bytes) \<Rightarrow> 'c methods \<Rightarrow> gtype \<Rightarrow> 'c rvalue \<Rightarrow> werror + bytes" where
  "marshalRecordValue enc M t v =
    (case deref t v of
       Inl e \<Rightarrow> Inl e
     | Inr w \<Rightarrow>
         if rkind_of (structOf t) \<noteq> StructK then Inl ''record must be struct''
         else (case beforeEncode M (structOf t) w of
                 Inl e \<Rightarrow> Inl e
               | Inr w \<Rightarrow>
                   (case encodeStruct enc M (structOf t) w of
                      Inl e \<Rightarrow> Inl e
                    | Inr flds \<Rightarrow> marshalFieldBody flds)))"

definition put_record ::
  "(fieldSchema \<Rightarrow> 'c rvalue \<Rightarrow> werror + bytes) \<Rightarrow> 'c methods \<Rightarrow> gtype \<Rightarrow> 'c rvalue \<Rightarrow> bytes \<Rightarrow> werror + bytes" where
  "put_record enc M t el out =
    (case marshalRecordValue enc M t el of
       Inl e \<Rightarrow> Inl e
     | Inr r \<Rightarrow> if int (length r) > 0xFFFFFFFF then Inl ''recordlist item length exceeds uint32''
                else Inr (out @ Uint32 (word_of_int (int (length r))) @ r))"

definition encodeRecordList ::
  "(fieldSchema \<Rightarrow> 'c rvalue \<Rightarrow> werror + bytes) \<Rightarrow> 'c methods \<Rightarrow> fieldSchema \<Rightarrow> 'c rvalue \<Rightarrow> FieldLimits
    \<Rightarrow> werror + bytes" where
  "encodeRecordList enc M fs v L =
    (case v of
       VStructs xs \<Rightarrow> encodeMaxItems (put_record enc M (elemType (fs_typ fs))) fs xs L
     | _ \<Rightarrow> panic)"

text \<open>\<^verbatim>\<open>marshalCustomMessage\<close>, for a message with a codec of its own.\<close>

definition marshalSelfCheckLimits :: "bytes \<Rightarrow> FrameLimits" where
  "marshalSelfCheckLimits raw =
    \<lparr>MaxTotalBytes = int (length raw), MaxFields = maxRecordCount, MaxFieldBytes = int (length raw)\<rparr>"

definition marshalCustomMessage ::
  "('c rvalue \<Rightarrow> FieldLimits \<Rightarrow> werror + bytes option) \<Rightarrow> string \<times> u16 \<Rightarrow> 'c rvalue \<Rightarrow> FieldLimits
    \<Rightarrow> werror + bytes" where
  "marshalCustomMessage mm wm v L =
    (case mm v L of
       Inl e \<Rightarrow> Inl e
     | Inr None \<Rightarrow> Inl ''MarshalWireMessage returned nil''
     | Inr (Some raw) \<Rightarrow>
         (case validateMessageFrame raw (fst wm) (snd wm) (marshalSelfCheckLimits raw) of
            Inl e \<Rightarrow> Inl e
          | Inr _ \<Rightarrow> Inr raw))"

definition marshalMessage ::
  "(fieldSchema \<Rightarrow> 'c rvalue \<Rightarrow> werror + bytes) \<Rightarrow> 'c methods \<Rightarrow> gtype \<Rightarrow> 'c rvalue \<Rightarrow> FieldLimits
    \<Rightarrow> werror + bytes" where
  "marshalMessage enc M t v L =
    (case deref t v of
       Inl e \<Rightarrow> Inl e
     | Inr w \<Rightarrow>
         if rkind_of (structOf t) \<noteq> StructK then Inl ''expected struct''
         else (case methodOf (WireMessage M) (structOf t) of
                 None \<Rightarrow> Inl ''does not implement Message''
               | Some wm \<Rightarrow>
                   (case beforeEncode M (structOf t) w of
                      Inl e \<Rightarrow> Inl e
                    | Inr w \<Rightarrow>
                        (case methodOf (MarshalWireMessage M) (structOf t) of
                           Some mm \<Rightarrow> marshalCustomMessage mm wm w L
                         | None \<Rightarrow>
                             (case encodeStruct enc M (structOf t) w of
                                Inl e \<Rightarrow> Inl e
                              | Inr flds \<Rightarrow> MarshalFields (snd wm) (fst wm) flds)))))"

section \<open>Maps\<close>

definition valueFS :: "fieldSchema \<Rightarrow> fieldSchema" where
  "valueFS fs =
    \<lparr>fs_tag = fs_tag fs, fs_name = fs_name fs @ '' value'', fs_kind = mapValueKind fs,
     fs_typ = mapValueType fs, fixedLen = fixedLen fs, fixedLenSet = fixedLenSet fs,
     maxBytes = maxBytes fs, maxItems = [], maxBits = maxBits fs, optional = False,
     mapKeyType = TOther, mapValueType = TOther, mapValueKind = kindU8\<rparr>"

definition put_entry :: "bytes \<times> bytes \<Rightarrow> bytes \<Rightarrow> werror + bytes" where
  "put_entry e out =
    (case AppendBytesChecked out (fst e) of Inl e \<Rightarrow> Inl e | Inr out \<Rightarrow> AppendBytesChecked out (snd e))"

fun encodeEntries ::
  "(fieldSchema \<Rightarrow> 'c rvalue \<Rightarrow> werror + bytes) \<Rightarrow> fieldSchema \<Rightarrow> (u32 \<times> 'c rvalue) list
    \<Rightarrow> werror + (bytes \<times> bytes) list" where
  "encodeEntries enc vfs [] = Inr []"
| "encodeEntries enc vfs ((k, v) # xs) =
    (case enc vfs v of
       Inl e \<Rightarrow> Inl e
     | Inr raw \<Rightarrow>
         (case encodeEntries enc vfs xs of Inl e \<Rightarrow> Inl e | Inr es \<Rightarrow> Inr ((Uint32 k, raw) # es)))"

definition encodeMap ::
  "(fieldSchema \<Rightarrow> 'c rvalue \<Rightarrow> werror + bytes) \<Rightarrow> fieldSchema \<Rightarrow> 'c rvalue \<Rightarrow> FieldLimits \<Rightarrow> werror + bytes" where
  "encodeMap enc fs v L =
    (case v of
       VMap None \<Rightarrow> Inr (Uint32 0)
     | VMap (Some xs) \<Rightarrow>
         if int (length xs) > 0xFFFFFFFF then Inl ''map count exceeds uint32''
         else (case optLimit (maxItems fs) L of
                 Inl e \<Rightarrow> Inl e
               | Inr mi \<Rightarrow>
                   if \<not> countWithin mi xs then Inl ''map count exceeds max_items''
                   else (case encodeEntries enc (valueFS fs) xs of
                           Inl e \<Rightarrow> Inl e
                         | Inr es \<Rightarrow>
                             let es = sort_key fst es in
                             if \<not> sorted_wrt (<) (map fst es)
                             then Inl ''map entries contain duplicate canonical key''
                             else encode_counted put_entry es))
     | _ \<Rightarrow> panic)"

section \<open>The recursion on types\<close>

text \<open>
  The descent measure: record fields are smaller than the struct type, and a map value's schema is
  smaller than the map's.
\<close>

definition fs_size :: "fieldSchema \<Rightarrow> nat" where
  "fs_size fs =
    (if fs_kind fs = kindMap then
       (if mapValueKind fs = kindMap then 3 + size TOther else 2 + size (mapValueType fs))
     else 1 + size (fs_typ fs))"

definition schemaOf :: "'c methods \<Rightarrow> gtype \<Rightarrow> fieldSchema list" where
  "schemaOf M st = (case parseSchema M st of Inl e \<Rightarrow> [] | Inr s \<Rightarrow> s)"

lemma size_underlying: "size (underlying t) \<le> size t"
  by (induction t) auto

lemma size_elemType: "rkind_of t \<in> {SliceK, ArrayK, MapK, PointerK} \<Longrightarrow> size (elemType t) < size t"
  using size_underlying [of t]
  by (auto simp: rkind_of_def elemType_def split: gtype.splits)

lemma mem_size_list: "x \<in> set xs \<Longrightarrow> f x < size_list f xs"
  by (induction xs) auto

lemma size_structFields:
  assumes "sf \<in> set (structFields t)"
  shows "size (sf_Type sf) < size t"
proof -
  obtain fs where u: "underlying t = TStruct fs" "sf \<in> set fs"
    using assms by (cases "underlying t") (auto simp: structFields_def)
  have "size (sf_Type sf) \<le> size_structField size sf" by (cases sf) simp
  also have "\<dots> < size_list (size_structField size) fs"
    using u(2) by (rule mem_size_list)
  finally show ?thesis using u(1) size_underlying [of t] by simp
qed

lemma size_structOf: "size (structOf t) \<le> size t"
  using size_elemType [of t] by (auto simp: structOf_def isPtr_def)

lemma fs_size_schemaOf:
  assumes "f \<in> set (schemaOf M (structOf t))"
  shows "fs_size f < 1 + size t"
proof -
  obtain s where s: "parseSchema M (structOf t) = Inr s" "f \<in> set s"
    using assms by (cases "parseSchema M (structOf t)") (auto simp: schemaOf_def)
  then obtain sf where sf: "sf \<in> set (structFields (structOf t))" "field_from M sf f"
    using parseSchema_inv by blast
  have "size (fs_typ f) < size t"
    using size_structFields [OF sf(1)] size_structOf [of t] sf(2) by (simp add: field_from_def)
  then show ?thesis
    using sf(2) size_elemType [of "fs_typ f"] inferMapValueKind_not_map
    by (auto simp: fs_size_def field_from_def)
qed

lemma fs_size_valueFS: "fs_kind fs = kindMap \<Longrightarrow> fs_size (valueFS fs) < fs_size fs"
  by (auto simp: fs_size_def valueFS_def)

lemma encodeFields_cong:
  assumes "s = s'" "vs = vs'" "\<And>f v. f \<in> set s' \<Longrightarrow> enc f v = enc' f v"
  shows "encodeFields enc s vs = encodeFields enc' s' vs'"
  using assms(3) unfolding assms(1,2)
proof (induction enc s' vs' rule: encodeFields.induct)
  case (2 enc f fs v vs)
  then show ?case by (cases "enc f v") auto
qed auto

lemma encodeStruct_cong:
  assumes "\<And>f v. f \<in> set (schemaOf M st) \<Longrightarrow> enc f v = enc' f v"
  shows "encodeStruct enc M st v = encodeStruct enc' M st v"
proof (cases "parseSchema M st")
  case (Inr s)
  then have "schemaOf M st = s" by (simp add: schemaOf_def)
  with assms have "\<And>vals. encodeFields enc s vals = encodeFields enc' s vals"
    by (intro encodeFields_cong) auto
  with Inr show ?thesis by (auto simp: encodeStruct_def split: rvalue.splits)
qed (simp add: encodeStruct_def)

lemma marshalRecordValue_cong [fundef_cong]:
  assumes "M = M'" "t = t'" "v = v'"
    "\<And>f w. f \<in> set (schemaOf M' (structOf t')) \<Longrightarrow> enc f w = enc' f w"
  shows "marshalRecordValue enc M t v = marshalRecordValue enc' M' t' v'"
  using encodeStruct_cong [of M' "structOf t'" enc enc'] assms
  by (auto simp: marshalRecordValue_def split: sum.splits)

lemma marshalMessage_cong [fundef_cong]:
  assumes "M = M'" "t = t'" "v = v'" "L = L'"
    "\<And>f w. f \<in> set (schemaOf M' (structOf t')) \<Longrightarrow> enc f w = enc' f w"
  shows "marshalMessage enc M t v L = marshalMessage enc' M' t' v' L'"
  using encodeStruct_cong [of M' "structOf t'" enc enc'] assms
  by (auto simp: marshalMessage_def split: sum.splits option.splits)

lemma encodeRecordList_cong [fundef_cong]:
  assumes "M = M'" "fs = fs'" "v = v'" "L = L'"
    "\<And>f w. f \<in> set (schemaOf M' (structOf (elemType (fs_typ fs')))) \<Longrightarrow> enc f w = enc' f w"
  shows "encodeRecordList enc M fs v L = encodeRecordList enc' M' fs' v' L'"
proof -
  have "marshalRecordValue enc M' (elemType (fs_typ fs')) x = marshalRecordValue enc' M' (elemType (fs_typ fs')) x" for x
    by (rule marshalRecordValue_cong) (use assms(5) in auto)
  then have "put_record enc M' (elemType (fs_typ fs')) = put_record enc' M' (elemType (fs_typ fs'))"
    by (intro ext) (simp add: put_record_def)
  note e = this
  show ?thesis unfolding encodeRecordList_def assms(1-4) e by (rule refl)
qed

lemma encodeEntries_cong:
  "(\<And>w. enc vfs w = enc' vfs w) \<Longrightarrow> encodeEntries enc vfs xs = encodeEntries enc' vfs xs"
  by (induction xs) (auto split: sum.splits)

lemma encodeMap_cong [fundef_cong]:
  assumes "fs = fs'" "v = v'" "L = L'" "\<And>w. enc (valueFS fs') w = enc' (valueFS fs') w"
  shows "encodeMap enc fs v L = encodeMap enc' fs' v' L'"
proof -
  have e: "encodeEntries enc (valueFS fs') = encodeEntries enc' (valueFS fs')"
    using encodeEntries_cong [of enc "valueFS fs'" enc', OF assms(4)] by (rule ext)
  show ?thesis unfolding encodeMap_def assms(1-3) e by (rule refl)
qed

function encode :: "'c methods \<Rightarrow> FieldLimits \<Rightarrow> fieldSchema \<Rightarrow> 'c rvalue \<Rightarrow> werror + bytes" where
  "encode M L fs v =
    (case fs_kind fs of
       kindU8 \<Rightarrow> (case v of VU8 b \<Rightarrow> if rkind_of (fs_typ fs) = Uint8K then Inr [b] else panic | _ \<Rightarrow> panic)
     | kindU16 \<Rightarrow>
         (case v of VU16 w \<Rightarrow> if rkind_of (fs_typ fs) = Uint16K then Inr (Uint16 w) else panic | _ \<Rightarrow> panic)
     | kindU32 \<Rightarrow> encodeU32 fs v
     | kindBool \<Rightarrow>
         (case v of VBool b \<Rightarrow> if rkind_of (fs_typ fs) = BoolK then Inr (Bool_bytes b) else panic | _ \<Rightarrow> panic)
     | kindBytes \<Rightarrow> encodeBytes fs v L
     | kindString \<Rightarrow> encodeString fs v L
     | kindU32List \<Rightarrow> encodeU32List fs v L
     | kindBytesList \<Rightarrow> encodeBytesList fs v L
     | kindPartyBytes \<Rightarrow> encodePartyBytes fs v L
     | kindPartyBytePairs \<Rightarrow> encodePartyBytePairs fs v L
     | kindNested \<Rightarrow>
         (case marshalMessage (encode M L) M (fs_typ fs) v L of
            Inl e \<Rightarrow> Inl e
          | Inr raw \<Rightarrow> (case checkByteLimits fs raw L of Inl e \<Rightarrow> Inl e | Inr _ \<Rightarrow> Inr raw))
     | kindCustom \<Rightarrow> encodeCustom M fs v L
     | kindCustomList \<Rightarrow> encodeCustomList M fs v L
     | kindBigInt \<Rightarrow> encodeBigIntDispatch fs v L
     | kindBigUint \<Rightarrow> encodeBigUintDispatch fs v L
     | kindBigPos \<Rightarrow> encodeBigPosDispatch fs v L
     | kindRecord \<Rightarrow> marshalRecordValue (encode M L) M (fs_typ fs) v
     | kindRecordList \<Rightarrow>
         if rkind_of (fs_typ fs) \<noteq> SliceK then panic else encodeRecordList (encode M L) M fs v L
     | kindMap \<Rightarrow> encodeMap (encode M L) fs v L)"
  by pat_completeness auto

lemma fs_size_elem:
  assumes "rkind_of (fs_typ fs) = SliceK" "f \<in> set (schemaOf M (structOf (elemType (fs_typ fs))))"
  shows "fs_size f < 1 + size (fs_typ fs)"
  using fs_size_schemaOf [OF assms(2)] size_elemType [of "fs_typ fs"] assms(1) by simp

termination encode
proof (relation "measure (\<lambda>(M, L, fs, v). fs_size fs)", goal_cases)
  case (2 M L fs v f w)
  then show ?case using fs_size_schemaOf [of f M "fs_typ fs"] by (simp add: fs_size_def)
next
  case (3 M L fs v f w)
  then show ?case using fs_size_schemaOf [of f M "fs_typ fs"] by (simp add: fs_size_def)
next
  case (4 M L fs v f w)
  then show ?case using fs_size_elem [of fs f M] by (simp add: fs_size_def)
next
  case (5 M L fs v w)
  then show ?case using fs_size_valueFS by simp
qed simp

declare encode.simps [simp del]

definition Marshal :: "'c methods \<Rightarrow> gtype \<Rightarrow> 'c rvalue \<Rightarrow> FieldLimits \<Rightarrow> werror + bytes" where
  "Marshal M t v L = marshalMessage (encode M L) M t v L"

definition MarshalRecordValue :: "'c methods \<Rightarrow> gtype \<Rightarrow> 'c rvalue \<Rightarrow> FieldLimits \<Rightarrow> werror + bytes" where
  "MarshalRecordValue M t v L = marshalRecordValue (encode M L) M t v"

section \<open>Decoding\<close>

text \<open>A field that is absent keeps its zero value; only optional pointer fields can be absent.\<close>

fun decodeFields ::
  "(fieldSchema \<Rightarrow> bytes \<Rightarrow> werror + 'c rvalue) \<Rightarrow> fieldSchema list \<Rightarrow> Field option list \<Rightarrow> werror + 'c rvalue list" where
  "decodeFields dec (f # fs) (m # ms) =
    (case m of
       None \<Rightarrow> map_sum id (Cons (VPtr None)) (decodeFields dec fs ms)
     | Some fld \<Rightarrow>
         (case dec f (field_value fld) of
            Inl e \<Rightarrow> Inl e
          | Inr v \<Rightarrow> map_sum id (Cons v) (decodeFields dec fs ms)))"
| "decodeFields dec _ _ = Inr []"

definition decodeStruct ::
  "(fieldSchema \<Rightarrow> bytes \<Rightarrow> werror + 'c rvalue) \<Rightarrow> 'c methods \<Rightarrow> gtype \<Rightarrow> Field list \<Rightarrow> werror + 'c rvalue" where
  "decodeStruct dec M st flds =
    (case parseSchema M st of
       Inl e \<Rightarrow> Inl e
     | Inr s \<Rightarrow>
         (case matchFields s flds of
            Inl e \<Rightarrow> Inl e
          | Inr ms \<Rightarrow>
              (case decodeFields dec s ms of Inl e \<Rightarrow> Inl e | Inr vals \<Rightarrow> afterDecode M st (VStruct vals))))"

definition unmarshalRecordValue ::
  "(fieldSchema \<Rightarrow> bytes \<Rightarrow> werror + 'c rvalue) \<Rightarrow> 'c methods \<Rightarrow> gtype \<Rightarrow> bytes \<Rightarrow> FrameLimits
    \<Rightarrow> werror + 'c rvalue" where
  "unmarshalRecordValue dec M t raw F =
    (if rkind_of (structOf t) \<noteq> StructK then Inl ''record must be struct''
     else case parseSchema M (structOf t) of
       Inl e \<Rightarrow> Inl e
     | Inr _ \<Rightarrow>
         (case decodeFieldBody raw 0 F fieldDecodeView of
            Inl e \<Rightarrow> Inl e
          | Inr (flds, off) \<Rightarrow>
              if off \<noteq> int (length raw) then Inl ''trailing bytes''
              else map_sum id (refTo t) (decodeStruct dec M (structOf t) flds)))"

definition get_record ::
  "(fieldSchema \<Rightarrow> bytes \<Rightarrow> werror + 'c rvalue) \<Rightarrow> 'c methods \<Rightarrow> gtype \<Rightarrow> FrameLimits \<Rightarrow> bytes \<Rightarrow> int
    \<Rightarrow> werror + ('c rvalue \<times> int)" where
  "get_record dec M t F raw off =
    (case ReadUint32 raw off of
       Inl e \<Rightarrow> Inl e
     | Inr (recLen, off) \<Rightarrow>
         if int (length raw) - off < uint recLen then Inl ''truncated recordlist item''
         else (case unmarshalRecordValue dec M t (subslice raw off (off + uint recLen)) F of
                 Inl e \<Rightarrow> Inl e
               | Inr v \<Rightarrow> Inr (v, off + uint recLen)))"

definition decodeRecordList ::
  "(fieldSchema \<Rightarrow> bytes \<Rightarrow> werror + 'c rvalue) \<Rightarrow> 'c methods \<Rightarrow> fieldSchema \<Rightarrow> bytes \<Rightarrow> FieldLimits \<Rightarrow> FrameLimits
    \<Rightarrow> werror + 'c rvalue" where
  "decodeRecordList dec M fs raw L F =
    (if length raw < 4 then Inl ''truncated recordlist count''
     else case ReadUint32 raw 0 of
       Inl e \<Rightarrow> Inl e
     | Inr (count, off) \<Rightarrow>
         if uint count > maxRecordCount then Inl ''recordlist count too large''
         else (case optLimit (maxItems fs) L of
                 Inl e \<Rightarrow> Inl e
               | Inr mi \<Rightarrow>
                   if mi > 0 \<and> uint count > mi then Inl ''recordlist count exceeds max_items''
                   else (case decode_items (get_record dec M (elemType (fs_typ fs)) F) (unat count) raw off of
                           Inl e \<Rightarrow> Inl e
                         | Inr (xs, off) \<Rightarrow>
                             if off \<noteq> int (length raw) then Inl ''trailing recordlist data''
                             else Inr (VStructs xs))))"

text \<open>\<^verbatim>\<open>Unmarshal\<close> builds the value aside and stores it into \<^verbatim>\<open>dst\<close> only on success.\<close>

definition unmarshalMessage ::
  "(FrameLimits \<Rightarrow> fieldSchema \<Rightarrow> bytes \<Rightarrow> werror + 'c rvalue) \<Rightarrow> 'c methods \<Rightarrow> gtype \<Rightarrow> bytes \<Rightarrow> FrameLimits
    \<Rightarrow> FieldLimits \<Rightarrow> werror + 'c rvalue" where
  "unmarshalMessage dec M t raw F L =
    (if rkind_of (structOf t) \<noteq> StructK then Inl ''dst must be pointer to struct''
     else case methodOf (WireMessage M) (structOf t) of
       None \<Rightarrow> Inl ''does not implement Message''
     | Some (wireType, wireVersion) \<Rightarrow>
         let limits = withDefaults F in
         (case methodOf (UnmarshalWireMessage M) (structOf t) of
            Some um \<Rightarrow>
              (case validateMessageFrame raw wireType wireVersion limits of
                 Inl e \<Rightarrow> Inl e
               | Inr _ \<Rightarrow>
                   (case um raw F L of
                      Inl e \<Rightarrow> Inl e
                    | Inr v \<Rightarrow> map_sum id (refTo t) (afterDecode M (structOf t) v)))
          | None \<Rightarrow>
              (case unmarshalFieldsWithLimits raw wireType limits fieldDecodeView of
                 Inl e \<Rightarrow> Inl e
               | Inr (version, flds) \<Rightarrow>
                   if version \<noteq> wireVersion then Inl ''got version''
                   else map_sum id (refTo t) (decodeStruct (dec limits) M (structOf t) flds))))"

definition mapValueByteLimit ::
  "fieldSchema \<Rightarrow> bytes \<Rightarrow> int \<Rightarrow> FieldLimits \<Rightarrow> FrameLimits \<Rightarrow> werror + int" where
  "mapValueByteLimit fs raw off L F =
    (case (if fixedLenSet fs then
             (case ReadUint32 raw off of
                Inl e \<Rightarrow> Inl e
              | Inr (valueLen, _) \<Rightarrow>
                  if uint valueLen \<noteq> fixedLen fs mod 2 ^ 64 then Inl ''map value length'' else Inr ())
           else Inr ()) of
       Inl e \<Rightarrow> Inl e
     | Inr _ \<Rightarrow>
         (case (if maxBytes fs \<noteq> [] then
                  (case getLimit (maxBytes fs) L of
                     Inl e \<Rightarrow> Inl e
                   | Inr semanticMax \<Rightarrow>
                       Inr (if MaxFieldBytes F \<le> 0 \<or> semanticMax < MaxFieldBytes F
                            then semanticMax else MaxFieldBytes F))
                else Inr (MaxFieldBytes F)) of
            Inl e \<Rightarrow> Inl e
          | Inr mx \<Rightarrow>
              Inr (if fixedLenSet fs \<and> (mx \<le> 0 \<or> fixedLen fs < mx) then fixedLen fs else mx)))"

fun decodeMapLoop ::
  "(fieldSchema \<Rightarrow> bytes \<Rightarrow> werror + 'c rvalue) \<Rightarrow> fieldSchema \<Rightarrow> FieldLimits \<Rightarrow> FrameLimits
    \<Rightarrow> nat \<Rightarrow> bytes option \<Rightarrow> (u32 \<times> 'c rvalue) list \<Rightarrow> bytes \<Rightarrow> int \<Rightarrow> werror + ((u32 \<times> 'c rvalue) list \<times> int)" where
  "decodeMapLoop dec fs L F 0 prev out raw off = Inr (out, off)"
| "decodeMapLoop dec fs L F (Suc n) prev out raw off =
    (case ReadBytesWithLimit 4 raw off of
       Inl e \<Rightarrow> Inl e
     | Inr (keyBytes, off) \<Rightarrow>
         if length keyBytes \<noteq> 4 then Inl ''map key length''
         else if (case prev of None \<Rightarrow> False | Some p \<Rightarrow> p \<ge> keyBytes)
         then Inl ''map entries not strictly sorted''
         else (case mapValueByteLimit fs raw off L F of
            Inl e \<Rightarrow> Inl e
          | Inr maxValueBytes \<Rightarrow>
              (case ReadBytesWithLimit maxValueBytes raw off of
                 Inl e \<Rightarrow> Inl e
               | Inr (valueBytes, off) \<Rightarrow>
                   (case DecodeUint32 keyBytes of
                      Inl e \<Rightarrow> Inl e
                    | Inr key \<Rightarrow>
                        (case dec (valueFS fs) valueBytes of
                           Inl e \<Rightarrow> Inl e
                         | Inr v \<Rightarrow>
                             if key \<in> fst ` set out then Inl ''map duplicate key''
                             else decodeMapLoop dec fs L F n (Some keyBytes) (out @ [(key, v)]) raw off)))))"

definition decodeMap ::
  "(fieldSchema \<Rightarrow> bytes \<Rightarrow> werror + 'c rvalue) \<Rightarrow> fieldSchema \<Rightarrow> bytes \<Rightarrow> FieldLimits \<Rightarrow> FrameLimits
    \<Rightarrow> werror + 'c rvalue" where
  "decodeMap dec fs raw L F =
    (case optLimit (maxItems fs) L of
       Inl e \<Rightarrow> Inl e
     | Inr mi \<Rightarrow>
         (case ReadUint32 raw 0 of
            Inl e \<Rightarrow> Inl e
          | Inr (count, off) \<Rightarrow>
              (case validateRecordCountWithLimit raw off count 12 mi of
                 Inl e \<Rightarrow> Inl e
               | Inr _ \<Rightarrow>
                   (case decodeMapLoop dec fs L F (unat count) None [] raw off of
                      Inl e \<Rightarrow> Inl e
                    | Inr (out, off) \<Rightarrow>
                        if off \<noteq> int (length raw) then Inl ''trailing map data''
                        else Inr (VMap (Some out))))))"

lemma decodeFields_cong:
  assumes "\<And>f r. f \<in> set s \<Longrightarrow> dec f r = dec' f r"
  shows "decodeFields dec s ms = decodeFields dec' s ms"
  using assms
proof (induction dec s ms rule: decodeFields.induct)
  case (1 dec f fs m ms)
  then show ?case by (auto split: option.splits sum.splits)
qed auto

lemma decodeStruct_cong:
  assumes "\<And>f r. f \<in> set (schemaOf M st) \<Longrightarrow> dec f r = dec' f r"
  shows "decodeStruct dec M st flds = decodeStruct dec' M st flds"
proof (cases "parseSchema M st")
  case (Inr s)
  then have "schemaOf M st = s" by (simp add: schemaOf_def)
  with assms have e: "decodeFields dec s = decodeFields dec' s"
    using decodeFields_cong [of s dec dec'] by blast
  show ?thesis unfolding decodeStruct_def Inr sum.case e by (rule refl)
qed (simp add: decodeStruct_def)

lemma unmarshalRecordValue_cong [fundef_cong]:
  assumes "M = M'" "t = t'" "raw = raw'" "F = F'"
    "\<And>f r. f \<in> set (schemaOf M' (structOf t')) \<Longrightarrow> dec f r = dec' f r"
  shows "unmarshalRecordValue dec M t raw F = unmarshalRecordValue dec' M' t' raw' F'"
proof -
  have e: "decodeStruct dec M' (structOf t') = decodeStruct dec' M' (structOf t')"
    using decodeStruct_cong [of M' "structOf t'" dec dec', OF assms(5)] by (rule ext)
  show ?thesis unfolding unmarshalRecordValue_def assms(1-4) e by (rule refl)
qed

lemma unmarshalMessage_cong [fundef_cong]:
  assumes "M = M'" "t = t'" "raw = raw'" "F = F'" "L = L'"
    "\<And>f r. f \<in> set (schemaOf M' (structOf t')) \<Longrightarrow> dec (withDefaults F') f r = dec' (withDefaults F') f r"
  shows "unmarshalMessage dec M t raw F L = unmarshalMessage dec' M' t' raw' F' L'"
proof -
  have e: "decodeStruct (dec (withDefaults F')) M' (structOf t') = decodeStruct (dec' (withDefaults F')) M' (structOf t')"
    using decodeStruct_cong [of M' "structOf t'" "dec (withDefaults F')" "dec' (withDefaults F')", OF assms(6)]
    by (rule ext)
  show ?thesis unfolding unmarshalMessage_def Let_def assms(1-5) e by (rule refl)
qed

lemma decodeRecordList_cong [fundef_cong]:
  assumes "M = M'" "fs = fs'" "raw = raw'" "L = L'" "F = F'"
    "\<And>f r. f \<in> set (schemaOf M' (structOf (elemType (fs_typ fs')))) \<Longrightarrow> dec f r = dec' f r"
  shows "decodeRecordList dec M fs raw L F = decodeRecordList dec' M' fs' raw' L' F'"
proof -
  have "unmarshalRecordValue dec M' (elemType (fs_typ fs')) x F' = unmarshalRecordValue dec' M' (elemType (fs_typ fs')) x F'" for x
    by (rule unmarshalRecordValue_cong) (use assms(6) in auto)
  then have e: "get_record dec M' (elemType (fs_typ fs')) F' = get_record dec' M' (elemType (fs_typ fs')) F'"
    by (intro ext) (auto simp: get_record_def split: sum.splits)
  show ?thesis unfolding decodeRecordList_def assms(1-5) e by (rule refl)
qed

lemma decodeMapLoop_cong:
  "(\<And>r. dec (valueFS fs) r = dec' (valueFS fs) r) \<Longrightarrow>
    decodeMapLoop dec fs L F n prev out raw off = decodeMapLoop dec' fs L F n prev out raw off"
proof (induction n arbitrary: prev out raw off)
  case (Suc n)
  have e: "decodeMapLoop dec fs L F n = decodeMapLoop dec' fs L F n" "dec (valueFS fs) = dec' (valueFS fs)"
    using Suc by (simp_all add: fun_eq_iff)
  show ?case unfolding decodeMapLoop.simps e by (rule refl)
qed simp

lemma decodeMap_cong [fundef_cong]:
  assumes "fs = fs'" "raw = raw'" "L = L'" "F = F'" "\<And>r. dec (valueFS fs') r = dec' (valueFS fs') r"
  shows "decodeMap dec fs raw L F = decodeMap dec' fs' raw' L' F'"
proof -
  have e: "decodeMapLoop dec fs' L' F' = decodeMapLoop dec' fs' L' F'"
    by (intro ext decodeMapLoop_cong assms(5))
  show ?thesis unfolding decodeMap_def assms(1-4) e by (rule refl)
qed

function decode ::
  "'c methods \<Rightarrow> FieldLimits \<Rightarrow> FrameLimits \<Rightarrow> fieldSchema \<Rightarrow> bytes \<Rightarrow> werror + 'c rvalue" where
  "decode M L F fs raw =
    (case fs_kind fs of
       kindU8 \<Rightarrow> if rkind_of (fs_typ fs) = Uint8K then decodeU8 raw else panic
     | kindU16 \<Rightarrow> if rkind_of (fs_typ fs) = Uint16K then decodeU16 raw else panic
     | kindU32 \<Rightarrow> decodeU32 fs raw
     | kindBool \<Rightarrow> if rkind_of (fs_typ fs) = BoolK then decodeBool raw else panic
     | kindBytes \<Rightarrow> decodeBytes fs raw L
     | kindString \<Rightarrow> decodeString fs raw L
     | kindU32List \<Rightarrow> decodeU32List fs raw L
     | kindBytesList \<Rightarrow> decodeBytesList fs raw L
     | kindPartyBytes \<Rightarrow> decodePartyBytes fs raw L
     | kindPartyBytePairs \<Rightarrow> decodePartyBytePairs fs raw L
     | kindNested \<Rightarrow>
         (case checkByteLimits fs raw L of
            Inl e \<Rightarrow> Inl e
          | Inr _ \<Rightarrow> unmarshalMessage (\<lambda>F. decode M L F) M (fs_typ fs) raw F L)
     | kindCustom \<Rightarrow> decodeCustom M fs raw L
     | kindCustomList \<Rightarrow> decodeCustomList M fs raw L
     | kindBigInt \<Rightarrow> decodeBigIntDispatch fs raw L
     | kindBigUint \<Rightarrow> decodeBigUintDispatch fs raw L
     | kindBigPos \<Rightarrow> decodeBigPosDispatch fs raw L
     | kindRecord \<Rightarrow> unmarshalRecordValue (decode M L F) M (fs_typ fs) raw F
     | kindRecordList \<Rightarrow>
         if rkind_of (fs_typ fs) \<noteq> SliceK then panic else decodeRecordList (decode M L F) M fs raw L F
     | kindMap \<Rightarrow> decodeMap (decode M L F) fs raw L F)"
  by pat_completeness auto

termination decode
proof (relation "measure (\<lambda>(M, L, F, fs, raw). fs_size fs)", goal_cases)
  case (2 M L F fs raw u f r)
  then show ?case using fs_size_schemaOf [of f M "fs_typ fs"] by (simp add: fs_size_def)
next
  case (3 M L F fs raw f r)
  then show ?case using fs_size_schemaOf [of f M "fs_typ fs"] by (simp add: fs_size_def)
next
  case (4 M L F fs raw f r)
  then show ?case using fs_size_elem [of fs f M] by (simp add: fs_size_def)
next
  case (5 M L F fs raw r)
  then show ?case using fs_size_valueFS by simp
qed simp

declare decode.simps [simp del]

definition Unmarshal ::
  "'c methods \<Rightarrow> gtype \<Rightarrow> bytes \<Rightarrow> FrameLimits \<Rightarrow> FieldLimits \<Rightarrow> werror + 'c rvalue" where
  "Unmarshal M t raw F L = unmarshalMessage (\<lambda>F. decode M L F) M t raw F L"

definition UnmarshalRecordValue ::
  "'c methods \<Rightarrow> gtype \<Rightarrow> bytes \<Rightarrow> FrameLimits \<Rightarrow> FieldLimits \<Rightarrow> werror + 'c rvalue" where
  "UnmarshalRecordValue M t raw F0 L =
    (let F = withDefaults F0 in
     case frame_limits_validate F of
       Inl e \<Rightarrow> Inl e
     | Inr _ \<Rightarrow>
         if MaxTotalBytes F > 0 \<and> int (length raw) > MaxTotalBytes F then Inl ''record input too large''
         else unmarshalRecordValue (decode M L F) M t raw F)"

section \<open>Precomputed fields (record\_value.go)\<close>

definition MarshalRecordFields :: "Field list \<Rightarrow> werror + bytes" where
  "MarshalRecordFields flds = marshalFieldBody flds"

definition UnmarshalRecordFieldsWithLimits :: "bytes \<Rightarrow> FrameLimits \<Rightarrow> werror + Field list" where
  "UnmarshalRecordFieldsWithLimits raw limits0 =
    (let limits = withDefaults limits0 in
     case frame_limits_validate limits of
       Inl e \<Rightarrow> Inl e
     | Inr _ \<Rightarrow>
         if MaxTotalBytes limits > 0 \<and> int (length raw) > MaxTotalBytes limits
         then Inl ''record input too large''
         else (case decodeFieldBody raw 0 limits fieldDecodeCopy of
                 Inl e \<Rightarrow> Inl e
               | Inr (flds, off) \<Rightarrow>
                   if off \<noteq> int (length raw) then Inl ''trailing record data'' else Inr flds))"

definition MarshalMessageBody :: "string \<times> u16 \<Rightarrow> Field list \<Rightarrow> werror + bytes" where
  "MarshalMessageBody wm flds = MarshalFields (snd wm) (fst wm) flds"

definition UnmarshalMessageBody :: "bytes \<Rightarrow> string \<times> u16 \<Rightarrow> FrameLimits \<Rightarrow> werror + Field list" where
  "UnmarshalMessageBody raw wm F =
    (case UnmarshalFieldsWithLimits raw (fst wm) (withDefaults F) of
       Inl e \<Rightarrow> Inl e
     | Inr (version, flds) \<Rightarrow> if version \<noteq> snd wm then Inl ''got version'' else Inr flds)"

end
