(* ===== verification/Wire_Laws.thy ===== *)
theory Wire_Laws
  imports Wire_Codec
begin

text \<open>
  The codecs of single fields as equivalences: for every kind that does not recurse into another struct, a
  byte string decodes to a value exactly when the value encodes to that byte string and is one the decoder
  can represent (at most \<^verbatim>\<open>maxRecordCount\<close> list elements, machine integers in range).  The custom kinds
  rely on the custom codec of the type, stated as a law of the method table.
\<close>

named_theorems leaf_iff "decoders of single fields as equivalences"

section \<open>Values a decoder can produce\<close>

text \<open>
  \<open>fits n v\<close>: lists have at most \<^verbatim>\<open>maxRecordCount\<close> elements, structs at most \<open>n\<close> fields, a machine integer is
  in range, and a map is listed by strictly increasing key.  A custom list is non-empty: an empty one is
  encoded without looking up the byte limit that its decoder insists on.
\<close>

primrec fits :: "int \<Rightarrow> 'c rvalue \<Rightarrow> bool" where
  "fits n (VU8 x) = True"
| "fits n (VU16 x) = True"
| "fits n (VU32 x) = True"
| "fits n (VInt i) = (- (2 ^ 63) \<le> i \<and> i < 2 ^ 63)"
| "fits n (VBool b) = True"
| "fits n (VString s) = True"
| "fits n (VBytes b) = True"
| "fits n (VU32s xs) = (int (length xs) \<le> maxRecordCount)"
| "fits n (VInts xs) = (int (length xs) \<le> maxRecordCount)"
| "fits n (VBytesList xs) = (int (length xs) \<le> maxRecordCount)"
| "fits n (VPartyBytes xs) = (int (length xs) \<le> maxRecordCount)"
| "fits n (VPartyPairs xs) = (int (length xs) \<le> maxRecordCount)"
| "fits n (VBig x) = True"
| "fits n (VCustom c) = True"
| "fits n (VCustoms xs) = (xs \<noteq> [] \<and> int (length xs) \<le> maxRecordCount)"
| "fits n (VPtr p) = (case map_option (fits n) p of None \<Rightarrow> True | Some b \<Rightarrow> b)"
| "fits n (VStruct vs) = (int (length vs) \<le> n \<and> list_all id (map (fits n) vs))"
| "fits n (VStructs vs) = (int (length vs) \<le> maxRecordCount \<and> list_all id (map (fits n) vs))"
| "fits n (VMap m) =
    (case map_option (map (map_prod id (fits n))) m of
       None \<Rightarrow> False
     | Some xs \<Rightarrow> int (length xs) \<le> maxRecordCount \<and> sorted_wrt (<) (map fst xs) \<and> list_all snd xs)"

lemma fits_VPtr_Some [simp]: "fits n (VPtr (Some v)) = fits n v"
  by simp

lemma fits_VStruct [simp]: "fits n (VStruct vs) \<longleftrightarrow> int (length vs) \<le> n \<and> list_all (fits n) vs"
  by (simp add: list_all_iff)

lemma fits_VStructs [simp]:
  "fits n (VStructs vs) \<longleftrightarrow> int (length vs) \<le> maxRecordCount \<and> list_all (fits n) vs"
  by (simp add: list_all_iff)

lemma fits_VMap [simp]:
  "fits n (VMap (Some xs)) \<longleftrightarrow>
    int (length xs) \<le> maxRecordCount \<and> sorted_wrt (<) (map fst xs) \<and> list_all (fits n \<circ> snd) xs"
proof -
  have "map (fst \<circ> map_prod id (fits n)) xs = map fst xs" by simp
  then show ?thesis by (simp add: list_all_iff)
qed

declare fits.simps(17,18,19) [simp del]

section \<open>Scalars, bytes and strings\<close>

lemma case_sum_Inr_iff:
  "(case r of Inl e \<Rightarrow> Inl e | Inr x \<Rightarrow> f x) = Inr y \<longleftrightarrow> (\<exists>x. r = Inr x \<and> f x = Inr y)"
  by (cases r) auto

lemma map_sum_Inr_iff: "map_sum id f r = Inr y \<longleftrightarrow> (\<exists>x. r = Inr x \<and> y = f x)"
  by (cases r) auto

lemma panic_not_Inr [simp]: "panic \<noteq> Inr x" "Inr x \<noteq> panic"
  by (simp_all add: panic_def)

lemma case_panic [simp]: "(case panic of Inl e \<Rightarrow> f e | Inr x \<Rightarrow> g x) = f ''reflect panic''"
  by (simp add: panic_def)

lemmas sum_iffs = case_sum_Inr_iff map_sum_Inr_iff

lemma decodeU8_iff [leaf_iff]: "decodeU8 raw = Inr v \<longleftrightarrow> (\<exists>b. v = VU8 b \<and> raw = [b])"
  by (auto simp: decodeU8_def split: list.splits)

lemma decodeU16_iff [leaf_iff]: "decodeU16 raw = Inr v \<longleftrightarrow> (\<exists>w. v = VU16 w \<and> raw = Uint16 w)"
  by (auto simp: decodeU16_def sum_iffs reader_iff)

lemma decodeBool_iff [leaf_iff]: "decodeBool raw = Inr v \<longleftrightarrow> (\<exists>b. v = VBool b \<and> raw = Bool_bytes b)"
  by (auto simp: decodeBool_def sum_iffs reader_iff)

lemma uint32_range: "0 \<le> uint (w :: u32)" "uint (w :: u32) \<le> 0xFFFFFFFF"
  using uint_bounded [of w] by simp_all

lemma word_of_int_inverse_u32: "0 \<le> n \<Longrightarrow> n \<le> 0xFFFFFFFF \<Longrightarrow> uint (word_of_int n :: u32) = n"
  by (simp add: uint_word_of_int_eq take_bit_int_eq_self)

lemma decodeU32_iff [leaf_iff]:
  "decodeU32 fs raw = Inr v \<longleftrightarrow> encodeU32 fs v = Inr raw \<and> fits n v"
proof (cases "rkind_of (fs_typ fs)")
  case IntK
  have *: "encodeU32 fs v = Inr raw \<and> fits n v \<longleftrightarrow> (\<exists>w. v = VInt (uint w) \<and> raw = Uint32 w)" (is "?L \<longleftrightarrow> ?R")
  proof
    assume l: ?L
    then obtain i where i: "v = VInt i"
      by (cases v) (auto simp: encodeU32_def uintValue_def IntK)
    with l have r: "- (2 ^ 63) \<le> i" "i < 2 ^ 63" "i mod 2 ^ 64 \<le> 0xFFFFFFFF"
      "raw = Uint32 (word_of_int (i mod 2 ^ 64))"
      by (auto simp: encodeU32_def uintValue_def IntK split: if_splits)
    have "i \<ge> 0"
    proof (rule ccontr)
      assume "\<not> i \<ge> 0"
      with r(1) have "(i + 2 ^ 64) mod 2 ^ 64 = i + 2 ^ 64" by (intro mod_pos_pos_trivial) auto
      with r(1,3) show False by simp
    qed
    with r have "i mod 2 ^ 64 = i" by simp
    with r \<open>i \<ge> 0\<close> have "v = VInt (uint (word_of_int i :: u32))" "raw = Uint32 (word_of_int i)"
      by (simp_all add: i word_of_int_inverse_u32)
    then show ?R by blast
  next
    assume ?R
    then obtain w where w: "v = VInt (uint w)" "raw = Uint32 w" by blast
    have "uint w mod 2 ^ 64 = uint w" using uint32_range [of w] by simp
    with w uint32_range [of w] show ?L
      by (auto simp: encodeU32_def uintValue_def IntK intro: order_trans [of _ 0])
  qed
  show ?thesis unfolding * by (auto simp: decodeU32_def setUintValue_def IntK sum_iffs reader_iff)
next
  case Uint32K
  then show ?thesis
    by (cases v) (auto simp: decodeU32_def setUintValue_def encodeU32_def uintValue_def sum_iffs reader_iff
        uint32_range(2) [THEN leD] split: if_splits)
qed (cases v; auto simp: decodeU32_def setUintValue_def encodeU32_def uintValue_def sum_iffs panic_def)+

lemma decodeBytes_iff [leaf_iff]: "decodeBytes fs raw L = Inr v \<longleftrightarrow> encodeBytes fs v L = Inr raw"
  by (cases v)
     (auto simp: decodeBytes_def encodeBytes_def setBytesValue_def bytesTyped_def sum_iffs
       split: if_splits rkind.splits)

lemma encodeBytes_VBytes: "encodeBytes fs v L = Inr raw \<Longrightarrow> v = VBytes raw"
  by (cases v) (auto simp: encodeBytes_def sum_iffs split: if_splits)

lemma decodeString_iff [leaf_iff]: "decodeString fs raw L = Inr v \<longleftrightarrow> encodeString fs v L = Inr raw"
  by (cases v)
     (auto simp: decodeString_def encodeString_def utf8_valid_string_def sum_iffs split: if_splits)

section \<open>Lists\<close>

lemma encodeMaxItems_iff:
  "encodeMaxItems put fs xs L = Inr raw \<longleftrightarrow>
    (\<exists>mi. optLimit (maxItems fs) L = Inr mi \<and> countWithin mi xs \<and> encode_counted put xs = Inr raw)"
  by (auto simp: encodeMaxItems_def encode_counted_def sum_iffs)

lemma encodeLimited_iff:
  "encodeLimited put fs xs L = Inr raw \<longleftrightarrow>
    (\<exists>mb mi. optLimit (maxBytes fs) L = Inr mb \<and> optLimit (maxItems fs) L = Inr mi
      \<and> countWithin mi xs \<and> encode_counted (put mb) xs = Inr raw)"
  by (auto simp: encodeLimited_def encode_counted_def sum_iffs)

lemma decodeLimited_iff:
  "decodeLimited get m fs raw L = Inr xs \<longleftrightarrow>
    (\<exists>mb mi. optLimit (maxBytes fs) L = Inr mb \<and> optLimit (maxItems fs) L = Inr mi
      \<and> decode_counted (get mb) m mi raw = Inr xs)"
  by (auto simp: decodeLimited_def sum_iffs)

lemma count_ok_iff: "count_ok mi xs \<longleftrightarrow> int (length xs) \<le> maxRecordCount \<and> countWithin mi xs"
  by (simp add: count_ok_def countWithin_def)

lemma counted_iff:
  assumes "item_codec put get enc good (\<lambda>_. True) m"
  shows "decode_counted get m mi raw = Inr xs \<longleftrightarrow>
    encode_counted put xs = Inr raw \<and> int (length xs) \<le> maxRecordCount \<and> countWithin mi xs"
  unfolding item_codec.decode_counted_iff [OF assms] item_codec.encode_counted_iff [OF assms] count_ok_iff
  by (auto simp: maxRecordCount_def list_all_iff)

lemma limited_iff:
  assumes "\<And>mb. item_codec (put mb) (get mb) enc (good mb) (\<lambda>_. True) m"
  shows "decodeLimited get m fs raw L = Inr xs \<longleftrightarrow>
    encodeLimited put fs xs L = Inr raw \<and> int (length xs) \<le> maxRecordCount"
  unfolding decodeLimited_iff encodeLimited_iff counted_iff [OF assms] by auto

interpretation bytes_max_item:
  item_codec "put_bytes_max c" "ReadBytesWithLimit c" lp "\<lambda>x. fits32 x \<and> within c x" "\<lambda>_. True" 4 for c
  by unfold_locales (auto simp: put_bytes_max_def reader_iff within_def)

interpretation party_bytes_max_item:
  item_codec "put_party_bytes_max c" "get_party_bytes c" enc_party_bytes
    "\<lambda>r. fits32 (pb_Bytes r) \<and> within c (pb_Bytes r)" "\<lambda>_. True" 8 for c
  using party_bytes_item.put_iff party_bytes_item.enc_minlen
  by unfold_locales (auto simp: put_party_bytes_max_def get_party_bytes_iff within_def)

interpretation party_pair_max_item:
  item_codec "put_party_pair_max c" "get_party_pair c" enc_party_pair
    "\<lambda>r. (fits32 (pp_First r) \<and> fits32 (pp_Second r)) \<and> within c (pp_First r) \<and> within c (pp_Second r)"
    "\<lambda>_. True" 12 for c
  using party_pair_item.put_iff party_pair_item.enc_minlen
  by unfold_locales (auto simp: put_party_pair_max_def get_party_pair_iff within_def)

lemma decodeBytesList_iff [leaf_iff]:
  "decodeBytesList fs raw L = Inr v \<longleftrightarrow> encodeBytesList fs v L = Inr raw \<and> fits n v"
  by (cases v)
     (auto simp: decodeBytesList_def encodeBytesList_def map_sum_Inr_iff
       limited_iff [OF bytes_max_item.item_codec_axioms])

lemma decodePartyBytes_iff [leaf_iff]:
  "decodePartyBytes fs raw L = Inr v \<longleftrightarrow> encodePartyBytes fs v L = Inr raw \<and> fits n v"
  by (cases v)
     (auto simp: decodePartyBytes_def encodePartyBytes_def map_sum_Inr_iff
       limited_iff [OF party_bytes_max_item.item_codec_axioms])

lemma decodePartyBytePairs_iff [leaf_iff]:
  "decodePartyBytePairs fs raw L = Inr v \<longleftrightarrow> encodePartyBytePairs fs v L = Inr raw \<and> fits n v"
  by (cases v)
     (auto simp: decodePartyBytePairs_def encodePartyBytePairs_def map_sum_Inr_iff
       limited_iff [OF party_pair_max_item.item_codec_axioms])

lemma encode_items_int:
  "encode_items put_int is out = Inr o' \<longleftrightarrow>
    (\<exists>ws. is = map uint ws \<and> encode_items put_uint32 ws out = Inr o')"
proof (induction "is" arbitrary: out)
  case (Cons i "is")
  show ?case
  proof (cases "0 \<le> i \<and> i \<le> 0xFFFFFFFF")
    case True
    then have i: "uint (word_of_int i :: u32) = i" by (simp add: word_of_int_inverse_u32)
    have eq: "i = uint w \<longleftrightarrow> w = word_of_int i" for w :: u32 using i by auto
    show ?thesis using True Cons.IH
      by (auto simp: put_int_def put_uint32_def Cons_eq_map_conv eq)
  next
    case False
    then have "\<nexists>w :: u32. i = uint w" using uint32_range by auto
    with False show ?thesis by (auto simp: put_int_def Cons_eq_map_conv)
  qed
qed simp

lemma encode_counted_int:
  "encode_counted put_int is = Inr raw \<longleftrightarrow> (\<exists>ws. is = map uint ws \<and> encode_counted put_uint32 ws = Inr raw)"
  by (auto simp: encode_counted_def encode_items_int split: if_splits)

lemma decodeU32List_iff [leaf_iff]:
  "decodeU32List fs raw L = Inr v \<longleftrightarrow> encodeU32List fs v L = Inr raw \<and> fits n v"
proof -
  have *: "DecodeUint32ListWithLimit raw mi = Inr xs \<longleftrightarrow>
      encode_counted put_uint32 xs = Inr raw \<and> int (length xs) \<le> maxRecordCount \<and> countWithin mi xs" for mi xs
    unfolding DecodeUint32ListWithLimit_iff count_ok_iff EncodeUint32ListChecked_def by auto
  show ?thesis
    by (cases v; cases "rkind_of (elemType (fs_typ fs))")
       (auto simp: decodeU32List_def encodeU32List_def encodeMaxItems_iff encode_counted_int * sum_iffs
         countWithin_def split: if_splits)
qed

section \<open>Big integers\<close>

lemma be_int_not_neg [simp]: "\<not> be_int m < 0"
  by (simp add: not_less)

lemma mag_bytes_0 [simp]: "n \<le> 0 \<Longrightarrow> mag_bytes n = []"
  by (subst mag_bytes.simps) simp

lemma mag_bytes_be_int: "0 \<le> n \<Longrightarrow> be_int (mag_bytes n) = n"
proof (induction n rule: mag_bytes.induct)
  case (1 n)
  show ?case
  proof (cases "n \<le> 0")
    case False
    have "uint (word_of_int (n mod 256) :: u8) = n mod 256"
      by (simp add: uint_word_of_int_eq take_bit_int_eq_self)
    with False 1 show ?thesis by (subst mag_bytes.simps) (simp add: pos_imp_zdiv_nonneg_iff)
  qed (use 1 in simp)
qed

lemma mag_bytes_Nil_iff [simp]: "mag_bytes n = [] \<longleftrightarrow> n \<le> 0"
  by (subst mag_bytes.simps) simp

lemma hd_mag_bytes: "0 < n \<Longrightarrow> hd (mag_bytes n) \<noteq> 0"
proof (induction n rule: mag_bytes.induct)
  case (1 n)
  show ?case
  proof (cases "n div 256 \<le> 0")
    case True
    with 1 have "n < 256" by (simp add: pos_imp_zdiv_pos_iff not_le)
    then have "uint (word_of_int n :: u8) = n" using 1 by (simp add: uint_word_of_int_eq take_bit_int_eq_self)
    then have "(word_of_int n :: u8) \<noteq> 0" using 1 by (metis less_irrefl unsigned_0)
    with 1 True \<open>n < 256\<close> show ?thesis by (subst mag_bytes.simps) simp
  next
    case False
    with 1 have "hd (mag_bytes (n div 256)) \<noteq> 0" by simp
    with False 1 show ?thesis by (subst mag_bytes.simps) (simp add: hd_append)
  qed
qed

lemma be_int_mag_bytes: "bs = [] \<or> hd bs \<noteq> 0 \<Longrightarrow> mag_bytes (be_int bs) = bs"
proof (induction bs rule: rev_induct)
  case (snoc b bs)
  have q: "(be_int bs * 256 + uint b) div 256 = be_int bs" "(be_int bs * 256 + uint b) mod 256 = uint b"
    using uint_byte_bounds [of b] by simp_all
  show ?case
  proof (cases "bs = []")
    case True
    with snoc.prems have "b \<noteq> 0" by simp
    then have "uint b \<noteq> 0" by (simp add: unsigned_eq_0_iff)
    then have "uint b > 0" using uint_byte_bounds(1) [of b] by linarith
    with True q show ?thesis by (subst mag_bytes.simps) (simp add: be_int_Cons)
  next
    case False
    with snoc have ih: "mag_bytes (be_int bs) = bs" by simp
    with False have "be_int bs > 0" by (metis mag_bytes_Nil_iff not_le)
    then have "be_int bs * 256 + uint b > 0" by (simp add: add_pos_nonneg)
    with ih q show ?thesis by (subst mag_bytes.simps) simp
  qed
qed simp

lemma mag_bytes_iff: "mag_bytes n = bs \<and> 0 < n \<longleftrightarrow> bs \<noteq> [] \<and> hd bs \<noteq> 0 \<and> be_int bs = n"
  using be_int_mag_bytes [of bs] hd_mag_bytes [of n] mag_bytes_be_int [of n]
  by (metis less_le_not_le mag_bytes_Nil_iff nle_le order_less_imp_le)

lemma decodeBigIntSigned_iff: "decodeBigIntSigned b = Inr x \<longleftrightarrow> encodeBigIntSigned (Some x) = Inr b"
proof (cases b)
  case (Cons s m)
  consider "x = 0" | "x > 0" | "x < 0" by linarith
  then show ?thesis
  proof cases
    case 2
    have "encodeBigIntSigned (Some x) = Inr b \<longleftrightarrow> s = 0 \<and> mag_bytes x = m"
      using 2 Cons by (auto simp: encodeBigIntSigned_def)
    also have "\<dots> \<longleftrightarrow> s = 0 \<and> m \<noteq> [] \<and> hd m \<noteq> 0 \<and> be_int m = x" using 2 mag_bytes_iff [of x m] by auto
    also have "\<dots> \<longleftrightarrow> decodeBigIntSigned b = Inr x"
      using 2 Cons be_int_nonneg [of m] by (auto simp: decodeBigIntSigned_def)
    finally show ?thesis by simp
  next
    case 3
    have "encodeBigIntSigned (Some x) = Inr b \<longleftrightarrow> s = 1 \<and> mag_bytes (- x) = m"
      using 3 Cons by (auto simp: encodeBigIntSigned_def)
    also have "\<dots> \<longleftrightarrow> s = 1 \<and> m \<noteq> [] \<and> hd m \<noteq> 0 \<and> be_int m = - x" using 3 mag_bytes_iff [of "- x" m] by auto
    also have "\<dots> \<longleftrightarrow> decodeBigIntSigned b = Inr x"
      using 3 Cons be_int_nonneg [of m] by (auto simp: decodeBigIntSigned_def)
    finally show ?thesis by simp
  next
    case 1
    have "be_int m \<noteq> 0" if "m \<noteq> []" "hd m \<noteq> 0"
      using be_int_mag_bytes [of m] that by (metis mag_bytes_0 order_refl)
    with 1 Cons show ?thesis by (auto simp: decodeBigIntSigned_def encodeBigIntSigned_def)
  qed
qed (auto simp: decodeBigIntSigned_def encodeBigIntSigned_def)

lemma decodeBigPos_iff: "decodeBigPos b = Inr x \<longleftrightarrow> encodeBigPos (Some x) = Inr b"
proof -
  have "decodeBigPos b = Inr x \<longleftrightarrow> b \<noteq> [] \<and> hd b \<noteq> 0 \<and> be_int b = x \<and> 0 < x"
    by (auto simp: decodeBigPos_def Let_def)
  moreover have "encodeBigPos (Some x) = Inr b \<longleftrightarrow> mag_bytes x = b \<and> 0 < x"
    by (auto simp: encodeBigPos_def)
  ultimately show ?thesis using mag_bytes_iff [of x b] by auto
qed

lemma decodeBigUint_iff: "decodeBigUint b = Inr x \<longleftrightarrow> encodeBigUint (Some x) = Inr b"
proof (cases "b = []")
  case False
  have "decodeBigUint b = Inr x \<longleftrightarrow> b \<noteq> [] \<and> hd b \<noteq> 0 \<and> be_int b = x"
    using False by (auto simp: decodeBigUint_def)
  moreover have "encodeBigUint (Some x) = Inr b \<longleftrightarrow> mag_bytes x = b \<and> 0 < x"
    using False by (auto simp: encodeBigUint_def)
  ultimately show ?thesis using mag_bytes_iff [of x b] by auto
next
  case True
  have "mag_bytes x \<noteq> []" if "0 < x" using that by simp
  with True show ?thesis by (auto simp: decodeBigUint_def encodeBigUint_def)
qed

lemma big_dispatch_iff:
  assumes d: "\<And>b x. dec b = Inr x \<longleftrightarrow> enc (Some x) = Inr b"
    and nil: "required \<or> (\<exists>e. enc None = Inl e)"
  shows "decodeBigDispatch dec fs raw L = Inr v \<longleftrightarrow> encodeBigDispatch required enc fs v L = Inr raw"
proof -
  have set: "setBigIntValue fs x = Inr v \<longleftrightarrow> bigIntFromValue fs v = Inr (Some x)" for x
    by (auto simp: setBigIntValue_def bigIntFromValue_def split: rvalue.splits option.splits if_splits)
  have "encodeBigDispatch required enc fs v L = Inr raw \<longleftrightarrow>
      (\<exists>x. bigIntFromValue fs v = Inr (Some x) \<and> checkBitsLimit fs (BitLen x) L = Inr ()
        \<and> enc (Some x) = Inr raw \<and> checkByteLimits fs raw L = Inr ())"
  proof (cases "bigIntFromValue fs v")
    case (Inr xo)
    show ?thesis
    proof (cases xo)
      case None
      with Inr nil show ?thesis by (auto simp: encodeBigDispatch_def sum_iffs)
    next
      case (Some x)
      with Inr show ?thesis by (auto simp: encodeBigDispatch_def sum_iffs)
    qed
  qed (simp add: encodeBigDispatch_def)
  then show ?thesis by (auto simp: decodeBigDispatch_def sum_iffs d set)
qed

lemma decodeBigIntDispatch_iff [leaf_iff]:
  "decodeBigIntDispatch fs raw L = Inr v \<longleftrightarrow> encodeBigIntDispatch fs v L = Inr raw"
  unfolding decodeBigIntDispatch_def encodeBigIntDispatch_def
  by (rule big_dispatch_iff) (simp_all add: decodeBigIntSigned_iff)

lemma decodeBigUintDispatch_iff [leaf_iff]:
  "decodeBigUintDispatch fs raw L = Inr v \<longleftrightarrow> encodeBigUintDispatch fs v L = Inr raw"
  unfolding decodeBigUintDispatch_def encodeBigUintDispatch_def
  by (rule big_dispatch_iff) (simp_all add: decodeBigUint_iff)

lemma decodeBigPosDispatch_iff [leaf_iff]:
  "decodeBigPosDispatch fs raw L = Inr v \<longleftrightarrow> encodeBigPosDispatch fs v L = Inr raw"
  unfolding decodeBigPosDispatch_def encodeBigPosDispatch_def
  by (rule big_dispatch_iff) (simp_all add: decodeBigPos_iff encodeBigPos_def)

section \<open>Custom values\<close>

text \<open>
  What the wire package asks of a custom type: its decoder accepts exactly its encodings, consuming all
  bytes.  \<^verbatim>\<open>ValueMarshaler\<close> and \<^verbatim>\<open>ValueUnmarshaler\<close> come in pairs.
\<close>

definition custom_law :: "('c \<Rightarrow> werror + bytes option) option \<Rightarrow> (bytes \<Rightarrow> werror + ('c \<times> int)) option \<Rightarrow> bool" where
  "custom_law mo uo \<longleftrightarrow>
    (case (mo, uo) of
       (None, None) \<Rightarrow> True
     | (Some m, Some u) \<Rightarrow> \<forall>raw x. u raw = Inr (x, int (length raw)) \<longleftrightarrow> m x = Inr (Some raw)
     | _ \<Rightarrow> False)"

lemma unmarshalComplete_iff:
  "unmarshalCompleteCustomValue u raw = Inr x \<longleftrightarrow> u raw = Inr (x, int (length raw))"
  by (auto simp: unmarshalCompleteCustomValue_def split: sum.splits if_splits)

lemma decodeCustom_iff:
  assumes "custom_law (methodOf (MarshalWireValue M) (fs_typ fs)) (methodOf (UnmarshalWireValue M) (fs_typ fs))"
  shows "decodeCustom M fs raw L = Inr v \<longleftrightarrow> encodeCustom M fs v L = Inr raw"
proof (cases "methodOf (MarshalWireValue M) (fs_typ fs)")
  case None
  with assms show ?thesis
    by (auto simp: custom_law_def decodeCustom_def encodeCustom_def sum_iffs split: option.splits)
next
  case (Some m)
  with assms obtain u where u: "methodOf (UnmarshalWireValue M) (fs_typ fs) = Some u"
    and law: "\<And>raw x. u raw = Inr (x, int (length raw)) \<longleftrightarrow> m x = Inr (Some raw)"
    by (auto simp: custom_law_def split: option.splits)
  have enc: "encodeCustom M fs v L = Inr raw \<longleftrightarrow>
      (\<exists>c. v = (if isPtr (fs_typ fs) then VPtr (Some (VCustom c)) else VCustom c) \<and> m c = Inr (Some raw)
        \<and> checkByteLimits fs raw L = Inr () \<and> checkCustomItemLimit fs raw L = Inr ())"
    by (auto simp: encodeCustom_def Some sum_iffs split: rvalue.splits option.splits if_splits)
  show ?thesis unfolding enc
    by (auto simp: decodeCustom_def u sum_iffs unmarshalComplete_iff law)
qed

definition custom_bytes :: "('c \<Rightarrow> werror + bytes option) option \<Rightarrow> 'c option \<Rightarrow> bytes option" where
  "custom_bytes mo x =
    (case (mo, x) of
       (Some m, Some c) \<Rightarrow> (case m c of Inr b \<Rightarrow> b | Inl _ \<Rightarrow> None)
     | _ \<Rightarrow> None)"

definition custom_enc :: "('c \<Rightarrow> werror + bytes option) option \<Rightarrow> 'c option \<Rightarrow> bytes" where
  "custom_enc mo x = lp (case custom_bytes mo x of None \<Rightarrow> [] | Some b \<Rightarrow> b)"

definition custom_good ::
  "('c \<Rightarrow> werror + bytes option) option \<Rightarrow> fieldSchema \<Rightarrow> FieldLimits \<Rightarrow> 'c option \<Rightarrow> bool" where
  "custom_good mo fs L x \<longleftrightarrow>
    (\<exists>b. custom_bytes mo x = Some b \<and> checkByteLimits fs b L = Inr () \<and> fits32 b)"

lemma custom_bytes_iff:
  "custom_bytes mo x = Some b \<longleftrightarrow> (\<exists>m c. mo = Some m \<and> x = Some c \<and> m c = Inr (Some b))"
  by (auto simp: custom_bytes_def split: option.splits sum.splits)

lemma checkByteLimits_iff:
  assumes "optLimit (maxBytes fs) L = Inr mb"
  shows "checkByteLimits fs b L = Inr () \<longleftrightarrow> checkFixedLen fs b = Inr () \<and> within mb b"
  using assms
  by (auto simp: checkByteLimits_def optLimit_def getLimit_def within_def split: sum.splits if_splits option.splits)

lemma custom_item:
  assumes law: "custom_law mo uo" and lim: "optLimit (maxBytes fs) L = Inr mb"
  shows "item_codec (put_custom mo fs L) (get_custom uo fs mb) (custom_enc mo) (custom_good mo fs L) (\<lambda>_. True) 4"
proof (unfold_locales, goal_cases)
  case (1 x out out')
  have "put_custom mo fs L x out = Inr out' \<longleftrightarrow>
      (\<exists>b. custom_bytes mo x = Some b \<and> checkByteLimits fs b L = Inr () \<and> fits32 b \<and> out' = out @ lp b)"
  proof (cases "custom_bytes mo x")
    case None
    then show ?thesis
      by (auto simp: custom_bytes_def put_custom_def split: option.splits sum.splits)
  next
    case (Some b)
    then obtain m c where "mo = Some m" "x = Some c" "m c = Inr (Some b)" by (auto simp: custom_bytes_iff)
    then show ?thesis by (simp add: put_custom_def custom_bytes_def case_sum_Inr_iff reader_iff)
  qed
  then show ?case by (cases "custom_bytes mo x") (simp_all add: custom_good_def custom_enc_def)
next
  case (2 raw off x off')
  have "get_custom uo fs mb raw off = Inr (x, off') \<longleftrightarrow>
      (\<exists>b. ReadBytesWithLimit mb raw off = Inr (b, off') \<and> checkFixedLen fs b = Inr () \<and> custom_bytes mo x = Some b)"
  proof (cases uo)
    case None
    with law have "mo = None" by (auto simp: custom_law_def split: option.splits)
    with None show ?thesis by (auto simp: get_custom_def custom_bytes_iff split: sum.splits)
  next
    case (Some u)
    with law obtain m where m: "mo = Some m" "\<And>raw x. u raw = Inr (x, int (length raw)) \<longleftrightarrow> m x = Inr (Some raw)"
      by (auto simp: custom_law_def split: option.splits)
    show ?thesis
    proof (cases "ReadBytesWithLimit mb raw off")
      case (Inr p)
      obtain b o' where p: "p = (b, o')" by (cases p)
      show ?thesis
        by (auto simp: get_custom_def Some Inr p custom_bytes_iff m case_sum_Inr_iff unmarshalComplete_iff)
    qed (simp add: get_custom_def)
  qed
  then show ?case
    by (cases "custom_bytes mo x")
       (auto simp: reader_iff custom_good_def custom_enc_def checkByteLimits_iff [OF lim])
qed (simp add: custom_enc_def)

lemma decodeCustomList_sound:
  assumes law: "custom_law (methodOf (MarshalWireValue M) (elemType (fs_typ fs)))
      (methodOf (UnmarshalWireValue M) (elemType (fs_typ fs)))"
    and dec: "decodeCustomList M fs raw L = Inr v"
  shows "encodeCustomList M fs v L = Inr raw"
proof -
  from dec obtain xs mb mi where v: "v = VCustoms xs" and mb: "optLimit (maxBytes fs) L = Inr mb"
    and mi: "optLimit (maxItems fs) L = Inr mi"
    and d: "decode_counted (get_custom (methodOf (UnmarshalWireValue M) (elemType (fs_typ fs))) fs mb) 4 mi raw = Inr xs"
    by (auto simp: decodeCustomList_def map_sum_Inr_iff decodeLimited_iff)
  note item = custom_item [OF law mb]
  from d have e: "encode_counted (put_custom (methodOf (MarshalWireValue M) (elemType (fs_typ fs))) fs L) xs = Inr raw"
    and c: "countWithin mi xs"
    by (simp_all add: counted_iff [OF item])
  have "None \<notin> set xs"
    using e by (auto simp: item_codec.encode_counted_iff [OF item] list_all_iff custom_good_def custom_bytes_iff)
  with e c mi v show ?thesis by (auto simp: encodeCustomList_def encodeMaxItems_iff)
qed

lemma decodeCustomList_complete:
  assumes law: "custom_law (methodOf (MarshalWireValue M) (elemType (fs_typ fs)))
      (methodOf (UnmarshalWireValue M) (elemType (fs_typ fs)))"
    and enc: "encodeCustomList M fs v L = Inr raw" and f: "fits n v"
  shows "decodeCustomList M fs raw L = Inr v"
proof -
  let ?mo = "methodOf (MarshalWireValue M) (elemType (fs_typ fs))"
  from enc f obtain xs mi where v: "v = VCustoms xs" and mi: "optLimit (maxItems fs) L = Inr mi"
    and c: "countWithin mi xs" and e: "encode_counted (put_custom ?mo fs L) xs = Inr raw"
    and n: "xs \<noteq> []" "int (length xs) \<le> maxRecordCount"
    by (cases v) (auto simp: encodeCustomList_def encodeMaxItems_iff split: if_splits)
  from n(1) obtain y ys where xs: "xs = y # ys" by (cases xs) auto
  from e xs obtain out out' where "put_custom ?mo fs L y out = Inr out'"
    by (auto simp: encode_counted_def sum_iffs split: if_splits)
  then obtain b where "checkByteLimits fs b L = Inr ()"
    by (auto simp: put_custom_def sum_iffs split: option.splits sum.splits)
  then obtain mb where mb: "optLimit (maxBytes fs) L = Inr mb"
    by (auto simp: checkByteLimits_def optLimit_def sum_iffs split: if_splits)
  note item = custom_item [OF law mb]
  show ?thesis
    using mb mi e c n v by (auto simp: decodeCustomList_def map_sum_Inr_iff decodeLimited_iff counted_iff [OF item])
qed

end
