(* ===== verification/Wire_Roundtrip.thy ===== *)
theory Wire_Roundtrip
  imports Wire_Laws
begin

text \<open>
  Canonicity of the object codec.  Under the contract of the method table (\<open>wire_methods\<close>), a byte string
  that decodes to a value is the encoding of that value, and a value whose structure is canonical and within
  the limits is what its encoding decodes to.  The proof follows the recursion on Go types: the laws of
  single fields are lifted to field lists, records, record lists, maps and nested messages, and the two
  main lemmas put the cases together by induction on the descent measure of the codec.
\<close>

section \<open>The contract of the method table\<close>

definition passes :: "'c methods \<Rightarrow> string \<Rightarrow> 'c rvalue \<Rightarrow> bool" where
  "passes M n v = (case ValidateWire M n of None \<Rightarrow> True | Some h \<Rightarrow> h v = Inr ())"

definition validAt :: "'c methods \<Rightarrow> gtype \<Rightarrow> 'c rvalue \<Rightarrow> bool" where
  "validAt M t v = (case methodOf (ValidateWire M) t of None \<Rightarrow> True | Some h \<Rightarrow> h v = Inr ())"

text \<open>
  \<open>strict M\<close> replaces a hook \<^verbatim>\<open>BeforeMarshalWire\<close> by the check that it leaves the value alone: the encoder
  of \<open>strict M\<close> accepts canonical values only.
\<close>

definition checkOnly :: "('c rvalue \<Rightarrow> werror + 'c rvalue) \<Rightarrow> 'c rvalue \<Rightarrow> werror + 'c rvalue" where
  "checkOnly h v =
    (case h v of Inl e \<Rightarrow> Inl e | Inr w \<Rightarrow> if w = v then Inr v else Inl ''value is not canonical'')"

definition strict :: "'c methods \<Rightarrow> 'c methods" where
  "strict M = M\<lparr>BeforeMarshalWire := \<lambda>n. map_option checkOnly (BeforeMarshalWire M n)\<rparr>"

lemma strict_sel [simp]:
  "MarshalWireValue (strict M) = MarshalWireValue M" "UnmarshalWireValue (strict M) = UnmarshalWireValue M"
  "ValidateWire (strict M) = ValidateWire M" "AfterUnmarshalWire (strict M) = AfterUnmarshalWire M"
  "WireMessage (strict M) = WireMessage M" "MarshalWireMessage (strict M) = MarshalWireMessage M"
  "UnmarshalWireMessage (strict M) = UnmarshalWireMessage M"
  "BeforeMarshalWire (strict M) n = map_option checkOnly (BeforeMarshalWire M n)"
  by (simp_all add: strict_def)

lemma strict_schema [simp]: "parseSchema (strict M) = parseSchema M"
proof -
  have i: "inferKind (strict M) = inferKind M" "inferMapValueKind (strict M) = inferMapValueKind M"
    by (simp_all add: fun_eq_iff inferKind_def inferMapValueKind_def implementsVM_def)
  have k: "parseKind (strict M) = parseKind M"
    by (simp add: fun_eq_iff parseKind_def parseCompositeKind_def parseDomainKind_def supportsValueCodec_def)
  have t: "fieldTagKind (strict M) = fieldTagKind M" unfolding fieldTagKind_def i k ..
  have m: "initMapField (strict M) = initMapField M" unfolding initMapField_def initMapSchema_def i ..
  have f: "parseFieldTag (strict M) = parseFieldTag M"
    unfolding parseFieldTag_def finishField_def t m ..
  have "parseFields (strict M) seen fs = parseFields M seen fs" for seen fs
  proof (induction fs arbitrary: seen)
    case (Cons sf fs)
    show ?case unfolding parseFields.simps f Cons.IH by (rule refl)
  qed simp
  then show ?thesis by (simp add: fun_eq_iff parseSchema_def)
qed

locale wire_methods =
  fixes M :: "'c methods"
  assumes custom: "custom_law (MarshalWireValue M n) (UnmarshalWireValue M n)"
    and before_valid: "BeforeMarshalWire M n = Some h \<Longrightarrow> passes M n v \<Longrightarrow> h v = Inr v"
    and after_same: "AfterUnmarshalWire M n = Some h \<Longrightarrow> h v = Inr w \<Longrightarrow> w = v"
    and after_valid: "AfterUnmarshalWire M n = Some h \<Longrightarrow> passes M n v \<Longrightarrow> h v = Inr v"
    and message_pair: "MarshalWireMessage M n = None \<longleftrightarrow> UnmarshalWireMessage M n = None"
    and message_law: "MarshalWireMessage M n = Some mm \<Longrightarrow> UnmarshalWireMessage M n = Some um \<Longrightarrow>
      um raw F L = Inr v \<Longrightarrow> mm v L = Inr (Some raw) \<and> (\<exists>vs. v = VStruct vs)"
begin

lemma methodOf_custom: "custom_law (methodOf (MarshalWireValue M) t) (methodOf (UnmarshalWireValue M) t)"
  using custom by (auto simp: methodOf_def custom_law_def split: gtype.splits)

lemma methodOf_before: "methodOf (BeforeMarshalWire M) t = Some h \<Longrightarrow> validAt M t v \<Longrightarrow> h v = Inr v"
  using before_valid by (auto simp: methodOf_def validAt_def passes_def split: gtype.splits)

lemma methodOf_after:
  "methodOf (AfterUnmarshalWire M) t = Some h \<Longrightarrow> h v = Inr w \<Longrightarrow> w = v"
  "methodOf (AfterUnmarshalWire M) t = Some h \<Longrightarrow> validAt M t v \<Longrightarrow> h v = Inr v"
  using after_same after_valid by (auto simp: methodOf_def validAt_def passes_def split: gtype.splits)

lemma methodOf_message:
  assumes "methodOf (UnmarshalWireMessage M) t = Some um"
  obtains mm where "methodOf (MarshalWireMessage M) t = Some mm"
    "\<And>raw F L v. um raw F L = Inr v \<Longrightarrow> mm v L = Inr (Some raw) \<and> (\<exists>vs. v = VStruct vs)"
proof -
  obtain n where n: "\<And>ms :: string \<Rightarrow> ('c rvalue \<Rightarrow> FieldLimits \<Rightarrow> werror + bytes option) option. methodOf ms t = ms n"
    "UnmarshalWireMessage M n = Some um"
    using assms by (auto simp: methodOf_def split: gtype.splits)
  then obtain mm where "MarshalWireMessage M n = Some mm" using message_pair [of n] by auto
  with n show ?thesis using that message_law by metis
qed

lemma runValidateHook_iff: "runValidateHook M t v = Inr w \<longleftrightarrow> validAt M t v \<and> w = v"
  by (auto simp: runValidateHook_def validAt_def split: option.splits sum.splits)

lemma afterDecode_iff: "afterDecode M t v = Inr w \<longleftrightarrow> validAt M t v \<and> w = v"
  using methodOf_after
  by (auto simp: afterDecode_def runAfterUnmarshalHook_def runValidateHook_iff case_sum_Inr_iff split: option.splits)

lemma beforeEncode_iff: "beforeEncode (strict M) t v = Inr w \<longleftrightarrow> validAt M t v \<and> w = v"
proof -
  have s: "methodOf (BeforeMarshalWire (strict M)) t = map_option checkOnly (methodOf (BeforeMarshalWire M) t)"
    by (auto simp: methodOf_def split: gtype.splits)
  have h: "runValidateHook (strict M) t = runValidateHook M t"
    by (simp add: fun_eq_iff runValidateHook_def)
  show ?thesis
  proof (cases "methodOf (BeforeMarshalWire M) t")
    case None
    then show ?thesis by (simp add: beforeEncode_def runBeforeMarshalHook_def s h runValidateHook_iff)
  next
    case (Some g)
    have "checkOnly g v = Inr x \<longleftrightarrow> g v = Inr v \<and> x = v" for x
      by (auto simp: checkOnly_def split: sum.splits if_splits)
    with Some methodOf_before [OF Some] show ?thesis
      by (auto simp: beforeEncode_def runBeforeMarshalHook_def s h runValidateHook_iff case_sum_Inr_iff)
  qed
qed

end

section \<open>Field lists\<close>

lemma deref_iff: "deref t v = Inr (VStruct vals) \<longleftrightarrow> v = refTo t (VStruct vals)"
  by (auto simp: deref_def refTo_def split: rvalue.splits option.splits if_splits)

lemma encodeFields_length: "encodeFields enc s vals = Inr flds \<Longrightarrow> length vals = length s \<and> length flds \<le> length s"
proof (induction enc s vals arbitrary: flds rule: encodeFields.induct)
  case (2 enc f fs v vs)
  show ?case
  proof (cases "shouldOmit f v")
    case False
    with "2.prems" obtain raw flds' where "enc f v = Inr raw" "encodeFields enc fs vs = Inr flds'"
      "flds = \<lparr>Tag = fs_tag f, Value = Some raw\<rparr> # flds'"
      by (auto simp: case_sum_Inr_iff)
    with False "2.IH"(2) show ?thesis by auto
  qed (use 2 in fastforce)
qed auto

lemma fields_sound:
  assumes "matches s ms" "decodeFields dec s ms = Inr vals"
    and "\<And>f r v. f \<in> set s \<Longrightarrow> dec f r = Inr v \<Longrightarrow> enc f v = Inr r"
    and "\<And>f r. f \<in> set s \<Longrightarrow> enc f (VPtr None) \<noteq> Inr r"
    and "\<And>f. f \<in> set s \<Longrightarrow> optional f \<Longrightarrow> isPtr (fs_typ f)"
    and "\<And>fld. fld \<in> set (present ms) \<Longrightarrow> Value fld \<noteq> None"
  shows "encodeFields enc s vals = Inr (present ms)"
  using assms
proof (induction s arbitrary: ms vals)
  case (Cons f s)
  from Cons.prems(1) obtain m ms' where ms: "ms = m # ms'" by (cases ms) auto
  show ?case
  proof (cases m)
    case None
    with Cons.prems(2) ms obtain vals' where v: "vals = VPtr None # vals'" "decodeFields dec s ms' = Inr vals'"
      by (auto simp: map_sum_Inr_iff)
    have "encodeFields enc s vals' = Inr (present ms')"
      using Cons.prems ms None v(2) by (intro Cons.IH) auto
    with v Cons.prems(1,5) ms None show ?thesis by (simp add: shouldOmit_def)
  next
    case (Some fld)
    with Cons.prems(2) ms obtain v vals' where v: "vals = v # vals'" "dec f (field_value fld) = Inr v"
      "decodeFields dec s ms' = Inr vals'"
      by (auto simp: map_sum_Inr_iff case_sum_Inr_iff)
    have e: "enc f v = Inr (field_value fld)" using Cons.prems(3) v(2) by simp
    then have "\<not> shouldOmit f v" using Cons.prems(4) [of f] by (auto simp: shouldOmit_def)
    moreover have "encodeFields enc s vals' = Inr (present ms')"
      using Cons.prems ms Some v(3) by (intro Cons.IH) auto
    moreover have "Value fld \<noteq> None" "Tag fld = fs_tag f" using Cons.prems(1) Cons.prems(6) [of fld] ms Some by simp_all
    then have "\<lparr>Tag = fs_tag f, Value = Some (field_value fld)\<rparr> = fld" by (cases fld) (auto simp: field_value_def)
    ultimately show ?thesis using v e ms Some by simp
  qed
qed simp

lemma fields_complete:
  assumes "encodeFields enc s vals = Inr flds"
    and "\<And>f r v. f \<in> set s \<Longrightarrow> v \<in> set vals \<Longrightarrow> enc f v = Inr r \<Longrightarrow> \<lparr>Tag = fs_tag f, Value = Some r\<rparr> \<in> set flds
      \<Longrightarrow> dec f r = Inr v"
  shows "\<exists>ms. matches s ms \<and> present ms = flds \<and> decodeFields dec s ms = Inr vals"
  using assms
proof (induction enc s vals arbitrary: flds rule: encodeFields.induct)
  case (2 enc f fs v vs)
  show ?case
  proof (cases "shouldOmit f v")
    case True
    with "2.prems" "2.IH"(1) [OF True, of flds] obtain ms where
      "matches fs ms" "present ms = flds" "decodeFields dec fs ms = Inr vs" by auto
    with True show ?thesis by (intro exI [of _ "None # ms"]) (auto simp: shouldOmit_def)
  next
    case False
    with "2.prems"(1) obtain raw flds' where e: "enc f v = Inr raw" "encodeFields enc fs vs = Inr flds'"
      "flds = \<lparr>Tag = fs_tag f, Value = Some raw\<rparr> # flds'"
      by (auto simp: case_sum_Inr_iff)
    have d: "dec f raw = Inr v" using "2.prems"(2) e by simp
    from "2.IH"(2) [OF False e(1,2)] "2.prems"(2) e(3) obtain ms where
      "matches fs ms" "present ms = flds'" "decodeFields dec fs ms = Inr vs" by auto
    with d e(3) show ?thesis
      by (intro exI [of _ "Some \<lparr>Tag = fs_tag f, Value = Some raw\<rparr> # ms"]) (auto simp: field_value_def)
  qed
qed auto

lemma marshalFieldBody_fields:
  assumes "marshalFieldBody flds = Inr body" "fld \<in> set flds"
  shows "Value fld \<noteq> None \<and> length (field_value fld) \<le> length body"
proof -
  have b: "body = Uint16 (word_of_int (int (length flds))) @ enc_fields flds" "checkFields False 0 flds = Inr ()"
    using assms(1) by (simp_all add: marshalFieldBody_iff)
  have "length (enc_field fld) \<le> length (enc_fields flds)"
    using assms(2) by (induction flds) auto
  moreover have "length (field_value fld) \<le> length (enc_field fld)" by (simp add: enc_field_def)
  ultimately show ?thesis
    using b(1) b(2) [unfolded checkFields_iff] assms(2) by (auto simp: list_all_iff)
qed

lemma decodeFieldBody_whole:
  "decodeFieldBody raw 0 F fieldDecodeView = Inr (flds, int (length raw)) \<longleftrightarrow>
    int (length flds) \<le> MaxFields F
    \<and> list_all (\<lambda>f. int (length (field_value f)) \<le> MaxFieldBytes F mod 2 ^ 64) flds
    \<and> marshalFieldBody flds = Inr raw"
proof -
  have "seg raw 0 body \<and> length raw = length body \<longleftrightarrow> raw = body" for body
    using seg_0_whole [of raw body] by auto
  then show ?thesis by (simp add: decodeFieldBody_iff conj_commute conj_left_commute)
qed

text \<open>Limits with room for a message of \<open>n\<close> bytes, at the width of a Go \<^verbatim>\<open>int\<close>.\<close>

definition roomy :: "FrameLimits \<Rightarrow> nat \<Rightarrow> bool" where
  "roomy F n \<longleftrightarrow> frame_limits_validate F = Inr () \<and> int n \<le> MaxTotalBytes F \<and> int n \<le> MaxFieldBytes F
    \<and> MaxFieldBytes F < 2 ^ 64"

lemma roomy_less: "roomy F n \<Longrightarrow> m \<le> n \<Longrightarrow> roomy F m"
  by (auto simp: roomy_def)

lemma frame_limits_validate_iff:
  "frame_limits_validate l = Inr () \<longleftrightarrow> 0 < MaxTotalBytes l \<and> 0 < MaxFields l \<and> 0 < MaxFieldBytes l"
  by (auto simp: frame_limits_validate_def)

lemma withDefaults_valid: "frame_limits_validate F = Inr () \<Longrightarrow> withDefaults F = F"
  by (auto simp: withDefaults_def frame_limits_validate_iff)

lemma withDefaults_idem [simp]: "withDefaults (withDefaults F) = withDefaults F"
  by (simp add: withDefaults_def Let_def DefaultFrameLimits_def)

lemma roomy_field: "roomy F n \<Longrightarrow> int m \<le> int n \<Longrightarrow> int m \<le> MaxFieldBytes F mod 2 ^ 64"
  by (auto simp: roomy_def frame_limits_validate_iff)

section \<open>Structs, records and messages\<close>

lemma schema_sorted: "parseSchema M st = Inr s \<Longrightarrow> sorted_wrt (<) (map fs_tag s)"
  using parseSchema_inv by blast

lemma schema_optional: "parseSchema M st = Inr s \<Longrightarrow> f \<in> set s \<Longrightarrow> optional f \<Longrightarrow> isPtr (fs_typ f)"
  using parseSchema_inv [of M st s] by (auto simp: field_from_def isPtr_def)

lemma encodeStruct_iff:
  "encodeStruct enc M st v = Inr flds \<longleftrightarrow>
    (\<exists>s vals. parseSchema M st = Inr s \<and> v = VStruct vals \<and> encodeFields enc s vals = Inr flds)"
  by (cases v) (auto simp: encodeStruct_def case_sum_Inr_iff)

context wire_methods
begin

lemma struct_sound:
  assumes d: "decodeStruct dec M st flds = Inr v"
    and law: "\<And>f r w. f \<in> set (schemaOf M st) \<Longrightarrow> dec f r = Inr w \<Longrightarrow> enc f w = Inr r"
    and nil: "\<And>f r. enc f (VPtr None) \<noteq> Inr r"
    and ne: "\<And>fld. fld \<in> set flds \<Longrightarrow> Value fld \<noteq> None"
  shows "\<exists>vals. v = VStruct vals \<and> validAt M st v \<and> encodeStruct enc (strict M) st v = Inr flds"
proof -
  from d obtain s ms vals where s: "parseSchema M st = Inr s" and m: "matchFields s flds = Inr ms"
    and ds: "decodeFields dec s ms = Inr vals" and v: "validAt M st (VStruct vals)" "v = VStruct vals"
    by (auto simp: decodeStruct_def case_sum_Inr_iff afterDecode_iff)
  from m have m': "matches s ms" "present ms = flds" by (simp_all add: matchFields_iff [OF schema_sorted [OF s]])
  have "schemaOf M st = s" by (simp add: schemaOf_def s)
  then have "encodeFields enc s vals = Inr (present ms)"
    using law nil ne schema_optional [OF s] m'(2) by (intro fields_sound [OF m'(1) ds]) auto
  with s v m' show ?thesis by (simp add: encodeStruct_def)
qed

lemma struct_complete:
  assumes e: "encodeStruct enc (strict M) st v = Inr flds" and v: "validAt M st v"
    and law: "\<And>f r w vals. f \<in> set (schemaOf M st) \<Longrightarrow> v = VStruct vals \<Longrightarrow> w \<in> set vals \<Longrightarrow> enc f w = Inr r \<Longrightarrow>
      \<lparr>Tag = fs_tag f, Value = Some r\<rparr> \<in> set flds \<Longrightarrow> dec f r = Inr w"
  shows "decodeStruct dec M st flds = Inr v"
proof -
  from e obtain s vals where s: "parseSchema M st = Inr s" and vals: "v = VStruct vals"
    and es: "encodeFields enc s vals = Inr flds"
    by (auto simp: encodeStruct_iff)
  have "schemaOf M st = s" by (simp add: schemaOf_def s)
  with law vals obtain ms where "matches s ms" "present ms = flds" "decodeFields dec s ms = Inr vals"
    using fields_complete [OF es] by blast
  then show ?thesis
    using s vals v matchFields_iff [OF schema_sorted [OF s], of flds ms]
    by (simp add: decodeStruct_def afterDecode_iff)
qed

lemma record_sound:
  assumes u: "unmarshalRecordValue dec M t raw F = Inr v"
    and law: "\<And>f r w. f \<in> set (schemaOf M (structOf t)) \<Longrightarrow> dec f r = Inr w \<Longrightarrow> enc f w = Inr r"
    and nil: "\<And>f r. enc f (VPtr None) \<noteq> Inr r"
  shows "marshalRecordValue enc (strict M) t v = Inr raw"
proof -
  from u obtain flds w where k: "rkind_of (structOf t) = StructK"
    and b: "decodeFieldBody raw 0 F fieldDecodeView = Inr (flds, int (length raw))"
    and w: "decodeStruct dec M (structOf t) flds = Inr w" "v = refTo t w"
    by (auto simp: unmarshalRecordValue_def case_sum_Inr_iff map_sum_Inr_iff split: if_splits)
  from b have body: "marshalFieldBody flds = Inr raw" by (simp add: decodeFieldBody_whole)
  from struct_sound [of dec "structOf t" flds w enc, OF w(1) law nil] marshalFieldBody_fields [OF body] obtain vals where
    "w = VStruct vals" "validAt M (structOf t) w" "encodeStruct enc (strict M) (structOf t) w = Inr flds" by blast
  with k w(2) body show ?thesis
    using deref_iff [of t v vals] by (simp add: marshalRecordValue_def beforeEncode_iff case_sum_Inr_iff)
qed

lemma record_complete:
  assumes m: "marshalRecordValue enc (strict M) t v = Inr raw" and fit: "fits (MaxFields F) v" and F: "roomy F (length raw)"
    and law: "\<And>f r w. f \<in> set (schemaOf M (structOf t)) \<Longrightarrow> fits (MaxFields F) w \<Longrightarrow> length r \<le> length raw \<Longrightarrow>
      enc f w = Inr r \<Longrightarrow> dec f r = Inr w"
  shows "unmarshalRecordValue dec M t raw F = Inr v"
proof -
  from m obtain w flds where d: "deref t v = Inr w" and k: "rkind_of (structOf t) = StructK"
    and val: "validAt M (structOf t) w" and e: "encodeStruct enc (strict M) (structOf t) w = Inr flds"
    and b: "marshalFieldBody flds = Inr raw"
    by (auto simp: marshalRecordValue_def case_sum_Inr_iff beforeEncode_iff split: if_splits)
  from e obtain s vals where s: "parseSchema M (structOf t) = Inr s" and w: "w = VStruct vals"
    and es: "encodeFields enc s vals = Inr flds"
    by (auto simp: encodeStruct_iff)
  from d w have v: "v = refTo t (VStruct vals)" by (simp add: deref_iff)
  with fit have f: "int (length vals) \<le> MaxFields F" "\<And>x. x \<in> set vals \<Longrightarrow> fits (MaxFields F) x"
    by (auto simp: refTo_def list_all_iff split: if_splits)
  have "decodeStruct dec M (structOf t) flds = Inr w"
  proof (rule struct_complete [OF e val])
    fix f r x xs assume "f \<in> set (schemaOf M (structOf t))" "w = VStruct xs" "x \<in> set xs" "enc f x = Inr r"
      "\<lparr>Tag = fs_tag f, Value = Some r\<rparr> \<in> set flds"
    then show "dec f r = Inr x"
      using law f(2) w marshalFieldBody_fields [OF b] by (fastforce simp: field_value_def)
  qed
  moreover have "int (length flds) \<le> MaxFields F" using encodeFields_length [OF es] f(1) by linarith
  moreover have "list_all (\<lambda>f. int (length (field_value f)) \<le> MaxFieldBytes F mod 2 ^ 64) flds"
    using marshalFieldBody_fields [OF b] roomy_field [OF F] by (simp add: list_all_iff)
  ultimately show ?thesis
    using k s b v w decodeFieldBody_whole [of raw F flds] by (simp add: unmarshalRecordValue_def)
qed

lemma message_hook_sound:
  assumes "validateMessageFrame raw ty ver F = Inr ()" "MaxTotalBytes (withDefaults F) < 2 ^ 63"
  shows "validateMessageFrame raw ty ver (marshalSelfCheckLimits raw) = Inr ()"
proof -
  obtain flds where u: "unmarshalFieldsWithLimits raw ty F fieldDecodeCopy = Inr (ver, flds)"
    using assms(1)
    by (cases "unmarshalFieldsWithLimits raw ty F fieldDecodeCopy")
       (auto simp: validateMessageFrame_def unmarshalFields_validate_only split: if_splits)
  from unmarshalFields_sound [OF _ u] have w: "frame_within F raw flds" and m: "MarshalFields ver ty flds = Inr raw"
    by auto
  then have n: "int (length raw) < 2 ^ 63" using assms(2) by (auto simp: frame_within_def Let_def)
  from m obtain body where b: "marshalFieldBody flds = Inr body" and r: "length body \<le> length raw" "0 < length raw"
    by (auto simp: MarshalFields_iff)
  have "frame_within (marshalSelfCheckLimits raw) raw flds"
    using b r n marshalFieldBody_fields [OF b] order_trans [OF _ r(1)]
    by (auto simp: frame_within_def Let_def withDefaults_def marshalSelfCheckLimits_def frame_limits_validate_iff
        maxRecordCount_def marshalFieldBody_iff list_all_iff)
  from unmarshalFields_complete [OF _ this m, of fieldDecodeCopy] show ?thesis
    by (simp add: validateMessageFrame_def unmarshalFields_validate_only)
qed

lemma message_sound:
  assumes u: "unmarshalMessage dec M t raw F L = Inr v" and int: "MaxTotalBytes (withDefaults F) < 2 ^ 63"
    and law: "\<And>f r w. f \<in> set (schemaOf M (structOf t)) \<Longrightarrow> dec (withDefaults F) f r = Inr w \<Longrightarrow> enc f w = Inr r"
    and nil: "\<And>f r. enc f (VPtr None) \<noteq> Inr r"
  shows "marshalMessage enc (strict M) t v L = Inr raw"
proof -
  from u obtain ty ver where k: "rkind_of (structOf t) = StructK" and m: "methodOf (WireMessage M) (structOf t) = Some (ty, ver)"
    by (auto simp: unmarshalMessage_def split: if_splits option.splits)
  show ?thesis
  proof (cases "methodOf (UnmarshalWireMessage M) (structOf t)")
    case None
    then have nm: "methodOf (MarshalWireMessage M) (structOf t) = None"
      using message_pair by (auto simp: methodOf_def split: gtype.splits)
    from u k m None obtain flds w where
      fr: "unmarshalFieldsWithLimits raw ty (withDefaults F) fieldDecodeView = Inr (ver, flds)"
      and w: "decodeStruct (dec (withDefaults F)) M (structOf t) flds = Inr w" "v = refTo t w"
      by (auto simp: unmarshalMessage_def Let_def case_sum_Inr_iff map_sum_Inr_iff split: if_splits)
    from unmarshalFields_sound [OF _ fr] have mf: "MarshalFields ver ty flds = Inr raw" by simp
    then obtain body where body: "marshalFieldBody flds = Inr body" by (auto simp: MarshalFields_iff)
    from struct_sound [of "dec (withDefaults F)" "structOf t" flds w enc, OF w(1) law nil] marshalFieldBody_fields [OF body]
    obtain vals where "w = VStruct vals" "validAt M (structOf t) w" "encodeStruct enc (strict M) (structOf t) w = Inr flds"
      by blast
    with k m nm w(2) mf show ?thesis
      using deref_iff [of t v vals] by (simp add: marshalMessage_def beforeEncode_iff case_sum_Inr_iff)
  next
    case (Some um)
    then obtain mm where mm: "methodOf (MarshalWireMessage M) (structOf t) = Some mm"
      and law': "\<And>raw F L v. um raw F L = Inr v \<Longrightarrow> mm v L = Inr (Some raw) \<and> (\<exists>vs. v = VStruct vs)"
      using methodOf_message [OF Some] by metis
    from u k m Some obtain w where fr: "validateMessageFrame raw ty ver (withDefaults F) = Inr ()"
      and w: "um raw F L = Inr w" "validAt M (structOf t) w" "v = refTo t w"
      by (auto simp: unmarshalMessage_def Let_def case_sum_Inr_iff map_sum_Inr_iff afterDecode_iff split: if_splits)
    from law' [OF w(1)] obtain vs where vs: "mm w L = Inr (Some raw)" "w = VStruct vs" by blast
    have "validateMessageFrame raw ty ver (marshalSelfCheckLimits raw) = Inr ()"
      using message_hook_sound [OF fr] int by simp
    with k m mm w vs show ?thesis
      using deref_iff [of t v vs]
      by (simp add: marshalMessage_def marshalCustomMessage_def beforeEncode_iff case_sum_Inr_iff)
  qed
qed

lemma message_complete:
  assumes ma: "marshalMessage enc (strict M) t v L = Inr raw" and fit: "fits (MaxFields F) v" and F: "roomy F (length raw)"
    and plain: "methodOf (MarshalWireMessage M) (structOf t) = None"
    and law: "\<And>f r w. f \<in> set (schemaOf M (structOf t)) \<Longrightarrow> fits (MaxFields F) w \<Longrightarrow> length r \<le> length raw \<Longrightarrow>
      enc f w = Inr r \<Longrightarrow> dec F f r = Inr w"
  shows "unmarshalMessage dec M t raw F L = Inr v"
proof -
  have wd: "withDefaults F = F" using F by (auto simp: roomy_def intro: withDefaults_valid)
  have np: "methodOf (UnmarshalWireMessage M) (structOf t) = None"
    using plain message_pair by (auto simp: methodOf_def split: gtype.splits)
  from ma plain obtain ty ver w flds where d: "deref t v = Inr w" and k: "rkind_of (structOf t) = StructK"
    and m: "methodOf (WireMessage M) (structOf t) = Some (ty, ver)"
    and val: "validAt M (structOf t) w" and e: "encodeStruct enc (strict M) (structOf t) w = Inr flds"
    and mf: "MarshalFields ver ty flds = Inr raw"
    by (auto simp: marshalMessage_def case_sum_Inr_iff beforeEncode_iff split: if_splits option.splits)
  from e obtain s vals where s: "parseSchema M (structOf t) = Inr s" and w: "w = VStruct vals"
    and es: "encodeFields enc s vals = Inr flds"
    by (auto simp: encodeStruct_iff)
  from d w have v: "v = refTo t (VStruct vals)" by (simp add: deref_iff)
  with fit have f: "int (length vals) \<le> MaxFields F" "\<And>x. x \<in> set vals \<Longrightarrow> fits (MaxFields F) x"
    by (auto simp: refTo_def list_all_iff split: if_splits)
  from mf obtain body where b: "marshalFieldBody flds = Inr body" "length body \<le> length raw"
    by (auto simp: MarshalFields_iff)
  have small: "length (field_value fld) \<le> length raw" if "fld \<in> set flds" for fld
    using marshalFieldBody_fields [OF b(1) that] b(2) by simp
  have "decodeStruct (dec F) M (structOf t) flds = Inr w"
  proof (rule struct_complete [OF e val])
    fix f r x xs assume "f \<in> set (schemaOf M (structOf t))" "w = VStruct xs" "x \<in> set xs" "enc f x = Inr r"
      "\<lparr>Tag = fs_tag f, Value = Some r\<rparr> \<in> set flds"
    then show "dec F f r = Inr x" using law f(2) w small by (fastforce simp: field_value_def)
  qed
  moreover have lf: "list_all (\<lambda>f. int (length (field_value f)) \<le> MaxFieldBytes F mod 2 ^ 64) flds"
    using small roomy_field [OF F] by (simp add: list_all_iff)
  have "frame_within F raw flds"
    using encodeFields_length [OF es] f(1) F lf by (simp add: frame_within_def Let_def wd roomy_def)
  from unmarshalFields_complete [OF _ this mf, of fieldDecodeView]
  have "unmarshalFieldsWithLimits raw ty F fieldDecodeView = Inr (ver, flds)" by simp
  ultimately show ?thesis using k m np v w by (simp add: unmarshalMessage_def wd)
qed

end

end
