(* ===== verification/Wire_Canonical.thy ===== *)
theory Wire_Canonical
  imports Wire_Roundtrip
begin

text \<open>
  The induction on Go types: record lists, maps, and the two directions of the round trip for the field
  dispatchers and for \<^verbatim>\<open>Marshal\<close> and \<^verbatim>\<open>Unmarshal\<close>.
\<close>

section \<open>Counted items\<close>

lemma items_sound:
  assumes "decode_items get n raw off = Inr (xs, off')" "0 \<le> off" "off \<le> int (length raw)"
    and "\<And>x o1 o2. get raw o1 = Inr (x, o2) \<Longrightarrow>
      \<exists>b. (\<forall>out. put x out = Inr (out @ b)) \<and> seg raw o1 b \<and> o2 = o1 + int (length b)"
  shows "length xs = n \<and> (\<exists>b. (\<forall>out. encode_items put xs out = Inr (out @ b)) \<and> seg raw off b \<and> off' = off + int (length b))"
  using assms(1-3)
proof (induction n arbitrary: xs off)
  case 0
  then show ?case by (auto simp: seg_def)
next
  case (Suc n)
  from Suc.prems(1) obtain x ys o1 where g: "get raw off = Inr (x, o1)" "decode_items get n raw o1 = Inr (ys, off')"
    and xs: "xs = x # ys"
    by (auto simp: case_sum_Inr_iff)
  from assms(4) [OF g(1)] obtain b where b: "\<forall>out. put x out = Inr (out @ b)" "seg raw off b" "o1 = off + int (length b)"
    by blast
  from Suc.IH [OF g(2)] seg_end [OF b(2)] b(3) Suc.prems(2) obtain c where
    "length ys = n" "\<forall>out. encode_items put ys out = Inr (out @ c)" "seg raw o1 c" "off' = o1 + int (length c)"
    by auto
  with b xs show ?case by (intro conjI exI [of _ "b @ c"]) (auto simp: seg_append)
qed

lemma items_complete:
  assumes "encode_items put xs out = Inr out'"
    and "\<And>x o1 o2. x \<in> set xs \<Longrightarrow> put x o1 = Inr o2 \<Longrightarrow>
      \<exists>b. o2 = o1 @ b \<and> (\<forall>off. seg raw off b \<longrightarrow> get raw off = Inr (x, off + int (length b)))"
  shows "\<exists>b. out' = out @ b \<and>
    (\<forall>off. seg raw off b \<longrightarrow> decode_items get (length xs) raw off = Inr (xs, off + int (length b)))"
  using assms
proof (induction xs arbitrary: out)
  case (Cons x xs)
  from Cons.prems(1) obtain o1 where p: "put x out = Inr o1" "encode_items put xs o1 = Inr out'"
    by (auto simp: case_sum_Inr_iff)
  from Cons.prems(2) [OF _ p(1)] obtain b where b: "o1 = out @ b"
    "\<forall>off. seg raw off b \<longrightarrow> get raw off = Inr (x, off + int (length b))" by auto
  from Cons.IH [OF p(2)] Cons.prems(2) obtain c where c: "out' = o1 @ c"
    "\<forall>off. seg raw off c \<longrightarrow> decode_items get (length xs) raw off = Inr (xs, off + int (length c))" by auto
  show ?case
    using b c by (intro exI [of _ "b @ c"]) (auto simp: seg_append add.assoc)
qed simp

section \<open>Record lists\<close>

lemma put_record_iff:
  "put_record enc M t x out = Inr out' \<longleftrightarrow>
    (\<exists>r. marshalRecordValue enc M t x = Inr r \<and> fits32 r \<and> out' = out @ lp r)"
  by (cases "marshalRecordValue enc M t x") (auto simp: put_record_def fits32_def lp_def)

lemma get_record_iff:
  "get_record dec M t F raw off = Inr (v, off') \<longleftrightarrow>
    (\<exists>b. ReadBytesWithLimit 0 raw off = Inr (b, off') \<and> unmarshalRecordValue dec M t b F = Inr v)"
proof (cases "ReadUint32 raw off")
  case (Inr p)
  obtain n o4 where p: "p = (n, o4)" by (cases p)
  show ?thesis by (auto simp: get_record_def ReadBytesWithLimit_def Inr p case_sum_Inr_iff)
qed (simp add: get_record_def ReadBytesWithLimit_def)

lemma decodeRecordList_iff:
  "decodeRecordList dec M fs raw L F = Inr v \<longleftrightarrow>
    (\<exists>count xs mi. ReadUint32 raw 0 = Inr (count, 4) \<and> uint count \<le> maxRecordCount
      \<and> optLimit (maxItems fs) L = Inr mi \<and> (mi > 0 \<longrightarrow> uint count \<le> mi)
      \<and> decode_items (get_record dec M (elemType (fs_typ fs)) F) (unat count) raw 4 = Inr (xs, int (length raw))
      \<and> v = VStructs xs)"
proof (cases "ReadUint32 raw 0")
  case (Inr p)
  obtain count o4 where p: "p = (count, o4)" by (cases p)
  with Inr have r: "ReadUint32 raw 0 = Inr (count, 4)" and s: "seg raw 0 (Uint32 count)" by (auto simp: reader_iff)
  from seg_end [OF s] have "\<not> length raw < 4" by simp
  then show ?thesis
  proof (cases "optLimit (maxItems fs) L")
    case (Inr mi)
    show ?thesis
    proof (cases "decode_items (get_record dec M (elemType (fs_typ fs)) F) (unat count) raw 4")
      case Inl
      with \<open>\<not> length raw < 4\<close> Inr show ?thesis by (simp add: decodeRecordList_def r)
    next
      case ok: (Inr q)
      obtain xs o' where "q = (xs, o')" by (cases q)
      with \<open>\<not> length raw < 4\<close> Inr ok show ?thesis by (auto simp: decodeRecordList_def r)
    qed
  qed (simp add: decodeRecordList_def r)
qed (auto simp: decodeRecordList_def split: if_splits)

context wire_methods
begin

lemma recordList_sound:
  assumes d: "decodeRecordList dec M fs raw L F = Inr v"
    and law: "\<And>f r w. f \<in> set (schemaOf M (structOf (elemType (fs_typ fs)))) \<Longrightarrow> dec f r = Inr w \<Longrightarrow> enc f w = Inr r"
    and nil: "\<And>f r. enc f (VPtr None) \<noteq> Inr r"
  shows "encodeRecordList enc (strict M) fs v L = Inr raw"
proof -
  let ?t = "elemType (fs_typ fs)"
  from d obtain count xs mi where c: "ReadUint32 raw 0 = Inr (count, 4)" "uint count \<le> maxRecordCount"
    and mi: "optLimit (maxItems fs) L = Inr mi" "mi > 0 \<longrightarrow> uint count \<le> mi"
    and it: "decode_items (get_record dec M ?t F) (unat count) raw 4 = Inr (xs, int (length raw))"
    and v: "v = VStructs xs"
    by (auto simp: decodeRecordList_iff)
  from c(1) have s: "seg raw 0 (Uint32 count)" by (simp add: reader_iff)
  have rec: "\<exists>b. (\<forall>out. put_record enc (strict M) ?t x out = Inr (out @ b)) \<and> seg raw o1 b \<and> o2 = o1 + int (length b)"
    if "get_record dec M ?t F raw o1 = Inr (x, o2)" for x o1 o2
  proof -
    from that obtain b where b: "ReadBytesWithLimit 0 raw o1 = Inr (b, o2)" "unmarshalRecordValue dec M ?t b F = Inr x"
      by (auto simp: get_record_iff)
    have "marshalRecordValue enc (strict M) ?t x = Inr b"
      using b(2) law nil by (rule record_sound)
    with b(1) show ?thesis by (intro exI [of _ "lp b"]) (simp add: put_record_iff reader_iff)
  qed
  have "4 \<le> int (length raw)" using seg_end [OF s] by simp
  from items_sound [where put = "put_record enc (strict M) ?t", OF it _ this rec] obtain b where len: "length xs = unat count"
    and b: "\<forall>out. encode_items (put_record enc (strict M) ?t) xs out = Inr (out @ b)" "seg raw 4 b"
      "int (length raw) = 4 + int (length b)" by auto
  have u: "uint count = int (length xs)" by (simp add: len)
  have "raw = Uint32 count @ b"
    using s b(2,3) seg_0_whole [of raw "Uint32 count @ b"] by (simp add: seg_append)
  moreover have "int (length xs) \<le> 0xFFFFFFFF" using c(2) u by (simp add: maxRecordCount_def)
  ultimately show ?thesis
    using v mi b(1) by (simp add: encodeRecordList_def encodeMaxItems_iff countWithin_def encode_counted_def len)
qed

lemma recordList_complete:
  assumes e: "encodeRecordList enc (strict M) fs v L = Inr raw" and fit: "fits (MaxFields F) v" and F: "roomy F (length raw)"
    and law: "\<And>f r w. f \<in> set (schemaOf M (structOf (elemType (fs_typ fs)))) \<Longrightarrow> fits (MaxFields F) w \<Longrightarrow>
      length r \<le> length raw \<Longrightarrow> enc f w = Inr r \<Longrightarrow> dec f r = Inr w"
  shows "decodeRecordList dec M fs raw L F = Inr v"
proof -
  let ?t = "elemType (fs_typ fs)"
  from e fit obtain xs mi where v: "v = VStructs xs" and mi: "optLimit (maxItems fs) L = Inr mi" "countWithin mi xs"
    and ec: "encode_counted (put_record enc (strict M) ?t) xs = Inr raw"
    and f: "int (length xs) \<le> maxRecordCount" "\<And>x. x \<in> set xs \<Longrightarrow> fits (MaxFields F) x"
    by (cases v) (auto simp: encodeRecordList_def encodeMaxItems_iff list_all_iff)
  let ?c = "word_of_nat (length xs) :: u32"
  have it: "encode_items (put_record enc (strict M) ?t) xs (Uint32 ?c) = Inr raw"
    using ec by (simp add: encode_counted_def split: if_splits)
  have rec: "\<exists>b. o2 = o1 @ b \<and> (\<forall>off. seg raw off b \<longrightarrow> get_record dec M ?t F raw off = Inr (x, off + int (length b)))"
    if x: "x \<in> set xs" and p: "put_record enc (strict M) ?t x o1 = Inr o2" for x o1 o2
  proof -
    from p obtain r where r: "marshalRecordValue enc (strict M) ?t x = Inr r" "fits32 r" "o2 = o1 @ lp r"
      by (auto simp: put_record_iff)
    have "get_record dec M ?t F raw off = Inr (x, off + int (length (lp r)))" if s: "seg raw off (lp r)" for off
    proof -
      have le: "length r \<le> length raw" using seg_end [OF s] s by (simp add: seg_def)
      have "unmarshalRecordValue dec M ?t r F = Inr x"
        by (rule record_complete [OF r(1) f(2) [OF x] roomy_less [OF F le]]) (use law le in force)
      with r(2) s show ?thesis by (auto simp: get_record_iff reader_iff within_def)
    qed
    with r(3) show ?thesis by blast
  qed
  from items_complete [OF it, of raw "get_record dec M ?t F", OF rec] obtain b where b: "raw = Uint32 ?c @ b"
    "\<forall>off. seg raw off b \<longrightarrow> decode_items (get_record dec M ?t F) (length xs) raw off = Inr (xs, off + int (length b))"
    by blast
  have s: "seg raw 0 (Uint32 ?c)" "seg raw 4 b" using b(1) seg_0_whole [of raw "Uint32 ?c @ b"] by (auto simp: seg_append)
  have u: "uint ?c = int (length xs)" "unat ?c = length xs"
    using f(1) by (simp_all add: maxRecordCount_def unsigned_of_nat take_bit_nat_eq_self)
  have "decode_items (get_record dec M ?t F) (unat ?c) raw 4 = Inr (xs, int (length raw))"
    using b s u by simp
  moreover have "ReadUint32 raw 0 = Inr (?c, 4)" using s by (simp add: reader_iff)
  ultimately show ?thesis
    unfolding decodeRecordList_iff using v mi u f(1) by (auto simp: countWithin_def)
qed

end

section \<open>Maps\<close>

lemma Uint32_less_iff: "Uint32 a < Uint32 b \<longleftrightarrow> a < b"
  by (simp add: bytes_less_iff word_less_def)

definition enc_entry :: "bytes \<times> bytes \<Rightarrow> bytes" where
  "enc_entry e = lp (fst e) @ lp (snd e)"

lemma enc_entry_pair: "enc_entry (k, v) = lp k @ lp v"
  by (simp add: enc_entry_def)

lemma put_entry_iff:
  "put_entry e out = Inr out' \<longleftrightarrow> (fits32 (fst e) \<and> fits32 (snd e)) \<and> out' = out @ enc_entry e"
  by (auto simp: put_entry_def enc_entry_def case_sum_Inr_iff reader_iff)

lemma encode_entries_items:
  "encode_items put_entry es out = Inr out' \<longleftrightarrow>
    list_all (\<lambda>e. fits32 (fst e) \<and> fits32 (snd e)) es \<and> out' = out @ concat (map enc_entry es)"
  by (induction es arbitrary: out) (auto simp: case_sum_Inr_iff put_entry_iff)

lemma encodeEntries_keys: "encodeEntries enc vfs xs = Inr es \<Longrightarrow> map fst es = map (Uint32 \<circ> fst) xs"
  by (induction xs arbitrary: es) (auto simp: case_sum_Inr_iff)

lemma mapLoop_sound:
  assumes law: "\<And>r w. dec (valueFS fs) r = Inr w \<Longrightarrow> enc (valueFS fs) w = Inr r"
  shows "decodeMapLoop dec fs L F n prev out raw off = Inr (out', off') \<Longrightarrow> 0 \<le> off \<Longrightarrow> off \<le> int (length raw) \<Longrightarrow>
    \<exists>new es. out' = out @ new \<and> length new = n \<and> encodeEntries enc (valueFS fs) new = Inr es
      \<and> list_all (\<lambda>e. fits32 (fst e) \<and> fits32 (snd e)) es
      \<and> seg raw off (concat (map enc_entry es)) \<and> off' = off + int (length (concat (map enc_entry es)))
      \<and> sorted_wrt (<) (map fst es) \<and> (\<forall>p. prev = Some p \<longrightarrow> (\<forall>k\<in>set (map fst es). p < k))"
proof (induction n arbitrary: prev out off)
  case 0
  then show ?case by (intro exI [of _ "[]"]) (auto simp: seg_def)
next
  case (Suc n)
  from Suc.prems(1) obtain kb o1 mx vb o2 key v where
    k: "ReadBytesWithLimit 4 raw off = Inr (kb, o1)" and srt: "\<not> (case prev of None \<Rightarrow> False | Some p \<Rightarrow> p \<ge> kb)"
    and vv: "ReadBytesWithLimit mx raw o1 = Inr (vb, o2)" and key: "DecodeUint32 kb = Inr key"
    and d: "dec (valueFS fs) vb = Inr v"
    and rest: "decodeMapLoop dec fs L F n (Some kb) (out @ [(key, v)]) raw o2 = Inr (out', off')"
    by (auto simp: case_sum_Inr_iff split: if_splits)
  from k have k': "fits32 kb" "seg raw off (lp kb)" "o1 = off + int (length (lp kb))" by (simp_all add: reader_iff)
  from vv have v': "fits32 vb" "seg raw o1 (lp vb)" "o2 = o1 + int (length (lp vb))" by (simp_all add: reader_iff)
  have "0 \<le> o2" "o2 \<le> int (length raw)" using seg_end [OF v'(2)] k'(3) v'(3) Suc.prems(2) by simp_all
  from Suc.IH [OF rest this] obtain new es where ih: "out' = (out @ [(key, v)]) @ new" "length new = n"
    "encodeEntries enc (valueFS fs) new = Inr es" "list_all (\<lambda>e. fits32 (fst e) \<and> fits32 (snd e)) es"
    "seg raw o2 (concat (map enc_entry es))" "off' = o2 + int (length (concat (map enc_entry es)))"
    "sorted_wrt (<) (map fst es)" "\<forall>k\<in>set (map fst es). kb < k" by blast
  have kb: "kb = Uint32 key" using key by (simp add: reader_iff)
  have pr: "\<forall>p. prev = Some p \<longrightarrow> p < kb \<and> (\<forall>k\<in>set (map fst es). p < k)"
    using srt ih(8) by (auto dest: less_trans)
  have s: "seg raw off (concat (map enc_entry ((kb, vb) # es)))"
    using k'(2,3) v'(2,3) ih(5) by (simp add: enc_entry_pair seg_append add.assoc)
  have "encodeEntries enc (valueFS fs) ((key, v) # new) = Inr ((kb, vb) # es)"
    using law [OF d] ih(3) kb by simp
  with ih k' v' pr s show ?case
    by (intro exI [of _ "(key, v) # new"] exI [of _ "(kb, vb) # es"]) (auto simp: enc_entry_pair)
qed

lemma mapLoop_complete:
  assumes law: "\<And>r w. w \<in> snd ` set new \<Longrightarrow> enc (valueFS fs) w = Inr r \<Longrightarrow> length r \<le> length raw \<Longrightarrow> dec (valueFS fs) r = Inr w"
    and lim: "\<And>r w o1. w \<in> snd ` set new \<Longrightarrow> enc (valueFS fs) w = Inr r \<Longrightarrow> fits32 r \<Longrightarrow> seg raw o1 (lp r) \<Longrightarrow>
      \<exists>mx. mapValueByteLimit fs raw o1 L F = Inr mx \<and> within mx r"
  shows "encodeEntries enc (valueFS fs) new = Inr es \<Longrightarrow> list_all (\<lambda>e. fits32 (fst e) \<and> fits32 (snd e)) es \<Longrightarrow>
    seg raw off (concat (map enc_entry es)) \<Longrightarrow> sorted_wrt (<) (map fst new) \<Longrightarrow>
    (\<forall>p. prev = Some p \<longrightarrow> (\<forall>k\<in>set (map fst new). p < Uint32 k)) \<Longrightarrow> set (map fst new) \<inter> fst ` set out = {} \<Longrightarrow>
    decodeMapLoop dec fs L F (length new) prev out raw off = Inr (out @ new, off + int (length (concat (map enc_entry es))))"
  using law lim
proof (induction new arbitrary: es off prev out)
  case (Cons x new)
  obtain k v where x: "x = (k, v)" by (cases x)
  from Cons.prems(1) x obtain vb es' where e: "enc (valueFS fs) v = Inr vb" "encodeEntries enc (valueFS fs) new = Inr es'"
    and es: "es = (Uint32 k, vb) # es'"
    by (auto simp: case_sum_Inr_iff)
  let ?o1 = "off + int (length (lp (Uint32 k)))" and ?o2 = "off + int (length (lp (Uint32 k))) + int (length (lp vb))"
  from Cons.prems(3) es have s: "seg raw off (lp (Uint32 k))" "seg raw ?o1 (lp vb)" "seg raw ?o2 (concat (map enc_entry es'))"
    by (auto simp: enc_entry_pair seg_append add.assoc)
  have f: "fits32 (Uint32 k)" "fits32 vb" using Cons.prems(2) es by auto
  have le: "length vb \<le> length raw" using seg_end [OF s(2)] s(2) by (simp add: seg_def)
  have rk: "ReadBytesWithLimit 4 raw off = Inr (Uint32 k, ?o1)" using s(1) f(1) by (simp add: reader_iff within_def)
  obtain mx where mx: "mapValueByteLimit fs raw ?o1 L F = Inr mx" "within mx vb"
    using Cons.prems(8) [OF _ e(1) f(2) s(2)] x by auto
  have rv: "ReadBytesWithLimit mx raw ?o1 = Inr (vb, ?o2)" using s(2) f(2) mx(2) by (simp add: reader_iff)
  have dv: "dec (valueFS fs) vb = Inr v" using Cons.prems(7) [OF _ e(1) le] x by auto
  have dk: "DecodeUint32 (Uint32 k) = Inr k" by (simp add: reader_iff)
  have pv: "\<not> (case prev of None \<Rightarrow> False | Some p \<Rightarrow> p \<ge> Uint32 k)" using Cons.prems(5) x by (auto split: option.splits)
  have nk: "k \<notin> fst ` set out" using Cons.prems(6) x by auto
  have "decodeMapLoop dec fs L F (length new) (Some (Uint32 k)) (out @ [(k, v)]) raw ?o2
      = Inr ((out @ [(k, v)]) @ new, ?o2 + int (length (concat (map enc_entry es'))))"
  proof (rule Cons.IH [OF e(2)])
    show "set (map fst new) \<inter> fst ` set (out @ [(k, v)]) = {}" using Cons.prems(4,6) x by auto
    show "\<forall>p. Some (Uint32 k) = Some p \<longrightarrow> (\<forall>k\<in>set (map fst new). p < Uint32 k)"
      using Cons.prems(4) x by (auto simp: Uint32_less_iff)
    show "\<And>r w. w \<in> snd ` set new \<Longrightarrow> enc (valueFS fs) w = Inr r \<Longrightarrow> length r \<le> length raw \<Longrightarrow> dec (valueFS fs) r = Inr w"
      using Cons.prems(7) by simp
    show "\<And>r w o1. w \<in> snd ` set new \<Longrightarrow> enc (valueFS fs) w = Inr r \<Longrightarrow> fits32 r \<Longrightarrow> seg raw o1 (lp r) \<Longrightarrow>
        \<exists>mx. mapValueByteLimit fs raw o1 L F = Inr mx \<and> within mx r"
      by (rule Cons.prems(8)) auto
  qed (use Cons.prems(2,4) es s(3) in auto)
  then show ?case using rk mx(1) rv dv dk pv nk by (simp add: x es enc_entry_pair add.assoc)
qed simp

lemma sort_key_strict: "sorted_wrt (<) (map f xs) \<Longrightarrow> sort_key f xs = xs"
  by (induction xs) (auto simp: insort_is_Cons less_imp_le)

lemma map_sound:
  assumes d: "decodeMap dec fs raw L F = Inr v"
    and law: "\<And>r w. dec (valueFS fs) r = Inr w \<Longrightarrow> enc (valueFS fs) w = Inr r"
  shows "encodeMap enc fs v L = Inr raw"
proof -
  from d obtain mi count o4 xs where mi: "optLimit (maxItems fs) L = Inr mi" and c: "ReadUint32 raw 0 = Inr (count, o4)"
    and vc: "validateRecordCountWithLimit raw o4 count 12 mi = Inr ()"
    and lp: "decodeMapLoop dec fs L F (unat count) None [] raw o4 = Inr (xs, int (length raw))" and v: "v = VMap (Some xs)"
    by (auto simp: decodeMap_def case_sum_Inr_iff split: if_splits)
  from c have o4: "o4 = 4" and s: "seg raw 0 (Uint32 count)" by (simp_all add: reader_iff)
  have "0 \<le> o4" "o4 \<le> int (length raw)" using seg_end [OF s] o4 by simp_all
  from mapLoop_sound [of dec fs enc, OF law lp this] obtain es where len: "length xs = unat count"
    and es: "encodeEntries enc (valueFS fs) xs = Inr es" "list_all (\<lambda>e. fits32 (fst e) \<and> fits32 (snd e)) es"
      "seg raw o4 (concat (map enc_entry es))" "int (length raw) = o4 + int (length (concat (map enc_entry es)))"
      "sorted_wrt (<) (map fst es)" by auto
  have raw: "raw = Uint32 count @ concat (map enc_entry es)"
    using s es(3,4) o4 seg_0_whole [of raw "Uint32 count @ concat (map enc_entry es)"] by (simp add: seg_append)
  have le: "length es = length xs" using arg_cong [OF encodeEntries_keys [OF es(1)], of length] by simp
  have srt: "sort_key fst es = es" using es(5) by (rule sort_key_strict)
  have cnt: "countWithin mi xs" "\<not> int (length xs) > 0xFFFFFFFF"
    using vc by (auto simp: validateRecordCountWithLimit_def countWithin_def len maxRecordCount_def split: if_splits)
  have "encode_counted put_entry es = Inr raw"
    using es(2) raw cnt(2) by (simp add: encode_counted_def encode_entries_items le len)
  with mi cnt es(1,5) srt v show ?thesis by (simp add: encodeMap_def Let_def)
qed

lemma length_enc_entries: "\<forall>e\<in>set es. length (fst e) = 4 \<Longrightarrow> 12 * length es \<le> length (concat (map enc_entry es))"
  by (induction es) (auto simp: enc_entry_def)

lemma map_complete:
  assumes e: "encodeMap enc fs v L = Inr raw" and fit: "fits n v"
    and law: "\<And>r w. fits n w \<Longrightarrow> enc (valueFS fs) w = Inr r \<Longrightarrow> length r \<le> length raw \<Longrightarrow> dec (valueFS fs) r = Inr w"
    and lim: "\<And>r w o1. enc (valueFS fs) w = Inr r \<Longrightarrow> fits32 r \<Longrightarrow> seg raw o1 (lp r) \<Longrightarrow>
      \<exists>mx. mapValueByteLimit fs raw o1 L F = Inr mx \<and> within mx r"
  shows "decodeMap dec fs raw L F = Inr v"
proof -
  from e fit obtain xs where v: "v = VMap (Some xs)"
    by (cases v) (auto simp: encodeMap_def fits.simps(19) split: option.splits)
  with fit have f: "int (length xs) \<le> maxRecordCount" "sorted_wrt (<) (map fst xs)" "\<And>w. w \<in> snd ` set xs \<Longrightarrow> fits n w"
    by (auto simp: list_all_iff)
  from e v obtain mi es where mi: "optLimit (maxItems fs) L = Inr mi" "countWithin mi xs"
    and es: "encodeEntries enc (valueFS fs) xs = Inr es" and ec: "encode_counted put_entry (sort_key fst es) = Inr raw"
    by (auto simp: encodeMap_def Let_def case_sum_Inr_iff split: if_splits)
  have keys: "map fst es = map (Uint32 \<circ> fst) xs" by (rule encodeEntries_keys [OF es])
  have "sorted_wrt (<) (map fst es)" using f(2) unfolding keys by (simp add: sorted_wrt_map Uint32_less_iff)
  then have srt: "sort_key fst es = es" by (rule sort_key_strict)
  have le: "length es = length xs" using arg_cong [OF keys, of length] by simp
  let ?c = "word_of_nat (length xs) :: u32"
  from ec have raw: "raw = Uint32 ?c @ concat (map enc_entry es)" and fe: "list_all (\<lambda>e. fits32 (fst e) \<and> fits32 (snd e)) es"
    by (auto simp: srt encode_counted_def encode_entries_items le split: if_splits)
  then have s: "seg raw 0 (Uint32 ?c)" "seg raw 4 (concat (map enc_entry es))"
    using seg_0_whole [of raw "Uint32 ?c @ concat (map enc_entry es)"] by (auto simp: seg_append)
  have u: "uint ?c = int (length xs)" "unat ?c = length xs"
    using f(1) by (simp_all add: maxRecordCount_def unsigned_of_nat take_bit_nat_eq_self)
  have "\<forall>e\<in>set es. length (fst e) = 4"
  proof
    fix e assume "e \<in> set es"
    then have "fst e \<in> set (map fst es)" by simp
    then show "length (fst e) = 4" unfolding keys by auto
  qed
  from length_enc_entries [OF this] have ml: "12 * int (length xs) \<le> int (length (concat (map enc_entry es)))" by (simp add: le)
  have "decodeMapLoop dec fs L F (length xs) None [] raw 4
      = Inr ([] @ xs, 4 + int (length (concat (map enc_entry es))))"
    by (rule mapLoop_complete [of _ enc]) (use law lim f es fe s in auto)
  moreover have "validateRecordCountWithLimit raw 4 ?c 12 mi = Inr ()"
    using f(1) mi(2) ml by (auto simp: validateRecordCountWithLimit_def u countWithin_def raw)
  moreover have "ReadUint32 raw 0 = Inr (?c, 4)" using s by (simp add: reader_iff)
  ultimately show ?thesis using mi v raw by (simp add: decodeMap_def u)
qed

section \<open>Strict encoding is encoding\<close>

lemma beforeEncode_strict: "beforeEncode (strict M) t v = Inr w \<Longrightarrow> beforeEncode M t v = Inr w"
  by (auto simp: beforeEncode_def runBeforeMarshalHook_def runValidateHook_def methodOf_def checkOnly_def case_sum_Inr_iff
      split: gtype.splits option.splits if_splits)

lemma encodeFields_mono:
  assumes "\<And>f v r. f \<in> set s \<Longrightarrow> enc f v = Inr r \<Longrightarrow> enc' f v = Inr r"
  shows "encodeFields enc s vals = Inr flds \<Longrightarrow> encodeFields enc' s vals = Inr flds"
  using assms
proof (induction enc s vals arbitrary: flds rule: encodeFields.induct)
  case (2 enc f fs v vs)
  show ?case
  proof (cases "shouldOmit f v")
    case False
    with "2.prems"(1) obtain raw flds' where e: "enc f v = Inr raw" "encodeFields enc fs vs = Inr flds'"
      "flds = \<lparr>Tag = fs_tag f, Value = Some raw\<rparr> # flds'"
      by (auto simp: case_sum_Inr_iff)
    have "enc' f v = Inr raw" "encodeFields enc' fs vs = Inr flds'"
      using "2.prems"(2) e "2.IH"(2) [OF False e(1,2)] by auto
    with False e(3) show ?thesis by simp
  qed (use 2 in auto)
qed (auto simp: panic_def)

lemma encodeStruct_mono:
  assumes "\<And>f v r. f \<in> set (schemaOf M st) \<Longrightarrow> enc f v = Inr r \<Longrightarrow> enc' f v = Inr r"
    and "encodeStruct enc (strict M) st v = Inr flds"
  shows "encodeStruct enc' M st v = Inr flds"
proof -
  from assms(2) obtain s vals where s: "parseSchema M st = Inr s" and v: "v = VStruct vals" "encodeFields enc s vals = Inr flds"
    by (auto simp: encodeStruct_iff)
  have "schemaOf M st = s" by (simp add: schemaOf_def s)
  with assms(1) have "encodeFields enc' s vals = Inr flds" by (intro encodeFields_mono [OF _ v(2)]) auto
  with s v(1) show ?thesis by (simp add: encodeStruct_iff)
qed

lemma record_mono:
  assumes "\<And>f v r. f \<in> set (schemaOf M (structOf t)) \<Longrightarrow> enc f v = Inr r \<Longrightarrow> enc' f v = Inr r"
    and "marshalRecordValue enc (strict M) t v = Inr raw"
  shows "marshalRecordValue enc' M t v = Inr raw"
proof -
  from assms(2) obtain w w' flds where "deref t v = Inr w" "rkind_of (structOf t) = StructK"
    "beforeEncode (strict M) (structOf t) w = Inr w'" "encodeStruct enc (strict M) (structOf t) w' = Inr flds"
    "marshalFieldBody flds = Inr raw"
    by (auto simp: marshalRecordValue_def case_sum_Inr_iff split: if_splits)
  then show ?thesis
    using beforeEncode_strict [of M "structOf t" w w'] encodeStruct_mono [of M "structOf t" enc enc' w' flds, OF assms(1)]
    by (simp add: marshalRecordValue_def)
qed

lemma message_mono:
  assumes "\<And>f v r. f \<in> set (schemaOf M (structOf t)) \<Longrightarrow> enc f v = Inr r \<Longrightarrow> enc' f v = Inr r"
    and "marshalMessage enc (strict M) t v L = Inr raw"
  shows "marshalMessage enc' M t v L = Inr raw"
proof -
  from assms(2) obtain w w' wm where d: "deref t v = Inr w" "rkind_of (structOf t) = StructK"
    "methodOf (WireMessage M) (structOf t) = Some wm" "beforeEncode (strict M) (structOf t) w = Inr w'"
    by (auto simp: marshalMessage_def case_sum_Inr_iff split: if_splits option.splits)
  with assms(2) have "(case methodOf (MarshalWireMessage M) (structOf t) of
      Some mm \<Rightarrow> marshalCustomMessage mm wm w' L
    | None \<Rightarrow> (case encodeStruct enc (strict M) (structOf t) w' of
         Inl e \<Rightarrow> Inl e | Inr flds \<Rightarrow> MarshalFields (snd wm) (fst wm) flds)) = Inr raw"
    by (simp add: marshalMessage_def)
  then show ?thesis
    using d beforeEncode_strict [OF d(4)] encodeStruct_mono [of M "structOf t" enc enc' w', OF assms(1)]
    by (auto simp: marshalMessage_def case_sum_Inr_iff split: option.splits)
qed

lemma encode_items_mono:
  assumes "\<And>x o1 o2. put x o1 = Inr o2 \<Longrightarrow> put' x o1 = Inr o2"
  shows "encode_items put xs out = Inr r \<Longrightarrow> encode_items put' xs out = Inr r"
  using assms by (induction xs arbitrary: out) (auto simp: case_sum_Inr_iff)

lemma recordList_mono:
  assumes "\<And>f v r. f \<in> set (schemaOf M (structOf (elemType (fs_typ fs)))) \<Longrightarrow> enc f v = Inr r \<Longrightarrow> enc' f v = Inr r"
    and "encodeRecordList enc (strict M) fs v L = Inr raw"
  shows "encodeRecordList enc' M fs v L = Inr raw"
proof -
  let ?t = "elemType (fs_typ fs)"
  from assms(2) obtain xs mi where v: "v = VStructs xs" "optLimit (maxItems fs) L = Inr mi" "countWithin mi xs"
    and e: "encode_counted (put_record enc (strict M) ?t) xs = Inr raw"
    by (cases v) (auto simp: encodeRecordList_def encodeMaxItems_iff)
  have "put_record enc (strict M) ?t x o1 = Inr o2 \<Longrightarrow> put_record enc' M ?t x o1 = Inr o2" for x o1 o2
    using record_mono [of M ?t enc enc' x, OF assms(1)] by (auto simp: put_record_iff)
  from encode_items_mono [of "put_record enc (strict M) ?t" "put_record enc' M ?t", OF this]
  have "encode_counted (put_record enc' M ?t) xs = Inr raw"
    using e by (auto simp: encode_counted_def split: if_splits)
  with v show ?thesis by (auto simp: encodeRecordList_def encodeMaxItems_iff)
qed

lemma encodeEntries_mono:
  assumes "\<And>w r. enc vfs w = Inr r \<Longrightarrow> enc' vfs w = Inr r"
  shows "encodeEntries enc vfs xs = Inr es \<Longrightarrow> encodeEntries enc' vfs xs = Inr es"
  using assms by (induction xs arbitrary: es) (auto simp: case_sum_Inr_iff)

lemma map_mono:
  assumes "\<And>w r. enc (valueFS fs) w = Inr r \<Longrightarrow> enc' (valueFS fs) w = Inr r"
    and "encodeMap enc fs v L = Inr raw"
  shows "encodeMap enc' fs v L = Inr raw"
proof (cases v)
  case (VMap m)
  show ?thesis
  proof (cases m)
    case (Some xs)
    with assms(2) VMap obtain es mi where l: "\<not> 4294967295 < length xs" "optLimit (maxItems fs) L = Inr mi" "countWithin mi xs"
      and es: "encodeEntries enc (valueFS fs) xs = Inr es"
      by (auto simp: encodeMap_def case_sum_Inr_iff split: if_splits)
    from es have "encodeEntries enc' (valueFS fs) xs = Inr es"
      by (rule encodeEntries_mono [rotated]) (rule assms(1))
    with l es show ?thesis using assms(2) VMap Some by (simp add: encodeMap_def)
  qed (use assms(2) VMap in \<open>simp add: encodeMap_def\<close>)
qed (use assms(2) in \<open>auto simp: encodeMap_def\<close>)

lemma custom_strict [simp]:
  "encodeCustom (strict M) = encodeCustom M" "encodeCustomList (strict M) = encodeCustomList M"
  by (intro ext; simp only: encodeCustom_def encodeCustomList_def strict_sel)+

lemma fs_size_record: "fs_kind fs \<in> {kindRecord, kindNested} \<Longrightarrow> f \<in> set (schemaOf M (structOf (fs_typ fs))) \<Longrightarrow> fs_size f < fs_size fs"
  using fs_size_schemaOf [of f M "fs_typ fs"] by (auto simp: fs_size_def)

lemma fs_size_recordList:
  "fs_kind fs = kindRecordList \<Longrightarrow> rkind_of (fs_typ fs) = SliceK \<Longrightarrow>
    f \<in> set (schemaOf M (structOf (elemType (fs_typ fs)))) \<Longrightarrow> fs_size f < fs_size fs"
  using fs_size_elem [of fs f M] by (auto simp: fs_size_def)

lemma encode_strict: "encode (strict M) L fs v = Inr raw \<Longrightarrow> encode M L fs v = Inr raw"
proof (induction "fs_size fs" arbitrary: fs v raw rule: less_induct)
  case less
  note e = less.prems [unfolded encode.simps [of "strict M" L fs v]]
  show ?case
  proof (cases "fs_kind fs")
    case kindNested
    with e obtain r where "marshalMessage (encode (strict M) L) (strict M) (fs_typ fs) v L = Inr r"
      "checkByteLimits fs r L = Inr ()" "raw = r"
      by (auto simp: case_sum_Inr_iff)
    moreover from this(1) have "marshalMessage (encode M L) M (fs_typ fs) v L = Inr r"
      by (rule message_mono [rotated]) (use less.hyps fs_size_record kindNested in blast)
    ultimately show ?thesis by (simp add: encode.simps [of M L fs v] kindNested)
  next
    case kindRecord
    with e have "marshalRecordValue (encode (strict M) L) (strict M) (fs_typ fs) v = Inr raw" by simp
    then have "marshalRecordValue (encode M L) M (fs_typ fs) v = Inr raw"
      by (rule record_mono [rotated]) (use less.hyps fs_size_record kindRecord in blast)
    then show ?thesis by (simp add: encode.simps [of M L fs v] kindRecord)
  next
    case kindRecordList
    with e have k: "rkind_of (fs_typ fs) = SliceK" and "encodeRecordList (encode (strict M) L) (strict M) fs v L = Inr raw"
      by (auto split: if_splits)
    from this(2) have "encodeRecordList (encode M L) M fs v L = Inr raw"
      by (rule recordList_mono [rotated]) (use less.hyps fs_size_recordList kindRecordList k in blast)
    then show ?thesis by (simp add: encode.simps [of M L fs v] kindRecordList k)
  next
    case kindMap
    with e have "encodeMap (encode (strict M) L) fs v L = Inr raw" by simp
    then have "encodeMap (encode M L) fs v L = Inr raw"
      by (rule map_mono [rotated]) (use less.hyps fs_size_valueFS kindMap in blast)
    then show ?thesis by (simp add: encode.simps [of M L fs v] kindMap)
  qed (use e in \<open>simp_all add: encode.simps [of M L fs v]\<close>)
qed

section \<open>The round trip for one field\<close>

lemma encode_nil [simp]: "encode M L fs (VPtr None) \<noteq> Inr raw"
  unfolding encode.simps [of M L fs "VPtr None"]
  by (cases "fs_kind fs")
     (auto simp: encodeU32_def uintValue_def encodeBytes_def encodeString_def encodeU32List_def encodeBytesList_def
       encodePartyBytes_def encodePartyBytePairs_def marshalMessage_def deref_def encodeCustom_def encodeCustomList_def
       encodeBigIntDispatch_def encodeBigUintDispatch_def encodeBigPosDispatch_def encodeBigDispatch_def
       bigIntFromValue_def encodeBigPos_def marshalRecordValue_def encodeRecordList_def encodeMap_def case_sum_Inr_iff
       split: if_splits)

definition map_ok :: "fieldSchema \<Rightarrow> bool" where
  "map_ok fs \<longleftrightarrow> fs_kind fs = kindMap \<longrightarrow> validateFieldOptions fs = Inr () \<and> mapValueKind fs \<noteq> kindMap"

lemma schemaOf_map_ok:
  assumes "f \<in> set (schemaOf M t)"
  shows "map_ok f"
proof -
  from assms obtain s where s: "parseSchema M t = Inr s" "f \<in> set s"
    by (cases "parseSchema M t") (auto simp: schemaOf_def)
  then obtain sf where "field_from M sf f" using parseSchema_inv by blast
  then show ?thesis using inferMapValueKind_not_map by (auto simp: map_ok_def field_from_def)
qed

lemma valueFS_map_ok: "fs_kind fs = kindMap \<Longrightarrow> map_ok fs \<Longrightarrow> map_ok (valueFS fs)"
  by (simp add: map_ok_def valueFS_def)

lemma encode_limits:
  assumes "encode M L fs v = Inr r" "kindConsumesFixedLen (fs_kind fs)"
  shows "checkByteLimits fs r L = Inr ()"
proof -
  note e = assms(1) [unfolded encode.simps [of M L fs v]]
  from assms(2) consider "fs_kind fs = kindBytes" | "fs_kind fs = kindString" | "fs_kind fs = kindCustom"
    | "fs_kind fs = kindBigInt" | "fs_kind fs = kindBigUint" | "fs_kind fs = kindBigPos"
    by (auto simp: kindConsumesFixedLen_def)
  then show ?thesis
  proof cases
    case 1
    with e show ?thesis by (cases v) (auto simp: encodeBytes_def case_sum_Inr_iff split: if_splits)
  next
    case 2
    with e show ?thesis by (cases v) (auto simp: encodeString_def case_sum_Inr_iff split: if_splits)
  next
    case 3
    with e show ?thesis by (auto simp: encodeCustom_def case_sum_Inr_iff split: option.splits)
  qed (use e in \<open>auto simp: encodeBigIntDispatch_def encodeBigUintDispatch_def encodeBigPosDispatch_def
      encodeBigDispatch_def case_sum_Inr_iff split: if_splits\<close>)
qed

lemma value_limit:
  assumes e: "encode M L (valueFS fs) w = Inr r" and ok: "map_ok fs" "fs_kind fs = kindMap"
    and F: "roomy F (length raw)" and s: "fits32 r" "seg raw off (lp r)"
  shows "\<exists>mx. mapValueByteLimit fs raw off L F = Inr mx \<and> within mx r"
proof -
  have le: "int (length r) \<le> MaxFieldBytes F" "0 < MaxFieldBytes F"
    using seg_end [OF s(2)] s(2) F by (auto simp: seg_def roomy_def frame_limits_validate_iff)
  have k: "fixedLenSet fs \<longrightarrow> kindConsumesFixedLen (mapValueKind fs)" "maxBytes fs \<noteq> [] \<longrightarrow> kindConsumesFixedLen (mapValueKind fs)"
    using ok by (auto simp: map_ok_def validateFieldOptions_def kindSupportsFixedLen_def kindSupportsMaxBytes_def
        kindConsumesMaxBytes_def kindConsumesFixedLen_def split: if_splits)
  have lim: "checkByteLimits (valueFS fs) r L = Inr ()" if "kindConsumesFixedLen (mapValueKind fs)"
    using e by (rule encode_limits) (use that in \<open>simp add: valueFS_def\<close>)
  have fl: "fixedLenSet fs \<longrightarrow> fixedLen fs = int (length r)"
    using k(1) lim by (auto simp: checkByteLimits_def checkFixedLen_def valueFS_def case_sum_Inr_iff split: if_splits)
  have mb: "maxBytes fs \<noteq> [] \<longrightarrow> (\<exists>mx. getLimit (maxBytes fs) L = Inr mx \<and> int (length r) \<le> mx)"
    using k(2) lim by (auto simp: checkByteLimits_def valueFS_def case_sum_Inr_iff split: if_splits)
  have rd: "ReadUint32 raw off = Inr (word_of_nat (length r), off + 4)" and u: "uint (word_of_nat (length r) :: u32) = int (length r)"
    using s by (auto simp: reader_iff lp_def seg_append fits32_def unsigned_of_nat take_bit_nat_eq_self)
  have m: "int (length r) mod 2 ^ 64 = int (length r)" using s(1) by (simp add: fits32_def)
  show ?thesis
    using fl mb le m by (auto simp: mapValueByteLimit_def rd u within_def)
qed

lemmas leaf_plain = decodeU8_iff decodeU16_iff decodeBool_iff decodeBytes_iff decodeString_iff
  decodeBigIntDispatch_iff decodeBigUintDispatch_iff decodeBigPosDispatch_iff

lemmas leaf_sized = decodeU32_iff decodeU32List_iff decodeBytesList_iff decodePartyBytes_iff decodePartyBytePairs_iff

context wire_methods
begin

lemma decode_sound:
  assumes "MaxTotalBytes (withDefaults F) < 2 ^ 63"
  shows "decode M L F fs raw = Inr v \<Longrightarrow> encode (strict M) L fs v = Inr raw"
  using assms
proof (induction "fs_size fs" arbitrary: F fs v raw rule: less_induct)
  case less
  note d = less.prems(1) [unfolded decode.simps [of M L F fs raw]]
  note enc = encode.simps [of "strict M" L fs v]
  show ?case
  proof (cases "fs_kind fs")
    case kindNested
    with d have "checkByteLimits fs raw L = Inr ()" "unmarshalMessage (decode M L) M (fs_typ fs) raw F L = Inr v"
      by (auto simp: case_sum_Inr_iff)
    moreover have "encode (strict M) L f w = Inr r"
      if "f \<in> set (schemaOf M (structOf (fs_typ fs)))" "decode M L (withDefaults F) f r = Inr w" for f r w
      using less.hyps [OF fs_size_record, of f M "withDefaults F"] kindNested that less.prems(2) by simp
    ultimately have "marshalMessage (encode (strict M) L) (strict M) (fs_typ fs) v L = Inr raw"
      using less.prems(2) by (intro message_sound) auto
    with \<open>checkByteLimits fs raw L = Inr ()\<close> show ?thesis by (simp add: enc kindNested)
  next
    case kindRecord
    with d have "unmarshalRecordValue (decode M L F) M (fs_typ fs) raw F = Inr v" by simp
    moreover have "encode (strict M) L f w = Inr r"
      if "f \<in> set (schemaOf M (structOf (fs_typ fs)))" "decode M L F f r = Inr w" for f r w
      using less.hyps [OF fs_size_record, of f M F] kindRecord that less.prems(2) by simp
    ultimately have "marshalRecordValue (encode (strict M) L) (strict M) (fs_typ fs) v = Inr raw"
      by (intro record_sound) auto
    then show ?thesis by (simp add: enc kindRecord)
  next
    case kindRecordList
    with d have k: "rkind_of (fs_typ fs) = SliceK" and "decodeRecordList (decode M L F) M fs raw L F = Inr v"
      by (auto split: if_splits)
    moreover have "encode (strict M) L f w = Inr r"
      if "f \<in> set (schemaOf M (structOf (elemType (fs_typ fs))))" "decode M L F f r = Inr w" for f r w
      using less.hyps [OF fs_size_recordList, of f M F] kindRecordList k that less.prems(2) by simp
    ultimately have "encodeRecordList (encode (strict M) L) (strict M) fs v L = Inr raw"
      by (intro recordList_sound) auto
    then show ?thesis by (simp add: enc kindRecordList k)
  next
    case kindMap
    with d have "decodeMap (decode M L F) fs raw L F = Inr v" by simp
    moreover have "encode (strict M) L (valueFS fs) w = Inr r" if "decode M L F (valueFS fs) r = Inr w" for r w
      using less.hyps [OF fs_size_valueFS] kindMap that less.prems(2) by simp
    ultimately have "encodeMap (encode (strict M) L) fs v L = Inr raw" by (rule map_sound)
    then show ?thesis by (simp add: enc kindMap)
  next
    case kindCustom
    with d show ?thesis by (simp add: enc decodeCustom_iff [OF methodOf_custom])
  next
    case kindCustomList
    with d show ?thesis by (simp add: enc decodeCustomList_sound [OF methodOf_custom])
  qed (use d in \<open>auto simp: enc leaf_plain leaf_sized [where n = 0] split: if_splits\<close>)
qed

lemma decode_complete:
  assumes "\<And>n. MarshalWireMessage M n = None"
  shows "encode (strict M) L fs v = Inr raw \<Longrightarrow> map_ok fs \<Longrightarrow> fits (MaxFields F) v \<Longrightarrow> roomy F (length raw) \<Longrightarrow>
    decode M L F fs raw = Inr v"
proof (induction "fs_size fs" arbitrary: fs v raw rule: less_induct)
  case less
  note e = less.prems(1) [unfolded encode.simps [of "strict M" L fs v]]
  note dec = decode.simps [of M L F fs raw]
  note fit = less.prems(3) and F = less.prems(4)
  have plain: "methodOf (MarshalWireMessage M) t = None" for t
    using assms by (auto simp: methodOf_def split: gtype.splits)
  show ?case
  proof (cases "fs_kind fs")
    case kindNested
    with e have m: "marshalMessage (encode (strict M) L) (strict M) (fs_typ fs) v L = Inr raw"
      and c: "checkByteLimits fs raw L = Inr ()"
      by (auto simp: case_sum_Inr_iff)
    have "unmarshalMessage (decode M L) M (fs_typ fs) raw F L = Inr v"
      by (rule message_complete [OF m fit F plain])
         (use less.hyps fs_size_record kindNested schemaOf_map_ok roomy_less F in blast)
    with c show ?thesis by (simp add: dec kindNested)
  next
    case kindRecord
    with e have "marshalRecordValue (encode (strict M) L) (strict M) (fs_typ fs) v = Inr raw" by simp
    from record_complete [OF this fit F, where dec = "decode M L F"] have "unmarshalRecordValue (decode M L F) M (fs_typ fs) raw F = Inr v"
      using less.hyps fs_size_record kindRecord schemaOf_map_ok roomy_less F by blast
    then show ?thesis by (simp add: dec kindRecord)
  next
    case kindRecordList
    with e have k: "rkind_of (fs_typ fs) = SliceK" and "encodeRecordList (encode (strict M) L) (strict M) fs v L = Inr raw"
      by (auto split: if_splits)
    from recordList_complete [OF this(2) fit F, where dec = "decode M L F"] have "decodeRecordList (decode M L F) M fs raw L F = Inr v"
      using less.hyps fs_size_recordList kindRecordList k schemaOf_map_ok roomy_less F by blast
    then show ?thesis by (simp add: dec kindRecordList k)
  next
    case kindMap
    with e have "encodeMap (encode (strict M) L) fs v L = Inr raw" by simp
    moreover have "decode M L F (valueFS fs) r = Inr w"
      if "fits (MaxFields F) w" "encode (strict M) L (valueFS fs) w = Inr r" "length r \<le> length raw" for r w
      using less.hyps [OF fs_size_valueFS [OF kindMap] that(2) valueFS_map_ok [OF kindMap less.prems(2)] that(1)]
        roomy_less [OF F that(3)] by simp
    moreover have "\<exists>mx. mapValueByteLimit fs raw o1 L F = Inr mx \<and> within mx r"
      if "encode (strict M) L (valueFS fs) w = Inr r" "fits32 r" "seg raw o1 (lp r)" for r w o1
      using that(1) less.prems(2) kindMap F that(2,3) by (rule value_limit)
    ultimately have "decodeMap (decode M L F) fs raw L F = Inr v"
      using fit by (intro map_complete [where enc = "encode (strict M) L"])
    then show ?thesis by (simp add: dec kindMap)
  next
    case kindCustom
    with e show ?thesis by (simp add: dec decodeCustom_iff [OF methodOf_custom])
  next
    case kindCustomList
    with e fit show ?thesis by (simp add: dec decodeCustomList_complete [OF methodOf_custom])
  qed (use e fit in \<open>auto simp: dec leaf_plain leaf_sized [where n = "MaxFields F"] split: if_splits rvalue.splits\<close>)
qed

section \<open>The round trip for messages and records\<close>

lemma Unmarshal_sound:
  assumes F: "MaxTotalBytes (withDefaults F) < 2 ^ 63" and "Unmarshal M t raw F L = Inr v"
  shows "Marshal (strict M) t v L = Inr raw"
  unfolding Marshal_def
  by (rule message_sound [OF assms(2) [unfolded Unmarshal_def] F])
    (use decode_sound [of "withDefaults F"] F in auto)

lemma UnmarshalRecordValue_sound:
  assumes F: "MaxTotalBytes (withDefaults F) < 2 ^ 63" and "UnmarshalRecordValue M t raw F L = Inr v"
  shows "MarshalRecordValue (strict M) t v L = Inr raw"
proof -
  from assms(2) have "unmarshalRecordValue (decode M L (withDefaults F)) M t raw (withDefaults F) = Inr v"
    by (auto simp: UnmarshalRecordValue_def Let_def case_sum_Inr_iff split: if_splits)
  then show ?thesis
    unfolding MarshalRecordValue_def by (rule record_sound) (use decode_sound [of "withDefaults F"] F in auto)
qed

lemma Unmarshal_complete:
  assumes "Marshal (strict M) t v L = Inr raw" "fits (MaxFields F) v" "roomy F (length raw)"
    and plain: "\<And>n. MarshalWireMessage M n = None"
  shows "Unmarshal M t raw F L = Inr v"
proof -
  have "methodOf (MarshalWireMessage M) (structOf t) = None"
    using plain by (auto simp: methodOf_def split: gtype.splits)
  from message_complete [OF assms(1) [unfolded Marshal_def] assms(2,3) this, where dec = "decode M L"]
  show ?thesis
    unfolding Unmarshal_def using decode_complete [OF plain] schemaOf_map_ok roomy_less [OF assms(3)] by blast
qed

end

lemma Marshal_strict: "Marshal (strict M) t v L = Inr raw \<Longrightarrow> Marshal M t v L = Inr raw"
  unfolding Marshal_def using encode_strict by (rule message_mono)

lemma MarshalRecordValue_strict: "MarshalRecordValue (strict M) t v L = Inr raw \<Longrightarrow> MarshalRecordValue M t v L = Inr raw"
  unfolding MarshalRecordValue_def using encode_strict by (rule record_mono)

lemma strict_same: "(\<And>n. BeforeMarshalWire M n = None) \<Longrightarrow> strict M = M"
  by (cases M) (simp add: strict_def fun_eq_iff)

end
