(* ===== verification/Wire_Messages.thy ===== *)
theory Wire_Messages
  imports Wire_Canonical
begin

text \<open>
  Tools for messages with a fixed Go type: encoding a struct field by field, with one equivalence per wire
  kind, so that the wire form of a concrete message type follows from its schema by rewriting.
\<close>

section \<open>Fields of messages, kind by kind\<close>

lemma Marshal_plain:
  assumes "\<not> isPtr t" "rkind_of t = StructK" "methodOf (WireMessage M) t = Some (ty, ver)"
    and "methodOf (MarshalWireMessage M) t = None" "parseSchema M t = Inr s"
  shows "Marshal M t v L = Inr raw \<longleftrightarrow> (\<forall>p. v \<noteq> VPtr p) \<and>
    (\<exists>vals flds. beforeEncode M t v = Inr (VStruct vals) \<and> encodeFields (encode M L) s vals = Inr flds
      \<and> MarshalFields ver ty flds = Inr raw)"
proof -
  have "structOf t = t" "deref t v = Inr w \<longleftrightarrow> w = v \<and> (\<forall>p. v \<noteq> VPtr p)" for w
    using assms(1) by (cases v; auto simp: structOf_def deref_def)+
  with assms(2-) show ?thesis
    by (auto simp: Marshal_def marshalMessage_def case_sum_Inr_iff encodeStruct_iff)
qed

lemma encodeFields_Nil_iff: "encodeFields enc [] vs = Inr flds \<longleftrightarrow> vs = [] \<and> flds = []"
  by (cases vs) (auto simp: panic_def)

lemma encodeFields_Cons_iff:
  "\<not> optional f \<Longrightarrow> encodeFields enc (f # fs) vs = Inr flds \<longleftrightarrow>
    (\<exists>v vs' r flds'. vs = v # vs' \<and> enc f v = Inr r \<and> encodeFields enc fs vs' = Inr flds'
      \<and> flds = \<lparr>Tag = fs_tag f, Value = Some r\<rparr> # flds')"
  by (cases vs) (auto simp: shouldOmit_def case_sum_Inr_iff panic_def)

lemma encode_u8_iff:
  "fs_kind f = kindU8 \<Longrightarrow> rkind_of (fs_typ f) = Uint8K \<Longrightarrow>
    encode M L f v = Inr r \<longleftrightarrow> (\<exists>b. v = VU8 b \<and> r = [b])"
  unfolding encode.simps [of M L f v] by (cases v) auto

lemma encode_u32_iff:
  "fs_kind f = kindU32 \<Longrightarrow> rkind_of (fs_typ f) = Uint32K \<Longrightarrow>
    encode M L f v = Inr r \<longleftrightarrow> (\<exists>w. v = VU32 w \<and> r = Uint32 w)"
  using uint32_range(2) [THEN leD]
  unfolding encode.simps [of M L f v]
  by (cases v) (auto simp: encodeU32_def uintValue_def)

lemma encode_bytes_iff:
  "fs_kind f = kindBytes \<Longrightarrow> encode M L f v = Inr r \<longleftrightarrow>
    v = VBytes r \<and> bytesTyped f r \<and> checkByteLimits f r L = Inr () \<and> checkBitsLimit f (int (length r) * 8) L = Inr ()"
  unfolding encode.simps [of M L f v]
  by (cases v) (auto simp: encodeBytes_def case_sum_Inr_iff split: if_splits)

lemma encode_string_iff:
  "fs_kind f = kindString \<Longrightarrow> rkind_of (fs_typ f) = StringK \<Longrightarrow> encode M L f v = Inr r \<longleftrightarrow>
    (\<exists>s. v = VString s \<and> utf8_valid_string s \<and> r = str_bytes s \<and> checkByteLimits f r L = Inr ())"
  unfolding encode.simps [of M L f v]
  by (cases v) (auto simp: encodeString_def case_sum_Inr_iff split: if_splits)

lemma checkByteLimits_none: "maxBytes f = [] \<Longrightarrow> \<not> fixedLenSet f \<Longrightarrow> checkByteLimits f r L = Inr ()"
  by (simp add: checkByteLimits_def checkFixedLen_def)

lemma checkByteLimits_fixed:
  "maxBytes f = [] \<Longrightarrow> fixedLenSet f \<Longrightarrow> checkByteLimits f r L = Inr () \<longleftrightarrow> int (length r) = fixedLen f"
  by (simp add: checkByteLimits_def checkFixedLen_def)

lemma checkByteLimits_max:
  "maxBytes f \<noteq> [] \<Longrightarrow> \<not> fixedLenSet f \<Longrightarrow>
    checkByteLimits f r L = Inr () \<longleftrightarrow> (\<exists>mx. getLimit (maxBytes f) L = Inr mx \<and> int (length r) \<le> mx)"
  by (cases "getLimit (maxBytes f) L") (auto simp: checkByteLimits_def checkFixedLen_def)

lemma checkBitsLimit_none: "maxBits f = [] \<Longrightarrow> checkBitsLimit f n L = Inr ()"
  by (simp add: checkBitsLimit_def)

text \<open>A field schema with no option.\<close>

definition plainField :: "u16 \<Rightarrow> string \<Rightarrow> wireKind \<Rightarrow> gtype \<Rightarrow> fieldSchema" where
  "plainField tag name k t =
    \<lparr>fs_tag = tag, fs_name = name, fs_kind = k, fs_typ = t, fixedLen = 0, fixedLenSet = False, maxBytes = [],
     maxItems = [], maxBits = [], optional = False, mapKeyType = TOther, mapValueType = TOther, mapValueKind = kindU8\<rparr>"

lemma plainField_sel [simp]:
  "fs_tag (plainField tag name k t) = tag" "fs_kind (plainField tag name k t) = k"
  "fs_typ (plainField tag name k t) = t" "fixedLenSet (plainField tag name k t) = False"
  "maxBytes (plainField tag name k t) = []" "maxItems (plainField tag name k t) = []"
  "maxBits (plainField tag name k t) = []" "optional (plainField tag name k t) = False"
  by (simp_all add: plainField_def)

lemmas field_iffs = encodeFields_Nil_iff encodeFields_Cons_iff encode_u8_iff encode_u32_iff encode_bytes_iff
  encode_string_iff checkByteLimits_none checkByteLimits_fixed checkByteLimits_max checkBitsLimit_none

lemma rkind_simps [simp]:
  "rkind_of gtype.TUint8 = Uint8K" "rkind_of gtype.TUint32 = Uint32K" "rkind_of gtype.TString = StringK"
  "rkind_of (TSlice t) = SliceK" "rkind_of (TArray n t) = ArrayK" "rkind_of (TStruct fs) = StructK"
  "rkind_of (TNamed s t) = rkind_of t" "elemType (TSlice t) = t" "elemType (TArray n t) = t"
  "elemType (TNamed s t) = elemType t" "arrayLen (TArray n t) = int n" "arrayLen (TNamed s t) = arrayLen t"
  by (simp_all add: rkind_of_def elemType_def arrayLen_def)

lemma bytesTyped_simps:
  "rkind_of (fs_typ f) = SliceK \<Longrightarrow> bytesTyped f b \<longleftrightarrow> rkind_of (elemType (fs_typ f)) = Uint8K"
  "rkind_of (fs_typ f) = ArrayK \<Longrightarrow> bytesTyped f b \<longleftrightarrow>
     rkind_of (elemType (fs_typ f)) = Uint8K \<and> int (length b) = arrayLen (fs_typ f)"
  by (simp_all add: bytesTyped_def)

end
