(* ===== verification/Transcript.thy ===== *)
theory Transcript
  imports Wire_Records
begin

text \<open>
  Labelled SHA-256 transcripts (\<^verbatim>\<open>internal/transcript/transcript.go\<close>).  A \<^verbatim>\<open>Builder\<close> is the byte string
  written to its hash so far; one constructor of \<open>tr_val\<close> stands for each \<^verbatim>\<open>Append*\<close> method, and a
  panic is an \<^const>\<open>Inl\<close>.  The lemmas show that the written byte string determines the domain and
  the sequence of labelled values, so a digest separates transcripts up to a SHA-256 collision.
\<close>

type_synonym Builder = bytes

section \<open>Operations\<close>

definition writeLength :: "Builder \<Rightarrow> nat \<Rightarrow> werror + Builder" where
  "writeLength h n =
    (if int n > 0xFFFFFFFF then Inl ''transcript: field length exceeds uint32''
     else Inr (h @ be_bytes 4 (int n)))"

definition append_entry :: "Builder \<Rightarrow> string \<Rightarrow> bytes \<Rightarrow> werror + Builder" where
  "append_entry b label value =
    (if label = [] then Inl ''transcript: empty field label''
     else case writeLength b (length label) of
       Inl e \<Rightarrow> Inl e
     | Inr b \<Rightarrow>
         (case writeLength (b @ str_bytes label) (length value) of
            Inl e \<Rightarrow> Inl e
          | Inr b \<Rightarrow> Inr (b @ value)))"

definition tr_New :: "string \<Rightarrow> werror + Builder" where
  "tr_New domain =
    (if domain = [] then Inl ''transcript: empty domain''
     else append_entry [] ''domain'' (str_bytes domain))"

datatype tr_val =
    TBytes bytes
  | TString string
  | TUint8 u8
  | TUint16 u16
  | TUint32 u32
  | TUint64 u64
  | TBool bool
  | TUint32List "u32 list"
  | TBytesList "bytes list"

fun tr_encode :: "tr_val \<Rightarrow> werror + bytes" where
  "tr_encode (TBytes v) = Inr v"
| "tr_encode (TString s) = Inr (str_bytes s)"
| "tr_encode (TUint8 v) = Inr [v]"
| "tr_encode (TUint16 v) = Inr (Uint16 v)"
| "tr_encode (TUint32 v) = Inr (Uint32 v)"
| "tr_encode (TUint64 v) = Inr (be_bytes 8 (uint v))"
| "tr_encode (TBool v) = Inr (Bool_bytes v)"
| "tr_encode (TUint32List vs) = EncodeUint32ListChecked vs"
| "tr_encode (TBytesList vs) = EncodeBytesListChecked vs"

definition tr_Append :: "Builder \<Rightarrow> string \<times> tr_val \<Rightarrow> werror + Builder" where
  "tr_Append b e = (case tr_encode (snd e) of Inl p \<Rightarrow> Inl p | Inr v \<Rightarrow> append_entry b (fst e) v)"

fun tr_Appends :: "Builder \<Rightarrow> (string \<times> tr_val) list \<Rightarrow> werror + Builder" where
  "tr_Appends b [] = Inr b"
| "tr_Appends b (e # es) = (case tr_Append b e of Inl p \<Rightarrow> Inl p | Inr b \<Rightarrow> tr_Appends b es)"

text \<open>\<^verbatim>\<open>New(domain)\<close> followed by a sequence of appends: the bytes hashed.\<close>

definition transcript :: "string \<Rightarrow> (string \<times> tr_val) list \<Rightarrow> werror + Builder" where
  "transcript domain es = (case tr_New domain of Inl p \<Rightarrow> Inl p | Inr b \<Rightarrow> tr_Appends b es)"

definition tr_Sum :: "Builder \<Rightarrow> bytes" where
  "tr_Sum b = sha256 b"

definition transcript_sum :: "string \<Rightarrow> (string \<times> tr_val) list \<Rightarrow> werror + bytes" where
  "transcript_sum domain es = map_sum id tr_Sum (transcript domain es)"

definition ByteSlicesHash :: "string \<Rightarrow> bytes list \<Rightarrow> werror + bytes" where
  "ByteSlicesHash label values = transcript_sum label [(''values'', TBytesList values)]"

section \<open>Lemmas\<close>

definition entry :: "string \<times> bytes \<Rightarrow> bytes" where
  "entry e = lp (str_bytes (fst e)) @ lp (snd e)"

definition encoded :: "(string \<times> tr_val) list \<Rightarrow> (string \<times> bytes) list" where
  "encoded es = map (\<lambda>(l, v). (l, projr (tr_encode v))) es"

lemma lp_not_Nil [simp]: "lp v \<noteq> []"
  using length_lp [of v] by (metis add_is_0 list.size(3) zero_neq_numeral)

lemma append_entry_iff:
  "append_entry b l v = Inr b' \<longleftrightarrow>
    l \<noteq> [] \<and> fits32 (str_bytes l) \<and> fits32 v \<and> b' = b @ entry (l, v)"
  by (auto simp: append_entry_def writeLength_def entry_def lp_def Uint32_def fits32_def
      unsigned_of_nat take_bit_nat_eq_self split: sum.splits if_splits)

lemma tr_Appends_sound:
  "tr_Appends b es = Inr b' \<Longrightarrow>
    b' = b @ concat (map entry (encoded es))
    \<and> list_all (\<lambda>(l, v). fits32 (str_bytes l) \<and> fits32 v) (encoded es)"
proof (induction es arbitrary: b)
  case (Cons e es)
  obtain l v where e: "e = (l, v)" by (cases e)
  from Cons.prems obtain w where w: "tr_encode v = Inr w" "fits32 (str_bytes l)" "fits32 w"
    "tr_Appends (b @ entry (l, w)) es = Inr b'"
    by (auto simp: e tr_Append_def append_entry_iff split: sum.splits)
  from Cons.IH [OF w(4)] w show ?case by (simp add: e encoded_def)
qed (simp add: encoded_def)

lemma lp_prefix_inject:
  assumes "fits32 a" "fits32 b" "lp a @ x = lp b @ y"
  shows "a = b \<and> x = y"
proof -
  from assms(3) have "Uint32 (word_of_nat (length a)) = Uint32 (word_of_nat (length b))"
    and eq: "a @ x = b @ y" by (simp_all add: lp_def)
  then have "(word_of_nat (length a) :: u32) = word_of_nat (length b)" by simp
  then have "length a = length b" using assms(1,2)
    by (metis uint32_of_len of_nat_eq_iff)
  with eq show ?thesis by simp
qed

lemma entries_inject:
  "list_all (\<lambda>(l, v). fits32 (str_bytes l) \<and> fits32 v) xs \<Longrightarrow>
   list_all (\<lambda>(l, v). fits32 (str_bytes l) \<and> fits32 v) ys \<Longrightarrow>
   concat (map entry xs) = concat (map entry ys) \<Longrightarrow> xs = ys"
proof (induction xs arbitrary: ys)
  case Nil
  then show ?case by (cases ys) (auto simp: entry_def)
next
  case (Cons x xs)
  from Cons.prems(3) obtain y zs where ys: "ys = y # zs" by (cases ys) (auto simp: entry_def)
  from Cons.prems(3) have eq: "lp (str_bytes (fst x)) @ lp (snd x) @ concat (map entry xs)
      = lp (str_bytes (fst y)) @ lp (snd y) @ concat (map entry zs)"
    by (simp add: ys entry_def [of x] entry_def [of y])
  have f: "fits32 (str_bytes (fst x))" "fits32 (str_bytes (fst y))" "fits32 (snd x)" "fits32 (snd y)"
    using Cons.prems(1,2) by (auto simp: ys split: prod.splits)
  from lp_prefix_inject [OF f(1,2) eq] have l: "fst x = fst y"
    and eq': "lp (snd x) @ concat (map entry xs) = lp (snd y) @ concat (map entry zs)" by auto
  from lp_prefix_inject [OF f(3,4) eq'] have "snd x = snd y"
    and "concat (map entry xs) = concat (map entry zs)" by auto
  with l Cons show ?case by (auto simp: ys prod_eq_iff)
qed

lemma transcript_sound:
  assumes "transcript d es = Inr p"
  shows "p = concat (map entry ((''domain'', str_bytes d) # encoded es))
    \<and> list_all (\<lambda>(l, v). fits32 (str_bytes l) \<and> fits32 v) ((''domain'', str_bytes d) # encoded es)"
proof -
  from assms obtain b where "tr_New d = Inr b" "tr_Appends b es = Inr p"
    by (auto simp: transcript_def split: sum.splits)
  moreover from this have "b = entry (''domain'', str_bytes d)" "fits32 (str_bytes d)"
    by (auto simp: tr_New_def append_entry_iff split: if_splits)
  ultimately show ?thesis using tr_Appends_sound [of b es p] by (simp add: fits32_def)
qed

lemma transcript_inject:
  assumes "transcript d es = Inr p" "transcript d' es' = Inr p"
  shows "d = d' \<and> encoded es = encoded es'"
  using transcript_sound [OF assms(1)] transcript_sound [OF assms(2)]
    entries_inject [of "(''domain'', str_bytes d) # encoded es" "(''domain'', str_bytes d') # encoded es'"]
  by auto

definition sha256_collision :: "bytes \<Rightarrow> bytes \<Rightarrow> bool" where
  "sha256_collision a b \<longleftrightarrow> a \<noteq> b \<and> sha256 a = sha256 b"

lemma transcript_sum_inject:
  assumes "transcript_sum d es = Inr h" "transcript_sum d' es' = Inr h"
  shows "(d = d' \<and> encoded es = encoded es')
    \<or> sha256_collision (projr (transcript d es)) (projr (transcript d' es'))"
proof -
  from assms obtain p p' where p: "transcript d es = Inr p" "transcript d' es' = Inr p'"
    "sha256 p = h" "sha256 p' = h"
    by (cases "transcript d es"; cases "transcript d' es'") (auto simp: transcript_sum_def tr_Sum_def)
  show ?thesis
  proof (cases "p = p'")
    case True
    with p transcript_inject show ?thesis by blast
  next
    case False
    with p show ?thesis by (simp add: sha256_collision_def)
  qed
qed

lemma transcript_sum_length: "transcript_sum d es = Inr h \<Longrightarrow> length h = 32"
  by (cases "transcript d es") (auto simp: transcript_sum_def tr_Sum_def)

lemma lp_list_inject:
  "list_all fits32 xs \<Longrightarrow> list_all fits32 ys \<Longrightarrow> concat (map lp xs) = concat (map lp ys) \<Longrightarrow> xs = ys"
proof (induction xs arbitrary: ys)
  case Nil
  then show ?case by (cases ys) auto
next
  case (Cons x xs)
  from Cons.prems(3) obtain y zs where ys: "ys = y # zs" by (cases ys) auto
  with Cons.prems have "lp x @ concat (map lp xs) = lp y @ concat (map lp zs)" "fits32 x" "fits32 y"
    "list_all fits32 xs" "list_all fits32 zs" by simp_all
  with lp_prefix_inject [of x y] Cons.IH [of zs] show ?case by (simp add: ys)
qed

lemma EncodeBytesList_inject:
  assumes "EncodeBytesListChecked xs = Inr r" "EncodeBytesListChecked ys = Inr r"
  shows "xs = ys"
  using assms lp_list_inject [of xs ys]
  by (auto simp: EncodeBytesListChecked_def bytes_item.encode_counted_iff bytes_item.enc_list_def)



end
