(* ===== verification/Session.thy ===== *)
theory Session
  imports Transcript
begin

text \<open>
  Session identifiers (\<^verbatim>\<open>session.go\<close>).  A 32-byte array is a 256-bit word; \<open>to32\<close> and \<open>array32_bytes\<close> convert to
  and from its bytes and are inverse to each other.  The text form of an identifier is 64 lower-case
  hexadecimal digits; the parser inverts the printer.
\<close>

section \<open>Arrays of 32 bytes\<close>

type_synonym array32 = "256 word"

definition array32_bytes :: "array32 \<Rightarrow> bytes" where
  "array32_bytes a = be_bytes 32 (uint a)"

definition to32 :: "bytes \<Rightarrow> array32" where
  "to32 bs = word_of_int (be_int bs)"

lemma length_array32_bytes [simp]: "length (array32_bytes a) = 32"
  by (simp add: array32_bytes_def)

lemma uint_array32: "uint (a :: array32) < 256 ^ 32"
  using uint_bounded [of a] by simp

lemma to32_bytes [simp]: "to32 (array32_bytes a) = a"
  by (simp add: to32_def array32_bytes_def uint_array32 [simplified])

lemma bytes_to32 [simp]: "length bs = 32 \<Longrightarrow> array32_bytes (to32 bs) = bs"
proof -
  assume l: "length bs = 32"
  have "uint (word_of_int (be_int bs) :: array32) = be_int bs"
    using be_int_less [of bs] by (simp add: uint_word_of_int_eq take_bit_int_eq_self l)
  with l show ?thesis by (simp add: to32_def array32_bytes_def)
qed

lemma array32_bytes_inject [simp]: "array32_bytes a = array32_bytes b \<longleftrightarrow> a = b"
  by (metis to32_bytes)

lemma to32_inject: "length a = 32 \<Longrightarrow> length b = 32 \<Longrightarrow> to32 a = to32 b \<longleftrightarrow> a = b"
  by (metis bytes_to32)

section \<open>Session identifiers\<close>

type_synonym SessionID = array32

definition SessionID_Valid :: "SessionID \<Rightarrow> bool" where
  "SessionID_Valid s \<longleftrightarrow> s \<noteq> 0"

text \<open>\<^verbatim>\<open>io.ReadFull\<close> on a reader that still has the bytes \<open>rest\<close>; the bytes left are returned too.\<close>

definition NewSessionID :: "bytes \<Rightarrow> werror + (SessionID \<times> bytes)" where
  "NewSessionID rest =
    (if length rest < 32 then Inl ''unexpected EOF'' else Inr (to32 (take 32 rest), drop 32 rest))"

definition SessionIDFromBytes :: "bytes \<Rightarrow> werror + SessionID" where
  "SessionIDFromBytes b = (if length b \<noteq> 32 then Inl ''session id: expected 32 bytes'' else Inr (to32 b))"

definition SessionID_Bytes :: "SessionID \<Rightarrow> bytes" where
  "SessionID_Bytes s = array32_bytes s"

definition SessionID_String :: "SessionID \<Rightarrow> string" where
  "SessionID_String s = hex_encode (array32_bytes s)"

definition SessionID_MarshalText :: "SessionID \<Rightarrow> werror + bytes" where
  "SessionID_MarshalText s = Inr (str_bytes (hex_encode (array32_bytes s)))"

text \<open>\<^verbatim>\<open>hex.Decode\<close>: digits of either case, two per byte.\<close>

definition hex_value :: "u8 \<Rightarrow> u8 option" where
  "hex_value c =
    (if 48 \<le> c \<and> c \<le> 57 then Some (c - 48)
     else if 97 \<le> c \<and> c \<le> 102 then Some (c - 87)
     else if 65 \<le> c \<and> c \<le> 70 then Some (c - 55)
     else None)"

fun hex_decode :: "bytes \<Rightarrow> werror + bytes" where
  "hex_decode [] = Inr []"
| "hex_decode [a] = (case hex_value a of None \<Rightarrow> Inl ''invalid byte'' | Some _ \<Rightarrow> Inl ''odd length hex string'')"
| "hex_decode (a # b # rest) =
    (case hex_value a of
       None \<Rightarrow> Inl ''invalid byte''
     | Some x \<Rightarrow>
         (case hex_value b of
            None \<Rightarrow> Inl ''invalid byte''
          | Some y \<Rightarrow>
              (case hex_decode rest of Inl e \<Rightarrow> Inl e | Inr bs \<Rightarrow> Inr ((push_bit 4 x OR y) # bs))))"

text \<open>The receiver is \<^const>\<open>None\<close> when it is the nil pointer; the new value of the receiver is returned.\<close>

definition SessionID_UnmarshalText :: "SessionID option \<Rightarrow> bytes \<Rightarrow> werror + SessionID" where
  "SessionID_UnmarshalText recv text =
    (if recv = None then Inl ''session id: nil receiver''
     else if length text \<noteq> 64 then Inl ''session id: invalid hex length''
     else case hex_decode text of
       Inl e \<Rightarrow> Inl ''session id: invalid hex''
     | Inr decoded \<Rightarrow> Inr (to32 decoded))"

section \<open>Round trips\<close>

lemma hex_nibble: "n < 16 \<Longrightarrow> hex_value (of_char (hex_digit n)) = Some n"
proof -
  assume "n < 16"
  then have "unat n < 16" by (simp add: word_less_nat_alt)
  then have "unat n \<in> {0, 1, 2, 3, 4, 5, 6, 7, 8, 9, 10, 11, 12, 13, 14, 15}"
    unfolding insert_iff empty_iff by presburger
  moreover have "n = of_nat (unat n)" by simp
  ultimately show ?thesis by (elim insertE) (auto simp: hex_digit_def hex_value_def)
qed

lemma hex_pair: "push_bit 4 (drop_bit 4 b) OR (b AND 15) = (b :: u8)"
proof -
  have "b AND 15 = take_bit 4 b" by (simp add: take_bit_eq_mask mask_eq_decr_exp)
  moreover have "push_bit 4 (drop_bit 4 b) OR take_bit 4 b = b" 
    by (rule bit_word_eqI) (auto simp: bit_or_iff bit_push_bit_iff bit_drop_bit_eq bit_take_bit_iff)
  ultimately show ?thesis by simp
qed

lemma nibbles_less: "drop_bit 4 b < 16" "b AND 15 < (16 :: u8)"
proof -
  have "unat (b div 16) = unat b div 16" by (simp add: unat_div)
  then have "unat (drop_bit 4 b) < 16"
    using unsigned_less [of b, where ?'a = nat] by (simp add: drop_bit_eq_div)
  then show "drop_bit 4 b < 16" by (simp add: word_less_nat_alt)
  have "b AND 15 \<le> 15" by (rule word_and_le1)
  then show "b AND 15 < 16" by (rule order_le_less_trans) simp
qed

lemma hex_decode_encode [simp]: "hex_decode (str_bytes (hex_encode bs)) = Inr bs"
proof (induction bs)
  case (Cons b bs)
  then show ?case
    by (simp add: hex_encode_def str_bytes_def hex_nibble nibbles_less hex_pair)
qed (simp add: hex_encode_def str_bytes_def)

lemma session_text_roundtrip:
  "SessionID_MarshalText s = Inr t \<Longrightarrow> SessionID_UnmarshalText (Some r) t = Inr s"
  by (auto simp: SessionID_MarshalText_def SessionID_UnmarshalText_def)

lemma session_string_inject: "SessionID_String s = SessionID_String s' \<longleftrightarrow> s = s'"
proof
  assume "SessionID_String s = SessionID_String s'"
  then have "(Inr (array32_bytes s) :: werror + bytes) = Inr (array32_bytes s')"
    unfolding SessionID_String_def by (metis hex_decode_encode)
  then show "s = s'" by simp
qed simp

end
