(* ===== verification/Party.thy ===== *)
theory Party
  imports Wire_Messages Session "HOL-Library.Multiset"
begin

text \<open>
  Errors, party sets and threshold configuration (\<^verbatim>\<open>errors.go\<close>, \<^verbatim>\<open>party.go\<close>, \<^verbatim>\<open>limits.go\<close> and the
  \<^verbatim>\<open>ThresholdConfig\<close> of \<^verbatim>\<open>config.go\<close>).  A sentinel error wrapped with formatted detail is the sentinel
  itself; \<open>Wrap\<close> is an error that unwraps to two errors.  The lemmas characterise exactly which signer sets
  and configurations are accepted, and show that merging and hashing party sets do not depend on order.
\<close>

section \<open>Errors (errors.go)\<close>

type_synonym PartyID = u32
type_synonym PartySet = "PartyID list"
type_synonym ProtocolID = string
type_synonym PayloadType = string

record Blame =
  Reason :: string
  Parties :: PartySet
  Evidence :: bytes

datatype terror =
    ErrText string
  | ErrPanic string
  | ErrContext
  | ErrUnauthenticatedTransport
  | ErrSenderIdentityMismatch
  | ErrMissingChannelProtection
  | ErrInvalidChannelProtection
  | ErrMissingConfidentiality
  | ErrUnexpectedConfidentiality
  | ErrMissingBroadcastCertificate
  | ErrInvalidBroadcastCertificate
  | ErrBroadcastEquivocation
  | ErrDuplicateMessage
  | ErrEquivocation
  | ErrMissingEnvelopeGuard
  | ErrMissingAckVerifier
  | ErrMissingEnvelopeSignature
  | ErrMissingEnvelopeSignatureVerifier
  | ErrMissingEnvelopeSigner
  | ErrInvalidEnvelopeSignature
  | ErrWrongRecipient
  | ErrSelfSender
  | ErrExpectedDirectMessage
  | ErrExpectedBroadcastMessage
  | ErrUnknownPayloadPolicy
  | ErrMissingReplayCache
  | ErrReplayCacheFull
  | ErrInvalidSessionID
  | ErrPlanHashMismatch
  | ErrRefreshSchedulerRunning
  | ErrRefreshCommitOutcomeUnknown
  | Wrap terror terror
  | ProtocolError (Code: string) (pe_Round: u8) (pe_Party: PartyID) (pe_Blame: "Blame option") (pe_Err: "terror option")

definition NewProtocolError :: "string \<Rightarrow> u8 \<Rightarrow> PartyID \<Rightarrow> terror \<Rightarrow> terror" where
  "NewProtocolError code rnd party err = ProtocolError code rnd party None (Some err)"

lemma sum_wrap_iff: "(case r of Inl e \<Rightarrow> Inl (w e) | Inr x \<Rightarrow> f x) = Inr y \<longleftrightarrow> (\<exists>x. r = Inr x \<and> f x = Inr y)"
  by (cases r) auto

lemma map_sum_wrap_iff: "map_sum w id r = Inr y \<longleftrightarrow> r = Inr y"
  by (cases r) auto

text \<open>\<^verbatim>\<open>errors.Is\<close> and \<^verbatim>\<open>errors.As\<close> walk the tree of wrapped errors in pre-order.\<close>

fun errors_Is :: "terror \<Rightarrow> terror \<Rightarrow> bool" where
  "errors_Is (Wrap a b) t \<longleftrightarrow> Wrap a b = t \<or> errors_Is a t \<or> errors_Is b t"
| "errors_Is (ProtocolError c r p bl (Some e)) t \<longleftrightarrow> ProtocolError c r p bl (Some e) = t \<or> errors_Is e t"
| "errors_Is e t \<longleftrightarrow> e = t"

fun asProtocolError :: "terror \<Rightarrow> terror option" where
  "asProtocolError (ProtocolError c r p bl e) = Some (ProtocolError c r p bl e)"
| "asProtocolError (Wrap a b) = (case asProtocolError a of Some p \<Rightarrow> Some p | None \<Rightarrow> asProtocolError b)"
| "asProtocolError e = None"

definition IsSessionCompleted :: "terror \<Rightarrow> bool" where
  "IsSessionCompleted err = (case asProtocolError err of None \<Rightarrow> False | Some p \<Rightarrow> Code p = ''completed'')"

definition IsSessionAborted :: "terror \<Rightarrow> bool" where
  "IsSessionAborted err = (case asProtocolError err of None \<Rightarrow> False | Some p \<Rightarrow> Code p = ''aborted'')"

definition IsAttributableError :: "terror \<Rightarrow> bool" where
  "IsAttributableError err =
    (case asProtocolError err of
       None \<Rightarrow> False
     | Some p \<Rightarrow>
         if Code p = ''duplicate_message'' then False
         else Code p = ''verification_failed'' \<or> pe_Blame p \<noteq> None)"

section \<open>Party sets (party.go)\<close>

definition ContainsParty :: "PartySet \<Rightarrow> PartyID \<Rightarrow> bool" where
  "ContainsParty parties i \<longleftrightarrow> i \<in> set parties"

definition SortParties :: "PartySet \<Rightarrow> PartySet" where
  "SortParties parties = sort parties"

definition PartySet_Add :: "PartySet \<Rightarrow> PartyID list \<Rightarrow> PartySet" where
  "PartySet_Add ps ids = ps @ ids"

fun mergeLoop :: "PartyID list \<Rightarrow> PartyID list \<Rightarrow> PartyID list" where
  "mergeLoop merged [] = merged"
| "mergeLoop merged (i # ids) = mergeLoop (if i \<in> set merged then merged else merged @ [i]) ids"

definition MergePartySet :: "PartySet list \<Rightarrow> PartySet" where
  "MergePartySet sets =
    (if sum_list (map length sets) = 0 then [] else sort (mergeLoop [] (concat sets)))"

record ThresholdLimits =
  MaxParties :: int
  MaxThreshold :: int
  MaxSigners :: int
  MinProductionThreshold :: int
  AllowOneOfOne :: bool
  AllowOversizedSignerSet :: bool

fun checkSigners :: "PartySet \<Rightarrow> PartyID list \<Rightarrow> PartyID list \<Rightarrow> terror + unit" where
  "checkSigners keyParties seen [] = Inr ()"
| "checkSigners keyParties seen (i # ids) =
    (if \<not> ContainsParty keyParties i then Inl (ErrText ''signer is not a participant'')
     else if i \<in> set seen then Inl (ErrText ''duplicate signer'')
     else checkSigners keyParties (i # seen) ids)"

definition ValidateSignerSet :: "PartySet \<Rightarrow> int \<Rightarrow> PartySet \<Rightarrow> ThresholdLimits \<Rightarrow> terror + unit" where
  "ValidateSignerSet keyParties threshold signers limits =
    (if signers = [] then Inl (ErrText ''signers must not be empty'')
     else if int (length signers) < threshold then Inl (ErrText ''not enough signers'')
     else if int (length signers) > MaxSigners limits then Inl (ErrText ''too many signers'')
     else if \<not> AllowOversizedSignerSet limits \<and> int (length signers) \<noteq> threshold
     then Inl (ErrText ''signer count must equal threshold'')
     else checkSigners keyParties [] signers)"

text \<open>A panic of the transcript builder is the error \<open>ErrPanic\<close>.\<close>

definition digest32 :: "string \<Rightarrow> (string \<times> tr_val) list \<Rightarrow> terror + array32" where
  "digest32 domain es =
    (case transcript_sum domain es of Inl p \<Rightarrow> Inl (ErrPanic p) | Inr h \<Rightarrow> Inr (to32 h))"

definition PartySetHash :: "PartySet \<Rightarrow> string \<Rightarrow> terror + array32" where
  "PartySetHash parties label = digest32 label [(''parties'', TUint32List (SortParties parties))]"

section \<open>Threshold configuration (limits.go, config.go)\<close>

definition ValidateThreshold :: "ThresholdLimits \<Rightarrow> int \<Rightarrow> int \<Rightarrow> terror + unit" where
  "ValidateThreshold l threshold nParties =
    (if threshold < MinProductionThreshold l
        \<and> (\<not> AllowOneOfOne l \<or> threshold \<noteq> 1 \<or> nParties \<noteq> 1)
     then Inl (ErrText ''threshold is below production minimum'') else Inr ())"

text \<open>The reader, context, logger and signer of a configuration do not enter its validation.\<close>

record ThresholdConfig =
  tc_Threshold :: int
  tc_Parties :: PartySet
  tc_Self :: PartyID
  tc_SessionID :: SessionID

fun checkParties :: "PartyID \<Rightarrow> PartyID list \<Rightarrow> bool \<Rightarrow> PartyID list \<Rightarrow> terror + bool" where
  "checkParties self seen hasSelf [] = Inr hasSelf"
| "checkParties self seen hasSelf (i # ids) =
    (if i = 0 then Inl (ErrText ''party id zero is reserved'')
     else if i \<in> set seen then Inl (ErrText ''duplicate party id'')
     else checkParties self (i # seen) (if i = self then True else hasSelf) ids)"

definition ValidateWithLimits :: "ThresholdConfig \<Rightarrow> ThresholdLimits \<Rightarrow> terror + unit" where
  "ValidateWithLimits c l =
    (if tc_Threshold c \<le> 0 then Inl (ErrText ''threshold must be positive'')
     else if tc_Parties c = [] then Inl (ErrText ''parties must not be empty'')
     else if int (length (tc_Parties c)) > MaxParties l then Inl (ErrText ''too many parties'')
     else if tc_Threshold c > int (length (tc_Parties c)) then Inl (ErrText ''threshold exceeds party count'')
     else if tc_Threshold c > MaxThreshold l then Inl (ErrText ''threshold too large'')
     else case ValidateThreshold l (tc_Threshold c) (int (length (tc_Parties c))) of
       Inl e \<Rightarrow> Inl e
     | Inr _ \<Rightarrow>
         (case checkParties (tc_Self c) [] False (tc_Parties c) of
            Inl e \<Rightarrow> Inl e
          | Inr hasSelf \<Rightarrow> if \<not> hasSelf then Inl (ErrText ''self must be in parties'') else Inr ()))"

definition defaultThresholdLimits :: ThresholdLimits where
  "defaultThresholdLimits =
    \<lparr>MaxParties = 64, MaxThreshold = 64, MaxSigners = 64, MinProductionThreshold = 2,
     AllowOneOfOne = False, AllowOversizedSignerSet = False\<rparr>"

definition ThresholdConfig_Validate :: "ThresholdConfig \<Rightarrow> terror + unit" where
  "ThresholdConfig_Validate c = ValidateWithLimits c defaultThresholdLimits"

definition SortedParties :: "ThresholdConfig \<Rightarrow> PartySet" where
  "SortedParties c = SortParties (tc_Parties c)"

text \<open>A context is its \<^verbatim>\<open>Err()\<close>; a nil context is \<^const>\<open>None\<close>.\<close>

definition CheckHandlerContext :: "terror option option \<Rightarrow> terror option option \<Rightarrow> terror + unit" where
  "CheckHandlerContext delivery session =
    (case delivery of
       None \<Rightarrow> Inl (ErrText ''nil handler context'')
     | Some (Some e) \<Rightarrow> Inl e
     | Some None \<Rightarrow>
         (case session of Some (Some e) \<Rightarrow> Inl e | _ \<Rightarrow> Inr ()))"

section \<open>What is accepted\<close>

lemma mergeLoop_spec:
  "set (mergeLoop merged ids) = set merged \<union> set ids \<and> (distinct merged \<longrightarrow> distinct (mergeLoop merged ids))"
  by (induction merged ids rule: mergeLoop.induct) auto

lemma MergePartySet_spec:
  "sorted_wrt (<) (MergePartySet sets) \<and> set (MergePartySet sets) = (\<Union>s\<in>set sets. set s)"
  using mergeLoop_spec [of "[]" "concat sets"]
  by (auto simp: MergePartySet_def strict_sorted_iff)

lemma strict_sorted_unique:
  "sorted_wrt (<) xs \<Longrightarrow> sorted_wrt (<) ys \<Longrightarrow> set xs = set ys \<Longrightarrow> xs = (ys :: 'a :: linorder list)"
  by (simp add: strict_sorted_equal)

lemma MergePartySet_order: "set sets = set sets' \<Longrightarrow> MergePartySet sets = MergePartySet sets'"
  by (rule strict_sorted_unique) (simp_all add: MergePartySet_spec)

lemma checkSigners_iff:
  "checkSigners kp seen ids = Inr u \<longleftrightarrow> distinct ids \<and> set ids \<subseteq> set kp \<and> set ids \<inter> set seen = {}"
  by (induction kp seen ids rule: checkSigners.induct) (auto simp: ContainsParty_def)

lemma ValidateSignerSet_accepts:
  "ValidateSignerSet kp t ss l = Inr u \<longleftrightarrow>
    ss \<noteq> [] \<and> distinct ss \<and> set ss \<subseteq> set kp \<and> t \<le> int (length ss) \<and> int (length ss) \<le> MaxSigners l
    \<and> (AllowOversizedSignerSet l \<or> int (length ss) = t)"
  by (auto simp: ValidateSignerSet_def checkSigners_iff not_less)

lemma checkParties_iff:
  "checkParties self seen b ids = Inr b' \<longleftrightarrow>
    0 \<notin> set ids \<and> distinct ids \<and> set ids \<inter> set seen = {} \<and> b' = (b \<or> self \<in> set ids)"
  by (induction self seen b ids rule: checkParties.induct) auto

lemma ValidateWithLimits_accepts:
  "ValidateWithLimits c l = Inr u \<longleftrightarrow>
    0 < tc_Threshold c \<and> tc_Threshold c \<le> int (length (tc_Parties c)) \<and> tc_Threshold c \<le> MaxThreshold l
    \<and> int (length (tc_Parties c)) \<le> MaxParties l
    \<and> (MinProductionThreshold l \<le> tc_Threshold c
        \<or> AllowOneOfOne l \<and> tc_Threshold c = 1 \<and> length (tc_Parties c) = 1)
    \<and> distinct (tc_Parties c) \<and> 0 \<notin> set (tc_Parties c) \<and> tc_Self c \<in> set (tc_Parties c)"
  by (auto simp: ValidateWithLimits_def ValidateThreshold_def case_sum_Inr_iff checkParties_iff not_less not_le
      split: if_splits)

section \<open>Digests\<close>

lemma digest32_inject:
  assumes "digest32 d es = Inr h" "digest32 d' es' = Inr h"
  shows "(d = d' \<and> encoded es = encoded es')
    \<or> sha256_collision (projr (transcript d es)) (projr (transcript d' es'))"
proof -
  from assms obtain g g' where g: "transcript_sum d es = Inr g" "transcript_sum d' es' = Inr g'" "to32 g = to32 g'"
    by (auto simp: digest32_def split: sum.splits)
  then have "g = g'" using transcript_sum_length to32_inject by metis
  with g show ?thesis using transcript_sum_inject [of d es g d' es'] by simp
qed

lemma PartySetHash_order: "mset ps = mset qs \<Longrightarrow> PartySetHash ps l = PartySetHash qs l"
  using properties_for_sort [of "sort qs" ps] by (simp add: PartySetHash_def SortParties_def)

end
