(* ===== verification/Policy.thy ===== *)
theory Policy
  imports Party "HOL-Library.Product_Lexorder"
begin

text \<open>
  Delivery policies (\<^verbatim>\<open>config.go\<close>, first half, and the enumerations of \<^verbatim>\<open>types.go\<close>).  A \<^verbatim>\<open>uint8\<close>
  enumeration stays an 8-bit word, as callers can pass any value of it.  The lemmas show which policy
  lists are accepted, that lookup through the index is lookup by key in the list, that neither lookup nor
  digest depends on registration order, and that equal digests mean equal policies up to a SHA-256
  collision.
\<close>

section \<open>Data\<close>

type_synonym DeliveryMode = u8
type_synonym ConfidentialityPolicy = u8
type_synonym BroadcastConsistencyPolicy = u8

definition DeliveryDirect :: DeliveryMode where [simp]: "DeliveryDirect = 0"
definition DeliveryBroadcast :: DeliveryMode where [simp]: "DeliveryBroadcast = 1"

definition ConfidentialityForbidden :: ConfidentialityPolicy where [simp]: "ConfidentialityForbidden = 0"
definition ConfidentialityOptional :: ConfidentialityPolicy where [simp]: "ConfidentialityOptional = 1"
definition ConfidentialityRequired :: ConfidentialityPolicy where [simp]: "ConfidentialityRequired = 2"

definition BroadcastConsistencyNone :: BroadcastConsistencyPolicy where [simp]: "BroadcastConsistencyNone = 0"
definition BroadcastConsistencyRequired :: BroadcastConsistencyPolicy where [simp]: "BroadcastConsistencyRequired = 1"

record DeliveryPolicy =
  dp_Protocol :: ProtocolID
  dp_Round :: u8
  dp_PayloadType :: PayloadType
  dp_Mode :: DeliveryMode
  dp_Confidentiality :: ConfidentialityPolicy
  dp_BroadcastConsistency :: BroadcastConsistencyPolicy
  dp_RequireSenderSignature :: bool

type_synonym policyKey = "ProtocolID \<times> u8 \<times> PayloadType"

definition keyOf :: "DeliveryPolicy \<Rightarrow> policyKey" where
  "keyOf p = (dp_Protocol p, dp_Round p, dp_PayloadType p)"

text \<open>The index of the zero \<^verbatim>\<open>PolicySet\<close> is the nil map.\<close>

record PolicySet =
  entries :: "DeliveryPolicy list"
  index :: "(policyKey, nat) fmap option"
  ps_testOnly :: bool

section \<open>Construction\<close>

definition validateDeliveryPolicy :: "DeliveryPolicy \<Rightarrow> bool \<Rightarrow> terror + unit" where
  "validateDeliveryPolicy p testOnly =
    (if dp_Protocol p = [] \<or> dp_PayloadType p = []
     then Inl (ErrText ''delivery policy protocol and payload type must not be empty'')
     else if dp_Mode p \<noteq> DeliveryDirect \<and> dp_Mode p \<noteq> DeliveryBroadcast then Inl (ErrText ''invalid delivery mode'')
     else if dp_Confidentiality p > ConfidentialityRequired then Inl (ErrText ''invalid confidentiality policy'')
     else if dp_BroadcastConsistency p > BroadcastConsistencyRequired
     then Inl (ErrText ''invalid broadcast consistency policy'')
     else if dp_Mode p = DeliveryDirect \<and> dp_BroadcastConsistency p \<noteq> BroadcastConsistencyNone
     then Inl (ErrText ''direct message must not require a broadcast certificate'')
     else if \<not> testOnly \<and> dp_Mode p = DeliveryBroadcast \<and> dp_BroadcastConsistency p \<noteq> BroadcastConsistencyRequired
     then Inl (ErrText ''broadcast message must require broadcast consistency'')
     else Inr ())"

fun indexPolicies ::
  "bool \<Rightarrow> nat \<Rightarrow> (policyKey, nat) fmap \<Rightarrow> DeliveryPolicy list \<Rightarrow> terror + (policyKey, nat) fmap" where
  "indexPolicies testOnly i idx [] = Inr idx"
| "indexPolicies testOnly i idx (p # ps) =
    (case validateDeliveryPolicy p testOnly of
       Inl e \<Rightarrow> Inl e
     | Inr _ \<Rightarrow>
         if fmlookup idx (keyOf p) \<noteq> None then Inl (ErrText ''duplicate delivery policy'')
         else indexPolicies testOnly (Suc i) (fmupd (keyOf p) i idx) ps)"

definition newPolicySet :: "bool \<Rightarrow> DeliveryPolicy list \<Rightarrow> terror + PolicySet" where
  "newPolicySet testOnly policies =
    (if policies = [] then Inl (ErrText ''delivery policy set must not be empty'')
     else case indexPolicies testOnly 0 fmempty policies of
       Inl e \<Rightarrow> Inl e
     | Inr idx \<Rightarrow> Inr \<lparr>entries = policies, index = Some idx, ps_testOnly = testOnly\<rparr>)"

definition NewPolicySet :: "DeliveryPolicy list \<Rightarrow> terror + PolicySet" where
  "NewPolicySet policies = newPolicySet False policies"

text \<open>\<open>testing\<close> is the answer of \<^verbatim>\<open>testing.Testing()\<close>.\<close>

definition NewTestPolicySet :: "bool \<Rightarrow> DeliveryPolicy list \<Rightarrow> terror + PolicySet" where
  "NewTestPolicySet testing policies =
    (if \<not> testing then Inl (ErrPanic ''NewTestPolicySet must only be called from tests'')
     else newPolicySet True policies)"

definition MustNewPolicySet :: "DeliveryPolicy list \<Rightarrow> terror + PolicySet" where
  "MustNewPolicySet policies =
    (case NewPolicySet policies of Inl e \<Rightarrow> Inl (ErrPanic ''NewPolicySet'') | Inr ps \<Rightarrow> Inr ps)"

section \<open>Queries\<close>

fun checkBroadcastConsistency :: "DeliveryPolicy list \<Rightarrow> terror + unit" where
  "checkBroadcastConsistency [] = Inr ()"
| "checkBroadcastConsistency (p # ps) =
    (if dp_Mode p = DeliveryBroadcast \<and> dp_BroadcastConsistency p \<noteq> BroadcastConsistencyRequired
     then Inl (ErrText ''broadcast message must require BroadcastConsistencyRequired'')
     else checkBroadcastConsistency ps)"

definition ValidateBroadcastConsistency :: "PolicySet \<Rightarrow> terror + unit" where
  "ValidateBroadcastConsistency ps = checkBroadcastConsistency (entries ps)"

text \<open>\<^verbatim>\<open>cmp.Compare\<close> on strings compares bytes; keys of a policy set are distinct, so the order is total.\<close>

definition sortKey :: "DeliveryPolicy \<Rightarrow> bytes \<times> u8 \<times> bytes" where
  "sortKey p = (str_bytes (dp_Protocol p), dp_Round p, str_bytes (dp_PayloadType p))"

definition policyFields :: "DeliveryPolicy \<Rightarrow> (string \<times> tr_val) list" where
  "policyFields p =
    [(''protocol'', tr_val.TString (dp_Protocol p)),
     (''round'', tr_val.TUint8 (dp_Round p)),
     (''payload_type'', tr_val.TString (dp_PayloadType p)),
     (''mode'', tr_val.TUint8 (dp_Mode p)),
     (''confidentiality'', tr_val.TUint8 (dp_Confidentiality p)),
     (''broadcast_consistency'', tr_val.TUint8 (dp_BroadcastConsistency p)),
     (''require_sender_signature'', tr_val.TBool (dp_RequireSenderSignature p))]"

definition policyTranscript :: "PolicySet \<Rightarrow> (string \<times> tr_val) list" where
  "policyTranscript ps = concat (map policyFields (sort_key sortKey (entries ps)))"

definition PolicySet_Digest :: "PolicySet \<Rightarrow> terror + array32" where
  "PolicySet_Digest ps = digest32 ''tss-delivery-policy'' (policyTranscript ps)"

definition PolicySet_valid :: "PolicySet \<Rightarrow> bool" where
  "PolicySet_valid ps \<longleftrightarrow> entries ps \<noteq> [] \<and> index ps \<noteq> None"

definition requiresSenderSignature :: "PolicySet \<Rightarrow> bool" where
  "requiresSenderSignature ps \<longleftrightarrow> list_ex dp_RequireSenderSignature (entries ps)"

definition PolicySet_Entries :: "PolicySet \<Rightarrow> DeliveryPolicy list" where
  "PolicySet_Entries ps = entries ps"

definition PolicySet_Match :: "PolicySet \<Rightarrow> ProtocolID \<Rightarrow> u8 \<Rightarrow> PayloadType \<Rightarrow> terror + DeliveryPolicy" where
  "PolicySet_Match ps protocol rnd payloadType =
    (case index ps of
       None \<Rightarrow> Inl ErrUnknownPayloadPolicy
     | Some idx \<Rightarrow>
         (case fmlookup idx (protocol, rnd, payloadType) of
            None \<Rightarrow> Inl ErrUnknownPayloadPolicy
          | Some i \<Rightarrow> if i < length (entries ps) then Inr (entries ps ! i) else Inl (ErrPanic ''index out of range'')))"

section \<open>What a policy set accepts and answers\<close>

definition policy_ok :: "bool \<Rightarrow> DeliveryPolicy \<Rightarrow> bool" where
  "policy_ok testOnly p \<longleftrightarrow>
    dp_Protocol p \<noteq> [] \<and> dp_PayloadType p \<noteq> [] \<and> dp_Confidentiality p \<le> 2
    \<and> (dp_Mode p = 0 \<and> dp_BroadcastConsistency p = 0
        \<or> dp_Mode p = 1 \<and> (dp_BroadcastConsistency p = 1 \<or> testOnly \<and> dp_BroadcastConsistency p = 0))"

lemma word8_le_1: "(w :: u8) \<le> 1 \<longleftrightarrow> w = 0 \<or> w = 1"
proof -
  have "unat w \<le> 1 \<longleftrightarrow> unat w = 0 \<or> unat w = 1" by linarith
  moreover have "unat w = 1 \<longleftrightarrow> w = 1" by (metis unat_1 word_unat_eq_iff)
  ultimately show ?thesis by (simp add: word_le_nat_alt unat_eq_0)
qed

lemma validateDeliveryPolicy_iff: "validateDeliveryPolicy p t = Inr u \<longleftrightarrow> policy_ok t p"
  by (auto simp: validateDeliveryPolicy_def policy_ok_def not_less word8_le_1)

lemma indexPolicies_iff:
  "indexPolicies t i idx ps = Inr idx' \<longleftrightarrow>
    list_all (policy_ok t) ps \<and> distinct (map keyOf ps) \<and> (\<forall>p\<in>set ps. fmlookup idx (keyOf p) = None)
    \<and> idx' = foldl (\<lambda>m (j, p). fmupd (keyOf p) j m) idx (enumerate i ps)"
proof (induction t i idx ps rule: indexPolicies.induct)
  case (2 t i idx p ps)
  show ?case
  proof (cases "policy_ok t p \<and> fmlookup idx (keyOf p) = None")
    case True
    then have v: "validateDeliveryPolicy p t = Inr ()" by (simp add: validateDeliveryPolicy_iff)
    have "(\<forall>q\<in>set ps. fmlookup (fmupd (keyOf p) i idx) (keyOf q) = None) \<longleftrightarrow>
        keyOf p \<notin> keyOf ` set ps \<and> (\<forall>q\<in>set ps. fmlookup idx (keyOf q) = None)"
      by (auto split: if_splits)
    with True v "2.IH" [OF v] show ?thesis by auto
  next
    case False
    then show ?thesis by (auto simp: case_sum_Inr_iff validateDeliveryPolicy_iff)
  qed
qed auto

lemma index_lookup:
  "distinct (map keyOf ps) \<Longrightarrow>
    fmlookup (foldl (\<lambda>m (j, p). fmupd (keyOf p) j m) idx (enumerate i ps)) k =
      (case find (\<lambda>(j, p). keyOf p = k) (enumerate i ps) of Some (j, _) \<Rightarrow> Some j | None \<Rightarrow> fmlookup idx k)"
proof (induction ps arbitrary: idx i)
  case (Cons p ps)
  have n: "find (\<lambda>(j, q). keyOf q = keyOf p) (enumerate (Suc i) ps) = None"
    using Cons.prems by (auto simp: find_None_iff enumerate_eq_zip dest!: set_zip_rightD) (metis image_eqI)
  show ?case
  proof (cases "keyOf p = k")
    case True
    with Cons n show ?thesis by (auto split: option.splits)
  qed (use Cons in \<open>auto split: option.splits\<close>)
qed simp

definition lookupPolicy :: "policyKey \<Rightarrow> DeliveryPolicy list \<Rightarrow> DeliveryPolicy option" where
  "lookupPolicy k ps = find (\<lambda>p. keyOf p = k) ps"

lemma find_enumerate:
  "map_option snd (find (\<lambda>(j, p). P p) (enumerate i ps)) = find P ps
    \<and> (\<forall>j p. find (\<lambda>(j, p). P p) (enumerate i ps) = Some (j, p) \<longrightarrow> i \<le> j \<and> j < i + length ps \<and> ps ! (j - i) = p)"
proof (induction ps arbitrary: i)
  case (Cons p ps)
  show ?case
  proof (cases "P p")
    case False
    have "(p # ps) ! (j - i) = ps ! (j - Suc i)" if "Suc i \<le> j" for j
      using that by (simp add: nth_Cons' diff_Suc)
    with False Cons [of "Suc i"] show ?thesis by auto
  qed simp
qed simp

lemma newPolicySet_iff:
  "newPolicySet t ps = Inr S \<longleftrightarrow>
    ps \<noteq> [] \<and> list_all (policy_ok t) ps \<and> distinct (map keyOf ps)
    \<and> S = \<lparr>entries = ps, index = Some (foldl (\<lambda>m (j, p). fmupd (keyOf p) j m) fmempty (enumerate 0 ps)), ps_testOnly = t\<rparr>"
  by (auto simp: newPolicySet_def case_sum_Inr_iff indexPolicies_iff)

lemma Match_lookup:
  assumes "newPolicySet t ps = Inr S"
  shows "PolicySet_Match S protocol rnd pt =
    (case lookupPolicy (protocol, rnd, pt) ps of None \<Rightarrow> Inl ErrUnknownPayloadPolicy | Some p \<Rightarrow> Inr p)"
proof -
  let ?k = "(protocol, rnd, pt)"
  let ?f = "find (\<lambda>(j, p). keyOf p = ?k) (enumerate 0 ps)"
  from assms have d: "distinct (map keyOf ps)" and S: "entries S = ps"
    "index S = Some (foldl (\<lambda>m (j, p). fmupd (keyOf p) j m) fmempty (enumerate 0 ps))"
    by (auto simp: newPolicySet_iff)
  note f = find_enumerate [of "\<lambda>p. keyOf p = ?k" 0 ps]
  show ?thesis
    using f
    by (cases ?f; cases "find (\<lambda>p. keyOf p = ?k) ps")
       (auto simp: PolicySet_Match_def S index_lookup [OF d] lookupPolicy_def)
qed

lemma lookupPolicy_iff: "distinct (map keyOf ps) \<Longrightarrow> lookupPolicy k ps = Some p \<longleftrightarrow> p \<in> set ps \<and> keyOf p = k"
  by (induction ps) (auto simp: lookupPolicy_def)

lemma lookupPolicy_order:
  assumes "distinct (map keyOf ps)" "mset ps = mset qs"
  shows "lookupPolicy k ps = lookupPolicy k qs"
proof -
  have "distinct (map keyOf qs)"
    using assms mset_eq_imp_distinct_iff [of "map keyOf ps" "map keyOf qs"] by simp
  moreover have "set ps = set qs" using assms(2) by (rule mset_eq_setD)
  ultimately have eq: "lookupPolicy k ps = Some p \<longleftrightarrow> lookupPolicy k qs = Some p" for p
    using assms(1) by (simp add: lookupPolicy_iff)
  show ?thesis
    using eq [of "the (lookupPolicy k ps)"] eq [of "the (lookupPolicy k qs)"]
    by (cases "lookupPolicy k ps"; cases "lookupPolicy k qs") simp_all
qed

lemma Match_iff:
  assumes "newPolicySet t ps = Inr S"
  shows "PolicySet_Match S protocol rnd pt = Inr p \<longleftrightarrow> p \<in> set ps \<and> keyOf p = (protocol, rnd, pt)"
proof -
  have "distinct (map keyOf ps)" using assms by (simp add: newPolicySet_iff)
  then show ?thesis
    using lookupPolicy_iff [of ps "(protocol, rnd, pt)" p] by (auto simp: Match_lookup [OF assms] split: option.splits)
qed

lemma broadcast_consistency_production:
  "newPolicySet False ps = Inr S \<Longrightarrow> ValidateBroadcastConsistency S = Inr ()"
proof -
  have "list_all (policy_ok False) qs \<Longrightarrow> checkBroadcastConsistency qs = Inr ()" for qs
    by (induction qs) (auto simp: policy_ok_def)
  then show "newPolicySet False ps = Inr S \<Longrightarrow> ?thesis"
    by (auto simp: newPolicySet_iff ValidateBroadcastConsistency_def)
qed

section \<open>The digest\<close>

lemma sortKey_inj: "sortKey p = sortKey q \<longleftrightarrow> keyOf p = keyOf q"
  by (auto simp: sortKey_def keyOf_def)

lemma Digest_order:
  assumes "mset (entries S) = mset (entries S')" "distinct (map keyOf (entries S))"
  shows "PolicySet_Digest S = PolicySet_Digest S'"
proof -
  have "inj_on sortKey (set (entries S))"
    using assms(2) by (auto simp: inj_on_def sortKey_inj distinct_map)
  then have "sort_key sortKey (entries S) = sort_key sortKey (entries S')"
    using sort_key_inj_key_eq [of "entries S" "sort_key sortKey (entries S')" sortKey] assms(1) by simp
  then show ?thesis by (simp add: PolicySet_Digest_def policyTranscript_def)
qed

lemma encoded_append [simp]: "encoded (xs @ ys) = encoded xs @ encoded ys"
  by (simp add: encoded_def)

lemma policyFields_inject: "encoded (policyFields p) = encoded (policyFields q) \<longleftrightarrow> p = q"
proof
  assume "encoded (policyFields p) = encoded (policyFields q)"
  then show "p = q"
    by (intro DeliveryPolicy.equality) (simp_all add: policyFields_def encoded_def Bool_bytes_def split: if_splits)
qed simp

lemma length_policyFields [simp]: "length (encoded (policyFields p)) = 7"
  by (simp add: policyFields_def encoded_def)

lemma policies_inject:
  "encoded (concat (map policyFields ps)) = encoded (concat (map policyFields qs)) \<longleftrightarrow> ps = qs"
proof (induction ps arbitrary: qs)
  case Nil
  then show ?case by (cases qs) (auto simp: encoded_def policyFields_def)
next
  case (Cons p ps)
  show ?case
  proof (cases qs)
    case Nil
    then show ?thesis by (simp add: encoded_def policyFields_def)
  next
    case q: (Cons q qs')
    then show ?thesis using Cons by (simp add: policyFields_inject)
  qed
qed

lemma Digest_binds:
  assumes "PolicySet_Digest S = Inr h" "PolicySet_Digest S' = Inr h"
  shows "mset (entries S) = mset (entries S')
    \<or> sha256_collision (projr (transcript ''tss-delivery-policy'' (policyTranscript S)))
        (projr (transcript ''tss-delivery-policy'' (policyTranscript S')))"
proof -
  have "encoded (policyTranscript S) = encoded (policyTranscript S') \<Longrightarrow> mset (entries S) = mset (entries S')"
    unfolding policyTranscript_def policies_inject by (metis mset_sort)
  then show ?thesis using digest32_inject [OF assms [unfolded PolicySet_Digest_def]] by blast
qed

end
