(* ===== verification/Envelopes.thy ===== *)
theory Envelopes
  imports Policy
begin

text \<open>
  Envelopes (\<^verbatim>\<open>envelope.go\<close>, \<^verbatim>\<open>envelope_signature.go\<close>, the limits of \<^verbatim>\<open>limits.go\<close>): construction, the wire
  form as an instance of the object codec, digests, sender signatures, and opening with the facts that the
  transport reports.  A signer or verifier is a parameter, \<^const>\<open>None\<close> when it is the nil interface; the clock
  is a parameter, with 0 for the zero time.
\<close>

section \<open>Data\<close>

record TLVLimits =
  tlv_MaxFields :: int
  tlv_MaxFieldBytes :: int

record EnvelopeLimits =
  el_MaxBytes :: int
  el_MaxPayloadBytes :: int
  el_MaxPayloadTypeBytes :: int
  el_MaxProtocolNameBytes :: int
  el_MaxSignatureBytes :: int
  el_TLV :: TLVLimits

record Envelope =
  e_Protocol :: ProtocolID
  e_SessionID :: SessionID
  e_Round :: u8
  e_From :: PartyID
  e_To :: PartyID
  e_PayloadType :: PayloadType
  e_Payload :: bytes
  e_SenderSignature :: bytes

record BroadcastAck =
  ack_Party :: PartyID
  ack_PayloadHash :: array32
  ack_EnvelopeDigest :: array32
  ack_Signature :: bytes

record BroadcastCertificate =
  cert_Protocol :: ProtocolID
  cert_SessionID :: SessionID
  cert_Round :: u8
  cert_From :: PartyID
  cert_PayloadType :: PayloadType
  cert_PayloadHash :: array32
  cert_EnvelopeDigest :: array32
  cert_Recipients :: PartySet
  cert_Acks :: "BroadcastAck list"

type_synonym ChannelProtection = u8

definition ChannelProtectionUnknown :: ChannelProtection where [simp]: "ChannelProtectionUnknown = 0"
definition ChannelPlaintext :: ChannelProtection where [simp]: "ChannelPlaintext = 1"
definition ChannelConfidential :: ChannelProtection where [simp]: "ChannelConfidential = 2"

record ReceiveInfo =
  Peer :: PartyID
  Protection :: ChannelProtection
  ChannelID :: string
  PeerKeyID :: string
  ReceivedAt :: int

record InboundEnvelope =
  ie_env :: Envelope
  ie_receiveInfo :: ReceiveInfo
  ie_broadcast :: "BroadcastCertificate option"

section \<open>Limits and field checks\<close>

definition DefaultEnvelopeLimits :: EnvelopeLimits where
  "DefaultEnvelopeLimits =
    \<lparr>el_MaxBytes = 2 ^ 20, el_MaxPayloadBytes = 2 ^ 20, el_MaxPayloadTypeBytes = 128,
     el_MaxProtocolNameBytes = 64, el_MaxSignatureBytes = 4096,
     el_TLV = \<lparr>tlv_MaxFields = 256, tlv_MaxFieldBytes = 2 ^ 20\<rparr>\<rparr>"

definition validateEnvelopeFields :: "Envelope \<Rightarrow> EnvelopeLimits \<Rightarrow> terror + unit" where
  "validateEnvelopeFields env limits =
    (if e_Protocol env = [] then Inl (ErrText ''envelope protocol is empty'')
     else if int (length (e_Protocol env)) > el_MaxProtocolNameBytes limits
     then Inl (ErrText ''envelope protocol name too long'')
     else if e_PayloadType env = [] then Inl (ErrText ''envelope payload type is empty'')
     else if int (length (e_PayloadType env)) > el_MaxPayloadTypeBytes limits
     then Inl (ErrText ''envelope payload type too long'')
     else if int (length (e_Payload env)) > el_MaxPayloadBytes limits
     then Inl (ErrText ''envelope payload too large'')
     else if int (length (e_SenderSignature env)) > el_MaxSignatureBytes limits
     then Inl (ErrText ''envelope sender signature too large'')
     else if \<not> SessionID_Valid (e_SessionID env) then Inl (ErrText ''invalid session id'')
     else if e_From env = 0 then Inl (ErrText ''envelope sender is zero (unset)'')
     else Inr ())"

section \<open>Wire form\<close>

text \<open>
  The Go type with its struct tags, the method table of the types in it, and the values of the type as
  reflected values.  \<^verbatim>\<open>PartyID\<close> is an alias of \<^verbatim>\<open>uint32\<close>.
\<close>

definition noMethods :: "unit methods" where
  "noMethods =
    \<lparr>MarshalWireValue = \<lambda>_. None, UnmarshalWireValue = \<lambda>_. None, BeforeMarshalWire = \<lambda>_. None,
     ValidateWire = \<lambda>_. None, AfterUnmarshalWire = \<lambda>_. None, WireMessage = \<lambda>_. None,
     MarshalWireMessage = \<lambda>_. None, UnmarshalWireMessage = \<lambda>_. None\<rparr>"

definition SessionIDType :: gtype where
  "SessionIDType = TNamed ''SessionID'' (TArray 32 gtype.TUint8)"

definition EnvelopeType :: gtype where
  "EnvelopeType = TNamed ''Envelope'' (TStruct
    [StructField ''Protocol'' True (Some ''1,string'') (TNamed ''ProtocolID'' gtype.TString),
     StructField ''SessionID'' True (Some ''2,bytes,len=32'') SessionIDType,
     StructField ''Round'' True (Some ''3,u8'') gtype.TUint8,
     StructField ''From'' True (Some ''4,u32'') gtype.TUint32,
     StructField ''To'' True (Some ''5,u32'') gtype.TUint32,
     StructField ''PayloadType'' True (Some ''6,string'') (TNamed ''PayloadType'' gtype.TString),
     StructField ''Payload'' True (Some ''7,bytes'') (TSlice gtype.TUint8),
     StructField ''SenderSignature'' True (Some ''8,bytes'') (TSlice gtype.TUint8)])"

definition envelopeMethods :: "unit methods" where
  "envelopeMethods = noMethods\<lparr>WireMessage := \<lambda>n. if n = ''Envelope'' then Some (''tss.envelope'', 1) else None\<rparr>"

definition envelopeValue :: "Envelope \<Rightarrow> unit rvalue" where
  "envelopeValue e =
    VStruct [VString (e_Protocol e), VBytes (array32_bytes (e_SessionID e)), VU8 (e_Round e), VU32 (e_From e),
      VU32 (e_To e), VString (e_PayloadType e), VBytes (e_Payload e), VBytes (e_SenderSignature e)]"

definition valueEnvelope :: "unit rvalue \<Rightarrow> Envelope option" where
  "valueEnvelope v =
    (case v of
       VStruct [VString p, VBytes sid, VU8 r, VU32 f, VU32 t, VString pt, VBytes pl, VBytes sg] \<Rightarrow>
         Some \<lparr>e_Protocol = p, e_SessionID = to32 sid, e_Round = r, e_From = f, e_To = t, e_PayloadType = pt,
               e_Payload = pl, e_SenderSignature = sg\<rparr>
     | _ \<Rightarrow> None)"

text \<open>No field of an envelope names a limit, so the field limits of the call are empty.\<close>

definition MarshalEnvelopeWithLimits :: "Envelope \<Rightarrow> EnvelopeLimits \<Rightarrow> terror + bytes" where
  "MarshalEnvelopeWithLimits env limits =
    (case validateEnvelopeFields env limits of
       Inl e \<Rightarrow> Inl e
     | Inr _ \<Rightarrow> map_sum ErrText id (Marshal envelopeMethods EnvelopeType (envelopeValue env) (\<lambda>_. None)))"

definition Envelope_MarshalBinary :: "Envelope \<Rightarrow> terror + bytes" where
  "Envelope_MarshalBinary env = MarshalEnvelopeWithLimits env DefaultEnvelopeLimits"

definition envelopeFrameLimits :: "EnvelopeLimits \<Rightarrow> FrameLimits" where
  "envelopeFrameLimits limits =
    \<lparr>MaxTotalBytes = el_MaxBytes limits, MaxFields = tlv_MaxFields (el_TLV limits),
     MaxFieldBytes = tlv_MaxFieldBytes (el_TLV limits)\<rparr>"

definition UnmarshalEnvelopeWithLimits :: "bytes \<Rightarrow> EnvelopeLimits \<Rightarrow> terror + Envelope" where
  "UnmarshalEnvelopeWithLimits raw limits =
    (if raw = [] then Inl (ErrText ''empty envelope'')
     else if int (length raw) > el_MaxBytes limits then Inl (ErrText ''envelope too large'')
     else case Unmarshal envelopeMethods EnvelopeType raw (envelopeFrameLimits limits) (\<lambda>_. None) of
       Inl e \<Rightarrow> Inl (ErrText e)
     | Inr v \<Rightarrow>
         (case valueEnvelope v of
            None \<Rightarrow> Inl (ErrPanic ''reflect'')
          | Some env \<Rightarrow>
              (case validateEnvelopeFields env limits of Inl e \<Rightarrow> Inl e | Inr _ \<Rightarrow> Inr env)))"

definition Envelope_UnmarshalBinary :: "bytes \<Rightarrow> terror + Envelope" where
  "Envelope_UnmarshalBinary raw = UnmarshalEnvelopeWithLimits raw DefaultEnvelopeLimits"

section \<open>Construction\<close>

text \<open>\<^verbatim>\<open>EnvelopeInput\<close> has the same fields as \<^verbatim>\<open>Envelope\<close>.\<close>

definition NewEnvelopeWithLimits :: "Envelope \<Rightarrow> EnvelopeLimits \<Rightarrow> terror + Envelope" where
  "NewEnvelopeWithLimits input limits =
    (if e_Protocol input = [] then Inl (ErrText ''envelope protocol is empty'')
     else if e_PayloadType input = [] then Inl (ErrText ''envelope payload type is empty'')
     else if int (length (e_Protocol input)) > el_MaxProtocolNameBytes limits
     then Inl (ErrText ''envelope protocol name too long'')
     else if int (length (e_PayloadType input)) > el_MaxPayloadTypeBytes limits
     then Inl (ErrText ''envelope payload type too long'')
     else if int (length (e_Payload input)) > el_MaxPayloadBytes limits
     then Inl (ErrText ''envelope payload too large'')
     else if \<not> SessionID_Valid (e_SessionID input) then Inl ErrInvalidSessionID
     else if e_From input = 0 then Inl (ErrText ''envelope sender is zero (unset)'')
     else case validateEnvelopeFields input limits of Inl e \<Rightarrow> Inl e | Inr _ \<Rightarrow> Inr input)"

definition NewEnvelope :: "Envelope \<Rightarrow> terror + Envelope" where
  "NewEnvelope input = NewEnvelopeWithLimits input DefaultEnvelopeLimits"

section \<open>Digests and sender signatures\<close>

definition envelopeFields :: "Envelope \<Rightarrow> (string \<times> tr_val) list" where
  "envelopeFields e =
    [(''protocol'', tr_val.TString (e_Protocol e)),
     (''version'', tr_val.TUint16 1),
     (''session_id'', TBytes (array32_bytes (e_SessionID e))),
     (''round'', tr_val.TUint8 (e_Round e)),
     (''from'', tr_val.TUint32 (e_From e)),
     (''to'', tr_val.TUint32 (e_To e)),
     (''payload_type'', tr_val.TString (e_PayloadType e)),
     (''payload'', TBytes (e_Payload e))]"

definition digestFields :: "Envelope \<Rightarrow> (string \<times> tr_val) list" where
  "digestFields e =
    envelopeFields e
    @ (if e_SenderSignature e \<noteq> [] then [(''sender_signature'', TBytes (e_SenderSignature e))] else [])"

definition Envelope_Digest :: "Envelope \<Rightarrow> terror + array32" where
  "Envelope_Digest e = digest32 ''github.com/islishude/tss/envelope/v1'' (digestFields e)"

definition EnvelopeSigningDigest :: "Envelope \<Rightarrow> terror + array32" where
  "EnvelopeSigningDigest e = digest32 ''github.com/islishude/tss/envelope-signature/v1'' (envelopeFields e)"

type_synonym EnvelopeSigner = "array32 \<Rightarrow> terror + bytes"
type_synonym SignatureVerifier = "PartyID \<Rightarrow> array32 \<Rightarrow> bytes \<Rightarrow> terror + unit"

definition SignEnvelope :: "Envelope \<Rightarrow> EnvelopeSigner option \<Rightarrow> terror + Envelope" where
  "SignEnvelope e signer =
    (case signer of
       None \<Rightarrow> Inl (ErrText ''nil EnvelopeSigner'')
     | Some sign \<Rightarrow>
         (case EnvelopeSigningDigest e of
            Inl p \<Rightarrow> Inl p
          | Inr d \<Rightarrow>
              (case sign d of
                 Inl err \<Rightarrow> Inl (Wrap (ErrText ''sign envelope'') err)
               | Inr signature \<Rightarrow>
                   if signature = [] then Inl (ErrText ''empty envelope signature'')
                   else if length signature > 4096 then Inl (ErrText ''envelope sender signature too large'')
                   else Inr (e\<lparr>e_SenderSignature := signature\<rparr>))))"

definition VerifyEnvelopeSignature :: "Envelope \<Rightarrow> SignatureVerifier option \<Rightarrow> terror + unit" where
  "VerifyEnvelopeSignature e verifier =
    (case verifier of
       None \<Rightarrow> Inl ErrMissingEnvelopeSignatureVerifier
     | Some verify \<Rightarrow>
         if e_SenderSignature e = [] then Inl ErrMissingEnvelopeSignature
         else (case EnvelopeSigningDigest e of
                 Inl p \<Rightarrow> Inl p
               | Inr d \<Rightarrow>
                   (case verify (e_From e) d (e_SenderSignature e) of
                      Inl err \<Rightarrow> Inl (Wrap ErrInvalidEnvelopeSignature err)
                    | Inr _ \<Rightarrow> Inr ())))"

section \<open>Opening\<close>

definition validChannelProtection :: "ChannelProtection \<Rightarrow> bool" where
  "validChannelProtection p \<longleftrightarrow> p = ChannelPlaintext \<or> p = ChannelConfidential"

record openOptions =
  oo_limits :: EnvelopeLimits
  oo_broadcast :: "BroadcastCertificate option"

datatype OpenOption =
    WithBroadcastCertificate "BroadcastCertificate option"
  | WithEnvelopeLimits EnvelopeLimits

fun applyOpenOption :: "OpenOption option \<Rightarrow> openOptions \<Rightarrow> openOptions" where
  "applyOpenOption None opts = opts"
| "applyOpenOption (Some (WithBroadcastCertificate cert)) opts = opts\<lparr>oo_broadcast := cert\<rparr>"
| "applyOpenOption (Some (WithEnvelopeLimits limits)) opts = opts\<lparr>oo_limits := limits\<rparr>"

definition OpenEnvelope :: "int \<Rightarrow> bytes \<Rightarrow> ReceiveInfo \<Rightarrow> OpenOption option list \<Rightarrow> terror + InboundEnvelope" where
  "OpenEnvelope now raw info opts =
    (let options = fold applyOpenOption opts \<lparr>oo_limits = DefaultEnvelopeLimits, oo_broadcast = None\<rparr> in
     case UnmarshalEnvelopeWithLimits raw (oo_limits options) of
       Inl e \<Rightarrow> Inl e
     | Inr env \<Rightarrow>
         if Peer info = 0 then Inl ErrUnauthenticatedTransport
         else if Protection info = ChannelProtectionUnknown then Inl ErrMissingChannelProtection
         else if \<not> validChannelProtection (Protection info) then Inl ErrInvalidChannelProtection
         else if Peer info \<noteq> e_From env then Inl ErrSenderIdentityMismatch
         else Inr \<lparr>ie_env = env,
                   ie_receiveInfo = (if ReceivedAt info = 0 then info\<lparr>ReceivedAt := now\<rparr> else info),
                   ie_broadcast = oo_broadcast options\<rparr>)"

definition OpenEnvelopeWithLimits ::
  "int \<Rightarrow> bytes \<Rightarrow> ReceiveInfo \<Rightarrow> EnvelopeLimits \<Rightarrow> OpenOption option list \<Rightarrow> terror + InboundEnvelope" where
  "OpenEnvelopeWithLimits now raw info limits opts =
    OpenEnvelope now raw info (Some (WithEnvelopeLimits limits) # opts)"

definition ValidateEnvelopePolicy :: "InboundEnvelope \<Rightarrow> PartyID \<Rightarrow> PolicySet \<Rightarrow> terror + unit" where
  "ValidateEnvelopePolicy env self policies =
    (let e = ie_env env; prot = Protection (ie_receiveInfo env) in
     case PolicySet_Match policies (e_Protocol e) (e_Round e) (e_PayloadType e) of
       Inl err \<Rightarrow> Inl err
     | Inr policy \<Rightarrow>
         if \<not> validChannelProtection prot then Inl ErrInvalidChannelProtection
         else if dp_Mode policy = DeliveryDirect \<and> e_To e = 0 then Inl ErrExpectedDirectMessage
         else if dp_Mode policy = DeliveryDirect \<and> e_To e \<noteq> self then Inl ErrWrongRecipient
         else if dp_Mode policy = DeliveryBroadcast \<and> e_To e \<noteq> 0 then Inl ErrExpectedBroadcastMessage
         else if dp_Mode policy \<noteq> DeliveryDirect \<and> dp_Mode policy \<noteq> DeliveryBroadcast
         then Inl (ErrText ''unknown delivery mode'')
         else if dp_Confidentiality policy = ConfidentialityRequired
         then (if prot \<noteq> ChannelConfidential then Inl ErrMissingConfidentiality else Inr ())
         else if dp_Confidentiality policy = ConfidentialityForbidden
         then (if prot = ChannelConfidential then Inl ErrUnexpectedConfidentiality else Inr ())
         else if dp_Confidentiality policy = ConfidentialityOptional then Inr ()
         else Inl (ErrText ''unknown confidentiality policy''))"

section \<open>The wire form of an envelope\<close>

definition envelopeSchema :: "fieldSchema list" where
  "envelopeSchema =
    [plainField 1 ''Protocol'' kindString (TNamed ''ProtocolID'' gtype.TString),
     (plainField 2 ''SessionID'' kindBytes SessionIDType)\<lparr>fixedLen := 32, fixedLenSet := True\<rparr>,
     plainField 3 ''Round'' kindU8 gtype.TUint8,
     plainField 4 ''From'' kindU32 gtype.TUint32,
     plainField 5 ''To'' kindU32 gtype.TUint32,
     plainField 6 ''PayloadType'' kindString (TNamed ''PayloadType'' gtype.TString),
     plainField 7 ''Payload'' kindBytes (TSlice gtype.TUint8),
     plainField 8 ''SenderSignature'' kindBytes (TSlice gtype.TUint8)]"

lemma envelope_schema: "parseSchema envelopeMethods EnvelopeType = Inr envelopeSchema"
  by code_simp

definition envelopeWire :: "Envelope \<Rightarrow> Field list" where
  "envelopeWire e =
    map (\<lambda>(t, r). \<lparr>Tag = t, Value = Some r\<rparr>)
     [(1, str_bytes (e_Protocol e)), (2, array32_bytes (e_SessionID e)), (3, [e_Round e]), (4, Uint32 (e_From e)),
      (5, Uint32 (e_To e)), (6, str_bytes (e_PayloadType e)), (7, e_Payload e), (8, e_SenderSignature e)]"

lemma envelope_fields_iff:
  "encodeFields (encode M L) envelopeSchema vals = Inr flds \<longleftrightarrow>
    (\<exists>e. VStruct vals = envelopeValue e \<and> utf8_valid_string (e_Protocol e) \<and> utf8_valid_string (e_PayloadType e)
      \<and> flds = envelopeWire e)" (is "?l \<longleftrightarrow> ?r")
proof
  assume ?l
  then obtain p sid r f t pt pl sg where v: "vals = [VString p, VBytes sid, VU8 r, VU32 f, VU32 t, VString pt, VBytes pl, VBytes sg]"
    and u: "utf8_valid_string p" "utf8_valid_string pt" "length sid = 32"
    and fl: "flds = map (\<lambda>(t, r). \<lparr>Tag = t, Value = Some r\<rparr>)
     [(1, str_bytes p), (2, sid), (3, [r]), (4, Uint32 f), (5, Uint32 t), (6, str_bytes pt), (7, pl), (8, sg)]"
    by (auto simp: envelopeSchema_def field_iffs bytesTyped_simps SessionIDType_def)
  then show ?r
    by (intro exI [of _ "\<lparr>e_Protocol = p, e_SessionID = to32 sid, e_Round = r, e_From = f, e_To = t, e_PayloadType = pt,
               e_Payload = pl, e_SenderSignature = sg\<rparr>"]) (simp add: envelopeValue_def envelopeWire_def)
next
  assume ?r
  then show ?l
    by (auto simp: envelopeSchema_def field_iffs bytesTyped_simps SessionIDType_def envelopeValue_def envelopeWire_def)
qed

lemma envelopeMethods_sel [simp]:
  "MarshalWireValue envelopeMethods n = None" "UnmarshalWireValue envelopeMethods n = None"
  "BeforeMarshalWire envelopeMethods n = None" "ValidateWire envelopeMethods n = None"
  "AfterUnmarshalWire envelopeMethods n = None" "MarshalWireMessage envelopeMethods n = None"
  "UnmarshalWireMessage envelopeMethods n = None"
  "WireMessage envelopeMethods ''Envelope'' = Some (''tss.envelope'', 1)"
  by (simp_all add: envelopeMethods_def noMethods_def)

interpretation envelope_codec: wire_methods envelopeMethods
  by unfold_locales (simp_all add: custom_law_def)

lemma envelope_strict [simp]: "strict envelopeMethods = envelopeMethods"
  by (rule strict_same) simp

lemma envelope_before [simp]: "beforeEncode envelopeMethods EnvelopeType v = Inr v"
  by (simp add: beforeEncode_def runBeforeMarshalHook_def runValidateHook_def methodOf_def EnvelopeType_def)

lemma marshal_envelope_iff:
  "Marshal envelopeMethods EnvelopeType v L = Inr raw \<longleftrightarrow>
    (\<exists>e. v = envelopeValue e \<and> utf8_valid_string (e_Protocol e) \<and> utf8_valid_string (e_PayloadType e)
      \<and> MarshalFields 1 ''tss.envelope'' (envelopeWire e) = Inr raw)"
proof -
  have "\<not> isPtr EnvelopeType" "rkind_of EnvelopeType = StructK"
    "methodOf (WireMessage envelopeMethods) EnvelopeType = Some (''tss.envelope'', 1)"
    "methodOf (MarshalWireMessage envelopeMethods) EnvelopeType = None"
    by (simp_all add: EnvelopeType_def isPtr_def methodOf_def)
  from Marshal_plain [OF this envelope_schema] show ?thesis
    by (auto simp: envelope_fields_iff) (auto simp: envelopeValue_def)
qed

lemma envelopeValue_inject [simp]: "envelopeValue e = envelopeValue e' \<longleftrightarrow> e = e'"
  by (auto simp: envelopeValue_def intro: Envelope.equality)

lemma valueEnvelope_inverse [simp]: "valueEnvelope (envelopeValue e) = Some e"
  by (simp add: envelopeValue_def valueEnvelope_def)

lemma marshal_envelope:
  "Marshal envelopeMethods EnvelopeType (envelopeValue e) L = Inr raw \<longleftrightarrow>
    utf8_valid_string (e_Protocol e) \<and> utf8_valid_string (e_PayloadType e)
    \<and> MarshalFields 1 ''tss.envelope'' (envelopeWire e) = Inr raw"
  by (auto simp: marshal_envelope_iff)

lemma unmarshal_envelope_sound:
  assumes "Unmarshal envelopeMethods EnvelopeType raw F L = Inr v" "MaxTotalBytes (withDefaults F) < 2 ^ 63"
  shows "\<exists>e. v = envelopeValue e \<and> Marshal envelopeMethods EnvelopeType (envelopeValue e) L = Inr raw"
proof -
  from envelope_codec.Unmarshal_sound [OF assms(2,1)] have m: "Marshal envelopeMethods EnvelopeType v L = Inr raw" by simp
  then show ?thesis by (auto simp: marshal_envelope_iff)
qed

lemma fits_envelope: "fits n (envelopeValue e) \<longleftrightarrow> 8 \<le> n"
  by (simp add: envelopeValue_def)

text \<open>The decoder inverts the encoder, within the limits of the decoder, and accepts nothing else.\<close>

lemma envelope_codec_iff:
  assumes l: "0 < el_MaxBytes l" "el_MaxBytes l < 2 ^ 63" "8 \<le> tlv_MaxFields (el_TLV l)"
    "el_MaxBytes l \<le> tlv_MaxFieldBytes (el_TLV l)" "tlv_MaxFieldBytes (el_TLV l) < 2 ^ 64"
  shows "UnmarshalEnvelopeWithLimits raw l = Inr e \<longleftrightarrow>
    MarshalEnvelopeWithLimits e l = Inr raw \<and> int (length raw) \<le> el_MaxBytes l"
    (is "?l \<longleftrightarrow> ?r")
proof
  let ?F = "envelopeFrameLimits l"
  have F: "withDefaults ?F = ?F" using l by (auto simp: withDefaults_def envelopeFrameLimits_def)
  {
    assume ?l
    then obtain v where v: "Unmarshal envelopeMethods EnvelopeType raw ?F (\<lambda>_. None) = Inr v" "valueEnvelope v = Some e"
      "validateEnvelopeFields e l = Inr ()" "int (length raw) \<le> el_MaxBytes l"
      by (auto simp: UnmarshalEnvelopeWithLimits_def case_sum_Inr_iff split: if_splits option.splits sum.splits)
    have "MaxTotalBytes (withDefaults ?F) < 2 ^ 63" unfolding F using l by (simp add: envelopeFrameLimits_def)
    from unmarshal_envelope_sound [OF v(1) this] v show ?r
      by (auto simp: MarshalEnvelopeWithLimits_def)
  next
    assume r: ?r
    then have m: "Marshal envelopeMethods EnvelopeType (envelopeValue e) (\<lambda>_. None) = Inr raw"
      and val: "validateEnvelopeFields e l = Inr ()"
      by (cases "Marshal envelopeMethods EnvelopeType (envelopeValue e) (\<lambda>_. None)";
          auto simp: MarshalEnvelopeWithLimits_def case_sum_Inr_iff)+
    from m have ne: "raw \<noteq> []" by (auto simp: marshal_envelope MarshalFields_iff magic_def)
    have "roomy ?F (length raw)"
      using r l by (auto simp: roomy_def frame_limits_validate_iff envelopeFrameLimits_def)
    from envelope_codec.Unmarshal_complete [OF _ _ this, of EnvelopeType "envelopeValue e"] m l(3)
    have "Unmarshal envelopeMethods EnvelopeType raw ?F (\<lambda>_. None) = Inr (envelopeValue e)"
      by (simp add: fits_envelope envelopeFrameLimits_def)
    with ne r val show ?l by (simp add: UnmarshalEnvelopeWithLimits_def)
  }
qed

lemma length_marshalFieldBody: "marshalFieldBody fs = Inr b \<Longrightarrow> length b = 2 + length (enc_fields fs)"
  by (auto simp: marshalFieldBody_def appendFields_eq AppendUint16_def case_sum_Inr_iff split: if_splits)

lemma envelope_length:
  assumes "MarshalEnvelopeWithLimits e l = Inr raw"
  shows "length raw = 111 + length (e_Protocol e) + length (e_PayloadType e) + length (e_Payload e)
    + length (e_SenderSignature e)"
proof -
  from assms have "MarshalFields 1 ''tss.envelope'' (envelopeWire e) = Inr raw"
    by (cases "Marshal envelopeMethods EnvelopeType (envelopeValue e) (\<lambda>_. None)")
       (auto simp: MarshalEnvelopeWithLimits_def case_sum_Inr_iff marshal_envelope)
  then obtain body where "marshalFieldBody (envelopeWire e) = Inr body" "length raw = 16 + length magic + length body"
    by (auto simp: MarshalFields_iff)
  moreover have "length (enc_fields (envelopeWire e)) = 89 + length (e_Protocol e) + length (e_PayloadType e)
      + length (e_Payload e) + length (e_SenderSignature e)"
    by (simp add: envelopeWire_def enc_field_def field_value_def)
  ultimately show ?thesis by (simp add: length_marshalFieldBody magic_def)
qed

lemma envelope_ok_marshals:
  assumes "validateEnvelopeFields e l = Inr ()" "utf8_valid_string (e_Protocol e)" "utf8_valid_string (e_PayloadType e)"
    and "length (e_Protocol e) \<le> 0xFFFFFFFF" "length (e_PayloadType e) \<le> 0xFFFFFFFF"
      "length (e_Payload e) \<le> 0xFFFFFFFF" "length (e_SenderSignature e) \<le> 0xFFFFFFFF"
  shows "\<exists>raw. MarshalEnvelopeWithLimits e l = Inr raw"
proof -
  have "utf8_valid_string ''tss.envelope''" by code_simp
  moreover have "checkFields False 0 (envelopeWire e) = Inr ()"
    using assms(4-) by (simp add: envelopeWire_def word_le_nat_alt)
  ultimately obtain raw where "MarshalFields 1 ''tss.envelope'' (envelopeWire e) = Inr raw"
    by (simp add: MarshalFields_iff marshalFieldBody_def envelopeWire_def)
  with assms(1-3) have "Marshal envelopeMethods EnvelopeType (envelopeValue e) (\<lambda>_. None) = Inr raw"
    by (simp add: marshal_envelope)
  with assms(1) show ?thesis by (simp add: MarshalEnvelopeWithLimits_def)
qed

section \<open>Digests\<close>

lemma envelopeFields_inject:
  "encoded (envelopeFields e) = encoded (envelopeFields e') \<longleftrightarrow>
    e\<lparr>e_SenderSignature := []\<rparr> = e'\<lparr>e_SenderSignature := []\<rparr>"
proof
  assume "encoded (envelopeFields e) = encoded (envelopeFields e')"
  then show "e\<lparr>e_SenderSignature := []\<rparr> = e'\<lparr>e_SenderSignature := []\<rparr>"
    by (intro Envelope.equality) (simp_all add: envelopeFields_def encoded_def)
next
  assume a: "e\<lparr>e_SenderSignature := []\<rparr> = e'\<lparr>e_SenderSignature := []\<rparr>"
  have "envelopeFields e = envelopeFields (e\<lparr>e_SenderSignature := []\<rparr>)" for e by (simp add: envelopeFields_def)
  with a show "encoded (envelopeFields e) = encoded (envelopeFields e')" by metis
qed

lemma digestFields_inject: "encoded (digestFields e) = encoded (digestFields e') \<longleftrightarrow> e = e'"
proof
  assume eq: "encoded (digestFields e) = encoded (digestFields e')"
  have l: "length (encoded (envelopeFields x)) = 8" for x by (simp add: envelopeFields_def encoded_def)
  from eq have f: "encoded (envelopeFields e) = encoded (envelopeFields e')"
    and s: "encoded (drop 8 (digestFields e)) = encoded (drop 8 (digestFields e'))"
    using l by (auto simp: digestFields_def encoded_def envelopeFields_def split: if_splits)
  from s have "e_SenderSignature e = e_SenderSignature e'"
    by (auto simp: digestFields_def encoded_def envelopeFields_def split: if_splits)
  moreover from f have "e\<lparr>e_SenderSignature := []\<rparr> = e'\<lparr>e_SenderSignature := []\<rparr>" unfolding envelopeFields_inject .
  ultimately show "e = e'" by (cases e; cases e') simp
qed simp

lemma Envelope_Digest_binds:
  assumes "Envelope_Digest e = Inr h" "Envelope_Digest e' = Inr h"
  shows "e = e' \<or> sha256_collision (projr (transcript ''github.com/islishude/tss/envelope/v1'' (digestFields e)))
      (projr (transcript ''github.com/islishude/tss/envelope/v1'' (digestFields e')))"
  using digest32_inject [OF assms [unfolded Envelope_Digest_def]] by (auto simp: digestFields_inject)

lemma SigningDigest_binds:
  assumes "EnvelopeSigningDigest e = Inr h" "EnvelopeSigningDigest e' = Inr h"
  shows "e\<lparr>e_SenderSignature := []\<rparr> = e'\<lparr>e_SenderSignature := []\<rparr>
    \<or> sha256_collision (projr (transcript ''github.com/islishude/tss/envelope-signature/v1'' (envelopeFields e)))
      (projr (transcript ''github.com/islishude/tss/envelope-signature/v1'' (envelopeFields e')))"
  using digest32_inject [OF assms [unfolded EnvelopeSigningDigest_def]] by (auto simp: envelopeFields_inject)

lemma EnvelopeSigningDigest_unsigned: "EnvelopeSigningDigest (e\<lparr>e_SenderSignature := s\<rparr>) = EnvelopeSigningDigest e"
  by (simp add: EnvelopeSigningDigest_def envelopeFields_def)

lemma VerifyEnvelopeSignature_iff:
  "VerifyEnvelopeSignature e verifier = Inr u \<longleftrightarrow>
    (\<exists>verify d. verifier = Some verify \<and> e_SenderSignature e \<noteq> [] \<and> EnvelopeSigningDigest e = Inr d
      \<and> verify (e_From e) d (e_SenderSignature e) = Inr ())"
  by (auto simp: VerifyEnvelopeSignature_def sum_wrap_iff split: option.splits)

lemma SignEnvelope_verifies:
  assumes "SignEnvelope e (Some sign) = Inr e'" "\<And>d s. sign d = Inr s \<Longrightarrow> verify (e_From e) d s = Inr ()"
  shows "VerifyEnvelopeSignature e' (Some verify) = Inr () \<and> e'\<lparr>e_SenderSignature := e_SenderSignature e\<rparr> = e"
  using assms
  by (auto simp: SignEnvelope_def VerifyEnvelopeSignature_iff sum_wrap_iff EnvelopeSigningDigest_unsigned
      split: if_splits)

section \<open>Opening\<close>

lemma OpenEnvelope_facts:
  assumes "OpenEnvelope now raw info opts = Inr ib"
  shows "e_From (ie_env ib) = Peer info \<and> Peer info \<noteq> 0 \<and> validChannelProtection (Protection info)
    \<and> Peer (ie_receiveInfo ib) = Peer info \<and> Protection (ie_receiveInfo ib) = Protection info
    \<and> (\<exists>l. UnmarshalEnvelopeWithLimits raw l = Inr (ie_env ib))"
  using assms by (auto simp: OpenEnvelope_def Let_def case_sum_Inr_iff split: if_splits)

end
