(* ===== verification/Replay.thy ===== *)
theory Replay
  imports Envelopes
begin

text \<open>
  The replay cache (\<^verbatim>\<open>replay.go\<close> and the interface \<^verbatim>\<open>ReplayCache\<close> of \<^verbatim>\<open>types.go\<close>).  The locale
  \<open>replay_cache\<close> states the documented contract of the interface; what the guard needs from a cache is proved
  from the contract alone, and the in-memory cache is an interpretation of it.
\<close>

section \<open>Slots\<close>

record MessageSlotKey =
  sk_Protocol :: ProtocolID
  sk_SessionID :: SessionID
  sk_Round :: u8
  sk_From :: PartyID
  sk_To :: PartyID
  sk_PayloadType :: PayloadType

definition SlotKeyFromEnvelope :: "Envelope \<Rightarrow> MessageSlotKey" where
  "SlotKeyFromEnvelope env =
    \<lparr>sk_Protocol = e_Protocol env, sk_SessionID = e_SessionID env, sk_Round = e_Round env, sk_From = e_From env,
     sk_To = e_To env, sk_PayloadType = e_PayloadType env\<rparr>"

definition PayloadHashFromEnvelope :: "Envelope \<Rightarrow> array32" where
  "PayloadHashFromEnvelope env = to32 (sha256 (e_Payload env))"

section \<open>The in-memory cache\<close>

record InMemoryReplayCache =
  rc_seen :: "(MessageSlotKey, array32) fmap"
  rc_maxEntries :: int

definition NewBoundedReplayCache :: "int \<Rightarrow> InMemoryReplayCache" where
  "NewBoundedReplayCache maxEntries =
    \<lparr>rc_seen = fmempty, rc_maxEntries = (if maxEntries \<le> 0 then 100000 else maxEntries)\<rparr>"

definition NewInMemoryReplayCache :: InMemoryReplayCache where
  "NewInMemoryReplayCache = NewBoundedReplayCache 100000"

text \<open>A nil receiver is \<^const>\<open>None\<close>.\<close>

definition CheckAndStore ::
  "InMemoryReplayCache option \<Rightarrow> MessageSlotKey \<Rightarrow> array32 \<Rightarrow> (terror + unit) \<times> InMemoryReplayCache option" where
  "CheckAndStore cache slot payloadHash =
    (case cache of
       None \<Rightarrow> (Inl ErrMissingReplayCache, cache)
     | Some c \<Rightarrow>
         (case fmlookup (rc_seen c) slot of
            None \<Rightarrow>
              if int (fm_size (rc_seen c)) \<ge> rc_maxEntries c then (Inl ErrReplayCacheFull, cache)
              else (Inr (), Some (c\<lparr>rc_seen := fmupd slot payloadHash (rc_seen c)\<rparr>))
          | Some existing \<Rightarrow>
              (Inl (if existing = payloadHash then ErrDuplicateMessage else ErrEquivocation), cache)))"

definition RetireSession ::
  "InMemoryReplayCache option \<Rightarrow> ProtocolID \<Rightarrow> SessionID \<Rightarrow> (terror + unit) \<times> InMemoryReplayCache option" where
  "RetireSession cache protocol sessionID =
    (case cache of
       None \<Rightarrow> (Inl ErrMissingReplayCache, cache)
     | Some c \<Rightarrow>
         if protocol = [] then (Inl (ErrText ''replay cache protocol is empty''), cache)
         else if \<not> SessionID_Valid sessionID then (Inl ErrInvalidSessionID, cache)
         else (Inr (), Some (c\<lparr>rc_seen :=
             fmfilter (\<lambda>k. \<not> (sk_Protocol k = protocol \<and> sk_SessionID k = sessionID)) (rc_seen c)\<rparr>)))"

section \<open>The contract\<close>

locale replay_cache =
  fixes check :: "'s \<Rightarrow> MessageSlotKey \<Rightarrow> array32 \<Rightarrow> (terror + unit) \<times> 's"
    and stored :: "'s \<Rightarrow> MessageSlotKey \<Rightarrow> array32 option"
  assumes check_new: "check s k h = (Inr u, s') \<Longrightarrow> stored s k = None \<and> stored s' = (stored s)(k := Some h)"
    and check_fail: "check s k h = (Inl e, s') \<Longrightarrow> s' = s"
    and check_old: "stored s k = Some g \<Longrightarrow>
      check s k h = (Inl (if g = h then ErrDuplicateMessage else ErrEquivocation), s)"
begin

fun check_seq :: "'s \<Rightarrow> (MessageSlotKey \<times> array32) list \<Rightarrow> (terror + unit) list \<times> 's" where
  "check_seq s [] = ([], s)"
| "check_seq s ((k, h) # es) = (let (r, s') = check s k h; (rs, s'') = check_seq s' es in (r # rs, s''))"

lemma stored_mono: "check s k h = (r, s') \<Longrightarrow> stored s j = Some g \<Longrightarrow> stored s' j = Some g"
proof (cases r)
  case (Inl e)
  then show "check s k h = (r, s') \<Longrightarrow> stored s j = Some g \<Longrightarrow> ?thesis" using check_fail by blast
next
  case (Inr u)
  then show "check s k h = (r, s') \<Longrightarrow> stored s j = Some g \<Longrightarrow> ?thesis" using check_new [of s k h u s'] by auto
qed

lemma check_seq_mono: "check_seq s es = (rs, s') \<Longrightarrow> stored s j = Some g \<Longrightarrow> stored s' j = Some g"
proof (induction s es arbitrary: rs rule: check_seq.induct)
  case (2 s k h es)
  obtain r t where c: "check s k h = (r, t)" by fastforce
  with "2.prems"(1) obtain qs where q: "check_seq t es = (qs, s')" by (auto split: prod.splits)
  from "2.IH" [OF c [symmetric] refl q] stored_mono [OF c "2.prems"(2)] show ?case by simp
qed simp

text \<open>After a slot has been accepted, every later use of it is reported, whatever came between.\<close>

lemma accepted_once:
  assumes "check s k h = (Inr u, s1)" "check_seq s1 es = (rs, s2)"
  shows "check s2 k g = (Inl (if h = g then ErrDuplicateMessage else ErrEquivocation), s2)"
proof -
  have "stored s1 k = Some h" using check_new [OF assms(1)] by simp
  with check_seq_mono [OF assms(2)] show ?thesis using check_old by blast
qed

end

definition cacheStored :: "InMemoryReplayCache option \<Rightarrow> MessageSlotKey \<Rightarrow> array32 option" where
  "cacheStored cache k = (case cache of None \<Rightarrow> None | Some c \<Rightarrow> fmlookup (rc_seen c) k)"

interpretation memory_cache: replay_cache CheckAndStore cacheStored
proof
  fix s k h u s'
  assume "CheckAndStore s k h = (Inr u, s')"
  then show "cacheStored s k = None \<and> cacheStored s' = (cacheStored s)(k := Some h)"
    by (auto simp: CheckAndStore_def cacheStored_def split: option.splits if_splits)
qed (auto simp: CheckAndStore_def cacheStored_def split: option.splits if_splits)

section \<open>Capacity\<close>

text \<open>The calls a client can make on a cache.\<close>

inductive cache_step :: "InMemoryReplayCache \<Rightarrow> InMemoryReplayCache \<Rightarrow> bool" where
  check: "CheckAndStore (Some c) k h = (r, Some c') \<Longrightarrow> cache_step c c'"
| retire: "RetireSession (Some c) p sid = (r, Some c') \<Longrightarrow> cache_step c c'"

inductive_cases cache_stepE: "cache_step c c'"

lemma cache_step_bound:
  assumes "cache_step c c'" "int (fm_size (rc_seen c)) \<le> rc_maxEntries c"
  shows "int (fm_size (rc_seen c')) \<le> rc_maxEntries c' \<and> rc_maxEntries c' = rc_maxEntries c"
  using assms(1)
proof cases
  case (check k h r)
  with assms(2) show ?thesis by (auto simp: CheckAndStore_def fm_size_upd fm_has_def split: option.splits if_splits)
next
  case (retire p sid r)
  with assms(2) show ?thesis
    using fm_size_filter_le [of _ "rc_seen c"]
    by (auto simp: RetireSession_def split: if_splits intro: order_trans [of _ "int (fm_size (rc_seen c))"])
qed

lemma cache_reach_bound:
  "cache_step\<^sup>*\<^sup>* c c' \<Longrightarrow> int (fm_size (rc_seen c)) \<le> rc_maxEntries c \<Longrightarrow>
    int (fm_size (rc_seen c')) \<le> rc_maxEntries c' \<and> rc_maxEntries c' = rc_maxEntries c"
proof (induction rule: rtranclp_induct)
  case (step y z)
  then show ?case using cache_step_bound [of y z] by simp
qed simp

end
