(* ===== verification/Broadcast.thy ===== *)
theory Broadcast
  imports Replay
begin

text \<open>
  Reliable broadcast (\<^verbatim>\<open>broadcast.go\<close>): signed acknowledgements, certificates, and the collector that builds
  a certificate.  An \<^verbatim>\<open>Envelope.Digest\<close> that panics is an error of the caller; deep copies are the value
  itself.
\<close>

section \<open>Acknowledgements\<close>

definition ackFields ::
  "ProtocolID \<Rightarrow> SessionID \<Rightarrow> u8 \<Rightarrow> PartyID \<Rightarrow> PayloadType \<Rightarrow> array32 \<Rightarrow> array32 \<Rightarrow> (string \<times> tr_val) list" where
  "ackFields protocol sessionID rnd from payloadType payloadHash envelopeDigest =
    [(''protocol'', tr_val.TString protocol),
     (''session_id'', TBytes (array32_bytes sessionID)),
     (''round'', tr_val.TUint8 rnd),
     (''from'', tr_val.TUint32 from),
     (''payload_type'', tr_val.TString payloadType),
     (''payload_hash'', TBytes (array32_bytes payloadHash)),
     (''envelope_digest'', TBytes (array32_bytes envelopeDigest))]"

definition AckDigest ::
  "ProtocolID \<Rightarrow> SessionID \<Rightarrow> u8 \<Rightarrow> PartyID \<Rightarrow> PayloadType \<Rightarrow> array32 \<Rightarrow> array32 \<Rightarrow> terror + array32" where
  "AckDigest protocol sessionID rnd from payloadType payloadHash envelopeDigest =
    digest32 ''github.com/islishude/tss/broadcast-ack/v1''
      (ackFields protocol sessionID rnd from payloadType payloadHash envelopeDigest)"

type_synonym AckSigner = "array32 \<Rightarrow> terror + bytes"

definition SignBroadcastAck :: "Envelope \<Rightarrow> PartyID \<Rightarrow> AckSigner \<Rightarrow> terror + BroadcastAck" where
  "SignBroadcastAck env party sign =
    (let payloadHash = PayloadHashFromEnvelope env in
     case Envelope_Digest env of
       Inl p \<Rightarrow> Inl p
     | Inr envelopeDigest \<Rightarrow>
         (case AckDigest (e_Protocol env) (e_SessionID env) (e_Round env) (e_From env) (e_PayloadType env)
                 payloadHash envelopeDigest of
            Inl p \<Rightarrow> Inl p
          | Inr digest \<Rightarrow>
              (case sign digest of
                 Inl err \<Rightarrow> Inl (Wrap (ErrText ''sign broadcast ack'') err)
               | Inr sig \<Rightarrow>
                   Inr \<lparr>ack_Party = party, ack_PayloadHash = payloadHash,
                        ack_EnvelopeDigest = envelopeDigest, ack_Signature = sig\<rparr>)))"

definition VerifyBroadcastAck :: "Envelope \<Rightarrow> BroadcastAck \<Rightarrow> SignatureVerifier option \<Rightarrow> terror + unit" where
  "VerifyBroadcastAck env ack verifier =
    (case verifier of
       None \<Rightarrow> Inl (ErrText ''nil BroadcastAckVerifier'')
     | Some verify \<Rightarrow>
         let payloadHash = PayloadHashFromEnvelope env in
         if ack_PayloadHash ack \<noteq> payloadHash then Inl (ErrText ''ack payload hash mismatch'')
         else (case Envelope_Digest env of
                 Inl p \<Rightarrow> Inl p
               | Inr envelopeDigest \<Rightarrow>
                   if ack_EnvelopeDigest ack \<noteq> envelopeDigest then Inl (ErrText ''ack envelope digest mismatch'')
                   else (case AckDigest (e_Protocol env) (e_SessionID env) (e_Round env) (e_From env)
                                (e_PayloadType env) payloadHash envelopeDigest of
                           Inl p \<Rightarrow> Inl p
                         | Inr digest \<Rightarrow> verify (ack_Party ack) digest (ack_Signature ack))))"

section \<open>Certificates\<close>

fun checkNewAcks :: "PartySet \<Rightarrow> array32 \<Rightarrow> array32 \<Rightarrow> PartyID list \<Rightarrow> BroadcastAck list \<Rightarrow> terror + unit" where
  "checkNewAcks recipients payloadHash envelopeDigest seen [] = Inr ()"
| "checkNewAcks recipients payloadHash envelopeDigest seen (ack # acks) =
    (if \<not> ContainsParty recipients (ack_Party ack) then Inl (ErrText ''ack party is not in recipient set'')
     else if ack_Party ack \<in> set seen then Inl (ErrText ''duplicate ack for party'')
     else if ack_PayloadHash ack \<noteq> payloadHash then Inl (ErrText ''ack has mismatched payload hash'')
     else if ack_EnvelopeDigest ack \<noteq> envelopeDigest then Inl (ErrText ''ack has mismatched envelope digest'')
     else checkNewAcks recipients payloadHash envelopeDigest (ack_Party ack # seen) acks)"

definition NewBroadcastCertificate ::
  "Envelope \<Rightarrow> PartySet \<Rightarrow> BroadcastAck list \<Rightarrow> terror + BroadcastCertificate" where
  "NewBroadcastCertificate env recipients acks =
    (if recipients = [] then Inl (ErrText ''empty broadcast recipients'')
     else if length acks \<noteq> length recipients then Inl (ErrText ''ack count does not match recipient count'')
     else case Envelope_Digest env of
       Inl p \<Rightarrow> Inl p
     | Inr envelopeDigest \<Rightarrow>
         (case checkNewAcks recipients (PayloadHashFromEnvelope env) envelopeDigest [] acks of
            Inl e \<Rightarrow> Inl e
          | Inr _ \<Rightarrow>
              Inr \<lparr>cert_Protocol = e_Protocol env, cert_SessionID = e_SessionID env, cert_Round = e_Round env,
                   cert_From = e_From env, cert_PayloadType = e_PayloadType env,
                   cert_PayloadHash = PayloadHashFromEnvelope env, cert_EnvelopeDigest = envelopeDigest,
                   cert_Recipients = recipients, cert_Acks = acks\<rparr>))"

fun checkCertAcks :: "PartySet \<Rightarrow> array32 \<Rightarrow> array32 \<Rightarrow> PartyID list \<Rightarrow> BroadcastAck list \<Rightarrow> terror + unit" where
  "checkCertAcks parties payloadHash envelopeDigest seen [] = Inr ()"
| "checkCertAcks parties payloadHash envelopeDigest seen (ack # acks) =
    (if \<not> ContainsParty parties (ack_Party ack) then Inl ErrInvalidBroadcastCertificate
     else if ack_Party ack \<in> set seen then Inl ErrInvalidBroadcastCertificate
     else if ack_PayloadHash ack \<noteq> payloadHash then Inl ErrInvalidBroadcastCertificate
     else if ack_EnvelopeDigest ack \<noteq> envelopeDigest then Inl ErrInvalidBroadcastCertificate
     else checkCertAcks parties payloadHash envelopeDigest (ack_Party ack # seen) acks)"

definition VerifyStructure :: "BroadcastCertificate option \<Rightarrow> Envelope \<Rightarrow> PartySet \<Rightarrow> terror + unit" where
  "VerifyStructure cert env parties =
    (case cert of
       None \<Rightarrow> Inl ErrMissingBroadcastCertificate
     | Some c \<Rightarrow>
         if cert_Protocol c \<noteq> e_Protocol env then Inl ErrInvalidBroadcastCertificate
         else if cert_SessionID c \<noteq> e_SessionID env then Inl ErrInvalidBroadcastCertificate
         else if cert_Round c \<noteq> e_Round env then Inl ErrInvalidBroadcastCertificate
         else if cert_From c \<noteq> e_From env then Inl ErrInvalidBroadcastCertificate
         else if cert_PayloadType c \<noteq> e_PayloadType env then Inl ErrInvalidBroadcastCertificate
         else if cert_PayloadHash c \<noteq> PayloadHashFromEnvelope env then Inl ErrInvalidBroadcastCertificate
         else (case Envelope_Digest env of
                 Inl p \<Rightarrow> Inl p
               | Inr envelopeDigest \<Rightarrow>
                   if cert_EnvelopeDigest c \<noteq> envelopeDigest then Inl ErrInvalidBroadcastCertificate
                   else if length (cert_Recipients c) \<noteq> length parties then Inl ErrInvalidBroadcastCertificate
                   else if \<not> list_all (ContainsParty (cert_Recipients c)) parties
                   then Inl ErrInvalidBroadcastCertificate
                   else if length (cert_Acks c) \<noteq> length parties then Inl ErrInvalidBroadcastCertificate
                   else checkCertAcks parties (cert_PayloadHash c) (cert_EnvelopeDigest c) [] (cert_Acks c)))"

fun verifyAcks :: "Envelope \<Rightarrow> SignatureVerifier option \<Rightarrow> BroadcastAck list \<Rightarrow> terror + unit" where
  "verifyAcks env verifier [] = Inr ()"
| "verifyAcks env verifier (ack # acks) =
    (case VerifyBroadcastAck env ack verifier of
       Inl err \<Rightarrow> Inl (Wrap ErrInvalidBroadcastCertificate err)
     | Inr _ \<Rightarrow> verifyAcks env verifier acks)"

definition VerifyFull ::
  "BroadcastCertificate option \<Rightarrow> Envelope \<Rightarrow> PartySet \<Rightarrow> SignatureVerifier option \<Rightarrow> terror + unit" where
  "VerifyFull cert env parties verifier =
    (case VerifyStructure cert env parties of
       Inl e \<Rightarrow> Inl e
     | Inr _ \<Rightarrow>
         if verifier = None then Inl (Wrap ErrInvalidBroadcastCertificate ErrMissingAckVerifier)
         else verifyAcks env verifier (case cert of None \<Rightarrow> [] | Some c \<Rightarrow> cert_Acks c))"

definition VerifyBroadcastCertificateWithSignatures ::
  "Envelope \<Rightarrow> PartySet \<Rightarrow> BroadcastCertificate option \<Rightarrow> SignatureVerifier option \<Rightarrow> terror + unit" where
  "VerifyBroadcastCertificateWithSignatures env parties cert verifier =
    (if cert = None then Inl ErrMissingBroadcastCertificate else VerifyFull cert env parties verifier)"

definition Ack_Validate :: "BroadcastAck \<Rightarrow> terror + unit" where
  "Ack_Validate a = (if ack_Party a = 0 then Inl (ErrText ''broadcast ack party is zero'') else Inr ())"

fun checkAckOrder :: "array32 \<Rightarrow> array32 \<Rightarrow> PartyID list \<Rightarrow> BroadcastAck list \<Rightarrow> terror + unit" where
  "checkAckOrder payloadHash envelopeDigest (i # recipients) (ack # acks) =
    (case Ack_Validate ack of
       Inl e \<Rightarrow> Inl e
     | Inr _ \<Rightarrow>
         if ack_Party ack \<noteq> i then Inl (ErrText ''ack party out of recipient order'')
         else if ack_PayloadHash ack \<noteq> payloadHash then Inl (ErrText ''ack has mismatched payload hash'')
         else if ack_EnvelopeDigest ack \<noteq> envelopeDigest then Inl (ErrText ''ack has mismatched envelope digest'')
         else checkAckOrder payloadHash envelopeDigest recipients acks)"
| "checkAckOrder payloadHash envelopeDigest _ _ = Inr ()"

definition Certificate_Validate :: "BroadcastCertificate \<Rightarrow> terror + unit" where
  "Certificate_Validate c =
    (if cert_Protocol c = [] then Inl (ErrText ''broadcast certificate protocol is empty'')
     else if \<not> SessionID_Valid (cert_SessionID c) then Inl (ErrText ''broadcast certificate session ID is invalid'')
     else if cert_From c = 0 then Inl (ErrText ''broadcast certificate sender is zero'')
     else if cert_PayloadType c = [] then Inl (ErrText ''broadcast certificate payload type is empty'')
     else if cert_Recipients c = [] then Inl (ErrText ''broadcast certificate recipients are empty'')
     else case ValidateStrictSortedIDs (cert_Recipients c) of
       Inl e \<Rightarrow> Inl (ErrText e)
     | Inr _ \<Rightarrow>
         if length (cert_Acks c) \<noteq> length (cert_Recipients c)
         then Inl (ErrText ''ack count does not match recipient count'')
         else checkAckOrder (cert_PayloadHash c) (cert_EnvelopeDigest c) (cert_Recipients c) (cert_Acks c))"

section \<open>The collector\<close>

record BroadcastConsistency =
  bc_protocol :: ProtocolID
  bc_sessionID :: SessionID
  bc_round :: u8
  bc_from :: PartyID
  bc_payloadType :: PayloadType
  bc_payloadHash :: array32
  bc_envelopeDigest :: array32
  bc_committed :: bool
  bc_recipients :: PartySet
  bc_acks :: "(PartyID, BroadcastAck) fmap"
  bc_verifier :: "SignatureVerifier option"

fun uniqueNonZero :: "PartyID option \<Rightarrow> PartyID list \<Rightarrow> bool" where
  "uniqueNonZero prev [] = True"
| "uniqueNonZero prev (p # ps) = (p \<noteq> 0 \<and> prev \<noteq> Some p \<and> uniqueNonZero (Some p) ps)"

definition NewBroadcastConsistency ::
  "ProtocolID \<Rightarrow> SessionID \<Rightarrow> u8 \<Rightarrow> PartyID \<Rightarrow> PayloadType \<Rightarrow> PartySet \<Rightarrow> SignatureVerifier option
    \<Rightarrow> terror + BroadcastConsistency" where
  "NewBroadcastConsistency protocol sessionID rnd from payloadType recipients verifier =
    (if protocol = [] \<or> \<not> SessionID_Valid sessionID \<or> from = 0 \<or> payloadType = []
     then Inl (ErrText ''invalid broadcast consistency identity'')
     else let canonicalRecipients = SortParties recipients in
       if canonicalRecipients = [] then Inl (ErrText ''empty broadcast consistency recipients'')
       else if \<not> uniqueNonZero None canonicalRecipients
       then Inl (ErrText ''broadcast consistency recipients must be unique and non-zero'')
       else if verifier = None then Inl (ErrText ''nil BroadcastAckVerifier'')
       else Inr \<lparr>bc_protocol = protocol, bc_sessionID = sessionID, bc_round = rnd, bc_from = from,
                 bc_payloadType = payloadType, bc_payloadHash = 0, bc_envelopeDigest = 0, bc_committed = False,
                 bc_recipients = canonicalRecipients, bc_acks = fmempty, bc_verifier = verifier\<rparr>)"

definition matchesEnvelope :: "BroadcastConsistency \<Rightarrow> Envelope \<Rightarrow> bool" where
  "matchesEnvelope bc env \<longleftrightarrow>
    e_Protocol env = bc_protocol bc \<and> e_SessionID env = bc_sessionID bc \<and> e_Round env = bc_round bc
    \<and> e_From env = bc_from bc \<and> e_To env = 0 \<and> e_PayloadType env = bc_payloadType bc"

definition bc_Commit :: "BroadcastConsistency \<Rightarrow> Envelope \<Rightarrow> (terror + bool) \<times> BroadcastConsistency" where
  "bc_Commit bc env =
    (if \<not> matchesEnvelope bc env
     then (Inl (ErrText ''broadcast envelope does not match consistency identity''), bc)
     else case Envelope_Digest env of
       Inl p \<Rightarrow> (Inl p, bc)
     | Inr digest \<Rightarrow>
         let ph = PayloadHashFromEnvelope env in
         if \<not> bc_committed bc
         then (Inr True, bc\<lparr>bc_payloadHash := ph, bc_envelopeDigest := digest, bc_committed := True\<rparr>)
         else if bc_payloadHash bc \<noteq> ph \<or> bc_envelopeDigest bc \<noteq> digest then (Inl ErrBroadcastEquivocation, bc)
         else (Inr False, bc))"

definition bc_AddAck :: "BroadcastConsistency \<Rightarrow> Envelope \<Rightarrow> BroadcastAck \<Rightarrow> (terror + unit) \<times> BroadcastConsistency" where
  "bc_AddAck bc env ack =
    (if \<not> bc_committed bc
     then (Inl (ErrText ''broadcast consistency must be committed before acknowledgements''), bc)
     else if \<not> matchesEnvelope bc env
     then (Inl (ErrText ''broadcast acknowledgement envelope does not match consistency identity''), bc)
     else if \<not> ContainsParty (bc_recipients bc) (ack_Party ack)
     then (Inl (ErrText ''ack party is not a recipient''), bc)
     else if fm_has (ack_Party ack) (bc_acks bc) then (Inl (ErrText ''duplicate ack for party''), bc)
     else case Envelope_Digest env of
       Inl p \<Rightarrow> (Inl p, bc)
     | Inr digest \<Rightarrow>
         if PayloadHashFromEnvelope env \<noteq> bc_payloadHash bc \<or> digest \<noteq> bc_envelopeDigest bc
         then (Inl ErrBroadcastEquivocation, bc)
         else (case VerifyBroadcastAck env ack (bc_verifier bc) of
                 Inl err \<Rightarrow> (Inl (Wrap (ErrText ''invalid ack'') err), bc)
               | Inr _ \<Rightarrow> (Inr (), bc\<lparr>bc_acks := fmupd (ack_Party ack) ack (bc_acks bc)\<rparr>)))"

fun verifyRecipients :: "BroadcastConsistency \<Rightarrow> SignatureVerifier \<Rightarrow> array32 \<Rightarrow> PartyID list \<Rightarrow> terror + unit" where
  "verifyRecipients bc verify digest [] = Inr ()"
| "verifyRecipients bc verify digest (party # ps) =
    (case fmlookup (bc_acks bc) party of
       None \<Rightarrow> Inl (ErrText ''missing ack'')
     | Some ack \<Rightarrow>
         if ack_Party ack \<noteq> party \<or> ack_PayloadHash ack \<noteq> bc_payloadHash bc
            \<or> ack_EnvelopeDigest ack \<noteq> bc_envelopeDigest bc
         then Inl (ErrText ''ack does not match the committed broadcast identity'')
         else (case verify party digest (ack_Signature ack) of
                 Inl err \<Rightarrow> Inl (Wrap (ErrText ''invalid ack'') err)
               | Inr _ \<Rightarrow> verifyRecipients bc verify digest ps))"

definition verifyCompleteLocked :: "BroadcastConsistency \<Rightarrow> terror + unit" where
  "verifyCompleteLocked bc =
    (if \<not> bc_committed bc then Inl (ErrText ''broadcast consistency is not committed'')
     else if fm_size (bc_acks bc) \<noteq> length (bc_recipients bc) then Inl (ErrText ''incomplete acks'')
     else case bc_verifier bc of
       None \<Rightarrow> Inl (ErrText ''nil BroadcastAckVerifier'')
     | Some verify \<Rightarrow>
         (case AckDigest (bc_protocol bc) (bc_sessionID bc) (bc_round bc) (bc_from bc) (bc_payloadType bc)
                 (bc_payloadHash bc) (bc_envelopeDigest bc) of
            Inl p \<Rightarrow> Inl p
          | Inr digest \<Rightarrow> verifyRecipients bc verify digest (bc_recipients bc)))"

definition bc_Complete :: "BroadcastConsistency \<Rightarrow> bool" where
  "bc_Complete bc = is_ok (verifyCompleteLocked bc)"

fun collectAcks :: "(PartyID, BroadcastAck) fmap \<Rightarrow> PartyID list \<Rightarrow> terror + BroadcastAck list" where
  "collectAcks acks [] = Inr []"
| "collectAcks acks (i # ids) =
    (case fmlookup acks i of
       None \<Rightarrow> Inl (ErrText ''missing ack'')
     | Some ack \<Rightarrow> (case collectAcks acks ids of Inl e \<Rightarrow> Inl e | Inr rest \<Rightarrow> Inr (ack # rest)))"

definition bc_Certificate :: "BroadcastConsistency \<Rightarrow> terror + BroadcastCertificate" where
  "bc_Certificate bc =
    (case verifyCompleteLocked bc of
       Inl e \<Rightarrow> Inl e
     | Inr _ \<Rightarrow>
         (case collectAcks (bc_acks bc) (bc_recipients bc) of
            Inl e \<Rightarrow> Inl e
          | Inr acks \<Rightarrow>
              (let cert = \<lparr>cert_Protocol = bc_protocol bc, cert_SessionID = bc_sessionID bc, cert_Round = bc_round bc,
                   cert_From = bc_from bc, cert_PayloadType = bc_payloadType bc, cert_PayloadHash = bc_payloadHash bc,
                   cert_EnvelopeDigest = bc_envelopeDigest bc, cert_Recipients = bc_recipients bc, cert_Acks = acks\<rparr> in
               case Certificate_Validate cert of Inl e \<Rightarrow> Inl e | Inr _ \<Rightarrow> Inr cert)))"

definition bc_AckCount :: "BroadcastConsistency \<Rightarrow> nat" where
  "bc_AckCount bc = fm_size (bc_acks bc)"

end
