(* ===== verification/Broadcast_Props.thy ===== *)
theory Broadcast_Props
  imports Broadcast
begin

text \<open>
  Correctness of broadcast certificates: what a verified certificate proves, agreement of two certified
  broadcasts of one slot, and that the collector builds certificates that verify, as soon as every recipient
  has acknowledged.
\<close>

section \<open>Verification\<close>

definition envAckDigest :: "Envelope \<Rightarrow> terror + array32" where
  "envAckDigest env =
    (case Envelope_Digest env of
       Inl p \<Rightarrow> Inl p
     | Inr ed \<Rightarrow>
         AckDigest (e_Protocol env) (e_SessionID env) (e_Round env) (e_From env) (e_PayloadType env)
           (PayloadHashFromEnvelope env) ed)"

lemma VerifyBroadcastAck_iff:
  "VerifyBroadcastAck env ack verifier = Inr u \<longleftrightarrow>
    (\<exists>verify d. verifier = Some verify \<and> ack_PayloadHash ack = PayloadHashFromEnvelope env
      \<and> Envelope_Digest env = Inr (ack_EnvelopeDigest ack) \<and> envAckDigest env = Inr d
      \<and> verify (ack_Party ack) d (ack_Signature ack) = Inr ())"
  by (auto simp: VerifyBroadcastAck_def envAckDigest_def Let_def case_sum_Inr_iff split: option.splits)

lemma checkCertAcks_iff:
  "checkCertAcks ps ph ed seen acks = Inr u \<longleftrightarrow>
    distinct (map ack_Party acks) \<and> set (map ack_Party acks) \<subseteq> set ps \<and> set (map ack_Party acks) \<inter> set seen = {}
    \<and> (\<forall>a\<in>set acks. ack_PayloadHash a = ph \<and> ack_EnvelopeDigest a = ed)"
  by (induction ps ph ed seen acks rule: checkCertAcks.induct) (auto simp: ContainsParty_def)

lemma verifyAcks_iff: "verifyAcks env v acks = Inr u \<longleftrightarrow> (\<forall>a\<in>set acks. VerifyBroadcastAck env a v = Inr ())"
  by (induction env v acks rule: verifyAcks.induct) (auto simp: sum_wrap_iff)

definition binds :: "BroadcastCertificate \<Rightarrow> Envelope \<Rightarrow> bool" where
  "binds c env \<longleftrightarrow>
    cert_Protocol c = e_Protocol env \<and> cert_SessionID c = e_SessionID env \<and> cert_Round c = e_Round env
    \<and> cert_From c = e_From env \<and> cert_PayloadType c = e_PayloadType env
    \<and> cert_PayloadHash c = PayloadHashFromEnvelope env \<and> Envelope_Digest env = Inr (cert_EnvelopeDigest c)"

lemma VerifyFull_iff:
  "VerifyFull cert env ps verifier = Inr u \<longleftrightarrow>
    (\<exists>c verify. cert = Some c \<and> verifier = Some verify \<and> binds c env
      \<and> length (cert_Recipients c) = length ps \<and> set ps \<subseteq> set (cert_Recipients c)
      \<and> length (cert_Acks c) = length ps \<and> distinct (map ack_Party (cert_Acks c))
      \<and> set (map ack_Party (cert_Acks c)) \<subseteq> set ps
      \<and> (\<forall>a\<in>set (cert_Acks c). VerifyBroadcastAck env a verifier = Inr ()))"
proof (cases cert)
  case (Some c)
  show ?thesis
  proof (cases "binds c env")
    case False
    then show ?thesis
      by (auto simp: VerifyFull_def VerifyStructure_def Some binds_def case_sum_Inr_iff split: if_splits)
  next
    case True
    then have "VerifyStructure cert env ps = Inr x \<longleftrightarrow>
        length (cert_Recipients c) = length ps \<and> list_all (ContainsParty (cert_Recipients c)) ps
        \<and> length (cert_Acks c) = length ps
        \<and> checkCertAcks ps (cert_PayloadHash c) (cert_EnvelopeDigest c) [] (cert_Acks c) = Inr x" for x
      by (auto simp: VerifyStructure_def Some binds_def split: if_splits)
    with True show ?thesis
      by (auto simp: VerifyFull_def Some case_sum_Inr_iff checkCertAcks_iff verifyAcks_iff list_all_iff
          ContainsParty_def binds_def VerifyBroadcastAck_iff)
  qed
qed (simp add: VerifyFull_def VerifyStructure_def)

lemma distinct_cover:
  assumes "distinct xs" "set xs \<subseteq> set ys" "length xs = length ys"
  shows "set xs = set ys \<and> distinct ys"
proof -
  have "card (set xs) = length ys" using assms by (simp add: distinct_card)
  moreover have "card (set xs) \<le> card (set ys)" using assms(2) by (simp add: card_mono)
  moreover have "card (set ys) \<le> length ys" by (rule card_length)
  ultimately have "card (set xs) = card (set ys)" "card (set ys) = length ys" by auto
  then show ?thesis using assms(2) card_subset_eq [of "set ys" "set xs"] by (simp add: card_distinct)
qed

lemma VerifyFull_sound:
  assumes "VerifyFull cert env ps verifier = Inr u" "p \<in> set ps"
  shows "\<exists>verify d sig. verifier = Some verify \<and> envAckDigest env = Inr d \<and> verify p d sig = Inr ()"
proof -
  from assms(1) obtain c :: BroadcastCertificate where c: "length (cert_Acks c) = length ps" "distinct (map ack_Party (cert_Acks c))"
    "set (map ack_Party (cert_Acks c)) \<subseteq> set ps" "\<forall>a\<in>set (cert_Acks c). VerifyBroadcastAck env a verifier = Inr ()"
    by (auto simp: VerifyFull_iff)
  have "set (map ack_Party (cert_Acks c)) = set ps"
    using distinct_cover [of "map ack_Party (cert_Acks c)" ps] c by simp
  with assms(2) have "p \<in> ack_Party ` set (cert_Acks c)" by simp
  then obtain a where "a \<in> set (cert_Acks c)" "ack_Party a = p" by blast
  with c(4) have "VerifyBroadcastAck env a verifier = Inr ()" by blast
  with \<open>ack_Party a = p\<close> show ?thesis by (auto simp: VerifyBroadcastAck_iff)
qed

section \<open>Agreement\<close>

lemma ackFields_inject:
  "encoded (ackFields p s r f t h d) = encoded (ackFields p' s' r' f' t' h' d') \<longleftrightarrow>
    p = p' \<and> s = s' \<and> r = r' \<and> f = f' \<and> t = t' \<and> h = h' \<and> d = d'"
  by (auto simp: ackFields_def encoded_def)

definition ackTranscript :: "Envelope \<Rightarrow> bytes" where
  "ackTranscript env =
    projr (transcript ''github.com/islishude/tss/broadcast-ack/v1''
      (ackFields (e_Protocol env) (e_SessionID env) (e_Round env) (e_From env) (e_PayloadType env)
         (PayloadHashFromEnvelope env) (projr (Envelope_Digest env))))"

definition digestTranscript :: "Envelope \<Rightarrow> bytes" where
  "digestTranscript env = projr (transcript ''github.com/islishude/tss/envelope/v1'' (digestFields env))"

lemma envAckDigest_binds:
  assumes "envAckDigest e = Inr d" "envAckDigest e' = Inr d"
  shows "e = e' \<or> sha256_collision (ackTranscript e) (ackTranscript e')
    \<or> sha256_collision (digestTranscript e) (digestTranscript e')"
proof -
  from assms obtain ed ed' where ed: "Envelope_Digest e = Inr ed" "Envelope_Digest e' = Inr ed'"
    by (auto simp: envAckDigest_def split: sum.splits)
  with assms have "ed = ed' \<or> sha256_collision (ackTranscript e) (ackTranscript e')"
    using digest32_inject by (fastforce simp: envAckDigest_def AckDigest_def ackTranscript_def ackFields_inject)
  with ed Envelope_Digest_binds [of e ed e'] show ?thesis by (auto simp: digestTranscript_def)
qed

text \<open>
  A party acknowledges honestly when it signs the acknowledgement of at most one envelope per slot; \<open>log\<close> is
  the set of digests it has signed.
\<close>

definition honest_acks :: "array32 set \<Rightarrow> bool" where
  "honest_acks log \<longleftrightarrow>
    (\<forall>e e' d d'. SlotKeyFromEnvelope e = SlotKeyFromEnvelope e' \<and> envAckDigest e = Inr d \<and> envAckDigest e' = Inr d'
      \<and> d \<in> log \<and> d' \<in> log \<longrightarrow> d = d')"

lemma certified_agree:
  assumes full: "VerifyFull cert e ps (Some verify) = Inr ()" "VerifyFull cert' e' ps' (Some verify) = Inr ()"
    and slot: "SlotKeyFromEnvelope e = SlotKeyFromEnvelope e'"
    and p: "p \<in> set ps" "p \<in> set ps'" and log: "\<And>d s. verify p d s = Inr () \<Longrightarrow> d \<in> log" "honest_acks log"
  shows "e = e' \<or> sha256_collision (ackTranscript e) (ackTranscript e')
    \<or> sha256_collision (digestTranscript e) (digestTranscript e')"
proof -
  from VerifyFull_sound [OF full(1) p(1)] log(1) obtain d where d: "envAckDigest e = Inr d" "d \<in> log" by auto
  from VerifyFull_sound [OF full(2) p(2)] log(1) obtain d' where d': "envAckDigest e' = Inr d'" "d' \<in> log" by auto
  from log(2) slot d d' have "d = d'" unfolding honest_acks_def by blast
  with d d' show ?thesis by (intro envAckDigest_binds) auto
qed

section \<open>The collector\<close>

text \<open>The states of a collector: constructed, then any sequence of commits and acknowledgements.\<close>

inductive collector :: "BroadcastConsistency \<Rightarrow> bool" where
  start: "NewBroadcastConsistency p s r f t rs v = Inr bc \<Longrightarrow> collector bc"
| commit: "collector bc \<Longrightarrow> bc_Commit bc env = (x, bc') \<Longrightarrow> collector bc'"
| ack: "collector bc \<Longrightarrow> bc_AddAck bc env a = (x, bc') \<Longrightarrow> collector bc'"

lemma uniqueNonZero_iff:
  "sorted ps \<Longrightarrow> (\<forall>q. prev = Some q \<longrightarrow> (\<forall>p\<in>set ps. q \<le> p)) \<Longrightarrow> uniqueNonZero prev ps \<longleftrightarrow>
    0 \<notin> set ps \<and> sorted_wrt (<) ps \<and> (\<forall>q. prev = Some q \<longrightarrow> (\<forall>p\<in>set ps. q < p))"
  by (induction prev ps rule: uniqueNonZero.induct) (auto simp: less_le)

definition bcDigest :: "BroadcastConsistency \<Rightarrow> terror + array32" where
  "bcDigest bc = AckDigest (bc_protocol bc) (bc_sessionID bc) (bc_round bc) (bc_from bc) (bc_payloadType bc)
    (bc_payloadHash bc) (bc_envelopeDigest bc)"

definition ack_ok :: "BroadcastConsistency \<Rightarrow> PartyID \<Rightarrow> BroadcastAck \<Rightarrow> bool" where
  "ack_ok bc i a \<longleftrightarrow> ack_Party a = i \<and> ack_PayloadHash a = bc_payloadHash bc \<and> ack_EnvelopeDigest a = bc_envelopeDigest bc
    \<and> (\<exists>verify d. bc_verifier bc = Some verify \<and> bcDigest bc = Inr d \<and> verify i d (ack_Signature a) = Inr ())"

definition bc_inv :: "BroadcastConsistency \<Rightarrow> bool" where
  "bc_inv bc \<longleftrightarrow>
    bc_protocol bc \<noteq> [] \<and> bc_sessionID bc \<noteq> 0 \<and> bc_from bc \<noteq> 0 \<and> bc_payloadType bc \<noteq> []
    \<and> bc_recipients bc \<noteq> [] \<and> 0 \<notin> set (bc_recipients bc) \<and> sorted_wrt (<) (bc_recipients bc) \<and> bc_verifier bc \<noteq> None
    \<and> (\<forall>i a. fmlookup (bc_acks bc) i = Some a \<longrightarrow> bc_committed bc \<and> i \<in> set (bc_recipients bc) \<and> ack_ok bc i a)"

lemma matches_envAckDigest:
  assumes "matchesEnvelope bc env" "Envelope_Digest env = Inr (bc_envelopeDigest bc)" "PayloadHashFromEnvelope env = bc_payloadHash bc"
  shows "envAckDigest env = bcDigest bc"
  using assms by (auto simp: matchesEnvelope_def envAckDigest_def bcDigest_def)

lemma bc_Commit_inv:
  assumes "bc_inv bc" "bc_Commit bc env = (x, bc')"
  shows "bc_inv bc'"
  using assms by (auto simp: bc_Commit_def bc_inv_def Let_def split: if_splits sum.splits)

lemma bc_AddAck_inv:
  assumes "bc_inv bc" "bc_AddAck bc env a = (x, bc')"
  shows "bc_inv bc'"
proof (cases x)
  case (Inl e)
  with assms(2) have "bc' = bc" by (auto simp: bc_AddAck_def split: if_splits sum.splits)
  with assms(1) show ?thesis by simp
next
  case (Inr u)
  with assms(2) have m: "bc_committed bc" "matchesEnvelope bc env" "ack_Party a \<in> set (bc_recipients bc)"
    "Envelope_Digest env = Inr (bc_envelopeDigest bc)" "PayloadHashFromEnvelope env = bc_payloadHash bc"
    "VerifyBroadcastAck env a (bc_verifier bc) = Inr ()"
    and bc': "bc' = bc\<lparr>bc_acks := fmupd (ack_Party a) a (bc_acks bc)\<rparr>"
    by (auto simp: bc_AddAck_def ContainsParty_def split: if_splits sum.splits)
  from m(6) have "ack_ok bc (ack_Party a) a"
    using m(4,5) matches_envAckDigest [OF m(2,4,5)] by (auto simp: VerifyBroadcastAck_iff ack_ok_def)
  then show ?thesis
    using assms(1) m(1,3) unfolding bc' by (auto simp: bc_inv_def ack_ok_def bcDigest_def)
qed

lemma New_inv:
  assumes "NewBroadcastConsistency p s r f t rs v = Inr bc"
  shows "bc_inv bc"
  using assms uniqueNonZero_iff [of "sort rs" None]
  by (auto simp: NewBroadcastConsistency_def Let_def bc_inv_def SortParties_def SessionID_Valid_def split: if_splits)

lemma collector_inv: "collector bc \<Longrightarrow> bc_inv bc"
  by (induction rule: collector.induct) (auto intro: New_inv bc_Commit_inv bc_AddAck_inv)

lemma verifyRecipients_iff:
  "verifyRecipients bc verify d ps = Inr u \<longleftrightarrow>
    (\<forall>i\<in>set ps. \<exists>a. fmlookup (bc_acks bc) i = Some a \<and> ack_Party a = i \<and> ack_PayloadHash a = bc_payloadHash bc
      \<and> ack_EnvelopeDigest a = bc_envelopeDigest bc \<and> verify i d (ack_Signature a) = Inr ())"
  by (induction bc verify d ps rule: verifyRecipients.induct) (auto simp: sum_wrap_iff split: option.splits)

lemma collectAcks_iff: "collectAcks acks ps = Inr as \<longleftrightarrow> list_all2 (\<lambda>i a. fmlookup acks i = Some a) ps as"
  by (induction ps arbitrary: as) (auto simp: case_sum_Inr_iff list_all2_Cons1 split: option.splits)

lemma checkAckOrder_iff:
  "length ps = length as \<Longrightarrow> checkAckOrder h d ps as = Inr u \<longleftrightarrow>
    list_all2 (\<lambda>i a. ack_Party a = i \<and> i \<noteq> 0 \<and> ack_PayloadHash a = h \<and> ack_EnvelopeDigest a = d) ps as"
  by (induction ps as rule: list_induct2) (auto simp: Ack_Validate_def)

lemma Certificate_Validate_iff:
  "Certificate_Validate c = Inr u \<longleftrightarrow>
    cert_Protocol c \<noteq> [] \<and> cert_SessionID c \<noteq> 0 \<and> cert_From c \<noteq> 0 \<and> cert_PayloadType c \<noteq> []
    \<and> cert_Recipients c \<noteq> [] \<and> sorted_wrt (<) (cert_Recipients c)
    \<and> list_all2 (\<lambda>i a. ack_Party a = i \<and> i \<noteq> 0 \<and> ack_PayloadHash a = cert_PayloadHash c
         \<and> ack_EnvelopeDigest a = cert_EnvelopeDigest c) (cert_Recipients c) (cert_Acks c)"
proof (cases "length (cert_Acks c) = length (cert_Recipients c)")
  case True
  then show ?thesis
    by (auto simp: Certificate_Validate_def sum_wrap_iff checkAckOrder_iff ValidateStrictSortedIDs_iff SessionID_Valid_def
        list_all2_conv_all_nth in_set_conv_nth)
next
  case False
  then show ?thesis
    by (auto simp: Certificate_Validate_def sum_wrap_iff dest: list_all2_lengthD)
qed

lemma collector_complete:
  assumes "collector bc" "bc_committed bc" "\<forall>i\<in>set (bc_recipients bc). fm_has i (bc_acks bc)"
  shows "bc_Complete bc \<and> (\<exists>cert. bc_Certificate bc = Inr cert)"
proof -
  have inv: "bc_inv bc" by (rule collector_inv [OF assms(1)])
  have keys: "{k. fmlookup (bc_acks bc) k \<noteq> None} = set (bc_recipients bc)"
    using inv assms(3) by (auto simp: bc_inv_def fm_has_def)
  have "distinct (bc_recipients bc)" using inv by (simp add: bc_inv_def strict_sorted_iff)
  then have size: "fm_size (bc_acks bc) = length (bc_recipients bc)"
    unfolding fm_size_card keys by (rule distinct_card)
  define look where "look i = the (fmlookup (bc_acks bc) i)" for i
  have ok: "fmlookup (bc_acks bc) i = Some (look i)" "ack_ok bc i (look i)" if "i \<in> set (bc_recipients bc)" for i
  proof -
    from that assms(3) have "fm_has i (bc_acks bc)" by blast
    then show "fmlookup (bc_acks bc) i = Some (look i)" by (auto simp: fm_has_def look_def)
    then show "ack_ok bc i (look i)" using inv by (simp add: bc_inv_def)
  qed
  have "hd (bc_recipients bc) \<in> set (bc_recipients bc)" using inv by (simp add: bc_inv_def)
  from ok(2) [OF this] obtain verify d where v: "bc_verifier bc = Some verify" "bcDigest bc = Inr d"
    by (auto simp: ack_ok_def)
  have "verifyRecipients bc verify d (bc_recipients bc) = Inr ()"
    unfolding verifyRecipients_iff using ok v by (auto simp: ack_ok_def)
  then have vc: "verifyCompleteLocked bc = Inr ()"
    using assms(2) size v by (simp add: verifyCompleteLocked_def bcDigest_def)
  have as: "collectAcks (bc_acks bc) (bc_recipients bc) = Inr (map look (bc_recipients bc))"
    using ok(1) by (simp add: collectAcks_iff list.rel_map list_all2_same)
  have "list_all2 (\<lambda>i a. ack_Party a = i \<and> i \<noteq> 0 \<and> ack_PayloadHash a = bc_payloadHash bc
      \<and> ack_EnvelopeDigest a = bc_envelopeDigest bc) (bc_recipients bc) (map look (bc_recipients bc))"
    using inv ok(2) by (auto simp: list.rel_map list_all2_same bc_inv_def ack_ok_def)
  then have "Certificate_Validate \<lparr>cert_Protocol = bc_protocol bc, cert_SessionID = bc_sessionID bc, cert_Round = bc_round bc,
                   cert_From = bc_from bc, cert_PayloadType = bc_payloadType bc, cert_PayloadHash = bc_payloadHash bc,
                   cert_EnvelopeDigest = bc_envelopeDigest bc, cert_Recipients = bc_recipients bc,
                   cert_Acks = map look (bc_recipients bc)\<rparr> = Inr ()"
    using inv by (simp add: Certificate_Validate_iff bc_inv_def)
  with as vc show ?thesis by (simp add: bc_Complete_def bc_Certificate_def Let_def)
qed

lemma collector_certificate_verifies:
  assumes c: "bc_Certificate bc = Inr cert" and m: "matchesEnvelope bc env" "Envelope_Digest env = Inr (bc_envelopeDigest bc)"
      "PayloadHashFromEnvelope env = bc_payloadHash bc" and ps: "mset ps = mset (bc_recipients bc)"
  shows "VerifyFull (Some cert) env ps (bc_verifier bc) = Inr ()"
proof -
  from c obtain as where vc: "verifyCompleteLocked bc = Inr ()"
    and as: "list_all2 (\<lambda>i a. fmlookup (bc_acks bc) i = Some a) (bc_recipients bc) as"
    and cert: "cert = \<lparr>cert_Protocol = bc_protocol bc, cert_SessionID = bc_sessionID bc, cert_Round = bc_round bc,
                   cert_From = bc_from bc, cert_PayloadType = bc_payloadType bc, cert_PayloadHash = bc_payloadHash bc,
                   cert_EnvelopeDigest = bc_envelopeDigest bc, cert_Recipients = bc_recipients bc, cert_Acks = as\<rparr>"
    and val: "Certificate_Validate cert = Inr ()"
    by (auto simp: bc_Certificate_def Let_def case_sum_Inr_iff collectAcks_iff)
  from vc obtain verify d where v: "bc_verifier bc = Some verify" "bcDigest bc = Inr d"
    and vr: "verifyRecipients bc verify d (bc_recipients bc) = Inr ()"
    by (auto simp: verifyCompleteLocked_def bcDigest_def case_sum_Inr_iff split: if_splits option.splits)
  have parties: "map ack_Party as = bc_recipients bc"
    using val unfolding cert by (auto simp: Certificate_Validate_iff list_all2_conv_all_nth intro: nth_equalityI)
  have "VerifyBroadcastAck env a (bc_verifier bc) = Inr ()" if "a \<in> set as" for a
  proof -
    from that obtain n where n: "n < length as" "a = as ! n" by (auto simp: in_set_conv_nth)
    then have i: "bc_recipients bc ! n \<in> set (bc_recipients bc)" "fmlookup (bc_acks bc) (bc_recipients bc ! n) = Some a"
      using as by (auto simp: list_all2_conv_all_nth)
    from vr [unfolded verifyRecipients_iff, rule_format, OF i(1)] i(2) v m matches_envAckDigest [OF m] show ?thesis
      by (auto simp: VerifyBroadcastAck_iff)
  qed
  moreover have "distinct (map ack_Party as)"
    using val unfolding cert parties by (simp add: Certificate_Validate_iff strict_sorted_iff)
  moreover have "length ps = length as" using parties ps by (metis length_map size_mset)
  moreover have "set ps = set (bc_recipients bc)" using ps by (rule mset_eq_setD)
  moreover have "length (bc_recipients bc) = length as" "ack_Party ` set as = set (bc_recipients bc)"
    unfolding parties [symmetric] by simp_all
  ultimately show ?thesis
    using m v parties by (auto simp: VerifyFull_iff cert binds_def matchesEnvelope_def)
qed

end
