(* ===== verification/Guard.thy ===== *)
theory Guard
  imports Broadcast_Props
begin

text \<open>
  The envelope guard (\<^verbatim>\<open>guard.go\<close> and \<^verbatim>\<open>GuardConfig\<close> of \<^verbatim>\<open>config.go\<close>): every inbound message of a session
  passes it before a handler sees the payload.  The replay cache is an interface: its \<^verbatim>\<open>CheckAndStore\<close> is the
  parameter \<open>check\<close> and the guard holds its state, \<^const>\<open>None\<close> for the nil interface.  The lemmas that need more
  than the code of the guard are proved in the locale \<open>replay_cache\<close> and so hold for every cache that keeps the
  documented contract.
\<close>

section \<open>Guards\<close>

type_synonym 's CheckFn = "'s \<Rightarrow> MessageSlotKey \<Rightarrow> array32 \<Rightarrow> (terror + unit) \<times> 's"

record 's EnvelopeGuard =
  g_self :: PartyID
  g_parties :: PartySet
  g_protocol :: ProtocolID
  g_sessionID :: SessionID
  g_policies :: PolicySet
  g_policyDigest :: array32
  g_replayCache :: "'s option"
  g_ackVerifier :: "SignatureVerifier option"
  g_envelopeVerifier :: "SignatureVerifier option"
  g_testOnly :: bool

record 's GuardConfig =
  gc_Self :: PartyID
  gc_Parties :: PartySet
  gc_Protocol :: ProtocolID
  gc_SessionID :: SessionID
  gc_Policies :: PolicySet
  gc_Cache :: "'s option"
  gc_AckVerifier :: "SignatureVerifier option"
  gc_EnvelopeVerifier :: "SignatureVerifier option"

definition newEnvelopeGuard ::
  "PartyID \<Rightarrow> PartySet \<Rightarrow> ProtocolID \<Rightarrow> SessionID \<Rightarrow> PolicySet \<Rightarrow> 's option \<Rightarrow> SignatureVerifier option
    \<Rightarrow> SignatureVerifier option \<Rightarrow> bool \<Rightarrow> terror + 's EnvelopeGuard" where
  "newEnvelopeGuard self parties protocol sessionID policies cache ackVerifier envelopeVerifier testOnly =
    (if parties = [] then Inl (ErrText ''guard parties must not be empty'')
     else if \<not> ContainsParty parties self then Inl (ErrText ''guard self is not in parties'')
     else if protocol = [] then Inl (ErrText ''guard protocol is empty'')
     else if \<not> SessionID_Valid sessionID then Inl ErrInvalidSessionID
     else if cache = None then Inl ErrMissingReplayCache
     else if \<not> PolicySet_valid policies then Inl (ErrText ''guard policy set must not be empty'')
     else if ps_testOnly policies \<and> \<not> testOnly then Inl (ErrText ''test-only policy set requires a test-only guard'')
     else case (if testOnly then Inr () else ValidateBroadcastConsistency policies) of
       Inl err \<Rightarrow> Inl err
     | Inr _ \<Rightarrow>
         (case PolicySet_Digest policies of
            Inl p \<Rightarrow> Inl p
          | Inr digest \<Rightarrow>
              Inr \<lparr>g_self = self, g_parties = parties, g_protocol = protocol, g_sessionID = sessionID,
                   g_policies = policies, g_policyDigest = digest, g_replayCache = cache,
                   g_ackVerifier = ackVerifier, g_envelopeVerifier = envelopeVerifier, g_testOnly = testOnly\<rparr>))"

definition NewEnvelopeGuard ::
  "PartyID \<Rightarrow> PartySet \<Rightarrow> ProtocolID \<Rightarrow> SessionID \<Rightarrow> PolicySet \<Rightarrow> 's option \<Rightarrow> terror + 's EnvelopeGuard" where
  "NewEnvelopeGuard self parties protocol sessionID policies cache =
    newEnvelopeGuard self parties protocol sessionID policies cache None None False"

definition BuildGuard :: "'s GuardConfig \<Rightarrow> terror + 's EnvelopeGuard" where
  "BuildGuard c =
    (if ps_testOnly (gc_Policies c)
     then Inl (ErrText ''test-only delivery policy cannot build a production guard'')
     else if gc_AckVerifier c = None then Inl ErrMissingAckVerifier
     else if requiresSenderSignature (gc_Policies c) \<and> gc_EnvelopeVerifier c = None
     then Inl ErrMissingEnvelopeSignatureVerifier
     else newEnvelopeGuard (gc_Self c) (gc_Parties c) (gc_Protocol c) (gc_SessionID c) (gc_Policies c) (gc_Cache c)
       (gc_AckVerifier c) (gc_EnvelopeVerifier c) False)"

text \<open>\<open>testing\<close> is the answer of \<^verbatim>\<open>testing.Testing()\<close>.\<close>

definition noopVerifier :: SignatureVerifier where
  "noopVerifier party digest signature = Inr ()"

definition NewTestEnvelopeGuardWithCache ::
  "bool \<Rightarrow> PartyID \<Rightarrow> PartySet \<Rightarrow> ProtocolID \<Rightarrow> SessionID \<Rightarrow> PolicySet \<Rightarrow> 's option \<Rightarrow> terror + 's EnvelopeGuard" where
  "NewTestEnvelopeGuardWithCache testing self parties protocol sessionID policies cache =
    (if \<not> testing then Inl (ErrPanic ''NewTestEnvelopeGuardWithCache must only be called from tests'')
     else case newEnvelopeGuard self parties protocol sessionID policies cache (Some noopVerifier)
            (Some noopVerifier) True of
       Inl err \<Rightarrow> Inl (ErrPanic ''NewTestEnvelopeGuardWithCache'')
     | Inr g \<Rightarrow> Inr g)"

definition NewTestEnvelopeGuard ::
  "bool \<Rightarrow> PartyID \<Rightarrow> PartySet \<Rightarrow> ProtocolID \<Rightarrow> SessionID \<Rightarrow> PolicySet
    \<Rightarrow> terror + InMemoryReplayCache option EnvelopeGuard" where
  "NewTestEnvelopeGuard testing self parties protocol sessionID policies =
    NewTestEnvelopeGuardWithCache testing self parties protocol sessionID policies (Some (Some NewInMemoryReplayCache))"

definition RequiresSenderSignatures :: "'s EnvelopeGuard option \<Rightarrow> bool" where
  "RequiresSenderSignatures guard =
    (case guard of None \<Rightarrow> False | Some g \<Rightarrow> requiresSenderSignature (g_policies g))"

section \<open>Validation\<close>

definition invalidMessage :: "Envelope \<Rightarrow> terror \<Rightarrow> terror" where
  "invalidMessage base err = NewProtocolError ''invalid_message'' (e_Round base) (e_From base) err"

definition validateInboundDeliveryPolicy :: "Envelope \<Rightarrow> ReceiveInfo \<Rightarrow> DeliveryPolicy \<Rightarrow> terror + unit" where
  "validateInboundDeliveryPolicy base info policy =
    (if dp_Mode policy = DeliveryDirect \<and> e_To base = 0 then Inl (invalidMessage base ErrExpectedDirectMessage)
     else if dp_Mode policy = DeliveryBroadcast \<and> e_To base \<noteq> 0
     then Inl (invalidMessage base ErrExpectedBroadcastMessage)
     else if dp_Mode policy \<noteq> DeliveryDirect \<and> dp_Mode policy \<noteq> DeliveryBroadcast
     then Inl (invalidMessage base (ErrText ''unknown delivery mode''))
     else if dp_Confidentiality policy = ConfidentialityRequired
     then (if Protection info \<noteq> ChannelConfidential then Inl (invalidMessage base ErrMissingConfidentiality) else Inr ())
     else if dp_Confidentiality policy = ConfidentialityForbidden
     then (if Protection info = ChannelConfidential then Inl (invalidMessage base ErrUnexpectedConfidentiality)
           else Inr ())
     else if dp_Confidentiality policy = ConfidentialityOptional then Inr ()
     else Inl (invalidMessage base (ErrText ''unknown confidentiality policy'')))"

text \<open>The checks before the replay cache, in the order of the code.\<close>

definition validateStateless :: "'s EnvelopeGuard \<Rightarrow> InboundEnvelope \<Rightarrow> PartySet \<Rightarrow> terror + unit" where
  "validateStateless g env parties =
    (let base = ie_env env; info = ie_receiveInfo env; bad = (\<lambda>err. Inl (invalidMessage base err)) in
     if e_Protocol base \<noteq> g_protocol g then bad (ErrText ''unexpected protocol'')
     else if e_SessionID base \<noteq> g_sessionID g then bad (ErrText ''session mismatch'')
     else if \<not> ContainsParty parties (e_From base) then bad (ErrText ''sender is not a participant'')
     else if e_From base = g_self g then bad ErrSelfSender
     else if Peer info = 0 then bad ErrUnauthenticatedTransport
     else if Peer info \<noteq> e_From base then bad ErrSenderIdentityMismatch
     else if Protection info = ChannelProtectionUnknown then bad ErrMissingChannelProtection
     else if \<not> validChannelProtection (Protection info) then bad ErrInvalidChannelProtection
     else if e_To base \<noteq> 0 \<and> e_To base \<noteq> g_self g then bad ErrWrongRecipient
     else (case PolicySet_Match (g_policies g) (e_Protocol base) (e_Round base) (e_PayloadType base) of
       Inl err \<Rightarrow> bad err
     | Inr policy \<Rightarrow>
         if dp_RequireSenderSignature policy \<and> g_envelopeVerifier g = None
         then bad ErrMissingEnvelopeSignatureVerifier
         else (case (if dp_RequireSenderSignature policy then VerifyEnvelopeSignature base (g_envelopeVerifier g)
                     else Inr ()) of
           Inl err \<Rightarrow> bad err
         | Inr _ \<Rightarrow>
             (case validateInboundDeliveryPolicy base info policy of
                Inl err \<Rightarrow> Inl err
              | Inr _ \<Rightarrow>
                  if dp_BroadcastConsistency policy = BroadcastConsistencyRequired
                  then (case ie_broadcast env of
                          None \<Rightarrow> bad ErrMissingBroadcastCertificate
                        | Some cert \<Rightarrow>
                            (case VerifyFull (Some cert) base parties (g_ackVerifier g) of
                               Inl err \<Rightarrow> bad (Wrap ErrInvalidBroadcastCertificate err)
                             | Inr _ \<Rightarrow> Inr ()))
                  else Inr ()))))"

definition validateWithParties ::
  "'s CheckFn \<Rightarrow> 's EnvelopeGuard \<Rightarrow> InboundEnvelope \<Rightarrow> PartySet \<Rightarrow> bool \<Rightarrow> (terror + unit) \<times> 's EnvelopeGuard" where
  "validateWithParties check g env parties commitReplay =
    (case validateStateless g env parties of
       Inl err \<Rightarrow> (Inl err, g)
     | Inr _ \<Rightarrow>
         if \<not> commitReplay then (Inr (), g)
         else (case g_replayCache g of
                 None \<Rightarrow> (Inl (ErrPanic ''nil replay cache''), g)
               | Some cache \<Rightarrow>
                   let base = ie_env env;
                       (r, cache') = check cache (SlotKeyFromEnvelope base) (PayloadHashFromEnvelope base);
                       g' = g\<lparr>g_replayCache := Some cache'\<rparr>
                   in (case r of
                         Inl err \<Rightarrow>
                           if errors_Is err ErrDuplicateMessage then (Inl ErrDuplicateMessage, g')
                           else (Inl (NewProtocolError ''verification_failed'' (e_Round base) (e_From base) err), g')
                       | Inr _ \<Rightarrow> (Inr (), g'))))"

definition ValidateWithParties ::
  "'s CheckFn \<Rightarrow> 's EnvelopeGuard \<Rightarrow> InboundEnvelope \<Rightarrow> PartySet \<Rightarrow> (terror + unit) \<times> 's EnvelopeGuard" where
  "ValidateWithParties check g env parties = validateWithParties check g env parties True"

definition ValidateWithoutReplay ::
  "'s CheckFn \<Rightarrow> 's EnvelopeGuard \<Rightarrow> InboundEnvelope \<Rightarrow> PartySet \<Rightarrow> (terror + unit) \<times> 's EnvelopeGuard" where
  "ValidateWithoutReplay check g env parties = validateWithParties check g env parties False"

definition ValidateForRound ::
  "'s CheckFn \<Rightarrow> 's EnvelopeGuard \<Rightarrow> InboundEnvelope \<Rightarrow> PartySet \<Rightarrow> (terror + unit) \<times> 's EnvelopeGuard" where
  "ValidateForRound check g env allowedSenders = ValidateWithParties check g env allowedSenders"

definition Guard_Validate ::
  "'s CheckFn \<Rightarrow> 's EnvelopeGuard option \<Rightarrow> InboundEnvelope \<Rightarrow> (terror + unit) \<times> 's EnvelopeGuard option" where
  "Guard_Validate check guard env =
    (case guard of
       None \<Rightarrow> (Inl ErrMissingEnvelopeGuard, guard)
     | Some g \<Rightarrow> map_prod id Some (ValidateWithParties check g env (g_parties g)))"

definition requireEnvelopeGuardIdentity ::
  "'s EnvelopeGuard option \<Rightarrow> ProtocolID \<Rightarrow> SessionID \<Rightarrow> PartyID \<Rightarrow> terror + 's EnvelopeGuard" where
  "requireEnvelopeGuardIdentity guard expectedProtocol expectedSession self =
    (case guard of
       None \<Rightarrow> Inl ErrMissingEnvelopeGuard
     | Some g \<Rightarrow>
         if g_protocol g \<noteq> expectedProtocol then Inl (ErrText ''guard protocol does not match expected'')
         else if g_sessionID g \<noteq> expectedSession then Inl (ErrText ''guard session does not match expected'')
         else if g_self g \<noteq> self then Inl (ErrText ''guard self does not match expected'')
         else if \<not> PolicySet_valid (g_policies g) then Inl (ErrText ''guard policy set must not be empty'')
         else if g_replayCache g = None then Inl ErrMissingReplayCache
         else if g_ackVerifier g = None then Inl ErrMissingAckVerifier
         else if requiresSenderSignature (g_policies g) \<and> g_envelopeVerifier g = None
         then Inl ErrMissingEnvelopeSignatureVerifier
         else Inr g)"

definition RequireEnvelopeGuard ::
  "bool \<Rightarrow> 's EnvelopeGuard option \<Rightarrow> ProtocolID \<Rightarrow> SessionID \<Rightarrow> PartyID \<Rightarrow> PolicySet \<Rightarrow> terror + unit" where
  "RequireEnvelopeGuard testing guard expectedProtocol expectedSession self expectedPolicies =
    (case requireEnvelopeGuardIdentity guard expectedProtocol expectedSession self of
       Inl err \<Rightarrow> Inl err
     | Inr g \<Rightarrow>
         if \<not> PolicySet_valid expectedPolicies \<or> ps_testOnly expectedPolicies \<and> (\<not> g_testOnly g \<or> \<not> testing)
         then Inl (ErrText ''expected production policy set is invalid'')
         else (case PolicySet_Digest expectedPolicies of
           Inl p \<Rightarrow> Inl p
         | Inr digest \<Rightarrow>
             if g_policyDigest g \<noteq> digest \<and> (\<not> g_testOnly g \<or> \<not> testing)
             then Inl (ErrText ''guard delivery policy does not match the protocol canonical policy'')
             else Inr ()))"

definition ValidateInbound ::
  "'s CheckFn \<Rightarrow> 's EnvelopeGuard option \<Rightarrow> InboundEnvelope \<Rightarrow> ProtocolID \<Rightarrow> SessionID \<Rightarrow> PartySet \<Rightarrow> PartyID
    \<Rightarrow> (terror + unit) \<times> 's EnvelopeGuard option" where
  "ValidateInbound check guard env expectedProtocol expectedSession allowedSenders self =
    (case requireEnvelopeGuardIdentity guard expectedProtocol expectedSession self of
       Inl err \<Rightarrow> (Inl err, guard)
     | Inr g \<Rightarrow>
         if allowedSenders = [] then (Inl (ErrText ''allowed senders must not be empty''), guard)
         else map_prod id Some (ValidateForRound check g env allowedSenders))"

definition ValidateInboundWithoutReplay ::
  "'s CheckFn \<Rightarrow> 's EnvelopeGuard option \<Rightarrow> InboundEnvelope \<Rightarrow> ProtocolID \<Rightarrow> SessionID \<Rightarrow> PartySet \<Rightarrow> PartyID
    \<Rightarrow> (terror + unit) \<times> 's EnvelopeGuard option" where
  "ValidateInboundWithoutReplay check guard env expectedProtocol expectedSession allowedSenders self =
    (case requireEnvelopeGuardIdentity guard expectedProtocol expectedSession self of
       Inl err \<Rightarrow> (Inl err, guard)
     | Inr g \<Rightarrow>
         if allowedSenders = [] then (Inl (ErrText ''allowed senders must not be empty''), guard)
         else map_prod id Some (ValidateWithoutReplay check g env allowedSenders))"

end
