(* ===== verification/Guard_Props.thy ===== *)
theory Guard_Props
  imports Guard
begin

text \<open>
  What the guard guarantees: the exact acceptance condition, no slot accepted twice over any run of messages, no
  effect of a rejected message, agreement of the broadcasts accepted by two guards, and that a guard approved
  for a policy set decides by that set.
\<close>

section \<open>The acceptance condition\<close>

lemma bad_iff: "(case r of Inl e \<Rightarrow> Inl (f e) | Inr x \<Rightarrow> h x) = Inr y \<longleftrightarrow> (\<exists>x. r = Inr x \<and> h x = Inr y)"
  by (rule sum_wrap_iff)

lemma delivery_policy_iff:
  "validateInboundDeliveryPolicy base info p = Inr u \<longleftrightarrow>
    (dp_Mode p = DeliveryDirect \<and> e_To base \<noteq> 0 \<or> dp_Mode p = DeliveryBroadcast \<and> e_To base = 0)
    \<and> (dp_Confidentiality p = ConfidentialityRequired \<and> Protection info = ChannelConfidential
       \<or> dp_Confidentiality p = ConfidentialityForbidden \<and> Protection info \<noteq> ChannelConfidential
       \<or> dp_Confidentiality p = ConfidentialityOptional)"
  by (auto simp: validateInboundDeliveryPolicy_def)

lemma validateStateless_iff:
  "validateStateless g env parties = Inr u \<longleftrightarrow>
    (let base = ie_env env; info = ie_receiveInfo env in
     e_Protocol base = g_protocol g \<and> e_SessionID base = g_sessionID g \<and> e_From base \<in> set parties
     \<and> e_From base \<noteq> g_self g \<and> Peer info \<noteq> 0 \<and> Peer info = e_From base \<and> validChannelProtection (Protection info)
     \<and> (e_To base = 0 \<or> e_To base = g_self g)
     \<and> (\<exists>p. PolicySet_Match (g_policies g) (e_Protocol base) (e_Round base) (e_PayloadType base) = Inr p
          \<and> (dp_RequireSenderSignature p \<longrightarrow> VerifyEnvelopeSignature base (g_envelopeVerifier g) = Inr ())
          \<and> validateInboundDeliveryPolicy base info p = Inr ()
          \<and> (dp_BroadcastConsistency p = BroadcastConsistencyRequired \<longrightarrow>
               VerifyFull (ie_broadcast env) base parties (g_ackVerifier g) = Inr ())))"
proof -
  have nil: "VerifyFull None e ps v \<noteq> Inr x" for e ps v x by (simp add: VerifyFull_iff)
  have none: "VerifyEnvelopeSignature e None \<noteq> Inr x" for e x by (simp add: VerifyEnvelopeSignature_iff)
  let ?m = "PolicySet_Match (g_policies g) (e_Protocol (ie_env env)) (e_Round (ie_env env)) (e_PayloadType (ie_env env))"
  show ?thesis
  proof (cases ?m)
    case (Inr p)
    show ?thesis
      unfolding validateStateless_def Let_def Inr
      by (cases "dp_RequireSenderSignature p"; cases "ie_broadcast env"; cases "g_envelopeVerifier g")
         (auto simp: bad_iff case_sum_Inr_iff ContainsParty_def validChannelProtection_def none nil)
  qed (auto simp: validateStateless_def Let_def)
qed

lemma requireIdentity_iff:
  "requireEnvelopeGuardIdentity guard P sid self = Inr g \<longleftrightarrow>
    guard = Some g \<and> g_protocol g = P \<and> g_sessionID g = sid \<and> g_self g = self \<and> PolicySet_valid (g_policies g)
    \<and> g_replayCache g \<noteq> None \<and> g_ackVerifier g \<noteq> None
    \<and> (requiresSenderSignature (g_policies g) \<longrightarrow> g_envelopeVerifier g \<noteq> None)"
  by (auto simp: requireEnvelopeGuardIdentity_def split: option.splits)

lemma newEnvelopeGuard_iff:
  "newEnvelopeGuard self ps P sid S cache av ev t = Inr g \<longleftrightarrow>
    self \<in> set ps \<and> P \<noteq> [] \<and> sid \<noteq> 0 \<and> cache \<noteq> None \<and> PolicySet_valid S \<and> (ps_testOnly S \<longrightarrow> t)
    \<and> (t \<or> ValidateBroadcastConsistency S = Inr ())
    \<and> (\<exists>d. PolicySet_Digest S = Inr d
       \<and> g = \<lparr>g_self = self, g_parties = ps, g_protocol = P, g_sessionID = sid, g_policies = S, g_policyDigest = d,
              g_replayCache = cache, g_ackVerifier = av, g_envelopeVerifier = ev, g_testOnly = t\<rparr>)"
  by (auto simp: newEnvelopeGuard_def case_sum_Inr_iff ContainsParty_def SessionID_Valid_def)

section \<open>Replays\<close>

text \<open>A guard keeps its configuration; only the state of its cache moves.\<close>

definition sameGuard :: "'s EnvelopeGuard \<Rightarrow> 's EnvelopeGuard \<Rightarrow> bool" where
  "sameGuard g g' \<longleftrightarrow> g'\<lparr>g_replayCache := g_replayCache g\<rparr> = g"

lemma sameGuard_refl [simp]: "sameGuard g g"
  by (simp add: sameGuard_def)

lemma sameGuard_upd [simp]: "sameGuard g (g\<lparr>g_replayCache := s\<rparr>)"
  by (simp add: sameGuard_def)

lemma sameGuard_sel:
  assumes "sameGuard g g'"
  shows "g_self g' = g_self g" "g_policies g' = g_policies g" "g_ackVerifier g' = g_ackVerifier g"
    "g_envelopeVerifier g' = g_envelopeVerifier g" "g_protocol g' = g_protocol g" "g_sessionID g' = g_sessionID g"
    "g_policyDigest g' = g_policyDigest g" "g_testOnly g' = g_testOnly g" "g_parties g' = g_parties g"
  using assms unfolding sameGuard_def by (metis EnvelopeGuard.ext_inject EnvelopeGuard.surjective EnvelopeGuard.update_convs(7))+

lemma sameGuard_trans: "sameGuard g g' \<Longrightarrow> sameGuard g' g'' \<Longrightarrow> sameGuard g g''"
  unfolding sameGuard_def by (cases g; cases g'; cases g'') simp

fun deliverAll ::
  "'s CheckFn \<Rightarrow> 's EnvelopeGuard option \<Rightarrow> ProtocolID \<Rightarrow> SessionID \<Rightarrow> PartyID \<Rightarrow> (InboundEnvelope \<times> PartySet) list
    \<Rightarrow> (terror + unit) list \<times> 's EnvelopeGuard option" where
  "deliverAll check guard P sid self [] = ([], guard)"
| "deliverAll check guard P sid self ((env, allowed) # msgs) =
    (let (r, guard') = ValidateInbound check guard env P sid allowed self;
         (rs, guard'') = deliverAll check guard' P sid self msgs
     in (r # rs, guard''))"

lemma validate_same:
  "validateWithParties check g env ps c = (r, g') \<Longrightarrow> sameGuard g g'"
  by (auto simp: validateWithParties_def Let_def split: sum.splits option.splits prod.splits if_splits)

lemma ValidateInbound_cases:
  assumes "ValidateInbound check guard env P sid allowed self = (r, guard')"
  shows "guard' = guard \<and> r \<noteq> Inr ()
    \<or> (\<exists>g g'. guard = Some g \<and> guard' = Some g' \<and> requireEnvelopeGuardIdentity guard P sid self = Inr g
        \<and> validateWithParties check g env allowed True = (r, g'))"
  using assms
  by (auto simp: ValidateInbound_def ValidateForRound_def ValidateWithParties_def requireIdentity_iff map_prod_def
      split: sum.splits if_splits prod.splits)

lemma ValidateInbound_same:
  assumes "ValidateInbound check (Some g) env P sid allowed self = (r, guard')"
  shows "\<exists>g'. guard' = Some g' \<and> sameGuard g g'"
  using ValidateInbound_cases [OF assms] by (auto dest: validate_same)

lemma ValidateInbound_accepts:
  assumes "ValidateInbound check guard env P sid allowed self = (Inr u, guard')"
  shows "\<exists>g. guard = Some g \<and> requireEnvelopeGuardIdentity guard P sid self = Inr g
    \<and> validateStateless g env allowed = Inr ()"
proof -
  have "validateStateless g env allowed = Inr ()" if "validateWithParties check g env allowed True = (Inr u, g')" for g g'
    using that by (cases "validateStateless g env allowed") (simp_all add: validateWithParties_def)
  with ValidateInbound_cases [OF assms] show ?thesis by auto
qed

lemma deliverAll_length: "deliverAll check guard P sid self msgs = (rs, guard') \<Longrightarrow> length rs = length msgs"
  by (induction check guard P sid self msgs arbitrary: rs guard' rule: deliverAll.induct)
     (auto split: prod.splits)

lemma deliverAll_accepts:
  assumes "deliverAll check (Some g) P sid self msgs = (rs, guard')" "(r, (env, allowed)) \<in> set (zip rs msgs)" "r = Inr ()"
  shows "\<exists>h h'. sameGuard g h \<and> ValidateInbound check (Some h) env P sid allowed self = (Inr (), h')"
  using assms
proof (induction msgs arbitrary: g rs)
  case (Cons m msgs)
  obtain e ps where m: "m = (e, ps)" by force
  obtain q guard1 where v: "ValidateInbound check (Some g) e P sid ps self = (q, guard1)" by force
  from ValidateInbound_same [OF v] obtain g1 where g1: "guard1 = Some g1" "sameGuard g g1" by auto
  obtain qs guard2 where d: "deliverAll check (Some g1) P sid self msgs = (qs, guard2)" by force
  with Cons.prems(1) m v g1 have rs: "rs = q # qs" "guard2 = guard'" by simp_all
  show ?case
  proof (cases "(r, (env, allowed)) \<in> set (zip qs msgs)")
    case True
    from Cons.IH [OF d [unfolded rs(2)] True Cons.prems(3)] g1(2) show ?thesis by (meson sameGuard_trans)
  next
    case False
    with Cons.prems(2) rs m have "r = q" "env = e" "allowed = ps" by auto
    with v Cons.prems(3) show ?thesis by (intro exI [of _ g] exI [of _ guard1]) simp
  qed
qed simp

section \<open>What a cache adds\<close>

definition acceptedSlots :: "(terror + unit) list \<Rightarrow> (InboundEnvelope \<times> PartySet) list \<Rightarrow> MessageSlotKey list" where
  "acceptedSlots rs msgs = map (SlotKeyFromEnvelope \<circ> ie_env \<circ> fst \<circ> snd) (filter (\<lambda>(r, _). r = Inr ()) (zip rs msgs))"

context replay_cache
begin

definition gstored :: "'s EnvelopeGuard option \<Rightarrow> MessageSlotKey \<Rightarrow> array32 option" where
  "gstored guard k = (case guard of None \<Rightarrow> None | Some g \<Rightarrow>
     (case g_replayCache g of None \<Rightarrow> None | Some s \<Rightarrow> stored s k))"

lemma validate_step:
  assumes "validateWithParties check g env ps True = (r, g')"
  shows "case r of
      Inl e \<Rightarrow> g' = g
    | Inr _ \<Rightarrow> gstored (Some g) (SlotKeyFromEnvelope (ie_env env)) = None
        \<and> gstored (Some g') = (gstored (Some g))(SlotKeyFromEnvelope (ie_env env) := Some (PayloadHashFromEnvelope (ie_env env)))"
proof (cases "validateStateless g env ps")
  case (Inr u)
  show ?thesis
  proof (cases "g_replayCache g")
    case (Some s)
    obtain q s' where c: "check s (SlotKeyFromEnvelope (ie_env env)) (PayloadHashFromEnvelope (ie_env env)) = (q, s')" by force
    show ?thesis
    proof (cases q)
      case (Inl e)
      with check_fail c have "s' = s" by blast
      moreover have "g\<lparr>g_replayCache := Some s\<rparr> = g" using Some by (cases g) simp
      ultimately show ?thesis using assms Inr Some c Inl
        by (auto simp: validateWithParties_def Let_def split: if_splits)
    next
      case (Inr v)
      with \<open>validateStateless g env ps = Inr u\<close> Some c assms
      have "r = Inr ()" "g' = g\<lparr>g_replayCache := Some s'\<rparr>" by (simp_all add: validateWithParties_def Let_def)
      with check_new [OF c [unfolded Inr]] Some show ?thesis by (auto simp: gstored_def fun_eq_iff)
    qed
  qed (use assms Inr in \<open>auto simp: validateWithParties_def\<close>)
qed (use assms in \<open>auto simp: validateWithParties_def split: sum.splits\<close>)

lemma inbound_step:
  assumes "ValidateInbound check guard env P sid allowed self = (r, guard')"
  shows "case r of
      Inl e \<Rightarrow> guard' = guard
    | Inr _ \<Rightarrow> gstored guard (SlotKeyFromEnvelope (ie_env env)) = None
        \<and> gstored guard' = (gstored guard)(SlotKeyFromEnvelope (ie_env env) := Some (PayloadHashFromEnvelope (ie_env env)))"
  using ValidateInbound_cases [OF assms] by (auto dest: validate_step split: sum.splits)

lemma accepted_distinct:
  assumes "deliverAll check guard P sid self msgs = (rs, guard')"
  shows "distinct (acceptedSlots rs msgs) \<and> (\<forall>k\<in>set (acceptedSlots rs msgs). gstored guard k = None)
    \<and> dom (gstored guard') = dom (gstored guard) \<union> set (acceptedSlots rs msgs)"
  using assms
proof (induction msgs arbitrary: guard rs)
  case (Cons m msgs)
  obtain e ps where m: "m = (e, ps)" by force
  obtain q guard1 where v: "ValidateInbound check guard e P sid ps self = (q, guard1)" by force
  obtain qs guard2 where d: "deliverAll check guard1 P sid self msgs = (qs, guard2)" by force
  with Cons.prems m v have rs: "rs = q # qs" "guard2 = guard'" by auto
  from Cons.IH [OF d [unfolded rs(2)]] inbound_step [OF v] rs m show ?case
    by (cases q) (auto simp: acceptedSlots_def split: if_splits)
qed (simp add: acceptedSlots_def)

lemma gstored_mono:
  assumes "ValidateInbound check guard env P sid allowed self = (r, guard')" "gstored guard k = Some h"
  shows "gstored guard' k = Some h"
  using inbound_step [OF assms(1)] assms(2) by (auto split: sum.splits)

lemma deliverAll_mono:
  "deliverAll check guard P sid self msgs = (rs, guard') \<Longrightarrow> gstored guard k = Some h \<Longrightarrow> gstored guard' k = Some h"
proof (induction msgs arbitrary: guard rs)
  case (Cons m msgs)
  obtain e ps q guard1 where m: "m = (e, ps)" and v: "ValidateInbound check guard e P sid ps self = (q, guard1)" by force
  obtain qs where d: "deliverAll check guard1 P sid self msgs = (qs, guard')" using Cons.prems(1) m v by (auto split: prod.splits)
  from Cons.IH [OF d] gstored_mono [OF v Cons.prems(2)] show ?case by simp
qed simp

lemma accepted_stored:
  assumes "deliverAll check guard P sid self msgs = (rs, guard')" "(Inr (), (env, allowed)) \<in> set (zip rs msgs)"
  shows "gstored guard' (SlotKeyFromEnvelope (ie_env env)) = Some (PayloadHashFromEnvelope (ie_env env))"
  using assms
proof (induction msgs arbitrary: guard rs)
  case (Cons m msgs)
  obtain e ps q guard1 where m: "m = (e, ps)" and v: "ValidateInbound check guard e P sid ps self = (q, guard1)" by force
  obtain qs where d: "deliverAll check guard1 P sid self msgs = (qs, guard')" and rs: "rs = q # qs"
    using Cons.prems(1) m v by (auto split: prod.splits)
  show ?case
  proof (cases "(Inr (), (env, allowed)) \<in> set (zip qs msgs)")
    case False
    with Cons.prems(2) rs m v have "ValidateInbound check guard env P sid allowed self = (Inr (), guard1)" by auto
    from inbound_step [OF this] have "gstored guard1 (SlotKeyFromEnvelope (ie_env env)) = Some (PayloadHashFromEnvelope (ie_env env))"
      by simp
    with deliverAll_mono [OF d] show ?thesis by simp
  qed (use Cons.IH [OF d] in simp)
qed simp

lemma rejected_no_effect:
  "deliverAll check guard P sid self msgs = (rs, guard') \<Longrightarrow> Inr () \<notin> set rs \<Longrightarrow> guard' = guard"
proof (induction msgs arbitrary: guard rs)
  case (Cons m msgs)
  obtain e ps q guard1 where m: "m = (e, ps)" and v: "ValidateInbound check guard e P sid ps self = (q, guard1)" by force
  obtain qs where d: "deliverAll check guard1 P sid self msgs = (qs, guard')" and rs: "rs = q # qs"
    using Cons.prems(1) m v by (auto split: prod.splits)
  from inbound_step [OF v] Cons.prems(2) rs have "guard1 = guard" by (auto split: sum.splits)
  with Cons.IH [OF d] Cons.prems(2) rs show ?case by simp
qed simp

text \<open>A second message in an accepted slot is reported, by kind, when it passes the other checks.\<close>

lemma second_message:
  assumes st: "gstored (Some g) (SlotKeyFromEnvelope (ie_env env)) = Some h" and ok: "validateStateless g env ps = Inr ()"
  shows "validateWithParties check g env ps True =
    (Inl (if h = PayloadHashFromEnvelope (ie_env env) then ErrDuplicateMessage
          else NewProtocolError ''verification_failed'' (e_Round (ie_env env)) (e_From (ie_env env)) ErrEquivocation), g)"
proof -
  from st obtain s where s: "g_replayCache g = Some s" "stored s (SlotKeyFromEnvelope (ie_env env)) = Some h"
    by (auto simp: gstored_def split: option.splits)
  have "g\<lparr>g_replayCache := Some s\<rparr> = g" using s by (cases g) simp
  with s check_old [OF s(2)] ok show ?thesis by (simp add: validateWithParties_def Let_def)
qed

end

section \<open>Properties\<close>

lemma BuildGuard_iff:
  "BuildGuard c = Inr g \<longleftrightarrow>
    \<not> ps_testOnly (gc_Policies c) \<and> gc_AckVerifier c \<noteq> None
    \<and> (requiresSenderSignature (gc_Policies c) \<longrightarrow> gc_EnvelopeVerifier c \<noteq> None)
    \<and> newEnvelopeGuard (gc_Self c) (gc_Parties c) (gc_Protocol c) (gc_SessionID c) (gc_Policies c) (gc_Cache c)
        (gc_AckVerifier c) (gc_EnvelopeVerifier c) False = Inr g"
  by (auto simp: BuildGuard_def)

lemma BuildGuard_sel:
  "BuildGuard c = Inr g \<Longrightarrow> g_self g = gc_Self c \<and> g_policies g = gc_Policies c \<and> g_ackVerifier g = gc_AckVerifier c
    \<and> g_envelopeVerifier g = gc_EnvelopeVerifier c \<and> PolicySet_Digest (gc_Policies c) = Inr (g_policyDigest g)
    \<and> \<not> g_testOnly g \<and> g_protocol g = gc_Protocol c \<and> g_sessionID g = gc_SessionID c \<and> g_replayCache g = gc_Cache c"
  by (auto simp: BuildGuard_iff newEnvelopeGuard_iff)

lemma accepted_message:
  assumes ps: "NewPolicySet ps = Inr (gc_Policies c)" and g: "BuildGuard c = Inr g"
    and d: "deliverAll check (Some g) P sid self msgs = (rs, guard')" "(Inr (), (env, allowed)) \<in> set (zip rs msgs)"
  shows "\<exists>p\<in>set ps. keyOf p = (e_Protocol (ie_env env), e_Round (ie_env env), e_PayloadType (ie_env env)) \<and> policy_ok False p
    \<and> validateInboundDeliveryPolicy (ie_env env) (ie_receiveInfo env) p = Inr ()
    \<and> (dp_RequireSenderSignature p \<longrightarrow> VerifyEnvelopeSignature (ie_env env) (gc_EnvelopeVerifier c) = Inr ())
    \<and> (dp_Mode p = DeliveryBroadcast \<longrightarrow> VerifyFull (ie_broadcast env) (ie_env env) allowed (gc_AckVerifier c) = Inr ())"
    "e_Protocol (ie_env env) = P" "e_SessionID (ie_env env) = sid" "e_From (ie_env env) \<in> set allowed"
    "e_From (ie_env env) \<noteq> self" "Peer (ie_receiveInfo env) = e_From (ie_env env)" "e_From (ie_env env) \<noteq> 0"
    "validChannelProtection (Protection (ie_receiveInfo env))" "e_To (ie_env env) = 0 \<or> e_To (ie_env env) = self"
proof -
  from deliverAll_accepts [OF d refl] obtain h h' where h: "sameGuard g h"
    "ValidateInbound check (Some h) env P sid allowed self = (Inr (), h')" by blast
  from ValidateInbound_accepts [OF h(2)] have r: "requireEnvelopeGuardIdentity (Some h) P sid self = Inr h"
    and v: "validateStateless h env allowed = Inr ()" by (auto simp: requireIdentity_iff)
  note sel = sameGuard_sel [OF h(1)] BuildGuard_sel [OF g]
  from v obtain p where p: "PolicySet_Match (gc_Policies c) (e_Protocol (ie_env env)) (e_Round (ie_env env)) (e_PayloadType (ie_env env)) = Inr p"
    "dp_RequireSenderSignature p \<longrightarrow> VerifyEnvelopeSignature (ie_env env) (gc_EnvelopeVerifier c) = Inr ()"
    "validateInboundDeliveryPolicy (ie_env env) (ie_receiveInfo env) p = Inr ()"
    "dp_BroadcastConsistency p = BroadcastConsistencyRequired \<longrightarrow>
       VerifyFull (ie_broadcast env) (ie_env env) allowed (gc_AckVerifier c) = Inr ()"
    by (auto simp: validateStateless_iff Let_def sel)
  from ps have n: "newPolicySet False ps = Inr (gc_Policies c)" by (simp add: NewPolicySet_def)
  with p(1) have "p \<in> set ps" "keyOf p = (e_Protocol (ie_env env), e_Round (ie_env env), e_PayloadType (ie_env env))"
    by (simp_all add: Match_iff)
  moreover from n this(1) have "policy_ok False p" by (simp add: newPolicySet_iff list_all_iff)
  moreover from this have "dp_Mode p = DeliveryBroadcast \<Longrightarrow> dp_BroadcastConsistency p = BroadcastConsistencyRequired"
    by (auto simp: policy_ok_def)
  ultimately show "\<exists>p\<in>set ps. keyOf p = (e_Protocol (ie_env env), e_Round (ie_env env), e_PayloadType (ie_env env)) \<and> policy_ok False p
    \<and> validateInboundDeliveryPolicy (ie_env env) (ie_receiveInfo env) p = Inr ()
    \<and> (dp_RequireSenderSignature p \<longrightarrow> VerifyEnvelopeSignature (ie_env env) (gc_EnvelopeVerifier c) = Inr ())
    \<and> (dp_Mode p = DeliveryBroadcast \<longrightarrow> VerifyFull (ie_broadcast env) (ie_env env) allowed (gc_AckVerifier c) = Inr ())"
    using p by (intro bexI [of _ p]) auto
qed (use deliverAll_accepts [OF d refl] in \<open>auto dest!: ValidateInbound_accepts simp: requireIdentity_iff validateStateless_iff Let_def\<close>)

text \<open>A run with one direct and one broadcast message, for the witnesses.\<close>

definition samplePolicies :: "DeliveryPolicy list" where
  "samplePolicies =
    [\<lparr>dp_Protocol = ''p'', dp_Round = 1, dp_PayloadType = ''d'', dp_Mode = 0, dp_Confidentiality = 2,
      dp_BroadcastConsistency = 0, dp_RequireSenderSignature = False\<rparr>,
     \<lparr>dp_Protocol = ''p'', dp_Round = 2, dp_PayloadType = ''b'', dp_Mode = 1, dp_Confidentiality = 1,
      dp_BroadcastConsistency = 1, dp_RequireSenderSignature = False\<rparr>]"

definition sampleSet :: PolicySet where
  "sampleSet = projr (NewPolicySet samplePolicies)"

definition sampleDirect :: Envelope where
  "sampleDirect = \<lparr>e_Protocol = ''p'', e_SessionID = 5, e_Round = 1, e_From = 2, e_To = 1, e_PayloadType = ''d'',
    e_Payload = [7], e_SenderSignature = []\<rparr>"

definition sampleBroadcast :: Envelope where
  "sampleBroadcast = \<lparr>e_Protocol = ''p'', e_SessionID = 5, e_Round = 2, e_From = 2, e_To = 0, e_PayloadType = ''b'',
    e_Payload = [9], e_SenderSignature = []\<rparr>"

definition sampleVerifier :: SignatureVerifier where
  "sampleVerifier p d s = (if envAckDigest sampleBroadcast = Inr d then Inr () else Inl ErrInvalidEnvelopeSignature)"

definition sampleCert :: BroadcastCertificate where
  "sampleCert = \<lparr>cert_Protocol = ''p'', cert_SessionID = 5, cert_Round = 2, cert_From = 2, cert_PayloadType = ''b'',
    cert_PayloadHash = PayloadHashFromEnvelope sampleBroadcast, cert_EnvelopeDigest = projr (Envelope_Digest sampleBroadcast),
    cert_Recipients = [2],
    cert_Acks = [\<lparr>ack_Party = 2, ack_PayloadHash = PayloadHashFromEnvelope sampleBroadcast,
      ack_EnvelopeDigest = projr (Envelope_Digest sampleBroadcast), ack_Signature = [1]\<rparr>]\<rparr>"

definition sampleConfig :: "InMemoryReplayCache option GuardConfig" where
  "sampleConfig = \<lparr>gc_Self = 1, gc_Parties = [1, 2], gc_Protocol = ''p'', gc_SessionID = 5, gc_Policies = sampleSet,
    gc_Cache = Some (Some NewInMemoryReplayCache), gc_AckVerifier = Some sampleVerifier, gc_EnvelopeVerifier = None\<rparr>"

definition sampleGuard :: "InMemoryReplayCache option EnvelopeGuard" where
  "sampleGuard = projr (BuildGuard sampleConfig)"

definition sampleInbound :: "Envelope \<Rightarrow> InboundEnvelope" where
  "sampleInbound e = \<lparr>ie_env = e,
    ie_receiveInfo = \<lparr>Peer = 2, Protection = 2, ChannelID = [], PeerKeyID = [], ReceivedAt = 1\<rparr>, ie_broadcast = Some sampleCert\<rparr>"

definition sampleMessages :: "(InboundEnvelope \<times> PartySet) list" where
  "sampleMessages = [(sampleInbound sampleDirect, [2]), (sampleInbound sampleBroadcast, [2])]"

lemma digest32_ok: "\<not> isl (transcript d es) \<Longrightarrow> digest32 d es = Inr (projr (digest32 d es))"
  by (cases "transcript d es") (auto simp: digest32_def transcript_sum_def)

lemma sample_policies:
  "NewPolicySet samplePolicies = Inr sampleSet" "entries sampleSet = samplePolicies"
  "PolicySet_valid sampleSet" "\<not> ps_testOnly sampleSet" "\<not> requiresSenderSignature sampleSet"
proof -
  have "list_all (policy_ok False) samplePolicies \<and> distinct (map keyOf samplePolicies) \<and> samplePolicies \<noteq> []" by code_simp
  then obtain S where S: "newPolicySet False samplePolicies = Inr S" by (simp add: newPolicySet_iff)
  then show n: "NewPolicySet samplePolicies = Inr sampleSet" by (simp add: sampleSet_def NewPolicySet_def)
  then have "newPolicySet False samplePolicies = Inr sampleSet" by (simp add: NewPolicySet_def)
  then obtain idx where i: "samplePolicies \<noteq> []" "sampleSet = \<lparr>entries = samplePolicies, index = Some idx, ps_testOnly = False\<rparr>"
    unfolding newPolicySet_iff by blast
  show e: "entries sampleSet = samplePolicies" unfolding i(2) by simp
  show "PolicySet_valid sampleSet" "\<not> ps_testOnly sampleSet" unfolding i(2) PolicySet_valid_def using i(1) by simp_all
  show "\<not> requiresSenderSignature sampleSet" unfolding requiresSenderSignature_def e by code_simp
qed

lemma sample_digests:
  "PolicySet_Digest sampleSet = Inr (projr (PolicySet_Digest sampleSet))"
  "Envelope_Digest sampleBroadcast = Inr (projr (Envelope_Digest sampleBroadcast))"
  "envAckDigest sampleBroadcast = Inr (projr (envAckDigest sampleBroadcast))"
proof -
  have "\<not> isl (transcript ''tss-delivery-policy'' (concat (map policyFields (sort_key sortKey samplePolicies))))" by code_simp
  from digest32_ok [OF this] show "PolicySet_Digest sampleSet = Inr (projr (PolicySet_Digest sampleSet))"
    by (simp add: PolicySet_Digest_def policyTranscript_def sample_policies)
  have "\<not> isl (transcript ''github.com/islishude/tss/envelope/v1'' (digestFields sampleBroadcast))" by code_simp
  from digest32_ok [OF this] show e: "Envelope_Digest sampleBroadcast = Inr (projr (Envelope_Digest sampleBroadcast))"
    by (simp add: Envelope_Digest_def)
  have "\<not> isl (transcript ''github.com/islishude/tss/broadcast-ack/v1'' (ackFields ''p'' 5 2 2 ''b'' h d))" for h d
    by (simp add: transcript_def ackFields_def tr_New_def tr_Append_def append_entry_def writeLength_def)
  from digest32_ok [OF this] show "envAckDigest sampleBroadcast = Inr (projr (envAckDigest sampleBroadcast))"
    by (subst (1 2) envAckDigest_def, subst (1 2) e) (simp add: AckDigest_def sampleBroadcast_def)
qed

lemma sample_guard: "BuildGuard sampleConfig = Inr sampleGuard"
proof -
  have "ValidateBroadcastConsistency sampleSet = Inr ()"
    using sample_policies(1) broadcast_consistency_production by (simp add: NewPolicySet_def)
  then have "\<exists>g. BuildGuard sampleConfig = Inr g"
    using sample_policies sample_digests(1)
    by (auto simp: BuildGuard_iff newEnvelopeGuard_iff sampleConfig_def)
  then show ?thesis by (auto simp: sampleGuard_def)
qed

lemma sample_sel:
  "g_self sampleGuard = 1" "g_protocol sampleGuard = ''p''" "g_sessionID sampleGuard = 5" "g_policies sampleGuard = sampleSet"
  "g_replayCache sampleGuard = Some (Some NewInMemoryReplayCache)" "g_ackVerifier sampleGuard = Some sampleVerifier"
  using BuildGuard_sel [OF sample_guard] by (simp_all add: sampleConfig_def)

lemma sample_certificate: "VerifyFull (Some sampleCert) sampleBroadcast [2] (Some sampleVerifier) = Inr ()"
proof -
  have "VerifyBroadcastAck sampleBroadcast a (Some sampleVerifier) = Inr ()" if "a \<in> set (cert_Acks sampleCert)" for a
    using that sample_digests(2,3)
    by (auto simp: VerifyBroadcastAck_iff sampleCert_def sampleVerifier_def)
  moreover have "binds sampleCert sampleBroadcast"
    using sample_digests(2) by (auto simp: binds_def sampleCert_def) (simp_all add: sampleBroadcast_def)
  ultimately show ?thesis by (simp add: VerifyFull_iff) (simp add: sampleCert_def)
qed

lemma sample_match:
  "PolicySet_Match sampleSet ''p'' 1 ''d'' = Inr (samplePolicies ! 0)"
  "PolicySet_Match sampleSet ''p'' 2 ''b'' = Inr (samplePolicies ! 1)"
  using sample_policies(1) by (simp_all add: NewPolicySet_def Match_iff) (simp_all add: samplePolicies_def keyOf_def)

lemma sample_stateless:
  assumes "sameGuard sampleGuard g" "(env, allowed) \<in> set sampleMessages"
  shows "validateStateless g env allowed = Inr ()"
  using assms(2) sample_certificate sample_match
  by (auto simp: validateStateless_iff Let_def sampleMessages_def sameGuard_sel [OF assms(1)] sample_sel sampleInbound_def
      validChannelProtection_def)
     (auto simp: sampleDirect_def sampleBroadcast_def samplePolicies_def delivery_policy_iff)

lemma sample_run:
  "\<exists>g. deliverAll CheckAndStore (Some sampleGuard) ''p'' 5 1 sampleMessages = ([Inr (), Inr ()], Some g) \<and> sameGuard sampleGuard g"
proof -
  let ?k = "\<lambda>e. SlotKeyFromEnvelope e" and ?c = NewInMemoryReplayCache
  have ne: "?k sampleDirect \<noteq> ?k sampleBroadcast" by (simp add: SlotKeyFromEnvelope_def sampleDirect_def sampleBroadcast_def)
  let ?c1 = "?c\<lparr>rc_seen := fmupd (?k sampleDirect) (PayloadHashFromEnvelope sampleDirect) (rc_seen ?c)\<rparr>"
  let ?c2 = "?c1\<lparr>rc_seen := fmupd (?k sampleBroadcast) (PayloadHashFromEnvelope sampleBroadcast) (rc_seen ?c1)\<rparr>"
  let ?g1 = "sampleGuard\<lparr>g_replayCache := Some (Some ?c1)\<rparr>" and ?g2 = "sampleGuard\<lparr>g_replayCache := Some (Some ?c2)\<rparr>"
  have c: "CheckAndStore (Some ?c) (?k sampleDirect) (PayloadHashFromEnvelope sampleDirect) = (Inr (), Some ?c1)"
    "CheckAndStore (Some ?c1) (?k sampleBroadcast) (PayloadHashFromEnvelope sampleBroadcast) = (Inr (), Some ?c2)"
    using ne by (simp_all add: CheckAndStore_def NewInMemoryReplayCache_def NewBoundedReplayCache_def fm_size_upd fm_has_def)
  have s: "validateStateless sampleGuard (sampleInbound sampleDirect) [2] = Inr ()"
    "validateStateless ?g1 (sampleInbound sampleBroadcast) [2] = Inr ()"
    by (rule sample_stateless; simp add: sampleMessages_def)+
  have ie: "ie_env (sampleInbound e) = e" for e by (simp add: sampleInbound_def)
  have r: "requireEnvelopeGuardIdentity (Some (sampleGuard\<lparr>g_replayCache := Some x\<rparr>)) ''p'' 5 1 =
      Inr (sampleGuard\<lparr>g_replayCache := Some x\<rparr>)" "requireEnvelopeGuardIdentity (Some sampleGuard) ''p'' 5 1 = Inr sampleGuard" for x
    using sample_sel sample_policies by (auto simp: requireIdentity_iff)
  have "ValidateInbound CheckAndStore (Some sampleGuard) (sampleInbound sampleDirect) ''p'' 5 [2] 1 = (Inr (), Some ?g1)"
    by (simp add: ValidateInbound_def r ValidateForRound_def ValidateWithParties_def validateWithParties_def s(1) sample_sel ie c(1))
  moreover have "ValidateInbound CheckAndStore (Some ?g1) (sampleInbound sampleBroadcast) ''p'' 5 [2] 1 = (Inr (), Some ?g2)"
    by (simp add: ValidateInbound_def r ValidateForRound_def ValidateWithParties_def validateWithParties_def s(2) ie c(2)
        del: InMemoryReplayCache.update_convs)
  ultimately show ?thesis by (simp add: sampleMessages_def)
qed





text \<open>
  C9: Over any run a guard with the in-memory cache accepts at most one message per slot, rejected messages leave
  it unchanged, and a later message in an accepted slot that passes every other check is dropped as a duplicate
  when it carries the accepted payload and reported as an attributable equivocation otherwise, unless the two
  payloads collide under SHA-256.
\<close>

theorem guard_no_replay:
  assumes "deliverAll CheckAndStore (Some g) P sid self msgs = (rs, Some g')"
  shows "distinct (acceptedSlots rs msgs) \<and> (Inr () \<notin> set rs \<longrightarrow> g' = g)
    \<and> (\<forall>env allowed env2 allowed2 h. (Inr (), (env, allowed)) \<in> set (zip rs msgs)
        \<and> SlotKeyFromEnvelope (ie_env env2) = SlotKeyFromEnvelope (ie_env env)
        \<and> ValidateInboundWithoutReplay CheckAndStore (Some g') env2 P sid allowed2 self = (Inr (), h) \<longrightarrow>
      (\<exists>err. ValidateInbound CheckAndStore (Some g') env2 P sid allowed2 self = (Inl err, Some g')
        \<and> (if e_Payload (ie_env env2) = e_Payload (ie_env env) then err = ErrDuplicateMessage
           else IsAttributableError err \<and> errors_Is err ErrEquivocation
             \<or> sha256_collision (e_Payload (ie_env env)) (e_Payload (ie_env env2)))))"
proof (intro conjI allI impI)
  show "distinct (acceptedSlots rs msgs)" using memory_cache.accepted_distinct [OF assms] by simp
  show "g' = g" if "Inr () \<notin> set rs" using memory_cache.rejected_no_effect [OF assms that] by simp
  fix env allowed env2 allowed2 h
  assume a: "(Inr (), (env, allowed)) \<in> set (zip rs msgs) \<and> SlotKeyFromEnvelope (ie_env env2) = SlotKeyFromEnvelope (ie_env env)
        \<and> ValidateInboundWithoutReplay CheckAndStore (Some g') env2 P sid allowed2 self = (Inr (), h)"
  then have r: "requireEnvelopeGuardIdentity (Some g') P sid self = Inr g'" "allowed2 \<noteq> []"
    and v: "validateWithParties CheckAndStore g' env2 allowed2 False = (Inr (), the h)"
    by (auto simp: ValidateInboundWithoutReplay_def ValidateWithoutReplay_def requireIdentity_iff map_prod_def
        split: sum.splits if_splits prod.splits)
  from v have "validateStateless g' env2 allowed2 = Inr ()"
    by (cases "validateStateless g' env2 allowed2") (simp_all add: validateWithParties_def)
  moreover from a memory_cache.accepted_stored [OF assms, of env allowed]
  have "memory_cache.gstored (Some g') (SlotKeyFromEnvelope (ie_env env2)) = Some (PayloadHashFromEnvelope (ie_env env))" by simp
  ultimately have "validateWithParties CheckAndStore g' env2 allowed2 True =
    (Inl (if PayloadHashFromEnvelope (ie_env env) = PayloadHashFromEnvelope (ie_env env2) then ErrDuplicateMessage
          else NewProtocolError ''verification_failed'' (e_Round (ie_env env2)) (e_From (ie_env env2)) ErrEquivocation), g')"
    by (intro memory_cache.second_message)
  then have "ValidateInbound CheckAndStore (Some g') env2 P sid allowed2 self =
    (Inl (if PayloadHashFromEnvelope (ie_env env) = PayloadHashFromEnvelope (ie_env env2) then ErrDuplicateMessage
          else NewProtocolError ''verification_failed'' (e_Round (ie_env env2)) (e_From (ie_env env2)) ErrEquivocation), Some g')"
    using r by (simp add: ValidateInbound_def ValidateForRound_def ValidateWithParties_def)
  then show "\<exists>err. ValidateInbound CheckAndStore (Some g') env2 P sid allowed2 self = (Inl err, Some g')
        \<and> (if e_Payload (ie_env env2) = e_Payload (ie_env env) then err = ErrDuplicateMessage
           else IsAttributableError err \<and> errors_Is err ErrEquivocation
             \<or> sha256_collision (e_Payload (ie_env env)) (e_Payload (ie_env env2)))"
    by (auto simp: PayloadHashFromEnvelope_def to32_inject sha256_collision_def IsAttributableError_def NewProtocolError_def)
qed

theorem guard_no_replay_witness:
  "\<exists>g'. deliverAll CheckAndStore (Some sampleGuard) ''p'' 5 1 sampleMessages = ([Inr (), Inr ()], Some g')
    \<and> (\<exists>err. ValidateInbound CheckAndStore (Some g') (sampleInbound (sampleDirect\<lparr>e_Payload := [8]\<rparr>)) ''p'' 5 [2] 1 = (Inl err, Some g')
        \<and> (IsAttributableError err \<and> errors_Is err ErrEquivocation \<or> sha256_collision [7] [8]))"
proof -
  from sample_run obtain g' where r: "deliverAll CheckAndStore (Some sampleGuard) ''p'' 5 1 sampleMessages = ([Inr (), Inr ()], Some g')"
    "sameGuard sampleGuard g'" by blast
  let ?e2 = "sampleInbound (sampleDirect\<lparr>e_Payload := [8]\<rparr>)"
  have m: "(Inr (), (sampleInbound sampleDirect, [2])) \<in> set (zip [Inr (), Inr ()] sampleMessages)" by (simp add: sampleMessages_def)
  have k: "SlotKeyFromEnvelope (ie_env ?e2) = SlotKeyFromEnvelope (ie_env (sampleInbound sampleDirect))"
    by (simp add: SlotKeyFromEnvelope_def sampleInbound_def)
  have s: "validateStateless g' (sampleInbound sampleDirect) [2] = Inr ()"
    by (rule sample_stateless [OF r(2)]) (simp add: sampleMessages_def)
  then have "validateStateless g' ?e2 [2] = Inr ()"
    using sample_match
    by (auto simp: validateStateless_iff Let_def sampleInbound_def sampleDirect_def sameGuard_sel [OF r(2)] sample_sel
        samplePolicies_def delivery_policy_iff)
  moreover have "requireEnvelopeGuardIdentity (Some g') ''p'' 5 1 = Inr g'"
  proof -
    have "g_replayCache g' \<noteq> None"
      using memory_cache.accepted_stored [OF r(1) m] by (auto simp: memory_cache.gstored_def split: option.splits)
    then show ?thesis
      using sample_policies by (auto simp: requireIdentity_iff sameGuard_sel [OF r(2)] sample_sel)
  qed
  ultimately have w: "ValidateInboundWithoutReplay CheckAndStore (Some g') ?e2 ''p'' 5 [2] 1 = (Inr (), Some g')"
    by (simp add: ValidateInboundWithoutReplay_def ValidateWithoutReplay_def validateWithParties_def)
  from guard_no_replay [OF r(1)] m k w
  obtain err where "ValidateInbound CheckAndStore (Some g') ?e2 ''p'' 5 [2] 1 = (Inl err, Some g')"
    "if e_Payload (ie_env ?e2) = e_Payload (ie_env (sampleInbound sampleDirect)) then err = ErrDuplicateMessage
     else IsAttributableError err \<and> errors_Is err ErrEquivocation
       \<or> sha256_collision (e_Payload (ie_env (sampleInbound sampleDirect))) (e_Payload (ie_env ?e2))" by blast
  with r(1) show ?thesis by (auto simp: sampleInbound_def sampleDirect_def)
qed

text \<open>
  C10: A production guard that \<^verbatim>\<open>RequireEnvelopeGuard\<close> approves for a policy set decides by that set: the policy it
  finds for any protocol, round and payload type is the one of the set, unless the two policy transcripts collide
  under SHA-256; the order in which the two sets list their policies does not matter.
\<close>

theorem guard_policy_approved:
  assumes "NewPolicySet ps = Inr (gc_Policies c)" "BuildGuard c = Inr g" "NewPolicySet qs = Inr S"
    and "RequireEnvelopeGuard testing (Some g) P sid self S = Inr ()"
  shows "(\<forall>protocol rnd pt. PolicySet_Match (g_policies g) protocol rnd pt = PolicySet_Match S protocol rnd pt)
    \<or> sha256_collision (projr (transcript ''tss-delivery-policy'' (policyTranscript (g_policies g))))
        (projr (transcript ''tss-delivery-policy'' (policyTranscript S)))"
proof -
  note sel = BuildGuard_sel [OF assms(2)]
  from assms(4) sel have "PolicySet_Digest S = Inr (g_policyDigest g)"
    by (auto simp: RequireEnvelopeGuard_def case_sum_Inr_iff requireIdentity_iff split: if_splits)
  moreover from sel have "PolicySet_Digest (g_policies g) = Inr (g_policyDigest g)" by simp
  moreover
  from assms(1,3) sel have n: "newPolicySet False ps = Inr (g_policies g)" "newPolicySet False qs = Inr S"
    by (simp_all add: NewPolicySet_def)
  then have "entries (g_policies g) = ps" "entries S = qs" "distinct (map keyOf ps)" by (auto simp: newPolicySet_iff)
  ultimately show ?thesis
    using Digest_binds [of "g_policies g" "g_policyDigest g" S] lookupPolicy_order [of ps qs]
    by (auto simp: Match_lookup [OF n(1)] Match_lookup [OF n(2)])
qed

theorem guard_policy_approved_witness:
  "RequireEnvelopeGuard False (Some sampleGuard) ''p'' 5 1 sampleSet = Inr ()
    \<and> ((\<forall>protocol rnd pt. PolicySet_Match (g_policies sampleGuard) protocol rnd pt = PolicySet_Match sampleSet protocol rnd pt)
      \<or> sha256_collision (projr (transcript ''tss-delivery-policy'' (policyTranscript (g_policies sampleGuard))))
        (projr (transcript ''tss-delivery-policy'' (policyTranscript sampleSet))))"
proof -
  have n: "NewPolicySet samplePolicies = Inr (gc_Policies sampleConfig)" by (simp add: sample_policies sampleConfig_def)
  have "requireEnvelopeGuardIdentity (Some sampleGuard) ''p'' 5 1 = Inr sampleGuard"
    using sample_sel sample_policies by (auto simp: requireIdentity_iff)
  then have r: "RequireEnvelopeGuard False (Some sampleGuard) ''p'' 5 1 sampleSet = Inr ()"
    using BuildGuard_sel [OF sample_guard] sample_policies by (simp add: RequireEnvelopeGuard_def sampleConfig_def)
  from guard_policy_approved [OF n sample_guard sample_policies(1) r] r show ?thesis by simp
qed

end
