(* ===== verification/Broadcast_Encoding.thy ===== *)
theory Broadcast_Encoding
  imports Broadcast_Props
begin

text \<open>
  The wire form of acknowledgements and certificates (\<^verbatim>\<open>broadcast_encoding.go\<close>) as instances of the object
  codec, with the hooks \<^verbatim>\<open>BeforeMarshalWire\<close> and \<^verbatim>\<open>Validate\<close>.  A certificate decodes only from its one
  canonical encoding.
\<close>

section \<open>Types, values and methods\<close>

definition broadcastFieldLimits :: FieldLimits where
  "broadcastFieldLimits name =
    (if name = ''protocol_name'' then Some 64
     else if name = ''payload_type'' then Some 128
     else if name = ''broadcast_signature'' then Some (2 ^ 20)
     else if name = ''broadcast_recipients'' then Some 64
     else None)"

definition Array32Type :: gtype where
  "Array32Type = TArray 32 gtype.TUint8"

definition BroadcastAckType :: gtype where
  "BroadcastAckType = TNamed ''BroadcastAck'' (TStruct
    [StructField ''Party'' True (Some ''1,u32'') gtype.TUint32,
     StructField ''PayloadHash'' True (Some ''2,bytes,len=32'') Array32Type,
     StructField ''EnvelopeDigest'' True (Some ''3,bytes,len=32'') (TNamed ''EnvelopeDigest'' Array32Type),
     StructField ''Signature'' True (Some ''4,bytes,max_bytes=broadcast_signature'') (TSlice gtype.TUint8)])"

definition BroadcastCertificateType :: gtype where
  "BroadcastCertificateType = TNamed ''BroadcastCertificate'' (TStruct
    [StructField ''Protocol'' True (Some ''1,string,max_bytes=protocol_name'') (TNamed ''ProtocolID'' gtype.TString),
     StructField ''SessionID'' True (Some ''2,bytes,len=32'') SessionIDType,
     StructField ''Round'' True (Some ''3,u8'') gtype.TUint8,
     StructField ''From'' True (Some ''4,u32'') gtype.TUint32,
     StructField ''PayloadType'' True (Some ''5,string,max_bytes=payload_type'') (TNamed ''PayloadType'' gtype.TString),
     StructField ''PayloadHash'' True (Some ''6,bytes,len=32'') Array32Type,
     StructField ''EnvelopeDigest'' True (Some ''7,bytes,len=32'') (TNamed ''EnvelopeDigest'' Array32Type),
     StructField ''Recipients'' True (Some ''8,u32list,max_items=broadcast_recipients'')
       (TNamed ''PartySet'' (TSlice gtype.TUint32)),
     StructField ''Acks'' True (Some ''9,recordlist,max_items=broadcast_recipients'') (TSlice BroadcastAckType)])"

definition ackValue :: "BroadcastAck \<Rightarrow> unit rvalue" where
  "ackValue a =
    VStruct [VU32 (ack_Party a), VBytes (array32_bytes (ack_PayloadHash a)),
      VBytes (array32_bytes (ack_EnvelopeDigest a)), VBytes (ack_Signature a)]"

definition valueAck :: "unit rvalue \<Rightarrow> BroadcastAck option" where
  "valueAck v =
    (case v of
       VStruct [VU32 p, VBytes h, VBytes d, VBytes s] \<Rightarrow>
         if length h = 32 \<and> length d = 32
         then Some \<lparr>ack_Party = p, ack_PayloadHash = to32 h, ack_EnvelopeDigest = to32 d, ack_Signature = s\<rparr>
         else None
     | _ \<Rightarrow> None)"

definition certValue :: "BroadcastCertificate \<Rightarrow> unit rvalue" where
  "certValue c =
    VStruct [VString (cert_Protocol c), VBytes (array32_bytes (cert_SessionID c)), VU8 (cert_Round c),
      VU32 (cert_From c), VString (cert_PayloadType c), VBytes (array32_bytes (cert_PayloadHash c)),
      VBytes (array32_bytes (cert_EnvelopeDigest c)), VU32s (cert_Recipients c), VStructs (map ackValue (cert_Acks c))]"

definition valueCert :: "unit rvalue \<Rightarrow> BroadcastCertificate option" where
  "valueCert v =
    (case v of
       VStruct [VString p, VBytes s, VU8 r, VU32 f, VString t, VBytes h, VBytes d, VU32s rs, VStructs as] \<Rightarrow>
         if length s = 32 \<and> length h = 32 \<and> length d = 32 \<and> list_all (\<lambda>a. valueAck a \<noteq> None) as
         then Some \<lparr>cert_Protocol = p, cert_SessionID = to32 s, cert_Round = r, cert_From = f, cert_PayloadType = t,
                    cert_PayloadHash = to32 h, cert_EnvelopeDigest = to32 d, cert_Recipients = rs,
                    cert_Acks = map (the \<circ> valueAck) as\<rparr>
         else None
     | _ \<Rightarrow> None)"

definition terrorText :: "terror \<Rightarrow> werror" where
  "terrorText e = (case e of ErrText s \<Rightarrow> s | _ \<Rightarrow> ''error'')"

definition Certificate_BeforeMarshalWire :: "BroadcastCertificate \<Rightarrow> BroadcastCertificate" where
  "Certificate_BeforeMarshalWire c =
    c\<lparr>cert_Recipients := SortParties (cert_Recipients c), cert_Acks := sort_key ack_Party (cert_Acks c)\<rparr>"

definition broadcastMethods :: "unit methods" where
  "broadcastMethods = noMethods
    \<lparr>WireMessage := \<lambda>n.
       if n = ''BroadcastAck'' then Some (''tss.broadcast-ack'', 1)
       else if n = ''BroadcastCertificate'' then Some (''tss.broadcast-certificate'', 1) else None,
     BeforeMarshalWire := \<lambda>n.
       if n = ''BroadcastCertificate''
       then Some (\<lambda>v. case valueCert v of None \<Rightarrow> panic | Some c \<Rightarrow> Inr (certValue (Certificate_BeforeMarshalWire c)))
       else None,
     ValidateWire := \<lambda>n.
       if n = ''BroadcastAck''
       then Some (\<lambda>v. case valueAck v of None \<Rightarrow> panic | Some a \<Rightarrow> map_sum terrorText id (Ack_Validate a))
       else if n = ''BroadcastCertificate''
       then Some (\<lambda>v. case valueCert v of None \<Rightarrow> panic | Some c \<Rightarrow> map_sum terrorText id (Certificate_Validate c))
       else None\<rparr>"

definition Ack_MarshalBinary :: "BroadcastAck \<Rightarrow> terror + bytes" where
  "Ack_MarshalBinary a = map_sum ErrText id (Marshal broadcastMethods BroadcastAckType (ackValue a) broadcastFieldLimits)"

definition Ack_UnmarshalBinary :: "bytes \<Rightarrow> terror + BroadcastAck" where
  "Ack_UnmarshalBinary raw =
    (case Unmarshal broadcastMethods BroadcastAckType raw DefaultFrameLimits broadcastFieldLimits of
       Inl e \<Rightarrow> Inl (ErrText e)
     | Inr v \<Rightarrow> (case valueAck v of None \<Rightarrow> Inl (ErrPanic ''reflect'') | Some a \<Rightarrow> Inr a))"

text \<open>\<^verbatim>\<open>wire.Marshal\<close> gets a pointer here, so its hook also sorts the certificate of the caller in place.\<close>

definition Certificate_MarshalBinary :: "BroadcastCertificate option \<Rightarrow> terror + bytes" where
  "Certificate_MarshalBinary cert =
    (case cert of
       None \<Rightarrow> Inl (ErrText ''nil broadcast certificate'')
     | Some c \<Rightarrow>
         map_sum ErrText id
           (Marshal broadcastMethods (TPtr BroadcastCertificateType) (VPtr (Some (certValue c))) broadcastFieldLimits))"

definition Certificate_UnmarshalBinary :: "bytes \<Rightarrow> terror + BroadcastCertificate" where
  "Certificate_UnmarshalBinary raw =
    (if raw = [] then Inl (ErrText ''empty broadcast certificate'')
     else case Unmarshal broadcastMethods BroadcastCertificateType raw DefaultFrameLimits broadcastFieldLimits of
       Inl e \<Rightarrow> Inl (ErrText e)
     | Inr v \<Rightarrow> (case valueCert v of None \<Rightarrow> Inl (ErrPanic ''reflect'') | Some c \<Rightarrow> Inr c))"

section \<open>The contract of the hooks\<close>

lemma valueAck_iff: "valueAck v = Some a \<longleftrightarrow> v = ackValue a"
proof
  assume "valueAck v = Some a"
  then show "v = ackValue a"
    by (auto simp: valueAck_def ackValue_def split: rvalue.splits list.splits if_splits)
qed (simp add: valueAck_def ackValue_def)

lemma valueAck_value [simp]: "valueAck (ackValue a) = Some a"
  by (simp add: valueAck_iff)

lemma valueCert_value [simp]: "valueCert (certValue c) = Some c"
  by (simp add: valueCert_def certValue_def list_all_iff comp_def)

lemma valueCert_iff: "valueCert v = Some c \<longleftrightarrow> v = certValue c"
proof
  assume "valueCert v = Some c"
  then obtain p s r f t h d rs as where v: "v = VStruct [VString p, VBytes s, VU8 r, VU32 f, VString t, VBytes h, VBytes d, VU32s rs, VStructs as]"
    and l: "length s = 32" "length h = 32" "length d = 32" "list_all (\<lambda>a. valueAck a \<noteq> None) as"
    and c: "c = \<lparr>cert_Protocol = p, cert_SessionID = to32 s, cert_Round = r, cert_From = f, cert_PayloadType = t,
                    cert_PayloadHash = to32 h, cert_EnvelopeDigest = to32 d, cert_Recipients = rs,
                    cert_Acks = map (the \<circ> valueAck) as\<rparr>"
    by (auto simp: valueCert_def split: rvalue.splits list.splits if_splits)
  have "map (ackValue \<circ> (the \<circ> valueAck)) as = as"
    using l(4) by (auto simp: list_all_iff valueAck_iff intro!: map_idI)
  with v l c show "v = certValue c" by (simp add: certValue_def)
qed simp

lemma canonical_certificate:
  "Certificate_Validate c = Inr u \<Longrightarrow> Certificate_BeforeMarshalWire c = c"
proof -
  assume "Certificate_Validate c = Inr u"
  then have s: "sorted_wrt (<) (cert_Recipients c)" and a: "map ack_Party (cert_Acks c) = cert_Recipients c"
    by (auto simp: Certificate_Validate_iff list_all2_conv_all_nth intro: nth_equalityI)
  have "SortParties (cert_Recipients c) = cert_Recipients c"
    unfolding SortParties_def using s by (simp add: strict_sorted_iff sorted_sort_id)
  moreover have "sort_key ack_Party (cert_Acks c) = cert_Acks c"
    by (rule sort_key_strict) (simp add: a s)
  ultimately show ?thesis by (simp add: Certificate_BeforeMarshalWire_def)
qed

interpretation broadcast_codec: wire_methods broadcastMethods
proof
  fix n h v
  assume h: "BeforeMarshalWire broadcastMethods n = Some h" and p: "passes broadcastMethods n v"
  from h have n: "n = ''BroadcastCertificate''" by (auto simp: broadcastMethods_def split: if_splits)
  with p obtain c where "valueCert v = Some c" "map_sum terrorText id (Certificate_Validate c) = Inr ()"
    by (auto simp: passes_def broadcastMethods_def split: option.splits)
  then have "v = certValue c" "Certificate_Validate c = Inr ()" by (simp_all add: valueCert_iff map_sum_wrap_iff)
  with canonical_certificate n h show "h v = Inr v" by (auto simp: broadcastMethods_def)
qed (simp_all add: broadcastMethods_def noMethods_def custom_law_def)

section \<open>Round trip\<close>

lemma Marshal_pointer: "\<not> isPtr t \<Longrightarrow> v = VStruct vs \<Longrightarrow> Marshal M (TPtr t) (VPtr (Some v)) L = Marshal M t v L"
proof -
  assume t: "\<not> isPtr t" and v: "v = VStruct vs"
  have s: "structOf (TPtr t) = t" "structOf t = t" "deref (TPtr t) (VPtr (Some v)) = Inr v" "deref t v = Inr v"
    using t v by (simp_all add: structOf_def deref_def isPtr_def elemType_def rkind_of_def)
  show ?thesis unfolding Marshal_def marshalMessage_def s by simp
qed

definition limited :: "fieldSchema \<Rightarrow> string \<Rightarrow> string \<Rightarrow> fieldSchema" where
  "limited f mb mi = f\<lparr>maxBytes := mb, maxItems := mi\<rparr>"

definition fixed32 :: "fieldSchema \<Rightarrow> fieldSchema" where
  "fixed32 f = f\<lparr>fixedLen := 32, fixedLenSet := True\<rparr>"

lemma field_options_sel [simp]:
  "fs_tag (limited f mb mi) = fs_tag f" "fs_kind (limited f mb mi) = fs_kind f" "fs_typ (limited f mb mi) = fs_typ f"
  "fixedLenSet (limited f mb mi) = fixedLenSet f" "maxBytes (limited f mb mi) = mb" "maxItems (limited f mb mi) = mi"
  "maxBits (limited f mb mi) = maxBits f" "optional (limited f mb mi) = optional f"
  "fs_tag (fixed32 f) = fs_tag f" "fs_kind (fixed32 f) = fs_kind f" "fs_typ (fixed32 f) = fs_typ f"
  "fixedLenSet (fixed32 f)" "fixedLen (fixed32 f) = 32" "maxBytes (fixed32 f) = maxBytes f"
  "maxItems (fixed32 f) = maxItems f" "maxBits (fixed32 f) = maxBits f" "optional (fixed32 f) = optional f"
  by (simp_all add: limited_def fixed32_def)

definition ackSchema :: "fieldSchema list" where
  "ackSchema =
    [plainField 1 ''Party'' kindU32 gtype.TUint32,
     fixed32 (plainField 2 ''PayloadHash'' kindBytes Array32Type),
     fixed32 (plainField 3 ''EnvelopeDigest'' kindBytes (TNamed ''EnvelopeDigest'' Array32Type)),
     limited (plainField 4 ''Signature'' kindBytes (TSlice gtype.TUint8)) ''broadcast_signature'' []]"

definition certSchema :: "fieldSchema list" where
  "certSchema =
    [limited (plainField 1 ''Protocol'' kindString (TNamed ''ProtocolID'' gtype.TString)) ''protocol_name'' [],
     fixed32 (plainField 2 ''SessionID'' kindBytes SessionIDType),
     plainField 3 ''Round'' kindU8 gtype.TUint8,
     plainField 4 ''From'' kindU32 gtype.TUint32,
     limited (plainField 5 ''PayloadType'' kindString (TNamed ''PayloadType'' gtype.TString)) ''payload_type'' [],
     fixed32 (plainField 6 ''PayloadHash'' kindBytes Array32Type),
     fixed32 (plainField 7 ''EnvelopeDigest'' kindBytes (TNamed ''EnvelopeDigest'' Array32Type)),
     limited (plainField 8 ''Recipients'' kindU32List (TNamed ''PartySet'' (TSlice gtype.TUint32))) [] ''broadcast_recipients'',
     limited (plainField 9 ''Acks'' kindRecordList (TSlice BroadcastAckType)) [] ''broadcast_recipients'']"

lemma ack_schema: "parseSchema broadcastMethods BroadcastAckType = Inr ackSchema"
  by code_simp

lemma cert_schema: "parseSchema broadcastMethods BroadcastCertificateType = Inr certSchema"
  by code_simp

lemmas broadcast_fields = field_iffs bytesTyped_simps SessionIDType_def Array32Type_def

lemma ack_shape:
  assumes "encodeFields (encode M L) ackSchema vals = Inr flds"
  shows "\<exists>a. VStruct vals = ackValue a"
proof -
  from assms obtain p h d s where v: "vals = [VU32 p, VBytes h, VBytes d, VBytes s]" "length h = 32" "length d = 32"
    by (auto simp: ackSchema_def broadcast_fields)
  then show ?thesis
    by (intro exI [of _ "\<lparr>ack_Party = p, ack_PayloadHash = to32 h, ack_EnvelopeDigest = to32 d, ack_Signature = s\<rparr>"])
       (simp add: ackValue_def)
qed

lemma encode_items_each: "encode_items put xs out = Inr r \<Longrightarrow> x \<in> set xs \<Longrightarrow> \<exists>o1 o2. put x o1 = Inr o2"
  by (induction xs arbitrary: out) (auto simp: case_sum_Inr_iff)

lemma ack_record_shape:
  assumes "marshalRecordValue (encode M L) M BroadcastAckType v = Inr r" "parseSchema M BroadcastAckType = Inr ackSchema"
    and "BeforeMarshalWire M ''BroadcastAck'' = None"
  shows "\<exists>a. v = ackValue a"
proof -
  have t: "structOf BroadcastAckType = BroadcastAckType" "\<not> isPtr BroadcastAckType"
    by (simp_all add: structOf_def isPtr_def BroadcastAckType_def)
  have b: "beforeEncode M BroadcastAckType w = Inr w' \<Longrightarrow> w' = w" for w w'
    using assms(3)
    by (auto simp: beforeEncode_def runBeforeMarshalHook_def runValidateHook_def methodOf_def BroadcastAckType_def
        case_sum_Inr_iff split: option.splits)
  from assms(1) obtain w where "deref BroadcastAckType v = Inr w"
    and e: "\<exists>w' flds. beforeEncode M BroadcastAckType w = Inr w' \<and> encodeStruct (encode M L) M BroadcastAckType w' = Inr flds"
    by (auto simp: marshalRecordValue_def t case_sum_Inr_iff split: if_splits)
  then have "w = v" using t(2) by (cases v) (auto simp: deref_def)
  with e b assms(2) show ?thesis by (auto simp: encodeStruct_iff dest!: b dest: ack_shape)
qed

lemma cert_shape:
  assumes e: "encodeFields (encode M L) certSchema vals = Inr flds" and s: "parseSchema M BroadcastAckType = Inr ackSchema"
    and b: "BeforeMarshalWire M ''BroadcastAck'' = None"
  shows "\<exists>c. VStruct vals = certValue c"
proof -
  let ?f8 = "limited (plainField 8 ''Recipients'' kindU32List (TNamed ''PartySet'' (TSlice gtype.TUint32))) [] ''broadcast_recipients''"
  let ?f9 = "limited (plainField 9 ''Acks'' kindRecordList (TSlice BroadcastAckType)) [] ''broadcast_recipients''"
  from e obtain p sid r f t h d v8 v9 where v: "vals = [VString p, VBytes sid, VU8 r, VU32 f, VString t, VBytes h, VBytes d, v8, v9]"
    and l: "length sid = 32" "length h = 32" "length d = 32"
    and e8: "\<exists>r8. encode M L ?f8 v8 = Inr r8" and e9: "\<exists>r9. encode M L ?f9 v9 = Inr r9"
    by (auto simp: certSchema_def broadcast_fields)
  from e8 obtain rs where v8: "v8 = VU32s rs"
    unfolding encode.simps [of M L ?f8 v8] by (cases v8) (auto simp: encodeU32List_def)
  from e9 obtain xs where v9: "v9 = VStructs xs" and put: "\<exists>r9. encode_counted (put_record (encode M L) M BroadcastAckType) xs = Inr r9"
    unfolding encode.simps [of M L ?f9 v9] by (cases v9) (auto simp: encodeRecordList_def encodeMaxItems_iff)
  have "\<exists>a. x = ackValue a" if "x \<in> set xs" for x
  proof -
    from put that obtain o1 o2 where "put_record (encode M L) M BroadcastAckType x o1 = Inr o2"
      by (auto simp: encode_counted_def split: if_splits dest: encode_items_each)
    with ack_record_shape [OF _ s b] show ?thesis by (auto simp: put_record_iff)
  qed
  then have "map (ackValue \<circ> (the \<circ> valueAck)) xs = xs" by (intro map_idI) fastforce
  then show ?thesis
    using l by (intro exI [of _ "\<lparr>cert_Protocol = p, cert_SessionID = to32 sid, cert_Round = r, cert_From = f, cert_PayloadType = t,
                    cert_PayloadHash = to32 h, cert_EnvelopeDigest = to32 d, cert_Recipients = rs,
                    cert_Acks = map (the \<circ> valueAck) xs\<rparr>"]) (simp add: certValue_def v v8 v9)
qed

lemma cert_type:
  "\<not> isPtr BroadcastCertificateType" "rkind_of BroadcastCertificateType = StructK"
  "methodOf (WireMessage broadcastMethods) BroadcastCertificateType = Some (''tss.broadcast-certificate'', 1)"
  "methodOf (MarshalWireMessage broadcastMethods) BroadcastCertificateType = None"
  "methodOf (MarshalWireMessage broadcastMethods) BroadcastAckType = None"
  "BeforeMarshalWire broadcastMethods ''BroadcastAck'' = None"
  by (simp_all add: BroadcastCertificateType_def isPtr_def methodOf_def broadcastMethods_def noMethods_def BroadcastAckType_def)

text \<open>Decoding a certificate yields a valid certificate, and its encoding is the input.\<close>

lemma certificate_canonical:
  assumes "Certificate_UnmarshalBinary raw = Inr c"
  shows "Certificate_Validate c = Inr () \<and> Certificate_MarshalBinary (Some c) = Inr raw"
proof -
  from assms have u: "Unmarshal broadcastMethods BroadcastCertificateType raw DefaultFrameLimits broadcastFieldLimits = Inr (certValue c)"
    by (auto simp: Certificate_UnmarshalBinary_def sum_wrap_iff valueCert_iff split: if_splits option.splits)
  have "MaxTotalBytes (withDefaults DefaultFrameLimits) < 2 ^ 63" by (simp add: withDefaults_def DefaultFrameLimits_def)
  from broadcast_codec.Unmarshal_sound [OF this u]
  have m: "Marshal (strict broadcastMethods) BroadcastCertificateType (certValue c) broadcastFieldLimits = Inr raw" .
  from Marshal_plain [of BroadcastCertificateType "strict broadcastMethods"] cert_type cert_schema m
  have "\<exists>vals. beforeEncode (strict broadcastMethods) BroadcastCertificateType (certValue c) = Inr (VStruct vals)" by auto
  then have "validAt broadcastMethods BroadcastCertificateType (certValue c)"
    by (auto simp: broadcast_codec.beforeEncode_iff)
  then have "Certificate_Validate c = Inr ()"
    by (simp add: validAt_def methodOf_def BroadcastCertificateType_def broadcastMethods_def map_sum_wrap_iff)
  moreover have "Marshal broadcastMethods BroadcastCertificateType (certValue c) broadcastFieldLimits = Inr raw"
    using m by (rule Marshal_strict)
  ultimately show ?thesis
    using Marshal_pointer [OF cert_type(1), of "certValue c"]
    by (simp add: Certificate_MarshalBinary_def certValue_def)
qed

text \<open>The hook of a certificate does nothing to a valid one, so the strict encoder agrees on it.\<close>

lemma strict_leaf:
  "fs_kind f \<in> {kindU8, kindU32, kindString, kindBytes, kindU32List} \<Longrightarrow> encode (strict M) L f v = encode M L f v"
  by (auto simp: encode.simps [of M L f v] encode.simps [of "strict M" L f v])

lemma strict_ack:
  "marshalRecordValue (encode (strict broadcastMethods) L) (strict broadcastMethods) BroadcastAckType v =
    marshalRecordValue (encode broadcastMethods L) broadcastMethods BroadcastAckType v"
proof -
  have t: "structOf BroadcastAckType = BroadcastAckType" by (simp add: structOf_def isPtr_def BroadcastAckType_def)
  have b: "beforeEncode (strict broadcastMethods) BroadcastAckType = beforeEncode broadcastMethods BroadcastAckType"
    by (simp add: fun_eq_iff beforeEncode_def runBeforeMarshalHook_def runValidateHook_def methodOf_def BroadcastAckType_def
        cert_type(6))
  have "encode (strict broadcastMethods) L f w = encode broadcastMethods L f w" if "f \<in> set ackSchema" for f w
    using that by (intro strict_leaf) (auto simp: ackSchema_def)
  then have e: "encodeStruct (encode (strict broadcastMethods) L) broadcastMethods BroadcastAckType w =
      encodeStruct (encode broadcastMethods L) broadcastMethods BroadcastAckType w" for w
    by (intro encodeStruct_cong) (simp add: schemaOf_def ack_schema)
  have s: "encodeStruct enc (strict broadcastMethods) = encodeStruct enc broadcastMethods" for enc
    by (simp add: fun_eq_iff encodeStruct_def)
  show ?thesis unfolding marshalRecordValue_def t b s e by (rule refl)
qed

lemma strict_cert_field:
  assumes "f \<in> set certSchema"
  shows "encode (strict broadcastMethods) L f v = encode broadcastMethods L f v"
proof (cases "fs_kind f = kindRecordList")
  case True
  with assms have f: "rkind_of (fs_typ f) = SliceK" "elemType (fs_typ f) = BroadcastAckType" by (auto simp: certSchema_def)
  have p: "put_record (encode (strict broadcastMethods) L) (strict broadcastMethods) BroadcastAckType =
      put_record (encode broadcastMethods L) broadcastMethods BroadcastAckType"
    by (simp add: fun_eq_iff put_record_def strict_ack)
  show ?thesis
    unfolding encode.simps [of broadcastMethods L f v] encode.simps [of "strict broadcastMethods" L f v] encodeRecordList_def f p
    by (simp add: True)
next
  case False
  with assms show ?thesis by (intro strict_leaf) (auto simp: certSchema_def)
qed

lemma encodeFields_eq:
  "(\<And>f v. f \<in> set s \<Longrightarrow> enc f v = enc' f v) \<Longrightarrow> encodeFields enc s vals = encodeFields enc' s vals"
  by (rule encodeFields_cong [OF refl refl])

lemma certificate_items:
  assumes "certValue c = VStruct vals" "encodeFields (encode M broadcastFieldLimits) certSchema vals = Inr flds"
  shows "length (cert_Recipients c) \<le> 64 \<and> length (cert_Acks c) \<le> 64"
proof -
  let ?f8 = "limited (plainField 8 ''Recipients'' kindU32List (TNamed ''PartySet'' (TSlice gtype.TUint32))) [] ''broadcast_recipients''"
  let ?f9 = "limited (plainField 9 ''Acks'' kindRecordList (TSlice BroadcastAckType)) [] ''broadcast_recipients''"
  from assms obtain r8 r9 where e: "encode M broadcastFieldLimits ?f8 (VU32s (cert_Recipients c)) = Inr r8"
    "encode M broadcastFieldLimits ?f9 (VStructs (map ackValue (cert_Acks c))) = Inr r9"
    by (auto simp: certValue_def certSchema_def broadcast_fields)
  then show ?thesis
    unfolding encode.simps [of M broadcastFieldLimits ?f8 "VU32s (cert_Recipients c)"]
      encode.simps [of M broadcastFieldLimits ?f9 "VStructs (map ackValue (cert_Acks c))"]
    by (auto simp: encodeU32List_def encodeRecordList_def encodeMaxItems_iff broadcastFieldLimits_def optLimit_def getLimit_def
        countWithin_def)
qed

lemma certificate_roundtrip:
  assumes c: "Certificate_Validate c = Inr ()" and m: "Certificate_MarshalBinary (Some c) = Inr raw" and l: "length raw \<le> 2 ^ 20"
  shows "Certificate_UnmarshalBinary raw = Inr c"
proof -
  let ?M = broadcastMethods and ?t = BroadcastCertificateType
  have m': "Marshal ?M ?t (certValue c) broadcastFieldLimits = Inr raw"
    using m Marshal_pointer [OF cert_type(1), of "certValue c"]
    by (simp add: Certificate_MarshalBinary_def certValue_def map_sum_wrap_iff)
  have valid: "validAt ?M ?t (certValue c)"
    using c by (simp add: validAt_def methodOf_def BroadcastCertificateType_def broadcastMethods_def)
  have b: "beforeEncode ?M ?t (certValue c) = Inr (certValue c)"
    using c canonical_certificate [OF c]
    by (simp add: beforeEncode_def runBeforeMarshalHook_def runValidateHook_def methodOf_def BroadcastCertificateType_def
        broadcastMethods_def)
  from Marshal_plain [OF cert_type(1-4) cert_schema, of "certValue c" broadcastFieldLimits raw] m' b
  obtain vals flds where v: "certValue c = VStruct vals" "encodeFields (encode ?M broadcastFieldLimits) certSchema vals = Inr flds"
    "MarshalFields 1 ''tss.broadcast-certificate'' flds = Inr raw" by auto
  have "encodeFields (encode (strict ?M) broadcastFieldLimits) certSchema vals = Inr flds"
    using v(2) encodeFields_eq [of certSchema "encode (strict ?M) broadcastFieldLimits"] strict_cert_field by metis
  moreover have "beforeEncode (strict ?M) ?t (certValue c) = Inr (certValue c)"
    using valid by (simp add: broadcast_codec.beforeEncode_iff)
  ultimately have ms: "Marshal (strict ?M) ?t (certValue c) broadcastFieldLimits = Inr raw"
    using v Marshal_plain [of ?t "strict ?M" "''tss.broadcast-certificate''" 1 certSchema "certValue c"] cert_type cert_schema
    by auto
  have ne: "raw \<noteq> []" using v(3) by (auto simp: MarshalFields_iff magic_def)
  have "length (cert_Recipients c) \<le> 64 \<and> length (cert_Acks c) \<le> 64"
    using v by (intro certificate_items)
  then have "fits (MaxFields DefaultFrameLimits) (certValue c)"
    by (simp add: certValue_def DefaultFrameLimits_def maxRecordCount_def list_all_iff ackValue_def)
  moreover have "roomy DefaultFrameLimits (length raw)"
    using l by (simp add: roomy_def frame_limits_validate_def DefaultFrameLimits_def)
  moreover have "\<And>n. MarshalWireMessage ?M n = None" by (simp add: broadcastMethods_def noMethods_def)
  ultimately have "Unmarshal ?M ?t raw DefaultFrameLimits broadcastFieldLimits = Inr (certValue c)"
    using ms by (intro broadcast_codec.Unmarshal_complete)
  with ne show ?thesis by (simp add: Certificate_UnmarshalBinary_def)
qed

end
