(* ===== verification/Message_Props.thy ===== *)
theory Message_Props
  imports Guard_Props Broadcast_Encoding
begin

text \<open>
  Correctness properties of the message layer: the object codec of \<^verbatim>\<open>internal/wire\<close>, session identifiers,
  envelopes and their signatures, the replay cache, threshold configurations and broadcast certificates.
\<close>

section \<open>The object codec\<close>




lemma sample_marshals:
  "\<exists>raw. Envelope_MarshalBinary sampleDirect = Inr raw \<and> int (length raw) \<le> 2 ^ 20"
proof -
  have "\<exists>raw. MarshalEnvelopeWithLimits sampleDirect DefaultEnvelopeLimits = Inr raw"
  proof (rule envelope_ok_marshals)
    show "validateEnvelopeFields sampleDirect DefaultEnvelopeLimits = Inr ()" by code_simp
    show "utf8_valid_string (e_Protocol sampleDirect)" "utf8_valid_string (e_PayloadType sampleDirect)" by code_simp+
  qed (simp_all add: sampleDirect_def)
  then obtain raw where m: "MarshalEnvelopeWithLimits sampleDirect DefaultEnvelopeLimits = Inr raw" by blast
  from envelope_length [OF m] m show ?thesis by (simp add: Envelope_MarshalBinary_def sampleDirect_def)
qed

lemma envelope_default_iff:
  "Envelope_UnmarshalBinary raw = Inr e \<longleftrightarrow> Envelope_MarshalBinary e = Inr raw \<and> int (length raw) \<le> 2 ^ 20"
  using envelope_codec_iff [of DefaultEnvelopeLimits raw e]
  by (simp add: Envelope_UnmarshalBinary_def Envelope_MarshalBinary_def DefaultEnvelopeLimits_def)




section \<open>Session identifiers\<close>

text \<open>
  C38: (\<^verbatim>\<open>session.go\<close>) The text form of a session identifier decodes to the identifier, and different identifiers
  have different text forms.
\<close>

theorem session_text:
  "\<exists>t. SessionID_MarshalText s = Inr t \<and> SessionID_UnmarshalText (Some r) t = Inr s
    \<and> (SessionID_String s = SessionID_String s') = (s = s')"
  using session_text_roundtrip [of s] session_string_inject [of s s'] by (simp add: SessionID_MarshalText_def)

section \<open>Envelopes\<close>

text \<open>
  C31: (\<^verbatim>\<open>envelope.go\<close>) With the default limits, a byte string decodes to an envelope exactly when it is the
  encoding of that envelope and at most 1 MiB long.
\<close>

theorem envelope_roundtrip:
  "Envelope_UnmarshalBinary raw = Inr e \<longleftrightarrow> Envelope_MarshalBinary e = Inr raw \<and> int (length raw) \<le> 2 ^ 20"
  by (rule envelope_default_iff)



text \<open>
  C33: (\<^verbatim>\<open>envelope_signature.go\<close>) A signed envelope verifies under a verifier that accepts the signatures of the
  signer, and a signature moved to an envelope that differs in any field but the signature is verified over another
  digest, unless two explicit transcripts collide under SHA-256.
\<close>

theorem envelope_signature:
  assumes "SignEnvelope e (Some sign) = Inr e'" "\<And>d s. sign d = Inr s \<Longrightarrow> verify (e_From e) d s = Inr ()"
  shows "VerifyEnvelopeSignature e' (Some verify) = Inr () \<and> e'\<lparr>e_SenderSignature := e_SenderSignature e\<rparr> = e
    \<and> (\<forall>f. EnvelopeSigningDigest f = EnvelopeSigningDigest e' \<longrightarrow>
        f\<lparr>e_SenderSignature := []\<rparr> = e'\<lparr>e_SenderSignature := []\<rparr>
        \<or> sha256_collision (projr (transcript ''github.com/islishude/tss/envelope-signature/v1'' (envelopeFields f)))
            (projr (transcript ''github.com/islishude/tss/envelope-signature/v1'' (envelopeFields e'))))"
proof -
  note v = SignEnvelope_verifies [of e sign e' verify, OF assms]
  then obtain d where "EnvelopeSigningDigest e' = Inr d" by (auto simp: VerifyEnvelopeSignature_iff)
  then show ?thesis using v SigningDigest_binds [of _ d e'] by auto
qed

lemma sample_signing: "EnvelopeSigningDigest sampleDirect = Inr (projr (EnvelopeSigningDigest sampleDirect))"
proof -
  have "\<not> isl (transcript ''github.com/islishude/tss/envelope-signature/v1'' (envelopeFields sampleDirect))" by code_simp
  from digest32_ok [OF this] show ?thesis by (simp add: EnvelopeSigningDigest_def)
qed

theorem envelope_signature_witness:
  "SignEnvelope sampleDirect (Some (\<lambda>d. Inr [1])) = Inr (sampleDirect\<lparr>e_SenderSignature := [1]\<rparr>)
    \<and> VerifyEnvelopeSignature (sampleDirect\<lparr>e_SenderSignature := [1]\<rparr>) (Some (\<lambda>p d s. if s = [1] then Inr () else Inl ErrContext)) = Inr ()"
proof -
  have s: "SignEnvelope sampleDirect (Some (\<lambda>d. Inr [1])) = Inr (sampleDirect\<lparr>e_SenderSignature := [1]\<rparr>)"
    using sample_signing by (auto simp: SignEnvelope_def split: sum.splits)
  from envelope_signature [OF s, of "\<lambda>p d s. if s = [1] then Inr () else Inl ErrContext"] s show ?thesis by auto
qed

section \<open>The replay cache\<close>

text \<open>
  C36: (\<^verbatim>\<open>replay.go\<close>) Whatever calls are made, a cache never holds more entries than its bound, which is the
  requested one or 100000; when it is full it refuses new slots, and still reports every slot it holds.
\<close>

theorem replay_cache_bounded:
  assumes "cache_step\<^sup>*\<^sup>* (NewBoundedReplayCache n) c"
  shows "rc_maxEntries c = (if n \<le> 0 then 100000 else n) \<and> int (fm_size (rc_seen c)) \<le> rc_maxEntries c
    \<and> (int (fm_size (rc_seen c)) = rc_maxEntries c \<longrightarrow>
        (\<forall>k h. CheckAndStore (Some c) k h =
          (Inl (case fmlookup (rc_seen c) k of None \<Rightarrow> ErrReplayCacheFull
                | Some g \<Rightarrow> if g = h then ErrDuplicateMessage else ErrEquivocation), Some c)))"
proof -
  have "fm_size fmempty = 0" by (simp add: fm_size_card)
  then have "int (fm_size (rc_seen (NewBoundedReplayCache n))) \<le> rc_maxEntries (NewBoundedReplayCache n)"
    by (simp add: NewBoundedReplayCache_def)
  from cache_reach_bound [OF assms this] show ?thesis
    by (auto simp: CheckAndStore_def NewBoundedReplayCache_def split: option.splits)
qed

theorem replay_cache_bounded_witness:
  "\<exists>c. cache_step\<^sup>*\<^sup>* (NewBoundedReplayCache 1) c \<and> int (fm_size (rc_seen c)) = 1 \<and> rc_maxEntries c = 1"
proof -
  let ?k = "SlotKeyFromEnvelope sampleDirect" and ?c = "NewBoundedReplayCache 1"
  let ?d = "?c\<lparr>rc_seen := fmupd ?k 0 (rc_seen ?c)\<rparr>"
  have "CheckAndStore (Some ?c) ?k 0 = (Inr (), Some ?d)"
    by (simp add: CheckAndStore_def NewBoundedReplayCache_def fm_size_card)
  then have s: "cache_step\<^sup>*\<^sup>* ?c ?d" by (intro r_into_rtranclp cache_step.check)
  from replay_cache_bounded [OF s] s show ?thesis
    by (intro exI [of _ ?d]) (simp add: NewBoundedReplayCache_def fm_size_upd fm_has_def fm_size_card)
qed

section \<open>Thresholds\<close>

text \<open>
  C37: (\<^verbatim>\<open>config.go\<close>, \<^verbatim>\<open>party.go\<close>) A threshold configuration is valid exactly when its parties are distinct
  non-zero identifiers that include the local party, the threshold lies between 1 and their number and within the
  limits, and a threshold below the production minimum is the explicitly allowed one-of-one; every signer set valid
  for it has at least the threshold of distinct signers, all of them parties.
\<close>

theorem threshold_config:
  "(ValidateWithLimits c l = Inr () \<longleftrightarrow>
      distinct (tc_Parties c) \<and> 0 \<notin> set (tc_Parties c) \<and> tc_Self c \<in> set (tc_Parties c)
      \<and> 1 \<le> tc_Threshold c \<and> tc_Threshold c \<le> int (length (tc_Parties c))
      \<and> tc_Threshold c \<le> MaxThreshold l \<and> int (length (tc_Parties c)) \<le> MaxParties l
      \<and> (MinProductionThreshold l \<le> tc_Threshold c \<or> AllowOneOfOne l \<and> tc_Threshold c = 1 \<and> length (tc_Parties c) = 1))
    \<and> (ValidateSignerSet (tc_Parties c) (tc_Threshold c) ss l = Inr () \<longleftrightarrow>
      ss \<noteq> [] \<and> distinct ss \<and> set ss \<subseteq> set (tc_Parties c) \<and> tc_Threshold c \<le> int (card (set ss))
      \<and> int (card (set ss)) \<le> MaxSigners l \<and> (AllowOversizedSignerSet l \<or> int (card (set ss)) = tc_Threshold c))"
  by (auto simp: ValidateWithLimits_accepts ValidateSignerSet_accepts distinct_card)

section \<open>Broadcast certificates\<close>


text \<open>Acknowledgements delivered to a collector one after the other, with the answers.\<close>

fun addAll :: "BroadcastConsistency \<Rightarrow> Envelope \<Rightarrow> BroadcastAck list \<Rightarrow> (terror + unit) list \<times> BroadcastConsistency" where
  "addAll bc env [] = ([], bc)"
| "addAll bc env (a # as) =
    (let (r, bc') = bc_AddAck bc env a; (rs, bc'') = addAll bc' env as in (r # rs, bc''))"

lemma addAll_accepts:
  assumes "collector bc" "bc_committed bc" "matchesEnvelope bc env" "Envelope_Digest env = Inr (bc_envelopeDigest bc)"
    "PayloadHashFromEnvelope env = bc_payloadHash bc" "distinct (map ack_Party as)"
    "\<forall>a\<in>set as. ack_Party a \<in> set (bc_recipients bc) \<and> \<not> fm_has (ack_Party a) (bc_acks bc)
        \<and> VerifyBroadcastAck env a (bc_verifier bc) = Inr ()"
  shows "\<exists>bc'. addAll bc env as = (map (\<lambda>_. Inr ()) as, bc') \<and> collector bc' \<and> bc_committed bc' \<and> matchesEnvelope bc' env
    \<and> bc_envelopeDigest bc' = bc_envelopeDigest bc \<and> bc_payloadHash bc' = bc_payloadHash bc
    \<and> bc_recipients bc' = bc_recipients bc \<and> bc_verifier bc' = bc_verifier bc
    \<and> (\<forall>i. fm_has i (bc_acks bc') \<longleftrightarrow> fm_has i (bc_acks bc) \<or> i \<in> ack_Party ` set as)"
  using assms
proof (induction as arbitrary: bc)
  case (Cons a as)
  let ?bc = "bc\<lparr>bc_acks := fmupd (ack_Party a) a (bc_acks bc)\<rparr>"
  have s: "bc_AddAck bc env a = (Inr (), ?bc)"
    using Cons.prems by (simp add: bc_AddAck_def ContainsParty_def)
  have "\<exists>bc'. addAll ?bc env as = (map (\<lambda>_. Inr ()) as, bc') \<and> collector bc' \<and> bc_committed bc' \<and> matchesEnvelope bc' env
    \<and> bc_envelopeDigest bc' = bc_envelopeDigest ?bc \<and> bc_payloadHash bc' = bc_payloadHash ?bc
    \<and> bc_recipients bc' = bc_recipients ?bc \<and> bc_verifier bc' = bc_verifier ?bc
    \<and> (\<forall>i. fm_has i (bc_acks bc') \<longleftrightarrow> fm_has i (bc_acks ?bc) \<or> i \<in> ack_Party ` set as)"
  proof (rule Cons.IH)
    show "collector ?bc" using collector.ack [OF Cons.prems(1) s] .
    show "matchesEnvelope ?bc env" using Cons.prems(3) by (simp add: matchesEnvelope_def)
    show "\<forall>x\<in>set as. ack_Party x \<in> set (bc_recipients ?bc) \<and> \<not> fm_has (ack_Party x) (bc_acks ?bc)
        \<and> VerifyBroadcastAck env x (bc_verifier ?bc) = Inr ()"
      using Cons.prems(6,7) by (auto simp: fm_has_def)
  qed (use Cons.prems in simp_all)
  with s show ?case by (auto simp: fm_has_def)
qed simp

text \<open>
  C34: (\<^verbatim>\<open>broadcast.go\<close>) A collector that has committed an envelope and receives one verified acknowledgement per
  recipient, in any order, accepts all of them, becomes complete, and yields a certificate that \<^verbatim>\<open>VerifyFull\<close>
  accepts for the envelope and any listing of the recipients.
\<close>

theorem collector_run:
  assumes "NewBroadcastConsistency p s r f t rs (Some verify) = Inr bc0" "bc_Commit bc0 env = (Inr x, bc1)"
    and "mset (map ack_Party as) = mset rs" "\<And>a. a \<in> set as \<Longrightarrow> VerifyBroadcastAck env a (Some verify) = Inr ()"
    and "mset ps = mset rs"
  shows "\<exists>bc2 cert. addAll bc1 env as = (map (\<lambda>_. Inr ()) as, bc2) \<and> bc_Complete bc2 \<and> bc_Certificate bc2 = Inr cert
    \<and> VerifyFull (Some cert) env ps (Some verify) = Inr ()"
proof -
  from assms(1) have bc0: "bc_recipients bc0 = sort rs" "bc_verifier bc0 = Some verify" "bc_acks bc0 = fmempty" "\<not> bc_committed bc0"
    by (auto simp: NewBroadcastConsistency_def Let_def SortParties_def split: if_splits)
  have c0: "collector bc0" by (rule collector.start [OF assms(1)])
  then have c1: "collector bc1" using assms(2) by (rule collector.commit)
  from assms(2) bc0 have bc1: "bc_committed bc1" "matchesEnvelope bc1 env" "Envelope_Digest env = Inr (bc_envelopeDigest bc1)"
    "PayloadHashFromEnvelope env = bc_payloadHash bc1" "bc_recipients bc1 = sort rs" "bc_verifier bc1 = Some verify" "bc_acks bc1 = fmempty"
    by (auto simp: bc_Commit_def Let_def matchesEnvelope_def split: if_splits sum.splits)
  have d: "distinct rs" using collector_inv [OF c0] bc0(1) by (simp add: bc_inv_def strict_sorted_iff)
  have pas: "ack_Party ` set as = set rs" using mset_eq_setD [OF assms(3)] by simp
  have da: "distinct (map ack_Party as)" using d mset_eq_imp_distinct_iff [OF assms(3)] by simp
  have ok: "\<forall>a\<in>set as. ack_Party a \<in> set (bc_recipients bc1) \<and> \<not> fm_has (ack_Party a) (bc_acks bc1)
      \<and> VerifyBroadcastAck env a (bc_verifier bc1) = Inr ()"
    using assms(4) pas by (auto simp: bc1 fm_has_def)
  from addAll_accepts [OF c1 bc1(1-4) da ok] obtain bc2 where a: "addAll bc1 env as = (map (\<lambda>_. Inr ()) as, bc2)" and c2: "collector bc2" "bc_committed bc2"
    "matchesEnvelope bc2 env" "bc_envelopeDigest bc2 = bc_envelopeDigest bc1" "bc_payloadHash bc2 = bc_payloadHash bc1"
    "bc_recipients bc2 = sort rs" "bc_verifier bc2 = Some verify" "\<forall>i. fm_has i (bc_acks bc2) \<longleftrightarrow> i \<in> set rs"
    unfolding bc1 pas by (auto simp: fm_has_def)
  from collector_complete [OF c2(1,2)] c2(6,8) obtain cert where k: "bc_Complete bc2" "bc_Certificate bc2 = Inr cert" by auto
  have "mset ps = mset (bc_recipients bc2)" using assms(5) c2(6) by simp
  from collector_certificate_verifies [OF k(2) c2(3) _ _ this] bc1(3,4) c2(4,5,7)
  have "VerifyFull (Some cert) env ps (Some verify) = Inr ()" by simp
  with a k show ?thesis by blast
qed

theorem collector_run_witness:
  "\<exists>bc0 bc1 bc2 cert. NewBroadcastConsistency ''p'' 5 2 2 ''b'' [2] (Some sampleVerifier) = Inr bc0
    \<and> bc_Commit bc0 sampleBroadcast = (Inr True, bc1) \<and> addAll bc1 sampleBroadcast (cert_Acks sampleCert) = ([Inr ()], bc2)
    \<and> bc_Certificate bc2 = Inr cert \<and> VerifyFull (Some cert) sampleBroadcast [2] (Some sampleVerifier) = Inr ()"
proof -
  obtain bc0 where n: "NewBroadcastConsistency ''p'' 5 2 2 ''b'' [2] (Some sampleVerifier) = Inr bc0"
    by (simp add: NewBroadcastConsistency_def SessionID_Valid_def SortParties_def)
  then have m: "matchesEnvelope bc0 sampleBroadcast" "\<not> bc_committed bc0"
    by (auto simp: NewBroadcastConsistency_def matchesEnvelope_def sampleBroadcast_def SortParties_def split: if_splits)
  obtain d where "Envelope_Digest sampleBroadcast = Inr d" using sample_digests(2) by blast
  with m obtain bc1 where c: "bc_Commit bc0 sampleBroadcast = (Inr True, bc1)"
    by (simp add: bc_Commit_def)
  have v: "VerifyBroadcastAck sampleBroadcast a (Some sampleVerifier) = Inr ()" if "a \<in> set (cert_Acks sampleCert)" for a
    using sample_certificate that by (auto simp: VerifyFull_iff)
  have p: "mset (map ack_Party (cert_Acks sampleCert)) = mset [2]" by (simp add: sampleCert_def)
  have "map (\<lambda>_. Inr ()) (cert_Acks sampleCert) = [Inr ()]" by (simp add: sampleCert_def)
  with collector_run [OF n c p v refl] n c show ?thesis by auto
qed

end
