(* ===== verification/Fiat.thy ===== *)
theory Fiat
  imports Stdlib
begin

text \<open>
  Word-by-word Montgomery arithmetic (\<^verbatim>\<open>internal/fiat/secp256k1scalar\<close> and \<^verbatim>\<open>internal/fiat/secp256k1field\<close>), at
  the level of 64-bit words.  The two generated packages are the same straight-line programs over different
  constants; the constants are a record here, and every repeated block of a program is one definition that the
  program calls as often as the code repeats it.  An array of four words is a tuple, least significant first.
  Where a word of the field prime is all ones, the code of \<^verbatim>\<open>Sub\<close> and \<^verbatim>\<open>Opp\<close> leaves out the conjunction with it.

  The lemmas show that every operation keeps its result below the modulus and computes the intended operation on
  the values that the Montgomery form represents.
\<close>

section \<open>The package math/bits\<close>

type_synonym limbs = "u64 \<times> u64 \<times> u64 \<times> u64"

definition Mul64 :: "u64 \<Rightarrow> u64 \<Rightarrow> u64 \<times> u64" where
  "Mul64 x y = (word_of_int (uint x * uint y div 2 ^ 64), x * y)"

definition Add64 :: "u64 \<Rightarrow> u64 \<Rightarrow> u64 \<Rightarrow> u64 \<times> u64" where
  "Add64 x y c = (x + y + c, if uint x + uint y + uint c \<ge> 2 ^ 64 then 1 else 0)"

definition Sub64 :: "u64 \<Rightarrow> u64 \<Rightarrow> u64 \<Rightarrow> u64 \<times> u64" where
  "Sub64 x y b = (x - y - b, if uint x < uint y + uint b then 1 else 0)"

section \<open>Blocks of the generated code\<close>

record mont =
  mc_m :: limbs
  mc_inv :: u64

definition cmovznzU64 :: "u64 \<Rightarrow> u64 \<Rightarrow> u64 \<Rightarrow> u64" where
  "cmovznzU64 arg1 arg2 arg3 =
    (let x1 = arg1 * 0xffffffffffffffff
     in (x1 AND arg3) OR ((NOT x1) AND arg2))"

text \<open>The product of one word and four: five words.\<close>

fun mulRow :: "u64 \<Rightarrow> limbs \<Rightarrow> u64 \<times> u64 \<times> u64 \<times> u64 \<times> u64" where
  "mulRow a (b0, b1, b2, b3) =
    (let (x6, x5) = Mul64 a b3;
         (x8, x7) = Mul64 a b2;
         (x10, x9) = Mul64 a b1;
         (x12, x11) = Mul64 a b0;
         (x13, x14) = Add64 x12 x9 0;
         (x15, x16) = Add64 x10 x7 x14;
         (x17, x18) = Add64 x8 x5 x16;
         x19 = x18 + x6
     in (x11, x13, x15, x17, x19))"

text \<open>Adding a five-word row to the accumulator, with the carry out of it.\<close>

fun addRow ::
  "u64 \<times> u64 \<times> u64 \<times> u64 \<times> u64 \<Rightarrow> u64 \<times> u64 \<times> u64 \<times> u64 \<times> u64 \<Rightarrow> (u64 \<times> u64 \<times> u64 \<times> u64 \<times> u64) \<times> u64" where
  "addRow (t0, t1, t2, t3, t4) (r0, r1, r2, r3, r4) =
    (let (x62, x63) = Add64 t0 r0 0;
         (x64, x65) = Add64 t1 r1 x63;
         (x66, x67) = Add64 t2 r2 x65;
         (x68, x69) = Add64 t3 r3 x67;
         (x70, x71) = Add64 t4 r4 x69
     in ((x62, x64, x66, x68, x70), x71))"

text \<open>
  The reduction step: the multiple of the modulus that clears the lowest word is added and the word dropped; the
  carry out is returned.
\<close>

fun reduceRow :: "mont \<Rightarrow> u64 \<times> u64 \<times> u64 \<times> u64 \<times> u64 \<Rightarrow> limbs \<times> u64" where
  "reduceRow C (t0, t1, t2, t3, t4) =
    (let (_, x20) = Mul64 t0 (mc_inv C);
         (x28, x30, x32, x34, x36) = mulRow x20 (mc_m C);
         (_, x38) = Add64 t0 x28 0;
         (x39, x40) = Add64 t1 x30 x38;
         (x41, x42) = Add64 t2 x32 x40;
         (x43, x44) = Add64 t3 x34 x42;
         (x45, x46) = Add64 t4 x36 x44
     in ((x39, x41, x43, x45), x46))"

text \<open>The final conditional subtraction of the modulus.\<close>

fun condSub :: "mont \<Rightarrow> limbs \<Rightarrow> u64 \<Rightarrow> limbs" where
  "condSub C (t0, t1, t2, t3) t4 =
    (let (m0, m1, m2, m3) = mc_m C;
         (x206, x207) = Sub64 t0 m0 0;
         (x208, x209) = Sub64 t1 m1 x207;
         (x210, x211) = Sub64 t2 m2 x209;
         (x212, x213) = Sub64 t3 m3 x211;
         (_, x215) = Sub64 t4 0 x213
     in (cmovznzU64 x215 x206 t0, cmovznzU64 x215 x208 t1, cmovznzU64 x215 x210 t2, cmovznzU64 x215 x212 t3))"

section \<open>The operations\<close>

text \<open>One round of a multiplication: add the row of one word, then reduce; \<open>x46\<close> is the fifth word of the accumulator.\<close>

fun mulRound :: "mont \<Rightarrow> limbs \<times> u64 \<Rightarrow> u64 \<Rightarrow> limbs \<Rightarrow> limbs \<times> u64" where
  "mulRound C ((t0, t1, t2, t3), x46) a b =
    (let (t, x71) = addRow (t0, t1, t2, t3, x46) (mulRow a b);
         (u, x98) = reduceRow C t
     in (u, x98 + x71))"

fun fiat_Mul :: "mont \<Rightarrow> limbs \<Rightarrow> limbs \<Rightarrow> limbs" where
  "fiat_Mul C (x4, x1, x2, x3) arg2 =
    (let t = reduceRow C (mulRow x4 arg2);
         t = mulRound C t x1 arg2;
         t = mulRound C t x2 arg2;
         (u, x205) = mulRound C t x3 arg2
     in condSub C u x205)"

definition fiat_Square :: "mont \<Rightarrow> limbs \<Rightarrow> limbs" where
  "fiat_Square C arg1 = fiat_Mul C arg1 arg1"

fun fiat_Add :: "mont \<Rightarrow> limbs \<Rightarrow> limbs \<Rightarrow> limbs" where
  "fiat_Add C (a0, a1, a2, a3) (b0, b1, b2, b3) =
    (let (x1, x2) = Add64 a0 b0 0;
         (x3, x4) = Add64 a1 b1 x2;
         (x5, x6) = Add64 a2 b2 x4;
         (x7, x8) = Add64 a3 b3 x6
     in condSub C (x1, x3, x5, x7) x8)"

fun fiat_Sub :: "mont \<Rightarrow> limbs \<Rightarrow> limbs \<Rightarrow> limbs" where
  "fiat_Sub C (a0, a1, a2, a3) (b0, b1, b2, b3) =
    (let (m0, m1, m2, m3) = mc_m C;
         (x1, x2) = Sub64 a0 b0 0;
         (x3, x4) = Sub64 a1 b1 x2;
         (x5, x6) = Sub64 a2 b2 x4;
         (x7, x8) = Sub64 a3 b3 x6;
         x9 = cmovznzU64 x8 0 0xffffffffffffffff;
         (x10, x11) = Add64 x1 (x9 AND m0) 0;
         (x12, x13) = Add64 x3 (x9 AND m1) x11;
         (x14, x15) = Add64 x5 (x9 AND m2) x13;
         (x16, _) = Add64 x7 (x9 AND m3) x15
     in (x10, x12, x14, x16))"

definition fiat_Opp :: "mont \<Rightarrow> limbs \<Rightarrow> limbs" where
  "fiat_Opp C arg1 = fiat_Sub C (0, 0, 0, 0) arg1"

text \<open>Out of the Montgomery domain: the rounds of a multiplication by one, one word of the argument per round.\<close>

fun fromRound :: "mont \<Rightarrow> limbs \<times> u64 \<Rightarrow> u64 \<Rightarrow> limbs \<times> u64" where
  "fromRound C ((x20, x22, x24, x26), x27) a =
    (let (x28, x29) = Add64 x20 a 0;
         (x30, x31) = Add64 x22 0 x29;
         (x32, x33) = Add64 x24 0 x31;
         (x34, x35) = Add64 x26 0 x33
     in reduceRow C (x28, x30, x32, x34, x35 + x27))"

fun fiat_FromMontgomery :: "mont \<Rightarrow> limbs \<Rightarrow> limbs" where
  "fiat_FromMontgomery C (a0, a1, a2, a3) =
    (let t = reduceRow C (a0, 0, 0, 0, 0);
         t = fromRound C t a1;
         t = fromRound C t a2;
         (u, x129) = fromRound C t a3
     in condSub C u x129)"

text \<open>
  Into the Montgomery domain: a multiplication by the square of the radix.  Its row differs between the two packages:
  the scalar code multiplies by the four words of the constant, the field code, whose constant is one word plus the
  radix of a word, by that word alone.
\<close>

fun toRound :: "mont \<Rightarrow> limbs \<times> u64 \<Rightarrow> u64 \<times> u64 \<times> u64 \<times> u64 \<times> u64 \<Rightarrow> limbs \<times> u64" where
  "toRound C ((x37, x39, x41, x43), x44) (x51, x53, x55, x57, x58) =
    (let (x59, x60) = Add64 x37 x51 0;
         (x61, x62) = Add64 x39 x53 x60;
         (x63, x64) = Add64 x41 x55 x62;
         (x65, x66) = Add64 x43 x57 x64
     in reduceRow C (x59, x61, x63, x65, (x66 + x44) + x58))"

fun toMontgomery :: "mont \<Rightarrow> (u64 \<Rightarrow> u64 \<times> u64 \<times> u64 \<times> u64 \<times> u64) \<Rightarrow> limbs \<Rightarrow> limbs" where
  "toMontgomery C row (x4, x1, x2, x3) =
    (let t = reduceRow C (row x4);
         t = toRound C t (row x1);
         t = toRound C t (row x2);
         (u, x188) = toRound C t (row x3)
     in condSub C u x188)"

definition scalarRow :: "u64 \<Rightarrow> u64 \<times> u64 \<times> u64 \<times> u64 \<times> u64" where
  "scalarRow a = mulRow a (0x896cf21467d7d140, 0x741496c20e7cf878, 0xe697f5e45bcd07c6, 0x9d671cd581c69bc5)"

definition fieldRow :: "u64 \<Rightarrow> u64 \<times> u64 \<times> u64 \<times> u64 \<times> u64" where
  "fieldRow a =
    (let (x6, x5) = Mul64 a 0x7a2000e90a1;
         (x7, x8) = Add64 x6 a 0
     in (x5, x7, x8, 0, 0))"

definition fiat_Nonzero :: "limbs \<Rightarrow> u64" where
  "fiat_Nonzero arg1 = (case arg1 of (a0, a1, a2, a3) \<Rightarrow> a0 OR (a1 OR (a2 OR a3)))"

fun fiat_Selectznz :: "u64 \<Rightarrow> limbs \<Rightarrow> limbs \<Rightarrow> limbs" where
  "fiat_Selectznz arg1 (a0, a1, a2, a3) (b0, b1, b2, b3) =
    (cmovznzU64 arg1 a0 b0, cmovznzU64 arg1 a1 b1, cmovznzU64 arg1 a2 b2, cmovznzU64 arg1 a3 b3)"

text \<open>One word to and from its eight bytes, least significant first; the code repeats these for each word.\<close>

definition word_to_bytes :: "u64 \<Rightarrow> u8 list" where
  "word_to_bytes x4 =
    (let x5 = (ucast x4 :: u8) AND 0xff;
         x6 = drop_bit 8 x4;
         x7 = (ucast x6 :: u8) AND 0xff;
         x8 = drop_bit 8 x6;
         x9 = (ucast x8 :: u8) AND 0xff;
         x10 = drop_bit 8 x8;
         x11 = (ucast x10 :: u8) AND 0xff;
         x12 = drop_bit 8 x10;
         x13 = (ucast x12 :: u8) AND 0xff;
         x14 = drop_bit 8 x12;
         x15 = (ucast x14 :: u8) AND 0xff;
         x16 = drop_bit 8 x14;
         x17 = (ucast x16 :: u8) AND 0xff;
         x18 = (ucast (drop_bit 8 x16) :: u8)
     in [x5, x7, x9, x11, x13, x15, x17, x18])"

fun word_from_bytes :: "u8 list \<Rightarrow> u64" where
  "word_from_bytes [a0, a1, a2, a3, a4, a5, a6, a7] =
    (let x25 = push_bit 56 (ucast a7 :: u64);
         x26 = push_bit 48 (ucast a6 :: u64);
         x27 = push_bit 40 (ucast a5 :: u64);
         x28 = push_bit 32 (ucast a4 :: u64);
         x29 = push_bit 24 (ucast a3 :: u64);
         x30 = push_bit 16 (ucast a2 :: u64);
         x31 = push_bit 8 (ucast a1 :: u64)
     in x25 + (x26 + (x27 + (x28 + (x29 + (x30 + (x31 + ucast a0)))))))"
| "word_from_bytes _ = 0"

fun fiat_ToBytes :: "limbs \<Rightarrow> u8 list" where
  "fiat_ToBytes (x4, x3, x2, x1) = word_to_bytes x4 @ word_to_bytes x3 @ word_to_bytes x2 @ word_to_bytes x1"

definition fiat_FromBytes :: "u8 list \<Rightarrow> limbs" where
  "fiat_FromBytes arg1 =
    (word_from_bytes (take 8 arg1), word_from_bytes (take 8 (drop 8 arg1)),
     word_from_bytes (take 8 (drop 16 arg1)), word_from_bytes (take 8 (drop 24 arg1)))"

section \<open>The two packages\<close>

definition scalarC :: mont where
  "scalarC = \<lparr>mc_m = (0xbfd25e8cd0364141, 0xbaaedce6af48a03b, 0xfffffffffffffffe, 0xffffffffffffffff),
              mc_inv = 0x4b0dff665588b13f\<rparr>"

definition fieldC :: mont where
  "fieldC = \<lparr>mc_m = (0xfffffffefffffc2f, 0xffffffffffffffff, 0xffffffffffffffff, 0xffffffffffffffff),
             mc_inv = 0xd838091dd2253531\<rparr>"

definition scalar_Mul :: "limbs \<Rightarrow> limbs \<Rightarrow> limbs" where
  "scalar_Mul = fiat_Mul scalarC"

definition scalar_Square :: "limbs \<Rightarrow> limbs" where
  "scalar_Square = fiat_Square scalarC"

definition scalar_Add :: "limbs \<Rightarrow> limbs \<Rightarrow> limbs" where
  "scalar_Add = fiat_Add scalarC"

definition scalar_Sub :: "limbs \<Rightarrow> limbs \<Rightarrow> limbs" where
  "scalar_Sub = fiat_Sub scalarC"

definition scalar_Opp :: "limbs \<Rightarrow> limbs" where
  "scalar_Opp = fiat_Opp scalarC"

definition scalar_FromMontgomery :: "limbs \<Rightarrow> limbs" where
  "scalar_FromMontgomery = fiat_FromMontgomery scalarC"

definition field_Mul :: "limbs \<Rightarrow> limbs \<Rightarrow> limbs" where
  "field_Mul = fiat_Mul fieldC"

definition field_Square :: "limbs \<Rightarrow> limbs" where
  "field_Square = fiat_Square fieldC"

definition field_Add :: "limbs \<Rightarrow> limbs \<Rightarrow> limbs" where
  "field_Add = fiat_Add fieldC"

definition field_Sub :: "limbs \<Rightarrow> limbs \<Rightarrow> limbs" where
  "field_Sub = fiat_Sub fieldC"

definition field_Opp :: "limbs \<Rightarrow> limbs" where
  "field_Opp = fiat_Opp fieldC"

definition field_FromMontgomery :: "limbs \<Rightarrow> limbs" where
  "field_FromMontgomery = fiat_FromMontgomery fieldC"

definition scalar_ToMontgomery :: "limbs \<Rightarrow> limbs" where
  "scalar_ToMontgomery = toMontgomery scalarC scalarRow"

definition field_ToMontgomery :: "limbs \<Rightarrow> limbs" where
  "field_ToMontgomery = toMontgomery fieldC fieldRow"

definition scalar_SetOne :: limbs where
  "scalar_SetOne = (0x402da1732fc9bebf, 0x4551231950b75fc4, 1, 0)"

definition field_SetOne :: limbs where
  "field_SetOne = (0x1000003d1, 0, 0, 0)"

section \<open>The package math/bits: laws\<close>

definition W :: int where "W = 2 ^ 64"

lemma W_pos: "0 < W" "1 < W"
  by (simp_all add: W_def)

lemma u64_bounds: "0 \<le> uint (x :: u64)" "uint (x :: u64) < W"
  using uint_lt2p [of x] by (simp_all add: W_def)

lemma uint_of_int64: "0 \<le> k \<Longrightarrow> k < W \<Longrightarrow> uint (word_of_int k :: u64) = k"
  by (simp add: uint_word_of_int_eq take_bit_int_eq_self W_def)

lemma uint_plus64: "uint (x + y :: u64) = (uint x + uint y) mod W"
  by (simp add: uint_word_ariths W_def)

lemma uint_minus64: "uint (x - y :: u64) = (uint x - uint y) mod W"
  by (simp add: uint_word_ariths W_def)

lemma uint_mult64: "uint (x * y :: u64) = (uint x * uint y) mod W"
  by (simp add: uint_word_ariths W_def)

lemma Mul64_W: "Mul64 x y = (word_of_int (uint x * uint y div W), x * y)"
  by (simp add: Mul64_def W_def)

lemma Add64_W: "Add64 x y c = (x + y + c, if W \<le> uint x + uint y + uint c then 1 else 0)"
  by (simp add: Add64_def W_def)

lemma Mul64_law:
  assumes "Mul64 x y = (hi, lo)"
  shows "W * uint hi + uint lo = uint x * uint y" "uint hi \<le> W - 2"
proof -
  let ?p = "uint x * uint y"
  have ub: "?p \<le> (W - 1) * (W - 1)"
    by (rule mult_mono) (use u64_bounds [of x] u64_bounds [of y] W_pos in auto)
  have lb: "0 \<le> ?p" by simp
  have e: "W * (?p div W) + ?p mod W = ?p" by simp
  have "0 \<le> ?p mod W" "?p mod W < W" using W_pos by simp_all
  with e ub have "W * (?p div W) \<le> (W - 1) * (W - 1)" by linarith
  also have "\<dots> = W * (W - 2) + 1" by (simp add: algebra_simps)
  also have "\<dots> < W * (W - 2 + 1)" using W_pos by (simp add: algebra_simps)
  finally have d: "?p div W \<le> W - 2" using W_pos by simp
  have d0: "0 \<le> ?p div W" using lb W_pos by (simp add: pos_imp_zdiv_nonneg_iff)
  from assms have hi: "uint hi = ?p div W" and lo: "uint lo = ?p mod W"
    using d d0 W_pos by (auto simp: Mul64_W uint_of_int64 uint_mult64)
  show "W * uint hi + uint lo = ?p" using e by (simp add: hi lo)
  show "uint hi \<le> W - 2" using d by (simp add: hi)
qed

lemma Add64_law:
  assumes "Add64 x y c = (s, c')" "uint c \<le> 1"
  shows "uint s + W * uint c' = uint x + uint y + uint c" "uint c' \<le> 1"
proof -
  let ?t = "uint x + uint y + uint c"
  have t: "0 \<le> ?t" "?t < 2 * W" using u64_bounds [of x] u64_bounds [of y] u64_bounds [of c] assms(2) by linarith+
  have s: "uint s = ?t mod W" using assms(1) by (auto simp: Add64_W uint_plus64 mod_simps)
  have c: "uint c' = (if W \<le> ?t then 1 else 0)" using assms(1) by (auto simp: Add64_W)
  show "uint s + W * uint c' = ?t"
  proof (cases "W \<le> ?t")
    case True
    have "?t mod W = (?t - W) mod W" by simp
    also have "\<dots> = ?t - W" using True t by (intro mod_pos_pos_trivial) auto
    finally have "?t mod W = ?t - W" .
    with True show ?thesis using c s by simp
  next
    case False
    then have "?t mod W = ?t" using t by (intro mod_pos_pos_trivial) auto
    with False show ?thesis using c s by simp
  qed
  show "uint c' \<le> 1" using c by simp
qed

lemma Sub64_law:
  assumes "Sub64 x y b = (d, b')" "uint b \<le> 1"
  shows "uint d - W * uint b' = uint x - uint y - uint b" "uint b' \<le> 1"
proof -
  let ?t = "uint x - uint y - uint b"
  have t: "- W \<le> ?t" "?t < W" using u64_bounds [of x] u64_bounds [of y] u64_bounds [of b] assms(2) by linarith+
  have d: "uint d = ?t mod W" using assms(1) by (auto simp: Sub64_def uint_minus64 mod_simps)
  have b: "uint b' = (if ?t < 0 then 1 else 0)" using assms(1) by (auto simp: Sub64_def)
  show "uint d - W * uint b' = ?t"
  proof (cases "?t < 0")
    case True
    have "?t mod W = (?t + W) mod W" by simp
    also have "\<dots> = ?t + W" using True t by (intro mod_pos_pos_trivial) auto
    finally have "?t mod W = ?t + W" .
    then show ?thesis using True b d by simp
  next
    case False
    then have "?t mod W = ?t" using t by (intro mod_pos_pos_trivial) auto
    with False show ?thesis using b d by simp
  qed
  show "uint b' \<le> 1" using b by simp
qed

lemma cmovznz: "uint c \<le> 1 \<Longrightarrow> cmovznzU64 c x y = (if c = 0 then x else y)"
proof -
  assume "uint c \<le> 1"
  then have "uint c = 0 \<or> uint c = 1" using u64_bounds [of c] by linarith
  then have c: "c = 0 \<or> c = 1" by (metis uint_0_iff uint_1 word_uint_eq_iff)
  have m: "(18446744073709551615 :: u64) = - 1" by simp
  have "cmovznzU64 1 x y = (- 1 AND y) OR (NOT (- 1) AND x)" unfolding cmovznzU64_def Let_def m by (simp only: mult_1)
  with c show ?thesis by (auto simp: cmovznzU64_def)
qed

section \<open>Blocks: laws\<close>

fun ev4 :: "limbs \<Rightarrow> int" where
  "ev4 (a0, a1, a2, a3) = uint a0 + W * (uint a1 + W * (uint a2 + W * uint a3))"

fun ev5 :: "u64 \<times> u64 \<times> u64 \<times> u64 \<times> u64 \<Rightarrow> int" where
  "ev5 (a0, a1, a2, a3, a4) = uint a0 + W * (uint a1 + W * (uint a2 + W * (uint a3 + W * uint a4)))"

definition R :: int where "R = W * (W * (W * W))"

lemma horner_less: "x < w \<Longrightarrow> y < k \<Longrightarrow> 0 < w \<Longrightarrow> x + w * y < w * (k :: int)"
proof -
  assume a: "x < w" "y < k" "0 < w"
  then have "w * y \<le> w * (k - 1)" by (intro mult_left_mono) auto
  with a show ?thesis by (simp add: algebra_simps)
qed

lemma ev4_bounds: "0 \<le> ev4 a" "ev4 a < R"
proof -
  obtain a0 a1 a2 a3 where a: "a = (a0, a1, a2, a3)" by (cases a)
  note b = u64_bounds [of a0] u64_bounds [of a1] u64_bounds [of a2] u64_bounds [of a3]
  show "0 \<le> ev4 a" using b W_pos by (simp add: a)
  show "ev4 a < R" unfolding a ev4.simps R_def by (intro horner_less b W_pos)
qed

lemma ev4_inject: "ev4 a = ev4 b \<longleftrightarrow> a = b"
proof
  assume e: "ev4 a = ev4 b"
  obtain a0 a1 a2 a3 where a: "a = (a0, a1, a2, a3)" by (cases a)
  obtain b0 b1 b2 b3 where b: "b = (b0, b1, b2, b3)" by (cases b)
  have step: "x = y \<and> r = s" if "uint x + W * r = uint y + W * s" for x y :: u64 and r s
  proof -
    have "(uint x + W * r) mod W = (uint y + W * s) mod W" using that by simp
    then have "uint x = uint y" using u64_bounds [of x] u64_bounds [of y] by simp
    with that W_pos show ?thesis by (simp add: word_uint_eq_iff)
  qed
  from step [OF e [unfolded a b ev4.simps]]
  have 0: "a0 = b0" and e1: "uint a1 + W * (uint a2 + W * uint a3) = uint b1 + W * (uint b2 + W * uint b3)" by blast+
  from step [OF e1] have 1: "a1 = b1" and e2: "uint a2 + W * uint a3 = uint b2 + W * uint b3" by blast+
  from step [OF e2] have "a2 = b2" "a3 = b3" by (simp_all add: word_uint_eq_iff)
  with 0 1 show "a = b" by (simp add: a b)
qed simp

lemma carry_add:
  fixes c h :: u64
  assumes "uint c \<le> 1" "uint h \<le> W - 2"
  shows "uint (c + h) = uint c + uint h"
  using assms u64_bounds [of c] u64_bounds [of h] by (simp add: uint_plus64)

text \<open>Carry chains, as identities over any base.\<close>

lemma chain3:
  fixes w :: int
  assumes "s0 + w * c0 = t0" "s1 + w * c1 = t1 + c0" "s2 + w * c2 = t2 + c1"
  shows "t0 + w * (t1 + w * (t2 + w * y)) = s0 + w * (s1 + w * (s2 + w * (c2 + y)))"
proof -
  have t: "t0 = s0 + w * c0" "t1 = s1 + w * c1 - c0" "t2 = s2 + w * c2 - c1" using assms by simp_all
  show ?thesis unfolding t by (simp add: algebra_simps)
qed

lemma chain5:
  fixes w :: int
  assumes "s0 + w * c0 = t0" "s1 + w * c1 = t1 + c0" "s2 + w * c2 = t2 + c1" "s3 + w * c3 = t3 + c2" "s4 + w * c4 = t4 + c3"
  shows "t0 + w * (t1 + w * (t2 + w * (t3 + w * t4))) = s0 + w * (s1 + w * (s2 + w * (s3 + w * (s4 + w * c4))))"
proof -
  have t: "t0 = s0 + w * c0" "t1 = s1 + w * c1 - c0" "t2 = s2 + w * c2 - c1" "t3 = s3 + w * c3 - c2" "t4 = s4 + w * c4 - c3"
    using assms by simp_all
  show ?thesis unfolding t by (simp add: algebra_simps)
qed

lemma rounds:
  fixes w :: int
  assumes "w * t1 = a0 * b + q1 * m" "w * t2 = t1 + a1 * b + q2 * m" "w * t3 = t2 + a2 * b + q3 * m" "w * t4 = t3 + a3 * b + q4 * m"
  shows "w * (w * (w * (w * t4))) = (a0 + w * (a1 + w * (a2 + w * a3))) * b + m * (q1 + w * (q2 + w * (q3 + w * q4)))"
proof -
  have "w * (w * (w * (w * t4))) = w * (w * (w * t3)) + w * (w * (w * (a3 * b + q4 * m)))"
    unfolding assms(4) by (simp add: algebra_simps)
  also have "\<dots> = w * (w * t2) + w * (w * (a2 * b + q3 * m)) + w * (w * (w * (a3 * b + q4 * m)))"
    unfolding assms(3) by (simp add: algebra_simps)
  also have "\<dots> = w * t1 + w * (a1 * b + q2 * m) + w * (w * (a2 * b + q3 * m)) + w * (w * (w * (a3 * b + q4 * m)))"
    unfolding assms(2) by (simp add: algebra_simps)
  also have "\<dots> = (a0 + w * (a1 + w * (a2 + w * a3))) * b + m * (q1 + w * (q2 + w * (q3 + w * q4)))"
    unfolding assms(1) by (simp add: algebra_simps)
  finally show ?thesis .
qed

lemma mulRow_law: "ev5 (mulRow a b) = uint a * ev4 b"
proof -
  obtain b0 b1 b2 b3 where b: "b = (b0, b1, b2, b3)" by (cases b)
  obtain h3 l3 where 3: "Mul64 a b3 = (h3, l3)" by fastforce
  obtain h2 l2 where 2: "Mul64 a b2 = (h2, l2)" by fastforce
  obtain h1 l1 where 1: "Mul64 a b1 = (h1, l1)" by fastforce
  obtain h0 l0 where 0: "Mul64 a b0 = (h0, l0)" by fastforce
  obtain s1 c1 where s1: "Add64 h0 l1 0 = (s1, c1)" by fastforce
  obtain s2 c2 where s2: "Add64 h1 l2 c1 = (s2, c2)" by fastforce
  obtain s3 c3 where s3: "Add64 h2 l3 c2 = (s3, c3)" by fastforce
  note m = Mul64_law [OF 0] Mul64_law [OF 1] Mul64_law [OF 2] Mul64_law [OF 3]
  note a1 = Add64_law [OF s1, simplified] 
  note a2 = Add64_law [OF s2 a1(2)]
  note a3 = Add64_law [OF s3 a2(2)]
  have r: "mulRow a b = (l0, s1, s2, s3, c3 + h3)" by (simp add: b 0 1 2 3 s1 s2 s3)
  have t: "uint (c3 + h3) = uint c3 + uint h3" by (rule carry_add [OF a3(2) m(8)])
  have "uint a * ev4 b = uint a * uint b0 + W * (uint a * uint b1 + W * (uint a * uint b2 + W * (uint a * uint b3)))"
    by (simp add: b algebra_simps)
  also have "\<dots> = uint l0 + W * ((uint h0 + uint l1) + W * ((uint h1 + uint l2) + W * ((uint h2 + uint l3) + W * uint h3)))"
    unfolding m(1,3,5,7) [symmetric] by (simp add: algebra_simps)
  also have "\<dots> = ev5 (mulRow a b)"
    unfolding r ev5.simps t chain3 [OF a1(1) a2(1) a3(1)] by (rule refl)
  finally show ?thesis by simp
qed

lemma addRow_law:
  assumes "addRow t r = (s, c)"
  shows "ev5 s + W * R * uint c = ev5 t + ev5 r" "uint c \<le> 1"
proof -
  obtain t0 t1 t2 t3 t4 where t: "t = (t0, t1, t2, t3, t4)" by (cases t)
  obtain r0 r1 r2 r3 r4 where r: "r = (r0, r1, r2, r3, r4)" by (cases r)
  obtain s0 c0 where 0: "Add64 t0 r0 0 = (s0, c0)" by fastforce
  obtain s1 c1 where 1: "Add64 t1 r1 c0 = (s1, c1)" by fastforce
  obtain s2 c2 where 2: "Add64 t2 r2 c1 = (s2, c2)" by fastforce
  obtain s3 c3 where 3: "Add64 t3 r3 c2 = (s3, c3)" by fastforce
  obtain s4 c4 where 4: "Add64 t4 r4 c3 = (s4, c4)" by fastforce
  note a0 = Add64_law [OF 0, simplified]
  note a1 = Add64_law [OF 1 a0(2)]
  note a2 = Add64_law [OF 2 a1(2)]
  note a3 = Add64_law [OF 3 a2(2)]
  note a4 = Add64_law [OF 4 a3(2)]
  have s: "s = (s0, s1, s2, s3, s4)" "c = c4" using assms by (simp_all add: t r 0 1 2 3 4)
  have "ev5 t + ev5 r = (uint t0 + uint r0) + W * ((uint t1 + uint r1) + W * ((uint t2 + uint r2)
      + W * ((uint t3 + uint r3) + W * (uint t4 + uint r4))))"
    unfolding t r ev5.simps by (simp only: distrib_left add_ac)
  also have "\<dots> = ev5 s + W * R * uint c"
    unfolding chain5 [OF a0(1) a1(1) a2(1) a3(1) a4(1)] s ev5.simps R_def by (simp only: distrib_left add_ac mult_ac)
  finally show "ev5 s + W * R * uint c = ev5 t + ev5 r" by simp
  show "uint c \<le> 1" using a4(2) s by simp
qed

lemma Sub64_chain:
  assumes "Sub64 t0 m0 0 = (d0, b0)" "Sub64 t1 m1 b0 = (d1, b1)" "Sub64 t2 m2 b1 = (d2, b2)" "Sub64 t3 m3 b2 = (d3, b3)"
  shows "ev4 (d0, d1, d2, d3) - R * uint b3 = ev4 (t0, t1, t2, t3) - ev4 (m0, m1, m2, m3)" "uint b3 \<le> 1"
proof -
  note a0 = Sub64_law [OF assms(1), simplified]
  note a1 = Sub64_law [OF assms(2) a0(2)]
  note a2 = Sub64_law [OF assms(3) a1(2)]
  note a3 = Sub64_law [OF assms(4) a2(2)]
  have t: "uint t0 - uint m0 = uint d0 - W * uint b0" "uint t1 - uint m1 = uint d1 - W * uint b1 + uint b0"
    "uint t2 - uint m2 = uint d2 - W * uint b2 + uint b1" "uint t3 - uint m3 = uint d3 - W * uint b3 + uint b2"
    using a0(1) a1(1) a2(1) a3(1) by simp_all
  have "ev4 (t0, t1, t2, t3) - ev4 (m0, m1, m2, m3) =
      (uint t0 - uint m0) + W * ((uint t1 - uint m1) + W * ((uint t2 - uint m2) + W * (uint t3 - uint m3)))"
    by (simp add: algebra_simps)
  also have "\<dots> = ev4 (d0, d1, d2, d3) - R * uint b3" unfolding t R_def by (simp add: algebra_simps)
  finally show "ev4 (d0, d1, d2, d3) - R * uint b3 = ev4 (t0, t1, t2, t3) - ev4 (m0, m1, m2, m3)" by simp
  show "uint b3 \<le> 1" by (rule a3(2))
qed

lemma Add64_chain:
  assumes "Add64 t0 m0 0 = (d0, b0)" "Add64 t1 m1 b0 = (d1, b1)" "Add64 t2 m2 b1 = (d2, b2)" "Add64 t3 m3 b2 = (d3, b3)"
  shows "ev4 (d0, d1, d2, d3) + R * uint b3 = ev4 (t0, t1, t2, t3) + ev4 (m0, m1, m2, m3)" "uint b3 \<le> 1"
proof -
  note a0 = Add64_law [OF assms(1), simplified]
  note a1 = Add64_law [OF assms(2) a0(2)]
  note a2 = Add64_law [OF assms(3) a1(2)]
  note a3 = Add64_law [OF assms(4) a2(2)]
  have t: "uint t0 + uint m0 = uint d0 + W * uint b0" "uint t1 + uint m1 = uint d1 + W * uint b1 - uint b0"
    "uint t2 + uint m2 = uint d2 + W * uint b2 - uint b1" "uint t3 + uint m3 = uint d3 + W * uint b3 - uint b2"
    using a0(1) a1(1) a2(1) a3(1) by simp_all
  have "ev4 (t0, t1, t2, t3) + ev4 (m0, m1, m2, m3) =
      (uint t0 + uint m0) + W * ((uint t1 + uint m1) + W * ((uint t2 + uint m2) + W * (uint t3 + uint m3)))"
    by (simp add: algebra_simps)
  also have "\<dots> = ev4 (d0, d1, d2, d3) + R * uint b3" unfolding t R_def by (simp add: algebra_simps)
  finally show "ev4 (d0, d1, d2, d3) + R * uint b3 = ev4 (t0, t1, t2, t3) + ev4 (m0, m1, m2, m3)" by simp
  show "uint b3 \<le> 1" by (rule a3(2))
qed

lemma small_word: "uint (b :: u64) \<le> 1 \<Longrightarrow> uint b = (if b = 0 then 0 else 1)"
proof -
  assume "uint b \<le> 1"
  moreover have "0 \<le> uint b" by simp
  moreover have "uint b = 0 \<longleftrightarrow> b = 0" by (simp add: uint_0_iff)
  ultimately have "b = 0 \<or> b \<noteq> 0 \<and> uint b = 1" by linarith
  then show ?thesis by auto
qed

section \<open>Montgomery arithmetic\<close>

text \<open>
  What the operations need of their constants: the second is the negated inverse of the modulus modulo one word,
  and \<open>ri\<close> inverts the Montgomery radix.
\<close>

locale montgomery =
  fixes C :: mont and ri :: int
  assumes neg_inv: "(uint (mc_inv C) * ev4 (mc_m C) + 1) mod W = 0"
    and radix_inv: "R * ri mod ev4 (mc_m C) = 1"
begin

abbreviation M :: int where "M \<equiv> ev4 (mc_m C)"

definition val :: "limbs \<Rightarrow> int" where "val a = ev4 a * ri mod M"

lemma M_pos: "1 < M"
proof -
  have "0 \<le> M" by (rule ev4_bounds)
  moreover have "M \<noteq> 0" "M \<noteq> 1" using neg_inv W_pos radix_inv by auto
  ultimately show ?thesis by linarith
qed

lemma reduceRow_law:
  assumes "reduceRow C t = (u, c)"
  shows "\<exists>q\<ge>0. q < W \<and> W * (ev4 u + R * uint c) = ev5 t + q * M" "uint c \<le> 1"
proof -
  obtain t0 t1 t2 t3 t4 where t: "t = (t0, t1, t2, t3, t4)" by (cases t)
  obtain h q where q: "Mul64 t0 (mc_inv C) = (h, q)" by fastforce
  obtain r0 r1 r2 r3 r4 where r: "mulRow q (mc_m C) = (r0, r1, r2, r3, r4)" by (cases "mulRow q (mc_m C)")
  obtain s0 c0 where 0: "Add64 t0 r0 0 = (s0, c0)" by fastforce
  obtain s1 c1 where 1: "Add64 t1 r1 c0 = (s1, c1)" by fastforce
  obtain s2 c2 where 2: "Add64 t2 r2 c1 = (s2, c2)" by fastforce
  obtain s3 c3 where 3: "Add64 t3 r3 c2 = (s3, c3)" by fastforce
  obtain s4 c4 where 4: "Add64 t4 r4 c3 = (s4, c4)" by fastforce
  note a0 = Add64_law [OF 0, simplified]
  note a1 = Add64_law [OF 1 a0(2)]
  note a2 = Add64_law [OF 2 a1(2)]
  note a3 = Add64_law [OF 3 a2(2)]
  note a4 = Add64_law [OF 4 a3(2)]
  have u: "u = (s1, s2, s3, s4)" "c = c4" using assms by (simp_all add: t q r 0 1 2 3 4)
  have row: "ev5 (r0, r1, r2, r3, r4) = uint q * M" using mulRow_law [of q "mc_m C"] r by simp
  have qv: "uint q = uint t0 * uint (mc_inv C) mod W" using q by (auto simp: Mul64_W uint_mult64)
  have "uint r0 mod W = uint q * M mod W" unfolding row [symmetric] by simp
  then have "(uint t0 + uint r0) mod W = (uint t0 + uint q * M) mod W" by (metis mod_add_right_eq)
  also have "\<dots> = (uint t0 + uint t0 * uint (mc_inv C) * M) mod W"
    unfolding qv by (metis mod_add_right_eq mod_mult_left_eq)
  also have "\<dots> = uint t0 * (uint (mc_inv C) * M + 1) mod W" by (simp add: algebra_simps)
  also have "\<dots> = 0" using neg_inv by (metis mod_mult_right_eq mult_zero_right mod_0)
  finally have "(uint s0 + W * uint c0) mod W = 0" using a0(1) by simp
  then have s0: "uint s0 = 0" using u64_bounds [of s0] by simp
  have "ev5 t + uint q * M = (uint t0 + uint r0) + W * ((uint t1 + uint r1) + W * ((uint t2 + uint r2)
      + W * ((uint t3 + uint r3) + W * (uint t4 + uint r4))))"
    unfolding t row [symmetric] ev5.simps by (simp only: distrib_left add_ac)
  also have "\<dots> = W * (ev4 u + R * uint c)"
    unfolding chain5 [OF a0(1) a1(1) a2(1) a3(1) a4(1)] s0 u ev4.simps R_def by (simp only: distrib_left add_ac mult_ac add_0)
  finally show "\<exists>q\<ge>0. q < W \<and> W * (ev4 u + R * uint c) = ev5 t + q * M"
    using u64_bounds [of q] by (intro exI [of _ "uint q"]) simp
  show "uint c \<le> 1" using a4(2) u by simp
qed

lemma condSub_law:
  assumes "ev4 t + R * uint t4 < 2 * M" "uint t4 \<le> 1"
  shows "ev4 (condSub C t t4) = (ev4 t + R * uint t4) mod M"
proof -
  obtain t0 t1 t2 t3 where t: "t = (t0, t1, t2, t3)" by (cases t)
  obtain m0 m1 m2 m3 where m: "mc_m C = (m0, m1, m2, m3)" by (cases "mc_m C")
  obtain d0 b0 where 0: "Sub64 t0 m0 0 = (d0, b0)" by fastforce
  obtain d1 b1 where 1: "Sub64 t1 m1 b0 = (d1, b1)" by fastforce
  obtain d2 b2 where 2: "Sub64 t2 m2 b1 = (d2, b2)" by fastforce
  obtain d3 b3 where 3: "Sub64 t3 m3 b2 = (d3, b3)" by fastforce
  obtain d4 b4 where 4: "Sub64 t4 0 b3 = (d4, b4)" by fastforce
  note d = Sub64_chain [OF 0 1 2 3, folded t m]
  note l4 = Sub64_law [OF 4 d(2), simplified]
  have c: "condSub C t t4 = (if b4 = 0 then (d0, d1, d2, d3) else t)"
    using l4(2) by (simp add: t m 0 1 2 3 4 cmovznz)
  note bd = ev4_bounds [of "(d0, d1, d2, d3)"] ev4_bounds [of t] ev4_bounds [of "mc_m C"]
  have mod: "T mod M = (if T < M then T else T - M)" if "0 \<le> T" "T < 2 * M" for T
    using that mod_pos_pos_trivial [of "T - M" M] by simp
  have b4: "b4 = 0 \<longleftrightarrow> uint b3 \<le> uint t4" using 4 by (auto simp: Sub64_def split: if_splits)
  show ?thesis
  proof (cases "uint t4 = 0")
    case True
    then show ?thesis
      using d bd b4 c mod [of "ev4 t"] assms(1) small_word [OF d(2)] by (auto split: if_splits)
  next
    case False
    then have t4: "uint t4 = 1" using assms(2) u64_bounds [of t4] by linarith
    have "uint b3 = 1"
    proof (rule ccontr)
      assume "uint b3 \<noteq> 1"
      then have "uint b3 = 0" using d(2) u64_bounds [of b3] by linarith
      then show False using d(1) bd assms(1) t4 by simp
    qed
    then show ?thesis
      using d bd b4 c mod [of "ev4 t + R"] assms(1) t4 by auto
  qed
qed

lemma radix: "T mod M = A * ri mod M" if "R * T mod M = A mod M"
proof -
  have "T mod M = (R * ri mod M) * T mod M" using radix_inv by simp
  also have "\<dots> = ri * (R * T mod M) mod M" by (simp add: mod_simps algebra_simps)
  also have "\<dots> = ri * (A mod M) mod M" using that by simp
  finally show ?thesis by (simp add: mod_simps algebra_simps)
qed

lemma val_less: "0 \<le> val a" "val a < M"
  using M_pos by (simp_all add: val_def)

lemma mulRound_law:
  assumes "mulRound C (t, x) a b = (u, y)" "ev4 t + R * uint x < M + ev4 b" "uint x \<le> 1" "ev4 b < M"
  shows "\<exists>q\<ge>0. q < W \<and> W * (ev4 u + R * uint y) = ev4 t + R * uint x + uint a * ev4 b + q * M"
    "ev4 u + R * uint y < M + ev4 b" "uint y \<le> 1"
proof -
  obtain t0 t1 t2 t3 where t: "t = (t0, t1, t2, t3)" by (cases t)
  obtain s c where s: "addRow (t0, t1, t2, t3, x) (mulRow a b) = (s, c)" by fastforce
  obtain v d where v: "reduceRow C s = (v, d)" by fastforce
  have e: "ev5 (t0, t1, t2, t3, x) = ev4 t + R * uint x" by (simp add: t R_def algebra_simps)
  note as = addRow_law [OF s, unfolded mulRow_law e]
  from reduceRow_law [OF v] obtain q where q: "0 \<le> q" "q < W" "W * (ev4 v + R * uint d) = ev5 s + q * M" and d: "uint d \<le> 1" by blast
  have u: "u = v" "y = d + c" using assms(1) by (simp_all add: t s v)
  have y: "uint y = uint d + uint c"
    unfolding u uint_plus64 using d as(2) u64_bounds [of c] u64_bounds [of d] W_def by simp
  have W: "W * (ev4 u + R * uint y) = ev4 t + R * uint x + uint a * ev4 b + q * M"
    unfolding y u(1) using q(3) as(1) by (simp add: algebra_simps)
  then show "\<exists>q\<ge>0. q < W \<and> W * (ev4 u + R * uint y) = ev4 t + R * uint x + uint a * ev4 b + q * M" using q by blast
  have "uint a * ev4 b \<le> (W - 1) * ev4 b" "q * M \<le> (W - 1) * M"
    using u64_bounds [of a] q ev4_bounds [of b] M_pos by (auto intro!: mult_right_mono)
  with W assms(2) have "W * (ev4 u + R * uint y) < W * (M + ev4 b)" by (simp add: algebra_simps)
  then show less: "ev4 u + R * uint y < M + ev4 b" using W_pos by simp
  have "R * uint y < 2 * R" using less assms(4) ev4_bounds [of u] ev4_bounds [of "mc_m C"] by linarith
  then have "uint y < 2" using W_pos by (simp add: R_def)
  then show "uint y \<le> 1" by simp
qed

lemma fiat_Mul_law:
  assumes "ev4 b < M"
  shows "ev4 (fiat_Mul C a b) = ev4 a * ev4 b * ri mod M"
proof -
  obtain a0 a1 a2 a3 where a: "a = (a0, a1, a2, a3)" by (cases a)
  obtain t1 x1 where 1: "reduceRow C (mulRow a0 b) = (t1, x1)" by fastforce
  obtain t2 x2 where 2: "mulRound C (t1, x1) a1 b = (t2, x2)" by fastforce
  obtain t3 x3 where 3: "mulRound C (t2, x2) a2 b = (t3, x3)" by fastforce
  obtain t4 x4 where 4: "mulRound C (t3, x3) a3 b = (t4, x4)" by fastforce
  from reduceRow_law [OF 1, unfolded mulRow_law] obtain q1 where
    q1: "0 \<le> q1" "q1 < W" "W * (ev4 t1 + R * uint x1) = uint a0 * ev4 b + q1 * M" and b1: "uint x1 \<le> 1" by blast
  have "uint a0 * ev4 b \<le> (W - 1) * ev4 b" "q1 * M \<le> (W - 1) * M"
    using u64_bounds [of a0] q1 ev4_bounds [of b] M_pos by (auto intro!: mult_right_mono)
  with q1(3) ev4_bounds [of b] M_pos have "W * (ev4 t1 + R * uint x1) < W * (M + ev4 b)" by (simp add: algebra_simps)
  then have l1: "ev4 t1 + R * uint x1 < M + ev4 b" using W_pos by simp
  note r2 = mulRound_law [OF 2 l1 b1 assms]
  note r3 = mulRound_law [OF 3 r2(2,3) assms]
  note r4 = mulRound_law [OF 4 r3(2,3) assms]
  from r2(1) r3(1) r4(1) obtain q2 q3 q4 where
    q: "W * (ev4 t2 + R * uint x2) = ev4 t1 + R * uint x1 + uint a1 * ev4 b + q2 * M"
      "W * (ev4 t3 + R * uint x3) = ev4 t2 + R * uint x2 + uint a2 * ev4 b + q3 * M"
      "W * (ev4 t4 + R * uint x4) = ev4 t3 + R * uint x3 + uint a3 * ev4 b + q4 * M" by blast
  let ?T = "ev4 t4 + R * uint x4"
  have "R * ?T = W * (W * (W * (W * ?T)))" by (simp add: R_def)
  also have "\<dots> = ev4 a * ev4 b + M * (q1 + W * (q2 + W * (q3 + W * q4)))"
    unfolding a ev4.simps by (rule rounds [OF q1(3) q])
  finally have "R * ?T mod M = ev4 a * ev4 b mod M" by simp
  from radix [OF this] have "?T mod M = ev4 a * ev4 b * ri mod M" .
  moreover have "ev4 (condSub C t4 x4) = ?T mod M"
    using r4(2,3) assms by (intro condSub_law) linarith+
  ultimately show ?thesis by (simp add: a 1 2 3 4)
qed

lemma fromRound_law:
  assumes "fromRound C (t, x) a = (u, y)" "ev4 t + R * uint x \<le> M" "uint x \<le> 1"
  shows "\<exists>q\<ge>0. q < W \<and> W * (ev4 u + R * uint y) = ev4 t + R * uint x + uint a * 1 + q * M"
    "ev4 u + R * uint y \<le> M" "uint y \<le> 1"
proof -
  obtain t0 t1 t2 t3 where t: "t = (t0, t1, t2, t3)" by (cases t)
  obtain s0 c0 where 0: "Add64 t0 a 0 = (s0, c0)" by fastforce
  obtain s1 c1 where 1: "Add64 t1 0 c0 = (s1, c1)" by fastforce
  obtain s2 c2 where 2: "Add64 t2 0 c1 = (s2, c2)" by fastforce
  obtain s3 c3 where 3: "Add64 t3 0 c2 = (s3, c3)" by fastforce
  note as = Add64_chain [OF 0 1 2 3]
  have u: "reduceRow C (s0, s1, s2, s3, c3 + x) = (u, y)" using assms(1) by (simp add: t 0 1 2 3)
  have y: "uint (c3 + x) = uint c3 + uint x"
    unfolding uint_plus64 using as(2) assms(3) u64_bounds [of c3] u64_bounds [of x] W_def by simp
  have e: "ev5 (s0, s1, s2, s3, c3 + x) = ev4 t + R * uint x + uint a"
    using as(1) by (simp add: t y R_def algebra_simps)
  from reduceRow_law [OF u, unfolded e] obtain q where q: "0 \<le> q" "q < W"
    "W * (ev4 u + R * uint y) = ev4 t + R * uint x + uint a + q * M" and "uint y \<le> 1" by blast
  then show "\<exists>q\<ge>0. q < W \<and> W * (ev4 u + R * uint y) = ev4 t + R * uint x + uint a * 1 + q * M" "uint y \<le> 1" by auto
  have "q * M \<le> (W - 1) * M" using q M_pos by (intro mult_right_mono) auto
  with q(3) assms(2) u64_bounds [of a] have "W * (ev4 u + R * uint y) < W * (M + 1)" by (simp add: algebra_simps)
  then show "ev4 u + R * uint y \<le> M" using W_pos by simp
qed

lemma fiat_FromMontgomery_law: "ev4 (fiat_FromMontgomery C a) = val a"
proof -
  obtain a0 a1 a2 a3 where a: "a = (a0, a1, a2, a3)" by (cases a)
  obtain t1 x1 where 1: "reduceRow C (a0, 0, 0, 0, 0) = (t1, x1)" by fastforce
  obtain t2 x2 where 2: "fromRound C (t1, x1) a1 = (t2, x2)" by fastforce
  obtain t3 x3 where 3: "fromRound C (t2, x2) a2 = (t3, x3)" by fastforce
  obtain t4 x4 where 4: "fromRound C (t3, x3) a3 = (t4, x4)" by fastforce
  from reduceRow_law [OF 1] obtain q1 where
    q1: "0 \<le> q1" "q1 < W" "W * (ev4 t1 + R * uint x1) = uint a0 * 1 + q1 * M" and b1: "uint x1 \<le> 1" by auto
  have "q1 * M \<le> (W - 1) * M" using q1 M_pos by (intro mult_right_mono) auto
  with q1(3) u64_bounds [of a0] M_pos have "W * (ev4 t1 + R * uint x1) < W * (M + 1)" by (simp add: algebra_simps)
  then have l1: "ev4 t1 + R * uint x1 \<le> M" using W_pos by simp
  note r2 = fromRound_law [OF 2 l1 b1]
  note r3 = fromRound_law [OF 3 r2(2,3)]
  note r4 = fromRound_law [OF 4 r3(2,3)]
  from r2(1) r3(1) r4(1) obtain q2 q3 q4 where
    q: "W * (ev4 t2 + R * uint x2) = ev4 t1 + R * uint x1 + uint a1 * 1 + q2 * M"
      "W * (ev4 t3 + R * uint x3) = ev4 t2 + R * uint x2 + uint a2 * 1 + q3 * M"
      "W * (ev4 t4 + R * uint x4) = ev4 t3 + R * uint x3 + uint a3 * 1 + q4 * M" by blast
  let ?T = "ev4 t4 + R * uint x4"
  have "R * ?T = W * (W * (W * (W * ?T)))" by (simp add: R_def)
  also have "\<dots> = ev4 a * 1 + M * (q1 + W * (q2 + W * (q3 + W * q4)))"
    unfolding a ev4.simps by (rule rounds [OF q1(3) q])
  finally have "R * ?T mod M = ev4 a mod M" by simp
  from radix [OF this] have "?T mod M = val a" by (simp add: val_def)
  moreover have "ev4 (condSub C t4 x4) = ?T mod M"
    using r4(2,3) M_pos by (intro condSub_law) linarith+
  ultimately show ?thesis by (simp add: a 1 2 3 4 del: reduceRow.simps condSub.simps fromRound.simps ev4.simps)
qed

lemma fiat_Add_law:
  assumes "ev4 a < M" "ev4 b < M"
  shows "ev4 (fiat_Add C a b) = (ev4 a + ev4 b) mod M"
proof -
  obtain a0 a1 a2 a3 where a: "a = (a0, a1, a2, a3)" by (cases a)
  obtain b0 b1 b2 b3 where b: "b = (b0, b1, b2, b3)" by (cases b)
  obtain s0 c0 where 0: "Add64 a0 b0 0 = (s0, c0)" by fastforce
  obtain s1 c1 where 1: "Add64 a1 b1 c0 = (s1, c1)" by fastforce
  obtain s2 c2 where 2: "Add64 a2 b2 c1 = (s2, c2)" by fastforce
  obtain s3 c3 where 3: "Add64 a3 b3 c2 = (s3, c3)" by fastforce
  note as = Add64_chain [OF 0 1 2 3, folded a b]
  have "ev4 (condSub C (s0, s1, s2, s3) c3) = (ev4 (s0, s1, s2, s3) + R * uint c3) mod M"
    using as assms by (intro condSub_law) linarith+
  with as show ?thesis by (simp add: a b 0 1 2 3 del: ev4.simps condSub.simps)
qed

lemma fiat_Sub_law:
  assumes "ev4 a < M" "ev4 b < M"
  shows "ev4 (fiat_Sub C a b) = (ev4 a - ev4 b) mod M"
proof -
  obtain a0 a1 a2 a3 where a: "a = (a0, a1, a2, a3)" by (cases a)
  obtain b0 b1 b2 b3 where b: "b = (b0, b1, b2, b3)" by (cases b)
  obtain m0 m1 m2 m3 where m: "mc_m C = (m0, m1, m2, m3)" by (cases "mc_m C")
  obtain s0 c0 where 0: "Sub64 a0 b0 0 = (s0, c0)" by fastforce
  obtain s1 c1 where 1: "Sub64 a1 b1 c0 = (s1, c1)" by fastforce
  obtain s2 c2 where 2: "Sub64 a2 b2 c1 = (s2, c2)" by fastforce
  obtain s3 c3 where 3: "Sub64 a3 b3 c2 = (s3, c3)" by fastforce
  let ?x = "cmovznzU64 c3 0 0xffffffffffffffff"
  obtain d0 e0 where 4: "Add64 s0 (?x AND m0) 0 = (d0, e0)" by fastforce
  obtain d1 e1 where 5: "Add64 s1 (?x AND m1) e0 = (d1, e1)" by fastforce
  obtain d2 e2 where 6: "Add64 s2 (?x AND m2) e1 = (d2, e2)" by fastforce
  obtain d3 e3 where 7: "Add64 s3 (?x AND m3) e2 = (d3, e3)" by fastforce
  note s = Sub64_chain [OF 0 1 2 3, folded a b]
  note d = Add64_chain [OF 4 5 6 7]
  have ones: "(0xffffffffffffffff :: u64) = - 1" by simp
  have x: "?x = (if c3 = 0 then 0 else - 1)" using cmovznz [OF s(2), of 0 "- 1"] unfolding ones by simp
  have mm: "ev4 (?x AND m0, ?x AND m1, ?x AND m2, ?x AND m3) = (if c3 = 0 then 0 else M)"
    unfolding x by (simp add: m)
  have f: "fiat_Sub C a b = (d0, d1, d2, d3)" by (simp add: a b m 0 1 2 3 4 5 6 7)
  note bd = ev4_bounds [of "(s0, s1, s2, s3)"] ev4_bounds [of "(d0, d1, d2, d3)"] ev4_bounds [of a] ev4_bounds [of b]
    ev4_bounds [of "mc_m C"]
  note c3 = small_word [OF s(2)] note e3 = small_word [OF d(2)]
  show ?thesis
  proof (cases "c3 = 0")
    case True
    then have p: "ev4 (s0, s1, s2, s3) = ev4 a - ev4 b" using s c3 by simp
    have "ev4 (d0, d1, d2, d3) + R * uint e3 = ev4 a - ev4 b" using d(1) mm True p by simp
    with e3 bd have "ev4 (d0, d1, d2, d3) = ev4 a - ev4 b" by (auto split: if_splits)
    moreover from this bd assms have "(ev4 a - ev4 b) mod M = ev4 a - ev4 b" by (intro mod_pos_pos_trivial) linarith+
    ultimately show ?thesis by (simp only: f)
  next
    case False
    then have p: "ev4 (s0, s1, s2, s3) = ev4 a - ev4 b + R" using s c3 by simp
    then have n: "ev4 a - ev4 b < 0" using bd by linarith
    have "ev4 (d0, d1, d2, d3) + R * uint e3 = ev4 a - ev4 b + R + M" using d(1) mm False p by simp
    with e3 bd n assms have "ev4 (d0, d1, d2, d3) = ev4 a - ev4 b + M" by (auto split: if_splits)
    moreover have "(ev4 a - ev4 b) mod M = (ev4 a - ev4 b + M) mod M" by simp
    moreover have "(ev4 a - ev4 b + M) mod M = ev4 a - ev4 b + M" using n bd assms by (intro mod_pos_pos_trivial) linarith+
    ultimately show ?thesis by (simp only: f)
  qed
qed

lemma val_Mul: "ev4 b < M \<Longrightarrow> val (fiat_Mul C a b) = val a * val b mod M"
proof -
  assume "ev4 b < M"
  then have "val (fiat_Mul C a b) = (ev4 a * ri) * (ev4 b * ri) mod M"
    by (simp add: val_def fiat_Mul_law mod_mult_left_eq) (simp add: ac_simps)
  then show ?thesis by (simp only: val_def mod_mult_eq)
qed

lemma val_Add: "ev4 a < M \<Longrightarrow> ev4 b < M \<Longrightarrow> val (fiat_Add C a b) = (val a + val b) mod M"
  by (simp add: val_def fiat_Add_law mod_simps algebra_simps)

lemma val_Sub: "ev4 a < M \<Longrightarrow> ev4 b < M \<Longrightarrow> val (fiat_Sub C a b) = (val a - val b) mod M"
  by (simp add: val_def fiat_Sub_law mod_simps algebra_simps)

lemma val_Opp: "ev4 a < M \<Longrightarrow> val (fiat_Opp C a) = - val a mod M"
  using val_Sub [of "(0, 0, 0, 0)" a] M_pos by (simp add: fiat_Opp_def val_def)

lemma fiat_less:
  "ev4 b < M \<Longrightarrow> ev4 (fiat_Mul C a b) < M"
  "ev4 a < M \<Longrightarrow> ev4 b < M \<Longrightarrow> ev4 (fiat_Add C a b) < M"
  "ev4 a < M \<Longrightarrow> ev4 b < M \<Longrightarrow> ev4 (fiat_Sub C a b) < M"
  "ev4 b < M \<Longrightarrow> ev4 (fiat_Opp C b) < M"
  "ev4 (fiat_FromMontgomery C a) < M"
  using M_pos by (simp_all add: fiat_Mul_law fiat_Add_law fiat_Sub_law fiat_Opp_def fiat_FromMontgomery_law val_less)

lemma val_back: "R * val a mod M = ev4 a mod M"
proof -
  have "R * val a mod M = (R * ri mod M) * ev4 a mod M" by (simp add: val_def mod_simps ac_simps)
  then show ?thesis by (simp add: radix_inv)
qed

lemma val_inject: "ev4 a < M \<Longrightarrow> ev4 b < M \<Longrightarrow> val a = val b \<longleftrightarrow> a = b"
  using val_back [of a] val_back [of b] ev4_bounds [of a] ev4_bounds [of b] by (metis ev4_inject mod_pos_pos_trivial)

lemma val_zero: "ev4 a < M \<Longrightarrow> fiat_Nonzero a = 0 \<longleftrightarrow> val a = 0"
proof -
  assume a: "ev4 a < M"
  have "fiat_Nonzero a = 0 \<longleftrightarrow> a = (0, 0, 0, 0)"
    by (cases a) (auto simp: fiat_Nonzero_def or_eq_0_iff)
  also have "\<dots> \<longleftrightarrow> val a = val (0, 0, 0, 0)" using a M_pos by (simp add: val_inject)
  finally show ?thesis by (simp add: val_def)
qed

lemma val_one: "ev4 a = R mod M \<Longrightarrow> val a = 1"
  using radix_inv by (simp add: val_def mod_simps)

end

locale montgomery_in = montgomery +
  fixes row :: "u64 \<Rightarrow> u64 \<times> u64 \<times> u64 \<times> u64 \<times> u64" and r2 :: int
  assumes row_law: "ev5 (row a) = uint a * r2"
    and r2_square: "r2 = R * R mod ev4 (mc_m C)"
    and r2_room: "W * r2 \<le> R * (W - 3)"
begin

lemma r2_bounds: "0 \<le> r2" "r2 < M"
  using M_pos by (simp_all add: r2_square)

lemma toRound_law:
  assumes "toRound C (t, x) (row a) = (u, y)" "ev4 t + R * uint x < M + r2" "uint x \<le> 1"
  shows "\<exists>q\<ge>0. q < W \<and> W * (ev4 u + R * uint y) = ev4 t + R * uint x + uint a * r2 + q * M"
    "ev4 u + R * uint y < M + r2" "uint y \<le> 1"
proof -
  obtain t0 t1 t2 t3 where t: "t = (t0, t1, t2, t3)" by (cases t)
  obtain r0 r1 r2' r3 r4 where r: "row a = (r0, r1, r2', r3, r4)" by (cases "row a")
  obtain s0 c0 where 0: "Add64 t0 r0 0 = (s0, c0)" by fastforce
  obtain s1 c1 where 1: "Add64 t1 r1 c0 = (s1, c1)" by fastforce
  obtain s2 c2 where 2: "Add64 t2 r2' c1 = (s2, c2)" by fastforce
  obtain s3 c3 where 3: "Add64 t3 r3 c2 = (s3, c3)" by fastforce
  note as = Add64_chain [OF 0 1 2 3]
  have u: "reduceRow C (s0, s1, s2, s3, (c3 + x) + r4) = (u, y)"
    using assms(1) by (simp add: t r 0 1 2 3 del: reduceRow.simps)
  have e: "uint a * r2 = ev4 (r0, r1, r2', r3) + R * uint r4"
    using row_law [of a] by (simp add: r R_def algebra_simps)
  have a: "uint a * r2 \<le> (W - 1) * r2" using u64_bounds [of a] r2_bounds by (intro mult_right_mono) auto
  have "R * uint r4 \<le> W * r2" using a e ev4_bounds [of "(r0, r1, r2', r3)"] r2_bounds by (simp add: algebra_simps)
  then have "R * uint r4 \<le> R * (W - 3)" using r2_room by linarith
  then have r4: "uint r4 \<le> W - 3" using W_pos by (simp add: R_def)
  have y: "uint ((c3 + x) + r4) = uint c3 + uint x + uint r4"
    unfolding uint_plus64 mod_add_left_eq
    by (rule mod_pos_pos_trivial) (use as(2) assms(3) r4 u64_bounds [of c3] u64_bounds [of x] u64_bounds [of r4] in linarith)+
  have "ev5 (s0, s1, s2, s3, (c3 + x) + r4) = ev4 (s0, s1, s2, s3) + R * uint c3 + R * uint x + R * uint r4"
    unfolding ev5.simps ev4.simps y R_def by (simp add: algebra_simps)
  then have v: "ev5 (s0, s1, s2, s3, (c3 + x) + r4) = ev4 t + R * uint x + uint a * r2"
    using as(1) e unfolding t by linarith
  from reduceRow_law [OF u, unfolded v] obtain q where q: "0 \<le> q" "q < W"
    "W * (ev4 u + R * uint y) = ev4 t + R * uint x + uint a * r2 + q * M" and "uint y \<le> 1" by blast
  then show "\<exists>q\<ge>0. q < W \<and> W * (ev4 u + R * uint y) = ev4 t + R * uint x + uint a * r2 + q * M" "uint y \<le> 1" by auto
  have "q * M \<le> (W - 1) * M" using q M_pos by (intro mult_right_mono) auto
  with q(3) a assms(2) have "W * (ev4 u + R * uint y) < W * (M + r2)" by (simp add: algebra_simps)
  then show "ev4 u + R * uint y < M + r2" using W_pos by simp
qed

lemma toMontgomery_law: "ev4 (toMontgomery C row a) = ev4 a * R mod M"
proof -
  obtain a0 a1 a2 a3 where a: "a = (a0, a1, a2, a3)" by (cases a)
  obtain t1 x1 where 1: "reduceRow C (row a0) = (t1, x1)" by fastforce
  obtain t2 x2 where 2: "toRound C (t1, x1) (row a1) = (t2, x2)" by fastforce
  obtain t3 x3 where 3: "toRound C (t2, x2) (row a2) = (t3, x3)" by fastforce
  obtain t4 x4 where 4: "toRound C (t3, x3) (row a3) = (t4, x4)" by fastforce
  from reduceRow_law [OF 1, unfolded row_law] obtain q1 where
    q1: "0 \<le> q1" "q1 < W" "W * (ev4 t1 + R * uint x1) = uint a0 * r2 + q1 * M" and b1: "uint x1 \<le> 1" by blast
  have "q1 * M \<le> (W - 1) * M" "uint a0 * r2 \<le> (W - 1) * r2"
    using q1 M_pos r2_bounds u64_bounds [of a0] by (auto intro!: mult_right_mono)
  with q1(3) M_pos r2_bounds have "W * (ev4 t1 + R * uint x1) < W * (M + r2)" by (simp add: algebra_simps)
  then have l1: "ev4 t1 + R * uint x1 < M + r2" using W_pos by simp
  note s2 = toRound_law [OF 2 l1 b1]
  note s3 = toRound_law [OF 3 s2(2,3)]
  note s4 = toRound_law [OF 4 s3(2,3)]
  from s2(1) s3(1) s4(1) obtain q2 q3 q4 where
    q: "W * (ev4 t2 + R * uint x2) = ev4 t1 + R * uint x1 + uint a1 * r2 + q2 * M"
      "W * (ev4 t3 + R * uint x3) = ev4 t2 + R * uint x2 + uint a2 * r2 + q3 * M"
      "W * (ev4 t4 + R * uint x4) = ev4 t3 + R * uint x3 + uint a3 * r2 + q4 * M" by blast
  let ?T = "ev4 t4 + R * uint x4"
  have "R * ?T = W * (W * (W * (W * ?T)))" by (simp add: R_def)
  also have "\<dots> = ev4 a * r2 + M * (q1 + W * (q2 + W * (q3 + W * q4)))"
    unfolding a ev4.simps by (rule rounds [OF q1(3) q])
  finally have "R * ?T mod M = ev4 a * r2 mod M" by simp
  also have "\<dots> = R * (ev4 a * R) mod M" by (simp add: r2_square mod_simps ac_simps)
  finally have "R * ?T mod M = R * (ev4 a * R) mod M" .
  from radix [OF this] have "?T mod M = (R * ri) * (ev4 a * R) mod M" by (simp add: ac_simps)
  also have "\<dots> = (R * ri mod M) * (ev4 a * R) mod M" by (simp only: mod_mult_left_eq)
  finally have "?T mod M = ev4 a * R mod M" by (simp add: radix_inv)
  moreover have "ev4 (condSub C t4 x4) = ?T mod M"
    using s4(2,3) r2_bounds by (intro condSub_law) linarith+
  ultimately show ?thesis by (simp add: a 1 2 3 4 del: reduceRow.simps condSub.simps toRound.simps ev4.simps)
qed

lemma val_toMontgomery: "val (toMontgomery C row a) = ev4 a mod M"
proof -
  have "val (toMontgomery C row a) = ev4 a * (R * ri mod M) mod M"
    by (simp only: val_def toMontgomery_law mod_mult_left_eq mod_mult_right_eq mult.assoc)
  then show ?thesis by (simp add: radix_inv)
qed

end

section \<open>The two packages: constants\<close>

text \<open>
  The constants as numbers, the group order and the field prime, with the quotients that show the congruences
  between them.
\<close>

definition orderN :: int where
  "orderN = 115792089237316195423570985008687907852837564279074904382605163141518161494337"

definition primeP :: int where
  "primeP = 115792089237316195423570985008687907853269984665640564039457584007908834671663"

lemma R_numeral: "R = 115792089237316195423570985008687907853269984665640564039457584007913129639936"
  by (simp add: R_def W_def)

lemma W_numeral: "W = 18446744073709551616"
  by (simp add: W_def)

lemma ev4_numeral:
  "ev4 (a0, a1, a2, a3) = uint a0 + uint a1 * 18446744073709551616 + uint a2 * 340282366920938463463374607431768211456 + uint a3 * 6277101735386680763835789423207666416102355444464034512896"
  by (simp add: W_def algebra_simps)

lemma ev4_scalar [simp]: "ev4 (mc_m scalarC) = orderN"
  by (simp only: scalarC_def mont.simps ev4_numeral orderN_def) simp

lemma ev4_field [simp]: "ev4 (mc_m fieldC) = primeP"
  by (simp only: fieldC_def mont.simps ev4_numeral primeP_def) simp

lemma modulo_witness: "(a :: int) = r + k * m \<Longrightarrow> 0 \<le> r \<Longrightarrow> r < m \<Longrightarrow> a mod m = r"
  by simp

definition scalarRi :: int where
  "scalarRi = 98562742561918706241446412617699626731164144128788972284189895985653995782166"

definition scalarR2 :: int where
  "scalarR2 = 71195301480278335217902614543643724933430614355449737089222010364394701574464"

lemma scalar_neg_inv: "(uint (mc_inv scalarC) * orderN + 1) mod W = 0"
proof (rule modulo_witness)
  show "uint (mc_inv scalarC) * orderN + 1 = 0 + 33948195359827866537682474845950073316223388546971052506426809744093962168028 * W"
    by (simp add: scalarC_def orderN_def W_numeral)
qed (simp_all add: W_numeral)

lemma scalar_radix_inv: "R * scalarRi mod orderN = 1"
proof (rule modulo_witness)
  show "R * scalarRi = 1 + 98562742561918706241446412617699626731532222289571144322335133855687966765375 * orderN"
    by (simp only: orderN_def R_numeral scalarRi_def arith_simps)
qed (simp_all add: orderN_def)

lemma scalar_square: "scalarR2 = R * R mod orderN"
proof (rule modulo_witness [symmetric])
  show "R * R = scalarR2 + 115792089237316195423570985008687907853702405052206223696310004874308097785536 * orderN"
    by (simp only: orderN_def R_numeral scalarR2_def arith_simps)
qed (simp_all add: orderN_def scalarR2_def)

definition fieldRi :: int where
  "fieldRi = 91248989341183975618893650062416139444822672217621753343178995607984094583082"

definition fieldR2 :: int where
  "fieldR2 = 18446752466076602529"

lemma field_neg_inv: "(uint (mc_inv fieldC) * primeP + 1) mod W = 0"
proof (rule modulo_witness)
  show "uint (mc_inv fieldC) * primeP + 1 = 0 + 97798581649299591516383885342152904135335272353249846763749256112567415731113 * W"
    by (simp add: fieldC_def primeP_def W_numeral)
qed (simp_all add: W_numeral)

lemma field_radix_inv: "R * fieldRi mod primeP = 1"
proof (rule modulo_witness)
  show "R * fieldRi = 1 + 91248989341183975618893650062416139444822672217621753343178995607987479196977 * primeP"
    by (simp only: primeP_def R_numeral fieldRi_def arith_simps)
qed (simp_all add: primeP_def)

lemma field_square: "fieldR2 = R * R mod primeP"
proof (rule modulo_witness [symmetric])
  show "R * R = fieldR2 + 115792089237316195423570985008687907853269984665640564039457584007917424608209 * primeP"
    by (simp only: primeP_def R_numeral fieldR2_def arith_simps)
qed (simp_all add: primeP_def fieldR2_def)

section \<open>The two packages: interpretations\<close>

lemma scalarRow_law: "ev5 (scalarRow a) = uint a * scalarR2"
  unfolding scalarRow_def mulRow_law ev4_numeral by (simp add: scalarR2_def)

lemma fieldRow_law: "ev5 (fieldRow a) = uint a * fieldR2"
proof -
  obtain x6 x5 where m: "Mul64 a 0x7a2000e90a1 = (x6, x5)" by fastforce
  obtain x7 x8 where s: "Add64 x6 a 0 = (x7, x8)" by fastforce
  have "ev5 (fieldRow a) = uint x5 + W * (uint x7 + W * uint x8)" by (simp add: fieldRow_def m s)
  also have "\<dots> = (W * uint x6 + uint x5) + W * uint a" using Add64_law(1) [OF s] by (simp add: algebra_simps)
  also have "\<dots> = uint a * fieldR2" using Mul64_law(1) [OF m] by (simp add: fieldR2_def W_numeral)
  finally show ?thesis .
qed

interpretation sc: montgomery_in scalarC scalarRi scalarRow scalarR2
proof
  show "(uint (mc_inv scalarC) * ev4 (mc_m scalarC) + 1) mod W = 0" using scalar_neg_inv by simp
  show "R * scalarRi mod ev4 (mc_m scalarC) = 1" using scalar_radix_inv by simp
  show "scalarR2 = R * R mod ev4 (mc_m scalarC)" using scalar_square by simp
  show "W * scalarR2 \<le> R * (W - 3)" by (simp add: R_numeral W_numeral scalarR2_def)
qed (rule scalarRow_law)

interpretation fe: montgomery_in fieldC fieldRi fieldRow fieldR2
proof
  show "(uint (mc_inv fieldC) * ev4 (mc_m fieldC) + 1) mod W = 0" using field_neg_inv by simp
  show "R * fieldRi mod ev4 (mc_m fieldC) = 1" using field_radix_inv by simp
  show "fieldR2 = R * R mod ev4 (mc_m fieldC)" using field_square by simp
  show "W * fieldR2 \<le> R * (W - 3)" by (simp add: R_numeral W_numeral fieldR2_def)
qed (rule fieldRow_law)

lemma scalar_SetOne_law: "ev4 scalar_SetOne = R mod orderN"
proof (rule modulo_witness [symmetric])
  show "R = ev4 scalar_SetOne + 1 * orderN"
    unfolding scalar_SetOne_def ev4_numeral by (simp add: R_numeral orderN_def)
qed (simp_all only: scalar_SetOne_def ev4_numeral orderN_def, simp_all)

lemma field_SetOne_law: "ev4 field_SetOne = R mod primeP"
proof (rule modulo_witness [symmetric])
  show "R = ev4 field_SetOne + 1 * primeP"
    unfolding field_SetOne_def ev4_numeral by (simp add: R_numeral primeP_def)
qed (simp_all only: field_SetOne_def ev4_numeral primeP_def, simp_all)

text \<open>The number that a Montgomery form of the scalar package represents.\<close>

definition scalarVal :: "limbs \<Rightarrow> int" where
  "scalarVal a = ev4 a * scalarRi mod orderN"

lemmas scalar_operations = scalar_Mul_def scalar_Square_def scalar_Add_def scalar_Sub_def scalar_Opp_def
  scalar_FromMontgomery_def scalar_ToMontgomery_def

lemma scalarVal_val: "scalarVal = sc.val"
  by (rule ext) (simp add: scalarVal_def sc.val_def)

text \<open>The number that a Montgomery form of the field package represents.\<close>

definition fieldVal :: "limbs \<Rightarrow> int" where
  "fieldVal a = ev4 a * fieldRi mod primeP"

lemmas field_operations = field_Mul_def field_Square_def field_Add_def field_Sub_def field_Opp_def
  field_FromMontgomery_def field_ToMontgomery_def

lemma fieldVal_val: "fieldVal = fe.val"
  by (rule ext) (simp add: fieldVal_def fe.val_def)

text \<open>
  C21: the word-level code of \<^verbatim>\<open>internal/fiat/secp256k1scalar\<close> refines arithmetic modulo the group order.  On reduced
  arguments every operation returns a reduced result; addition, subtraction, multiplication, squaring and negation
  are those operations modulo the group order on the numbers that the Montgomery forms represent; \<^verbatim>\<open>ToMontgomery\<close> and
  \<^verbatim>\<open>FromMontgomery\<close> convert between a number and its form, \<^verbatim>\<open>SetOne\<close> is one, \<^verbatim>\<open>Nonzero\<close> recognises zero, and a
  number has only one reduced form.
\<close>

theorem fiat_scalar_refines:
  assumes "ev4 a < orderN" "ev4 b < orderN"
  shows
    "ev4 (scalar_Add a b) < orderN \<and> scalarVal (scalar_Add a b) = (scalarVal a + scalarVal b) mod orderN \<and>
     ev4 (scalar_Sub a b) < orderN \<and> scalarVal (scalar_Sub a b) = (scalarVal a - scalarVal b) mod orderN \<and>
     ev4 (scalar_Mul a b) < orderN \<and> scalarVal (scalar_Mul a b) = scalarVal a * scalarVal b mod orderN \<and>
     ev4 (scalar_Square a) < orderN \<and> scalarVal (scalar_Square a) = scalarVal a * scalarVal a mod orderN \<and>
     ev4 (scalar_Opp a) < orderN \<and> scalarVal (scalar_Opp a) = - scalarVal a mod orderN \<and>
     ev4 (scalar_ToMontgomery a) < orderN \<and> scalarVal (scalar_ToMontgomery a) = ev4 a \<and>
     ev4 (scalar_FromMontgomery a) = scalarVal a \<and>
     ev4 scalar_SetOne < orderN \<and> scalarVal scalar_SetOne = 1 \<and>
     (fiat_Nonzero a = 0 \<longleftrightarrow> scalarVal a = 0) \<and> (scalarVal a = scalarVal b \<longleftrightarrow> a = b)"
  unfolding scalarVal_val scalar_operations fiat_Square_def scalar_SetOne_law
  using assms sc.M_pos sc.toMontgomery_law [of a] ev4_bounds [of a]
  by (simp add: sc.fiat_less [unfolded ev4_scalar] sc.val_Add sc.val_Sub sc.val_Mul sc.val_Opp sc.val_zero sc.val_inject sc.fiat_FromMontgomery_law
    sc.val_toMontgomery sc.val_one scalar_SetOne_law)

theorem fiat_scalar_refines_witness:
  "scalarVal (scalar_Sub scalar_SetOne (0, 0, 0, 0)) = (scalarVal scalar_SetOne - scalarVal (0, 0, 0, 0)) mod orderN"
proof -
  have "ev4 scalar_SetOne < orderN" by (simp only: scalar_SetOne_def ev4_numeral orderN_def) simp
  moreover have "ev4 (0, 0, 0, 0) < orderN" by (simp add: orderN_def)
  ultimately show ?thesis using fiat_scalar_refines by blast
qed

text \<open>
  C22: the word-level code of \<^verbatim>\<open>internal/fiat/secp256k1field\<close> refines arithmetic modulo the field prime.  On reduced
  arguments every operation returns a reduced result; addition, subtraction, multiplication, squaring and negation
  are those operations modulo the field prime on the numbers that the Montgomery forms represent; \<^verbatim>\<open>ToMontgomery\<close> and
  \<^verbatim>\<open>FromMontgomery\<close> convert between a number and its form, \<^verbatim>\<open>SetOne\<close> is one, \<^verbatim>\<open>Nonzero\<close> recognises zero, and a
  number has only one reduced form.
\<close>

theorem fiat_field_refines:
  assumes "ev4 a < primeP" "ev4 b < primeP"
  shows
    "ev4 (field_Add a b) < primeP \<and> fieldVal (field_Add a b) = (fieldVal a + fieldVal b) mod primeP \<and>
     ev4 (field_Sub a b) < primeP \<and> fieldVal (field_Sub a b) = (fieldVal a - fieldVal b) mod primeP \<and>
     ev4 (field_Mul a b) < primeP \<and> fieldVal (field_Mul a b) = fieldVal a * fieldVal b mod primeP \<and>
     ev4 (field_Square a) < primeP \<and> fieldVal (field_Square a) = fieldVal a * fieldVal a mod primeP \<and>
     ev4 (field_Opp a) < primeP \<and> fieldVal (field_Opp a) = - fieldVal a mod primeP \<and>
     ev4 (field_ToMontgomery a) < primeP \<and> fieldVal (field_ToMontgomery a) = ev4 a \<and>
     ev4 (field_FromMontgomery a) = fieldVal a \<and>
     ev4 field_SetOne < primeP \<and> fieldVal field_SetOne = 1 \<and>
     (fiat_Nonzero a = 0 \<longleftrightarrow> fieldVal a = 0) \<and> (fieldVal a = fieldVal b \<longleftrightarrow> a = b)"
  unfolding fieldVal_val field_operations fiat_Square_def field_SetOne_law
  using assms fe.M_pos fe.toMontgomery_law [of a] ev4_bounds [of a]
  by (simp add: fe.fiat_less [unfolded ev4_field] fe.val_Add fe.val_Sub fe.val_Mul fe.val_Opp fe.val_zero fe.val_inject fe.fiat_FromMontgomery_law
    fe.val_toMontgomery fe.val_one field_SetOne_law)

theorem fiat_field_refines_witness:
  "fieldVal (field_Sub field_SetOne (0, 0, 0, 0)) = (fieldVal field_SetOne - fieldVal (0, 0, 0, 0)) mod primeP"
proof -
  have "ev4 field_SetOne < primeP" by (simp only: field_SetOne_def ev4_numeral primeP_def) simp
  moreover have "ev4 (0, 0, 0, 0) < primeP" by (simp add: primeP_def)
  ultimately show ?thesis using fiat_field_refines by blast
qed

end
