(* ===== verification/Modular.thy ===== *)
theory Modular
  imports Stdlib
begin

text \<open>
  Arithmetic modulo a number, as an interface.  A representation of the residues (the Montgomery forms of
  \<^verbatim>\<open>internal/curve/secp256k1\<close>) provides the ring operations on well-formed values; what its clients need of them
  is proved here once: addition chains compute powers, Horner evaluation computes polynomials, and Lagrange
  coefficients recover the constant term.
\<close>

section \<open>Residues\<close>

text \<open>A polynomial is its list of coefficients, the constant term first.\<close>

primrec peval :: "int list \<Rightarrow> int \<Rightarrow> int" where
  "peval [] x = 0"
| "peval (c # cs) x = c + x * peval cs x"

locale modular =
  fixes n :: int and ok :: "'a \<Rightarrow> bool" and v :: "'a \<Rightarrow> int"
    and add sub mul :: "'a \<Rightarrow> 'a \<Rightarrow> 'a" and sq neg :: "'a \<Rightarrow> 'a" and zero one :: 'a
  assumes n_gt: "1 < n"
    and v_bounds: "ok a \<Longrightarrow> 0 \<le> v a" "ok a \<Longrightarrow> v a < n"
    and v_inject: "ok a \<Longrightarrow> ok b \<Longrightarrow> v a = v b \<longleftrightarrow> a = b"
    and ok_add: "ok a \<Longrightarrow> ok b \<Longrightarrow> ok (add a b)"
    and ok_sub: "ok a \<Longrightarrow> ok b \<Longrightarrow> ok (sub a b)"
    and ok_mul: "ok a \<Longrightarrow> ok b \<Longrightarrow> ok (mul a b)"
    and ok_sq: "ok a \<Longrightarrow> ok (sq a)"
    and ok_neg: "ok a \<Longrightarrow> ok (neg a)"
    and ok_zero: "ok zero" and ok_one: "ok one"
    and v_add: "ok a \<Longrightarrow> ok b \<Longrightarrow> v (add a b) = (v a + v b) mod n"
    and v_sub: "ok a \<Longrightarrow> ok b \<Longrightarrow> v (sub a b) = (v a - v b) mod n"
    and v_mul: "ok a \<Longrightarrow> ok b \<Longrightarrow> v (mul a b) = v a * v b mod n"
    and v_sq: "ok a \<Longrightarrow> v (sq a) = v a * v a mod n"
    and v_neg: "ok a \<Longrightarrow> v (neg a) = - v a mod n"
    and v_zero: "v zero = 0" and v_one: "v one = 1"
begin

lemmas ok_ops = ok_add ok_sub ok_mul ok_sq ok_neg ok_zero ok_one

lemmas v_ops = v_add v_sub v_mul v_sq v_neg v_zero v_one

lemma v_mod: "ok a \<Longrightarrow> v a mod n = v a"
  using v_bounds [of a] by simp

section \<open>Addition chains\<close>

text \<open>A value that is a known power of another; the rules follow the steps of an addition chain.\<close>

definition pw :: "'a \<Rightarrow> nat \<Rightarrow> 'a \<Rightarrow> bool" where
  "pw x e a \<longleftrightarrow> ok a \<and> v a = v x ^ e mod n"

lemma pw_self: "ok x \<Longrightarrow> pw x 1 x"
  by (simp add: pw_def v_mod)

lemma pw_mul: "pw x d a \<Longrightarrow> pw x e b \<Longrightarrow> pw x (d + e) (mul a b)"
  by (simp add: pw_def ok_mul v_mul mod_mult_eq power_add)

lemma pw_sq: "pw x e a \<Longrightarrow> pw x (2 * e) (sq a)"
  by (simp add: pw_def ok_sq v_sq mod_mult_eq mult_2 power_add)

lemma pw_sqs: "pw x e a \<Longrightarrow> pw x (2 ^ k * e) ((sq ^^ k) a)"
proof (induction k)
  case (Suc k)
  from pw_sq [OF Suc.IH [OF Suc.prems]] show ?case by (simp add: mult.assoc)
qed simp

lemma pw_let: "pw x d a \<Longrightarrow> (\<And>b. pw x d b \<Longrightarrow> pw x e (f b)) \<Longrightarrow> pw x e (let b = a in f b)"
  by (simp add: Let_def)

lemma pw_eq: "pw x d a \<Longrightarrow> d = e \<Longrightarrow> pw x e a"
  by simp

section \<open>Polynomials\<close>

lemma horner:
  assumes "ok x" "\<forall>c\<in>set cs. ok c"
  shows "ok (foldr (\<lambda>p acc. add (mul acc x) p) cs zero) \<and>
    v (foldr (\<lambda>p acc. add (mul acc x) p) cs zero) = peval (map v cs) (v x) mod n"
  using assms(2)
proof (induction cs)
  case (Cons c cs)
  then have ih: "ok (foldr (\<lambda>p acc. add (mul acc x) p) cs zero)"
    "v (foldr (\<lambda>p acc. add (mul acc x) p) cs zero) = peval (map v cs) (v x) mod n" by auto
  then show ?case using Cons.prems assms(1)
    by (simp add: ok_add ok_mul v_add v_mul mod_add_left_eq mod_mult_left_eq algebra_simps)
      (simp add: mod_add_left_eq mod_add_right_eq mod_mult_right_eq algebra_simps)
qed (simp add: ok_zero v_zero)

end

section \<open>Divided differences\<close>

text \<open>
  Lagrange interpolation over the integers modulo \<open>n\<close>, where \<open>iv\<close> gives inverses.  The divided difference of a
  polynomial over more points than it has coefficients vanishes; taken over zero and the points, that is the
  interpolation formula.
\<close>

locale modular_field =
  fixes n :: int and iv :: "int \<Rightarrow> int"
  assumes modulus: "1 < n" and inverse: "\<not> n dvd d \<Longrightarrow> n dvd d * iv d - 1"
begin

definition cg :: "int \<Rightarrow> int \<Rightarrow> bool" where
  "cg a b \<longleftrightarrow> n dvd a - b"

lemma cg_refl: "cg a a"
  by (simp add: cg_def)

lemma cg_sym: "cg a b \<Longrightarrow> cg b a"
  unfolding cg_def using dvd_diff_commute by blast

lemma cg_trans [trans]: "cg a b \<Longrightarrow> cg b c \<Longrightarrow> cg a c"
  unfolding cg_def using dvd_add [of n "a - b" "b - c"] by simp

lemma cg_add: "cg a b \<Longrightarrow> cg c d \<Longrightarrow> cg (a + c) (b + d)"
  unfolding cg_def using dvd_add [of n "a - b" "c - d"] by (simp add: algebra_simps)

lemma cg_diff: "cg a b \<Longrightarrow> cg c d \<Longrightarrow> cg (a - c) (b - d)"
  unfolding cg_def using dvd_diff [of n "a - b" "c - d"] by (simp add: algebra_simps)

lemma cg_minus: "cg a b \<Longrightarrow> cg (- a) (- b)"
  using cg_diff [OF cg_refl [of 0], of a b] by simp

lemma cg_mult: "cg a b \<Longrightarrow> cg c d \<Longrightarrow> cg (a * c) (b * d)"
  unfolding cg_def
  using dvd_add [OF dvd_mult2 [of n "a - b" c] dvd_mult [of n "c - d" b]] by (simp add: algebra_simps)

lemma cg_sum: "(\<And>i. i \<in> A \<Longrightarrow> cg (f i) (g i)) \<Longrightarrow> cg (sum f A) (sum g A)"
  by (induction A rule: infinite_finite_induct) (auto intro: cg_refl cg_add)

lemma cg_prod: "(\<And>i. i \<in> A \<Longrightarrow> cg (f i) (g i)) \<Longrightarrow> cg (prod f A) (prod g A)"
  by (induction A rule: infinite_finite_induct) (auto intro: cg_refl cg_mult)

lemma cg_mod: "cg (a mod n) a" "cg a (a mod n)"
  by (simp_all add: cg_def mod_eq_dvd_iff [symmetric])

lemma cg_iff: "cg a b \<longleftrightarrow> a mod n = b mod n"
  by (simp add: cg_def mod_eq_dvd_iff)

lemma cg_inverse: "\<not> cg d 0 \<Longrightarrow> cg (d * iv d) 1"
  using inverse by (simp add: cg_def)

lemma cg_cancel: "\<not> cg d 0 \<Longrightarrow> cg (d * a) (d * b) \<Longrightarrow> cg a b"
proof -
  assume d: "\<not> cg d 0" "cg (d * a) (d * b)"
  have "cg (1 * a) ((d * iv d) * a)" by (intro cg_mult cg_refl cg_sym [OF cg_inverse [OF d(1)]])
  also have "(d * iv d) * a = iv d * (d * a)" by simp
  also have "cg \<dots> (iv d * (d * b))" by (intro cg_mult cg_refl d(2))
  also have "iv d * (d * b) = (d * iv d) * b" by simp
  also have "cg \<dots> (1 * b)" by (intro cg_mult cg_refl cg_inverse [OF d(1)])
  finally show ?thesis by simp
qed

lemma cg_prod_zero: "finite A \<Longrightarrow> (\<And>i. i \<in> A \<Longrightarrow> \<not> cg (f i) 0) \<Longrightarrow> \<not> cg (prod f A) 0"
proof (induction A rule: finite_induct)
  case empty
  then show ?case using modulus by (simp add: cg_iff)
next
  case (insert a A)
  show ?case
  proof
    assume "cg (prod f (insert a A)) 0"
    then have "cg (f a * prod f A) (f a * 0)" using insert by simp
    then have "cg (prod f A) 0" using cg_cancel [of "f a"] insert.prems by blast
    with insert show False by auto
  qed
qed

text \<open>Points whose differences are invertible, the weight of a point, and the divided difference.\<close>

definition apart :: "int set \<Rightarrow> bool" where
  "apart S \<longleftrightarrow> finite S \<and> (\<forall>i\<in>S. \<forall>j\<in>S. i \<noteq> j \<longrightarrow> \<not> cg (j - i) 0)"

definition weight :: "int set \<Rightarrow> int \<Rightarrow> int" where
  "weight S i = (\<Prod>j\<in>S - {i}. iv (j - i))"

definition dd :: "int set \<Rightarrow> (int \<Rightarrow> int) \<Rightarrow> int" where
  "dd S f = (\<Sum>i\<in>S. weight S i * f i)"

lemma apart_subset: "apart S \<Longrightarrow> T \<subseteq> S \<Longrightarrow> apart T"
  unfolding apart_def by (meson finite_subset subsetD)

lemma weight_remove:
  assumes "apart S" "a \<in> S" "i \<in> S - {a}"
  shows "weight S i = iv (a - i) * weight (S - {a}) i"
proof -
  have "S - {i} = insert a (S - {a} - {i})" using assms by auto
  then show ?thesis using assms by (simp add: weight_def apart_def)
qed

lemma dd_step:
  assumes "apart S" "a \<in> S"
  shows "cg (dd S (\<lambda>x. x * f x)) (a * dd S f - dd (S - {a}) f)"
proof -
  have fin: "finite S" using assms by (simp add: apart_def)
  have "dd S (\<lambda>x. x * f x) - a * dd S f = (\<Sum>i\<in>S. weight S i * ((i - a) * f i))"
    unfolding dd_def sum_distrib_left sum_subtractf [symmetric] by (rule sum.cong) (simp_all add: algebra_simps)
  also have "\<dots> = (\<Sum>i\<in>S - {a}. weight S i * ((i - a) * f i))" using fin assms(2) by (simp add: sum.remove)
  also have "\<dots> = (\<Sum>i\<in>S - {a}. (iv (a - i) * weight (S - {a}) i) * ((i - a) * f i))"
    using assms by (intro sum.cong refl) (simp add: weight_remove)
  also have "cg \<dots> (\<Sum>i\<in>S - {a}. - (weight (S - {a}) i * f i))"
  proof (rule cg_sum)
    fix i assume i: "i \<in> S - {a}"
    have "(iv (a - i) * weight (S - {a}) i) * ((i - a) * f i) = ((a - i) * iv (a - i)) * - (weight (S - {a}) i * f i)"
      by (simp add: algebra_simps)
    moreover have "cg ((a - i) * iv (a - i)) 1" using assms i by (intro cg_inverse) (auto simp: apart_def)
    ultimately show "cg ((iv (a - i) * weight (S - {a}) i) * ((i - a) * f i)) (- (weight (S - {a}) i * f i))"
      using cg_mult [OF _ cg_refl] by (metis mult_1)
  qed
  also have "(\<Sum>i\<in>S - {a}. - (weight (S - {a}) i * f i)) = - dd (S - {a}) f" by (simp add: dd_def sum_negf)
  finally have "cg (a * dd S f + (dd S (\<lambda>x. x * f x) - a * dd S f)) (a * dd S f + - dd (S - {a}) f)"
    by (intro cg_add cg_refl)
  then show ?thesis by simp
qed

lemma dd_one:
  assumes "apart S" "2 \<le> card S"
  shows "cg (dd S (\<lambda>_. 1)) 0"
  using assms
proof (induction "card S" arbitrary: S rule: less_induct)
  case less
  have fin: "finite S" using less.prems by (simp add: apart_def)
  obtain a b where ab: "a \<in> S" "b \<in> S" "a \<noteq> b" using less.prems(2) by (metis card_le_Suc_iff insertCI numeral_2_eq_2)
  have "cg (a * dd S (\<lambda>_. 1) - dd (S - {a}) (\<lambda>_. 1)) (b * dd S (\<lambda>_. 1) - dd (S - {b}) (\<lambda>_. 1))"
    using cg_trans [OF cg_sym [OF dd_step [OF less.prems(1) ab(1), of "\<lambda>_. 1"]] dd_step [OF less.prems(1) ab(2), of "\<lambda>_. 1"]] .
  then have e: "cg ((a - b) * dd S (\<lambda>_. 1)) (dd (S - {a}) (\<lambda>_. 1) - dd (S - {b}) (\<lambda>_. 1))"
    by (simp add: cg_def algebra_simps)
  have "cg (dd (S - {a}) (\<lambda>_. 1) - dd (S - {b}) (\<lambda>_. 1)) 0"
  proof (cases "card S = 2")
    case True
    then have "S = {a, b}" using ab fin by (metis card_2_iff doubleton_eq_iff insertE singletonD)
    with ab show ?thesis by (auto simp: dd_def weight_def cg_def insert_Diff_if)
  next
    case False
    then have "cg (dd (S - {x}) (\<lambda>_. 1)) 0" if "x \<in> S" for x
      using that less.prems fin by (intro less.hyps apart_subset [OF less.prems(1)]) auto
    with cg_diff [of _ 0 _ 0] ab show ?thesis by fastforce
  qed
  with e have "cg ((a - b) * dd S (\<lambda>_. 1)) ((a - b) * 0)" using cg_trans by fastforce
  moreover have "\<not> cg (a - b) 0" using less.prems(1) ab by (auto simp: apart_def)
  ultimately show ?case using cg_cancel by blast
qed

lemma dd_peval:
  assumes "apart S" "length cs < card S"
  shows "cg (dd S (peval cs)) 0"
  using assms
proof (induction cs arbitrary: S)
  case Nil
  then show ?case by (simp add: dd_def cg_refl)
next
  case (Cons c cs)
  obtain a where a: "a \<in> S" using Cons.prems by fastforce
  have fin: "finite S" using Cons.prems by (simp add: apart_def)
  have "dd S (peval (c # cs)) = c * dd S (\<lambda>_. 1) + dd S (\<lambda>x. x * peval cs x)"
    unfolding dd_def sum_distrib_left sum.distrib [symmetric] by (rule sum.cong) (simp_all add: algebra_simps)
  also have "cg \<dots> (c * 0 + (a * dd S (peval cs) - dd (S - {a}) (peval cs)))"
    using Cons.prems by (intro cg_add cg_mult cg_refl dd_one dd_step a) auto
  also have "cg \<dots> (c * 0 + (a * 0 - 0))"
    using Cons.prems a fin by (intro cg_add cg_diff cg_mult cg_refl Cons.IH apart_subset [OF Cons.prems(1)]) auto
  finally show ?case by (simp only: mult_zero_right diff_0_right add_0_right)
qed

text \<open>The interpolation formula at zero.\<close>

lemma lagrange_zero:
  assumes "apart (insert 0 S)" "0 \<notin> S" "length cs \<le> card S"
  shows "cg (\<Sum>i\<in>S. peval cs i * (\<Prod>j\<in>S - {i}. j * iv (j - i))) (peval cs 0)"
proof -
  have fin: "finite S" using assms(1) by (simp add: apart_def)
  let ?Z = "insert 0 S" let ?P = "\<Prod>j\<in>S. j"
  have nz: "\<not> cg j 0" "\<not> cg (- j) 0" if "j \<in> S" for j using assms that by (auto simp: apart_def cg_def)
  have w: "cg (?P * (weight ?Z i * peval cs i)) (- (peval cs i * (\<Prod>j\<in>S - {i}. j * iv (j - i))))" if i: "i \<in> S" for i
  proof -
    have "weight ?Z i = iv (- i) * (\<Prod>j\<in>S - {i}. iv (j - i))"
      using weight_remove [OF assms(1), of 0 i] i assms(2) by (auto simp: weight_def)
    moreover have "?P = i * (\<Prod>j\<in>S - {i}. j)" using i fin by (simp add: prod.remove)
    ultimately have "?P * (weight ?Z i * peval cs i) = - (((- i) * iv (- i)) * (peval cs i * (\<Prod>j\<in>S - {i}. j * iv (j - i))))"
      by (simp add: prod.distrib algebra_simps)
    moreover have "cg (- (((- i) * iv (- i)) * (peval cs i * (\<Prod>j\<in>S - {i}. j * iv (j - i))))) (- (1 * (peval cs i * (\<Prod>j\<in>S - {i}. j * iv (j - i)))))"
      by (intro cg_minus cg_mult cg_refl cg_inverse nz i)
    ultimately show ?thesis by (simp only: mult_1)
  qed
  have "?P * weight ?Z 0 = (\<Prod>j\<in>S. j * iv j)"
    using assms(2) fin by (simp add: weight_def prod.distrib)
  also have "cg \<dots> (\<Prod>j\<in>S. 1)" by (intro cg_prod cg_inverse nz)
  finally have z: "cg (?P * weight ?Z 0) 1" by simp
  have d1: "cg (?P * dd ?Z (peval cs)) (?P * 0)"
    using assms fin by (intro cg_mult cg_refl dd_peval) auto
  have d2: "?P * dd ?Z (peval cs) = ?P * weight ?Z 0 * peval cs 0 + (\<Sum>i\<in>S. ?P * (weight ?Z i * peval cs i))"
    using assms(2) fin by (simp add: dd_def algebra_simps sum_distrib_left)
  have d3: "cg (?P * weight ?Z 0 * peval cs 0 + (\<Sum>i\<in>S. ?P * (weight ?Z i * peval cs i)))
      (1 * peval cs 0 + (\<Sum>i\<in>S. - (peval cs i * (\<Prod>j\<in>S - {i}. j * iv (j - i)))))"
    by (intro cg_add cg_mult z cg_refl cg_sum w)
  have "cg (1 * peval cs 0 + (\<Sum>i\<in>S. - (peval cs i * (\<Prod>j\<in>S - {i}. j * iv (j - i))))) (?P * 0)"
    by (rule cg_trans [OF cg_sym [OF d3] d1 [unfolded d2]])
  then show ?thesis unfolding cg_def sum_negf by (simp add: algebra_simps dvd_diff_commute)
qed

end

end
