(* ===== verification/Primality.thy ===== *)
theory Primality
  imports Complex_Main Modular
begin

text \<open>
  The order of the secp256k1 group is prime, by a certificate: Fermat's little theorem and Pocklington's criterion
  are proved here, and the powers that the criterion needs are computed by repeated squaring with the quotients
  of the certificate, which the simplifier checks.  Inversion and interpolation modulo the order rest on it.
\<close>

section \<open>Prime numbers\<close>

definition is_prime :: "int \<Rightarrow> bool" where
  "is_prime p \<longleftrightarrow> 1 < p \<and> (\<forall>d. 0 < d \<and> d dvd p \<longrightarrow> d = 1 \<or> d = p)"

lemma prime_coprime: "is_prime p \<Longrightarrow> \<not> p dvd a \<Longrightarrow> coprime p a"
proof -
  assume p: "is_prime p" "\<not> p dvd a"
  have "0 < gcd p a" "gcd p a dvd p" "gcd p a dvd a" using p(1) by (auto simp: is_prime_def)
  then have "gcd p a = 1" using p unfolding is_prime_def by metis
  then show ?thesis by (simp add: coprime_iff_gcd_eq_1)
qed

lemma prime_dvd_mult: "is_prime p \<Longrightarrow> p dvd a * b \<Longrightarrow> p dvd a \<or> p dvd b"
  using prime_coprime coprime_dvd_mult_right_iff by blast

lemma prime_divisor: "1 < d \<Longrightarrow> \<exists>p. is_prime p \<and> p dvd (d :: int)"
proof (induction "nat d" arbitrary: d rule: less_induct)
  case less
  show ?case
  proof (cases "is_prime d")
    case False
    then obtain e where e: "0 < e" "e dvd d" "e \<noteq> 1" "e \<noteq> d" using less.prems by (auto simp: is_prime_def)
    then have "e < d" using zdvd_imp_le [of e d] less.prems by simp
    with e less.hyps [of e] obtain p where "is_prime p" "p dvd e" by auto
    with e(2) show ?thesis using dvd_trans by blast
  qed auto
qed

section \<open>Fermat's little theorem\<close>

lemma prime_dvd_choose:
  assumes "is_prime (int p)" "0 < k" "k < p"
  shows "int p dvd int (p choose k)"
proof -
  have "int k * int (p choose k) = int p * int (p - 1 choose (k - 1))"
    using times_binomial_minus1_eq [OF assms(2), of p] by (metis of_nat_mult)
  then have "int p dvd int k * int (p choose k)" by simp
  moreover have "\<not> int p dvd int k" using assms(2,3) by (auto dest: zdvd_imp_le)
  ultimately show ?thesis using prime_dvd_mult [OF assms(1)] by blast
qed

lemma power_Suc_prime:
  assumes "is_prime (int p)"
  shows "int p dvd (a + 1) ^ p - (a ^ p + 1)"
proof -
  have p: "0 < p" using assms by (simp add: is_prime_def)
  have "(a + 1) ^ p = (\<Sum>k\<le>p. int (p choose k) * a ^ k)" by (simp add: binomial_ring)
  also have "{..p} = insert 0 (insert p {0<..<p})" using p by auto
  also have "(\<Sum>k\<in>insert 0 (insert p {0<..<p}). int (p choose k) * a ^ k) = 1 + (a ^ p + (\<Sum>k\<in>{0<..<p}. int (p choose k) * a ^ k))"
    using p by simp
  finally have "(a + 1) ^ p - (a ^ p + 1) = (\<Sum>k\<in>{0<..<p}. int (p choose k) * a ^ k)" by simp
  moreover have "int p dvd (\<Sum>k\<in>{0<..<p}. int (p choose k) * a ^ k)"
    by (rule dvd_sum) (use prime_dvd_choose [OF assms] in auto)
  ultimately show ?thesis by simp
qed

lemma fermat_nat:
  assumes "is_prime (int p)"
  shows "int p dvd int a ^ p - int a"
proof (induction a)
  case 0
  then show ?case using assms by (simp add: is_prime_def power_0_left)
next
  case (Suc a)
  from dvd_add [OF power_Suc_prime [OF assms, of "int a"] Suc] show ?case by (simp add: algebra_simps)
qed

lemma fermat:
  assumes "is_prime p" "\<not> p dvd a"
  shows "p dvd a ^ (nat p - 1) - 1"
proof -
  have p: "int (nat p) = p" "0 < p" "1 \<le> nat p" using assms(1) by (auto simp: is_prime_def)
  have r: "0 \<le> a mod p" using p(2) by simp
  have "p dvd (a mod p) ^ nat p - a mod p"
    using fermat_nat [of "nat p" "nat (a mod p)"] assms(1) p r by simp
  then have "((a mod p) ^ nat p) mod p = a mod p" using mod_eq_dvd_iff [of "(a mod p) ^ nat p" p "a mod p"] by simp
  then have "a ^ nat p mod p = a mod p" by (simp add: power_mod)
  then have "p dvd a ^ nat p - a" by (simp add: mod_eq_dvd_iff)
  moreover have "a ^ nat p - a = a * (a ^ (nat p - 1) - 1)"
    using p(3) by (metis Suc_diff_1 le_eq_less_or_eq mult_1_right power_Suc right_diff_distrib zero_less_one less_le_trans)
  ultimately show ?thesis using prime_dvd_mult [OF assms(1)] assms(2) by metis
qed

section \<open>Pocklington's criterion\<close>

lemma dvd_power_one: "(n :: int) dvd b ^ e - 1 \<Longrightarrow> n dvd b ^ (e * u) - 1"
proof -
  assume "n dvd b ^ e - 1"
  then have "(b ^ e) mod n = 1 mod n" by (simp add: mod_eq_dvd_iff)
  then have "(b ^ e) ^ u mod n = 1 ^ u mod n" by (metis power_mod)
  then show ?thesis by (simp add: mod_eq_dvd_iff power_mult)
qed

lemma prime_factor_cong:
  assumes "is_prime q" "is_prime p" "p dvd b ^ nat q - 1" "\<not> p dvd b - 1"
  shows "q dvd p - 1"
proof (rule ccontr)
  assume "\<not> q dvd p - 1"
  then have c: "coprime q (p - 1)" using prime_coprime assms(1) by blast
  have pos: "1 < q" "1 < p" using assms by (auto simp: is_prime_def)
  have "\<not> p dvd b"
  proof
    assume "p dvd b"
    then have "p dvd b ^ nat q" using pos dvd_power_le [of p b 1 "nat q"] by simp
    with assms(3) have "p dvd b ^ nat q - (b ^ nat q - 1)" by (rule dvd_diff [rotated])
    then show False using pos by simp
  qed
  from fermat [OF assms(2) this] have f: "p dvd b ^ (nat p - 1) - 1" .
  have "gcd (nat q) (nat p - 1) = 1"
  proof -
    have "int (nat q) = q" "int (nat p - 1) = p - 1" using pos by simp_all
    with c have "coprime (int (nat q)) (int (nat p - 1))" by simp
    then have "coprime (nat q) (nat p - 1)" by (simp only: coprime_int_iff)
    then show ?thesis by (simp add: coprime_iff_gcd_eq_1)
  qed
  then obtain u w where uw: "nat q * u = (nat p - 1) * w + 1"
    using bezout_nat [of "nat q" "nat p - 1"] pos by auto
  have "b ^ (nat q * u) = b ^ ((nat p - 1) * w) * b" by (simp only: uw power_add power_one_right)
  then have "b ^ (nat q * u) - 1 - b * (b ^ ((nat p - 1) * w) - 1) = b - 1" by (simp add: algebra_simps)
  moreover have "p dvd b ^ (nat q * u) - 1 - b * (b ^ ((nat p - 1) * w) - 1)"
    using dvd_power_one [OF assms(3), of u] dvd_power_one [OF f, of w] dvd_diff dvd_mult by blast
  ultimately show False using assms(4) by metis
qed

lemma divisor_cong:
  assumes "is_prime q" "N dvd b ^ nat q - 1" "coprime (b - 1) N" "0 < d" "d dvd N"
  shows "q dvd d - 1"
  using assms(4,5)
proof (induction "nat d" arbitrary: d rule: less_induct)
  case less
  show ?case
  proof (cases "d = 1")
    case False
    then obtain p where p: "is_prime p" "p dvd d" using prime_divisor [of d] less.prems by auto
    then obtain e where e: "d = p * e" by blast
    have p1: "1 < p" using p by (simp add: is_prime_def)
    then have e0: "0 < e" using less.prems e by (simp add: zero_less_mult_iff)
    have pN: "p dvd N" using p less.prems dvd_trans by blast
    have "\<not> p dvd b - 1" using assms(3) pN p1 by (meson coprime_common_divisor int_one_le_iff_zero_less zdvd1_eq dvd_trans less_le not_less zdvd_not_zless zero_less_one)
    then have "q dvd p - 1" using prime_factor_cong [OF assms(1) p(1)] dvd_trans [OF pN assms(2)] by blast
    moreover have "q dvd e - 1"
    proof (rule less.hyps)
      show "nat e < nat d" using e e0 p1 by (simp add: less.prems)
      show "e dvd N" using less.prems e by (metis dvd_mult_right)
    qed (rule e0)
    ultimately have "q dvd p * (e - 1) + (p - 1)" by simp
    then show ?thesis by (simp add: e algebra_simps)
  qed simp
qed

lemma pocklington:
  assumes "is_prime q" "N = q * m + 1" "0 < m" "N dvd b ^ nat q - 1" "coprime (b - 1) N" "m div q + 1 < m mod q"
  shows "is_prime N"
  unfolding is_prime_def
proof (intro conjI allI impI)
  have q: "1 < q" using assms(1) by (simp add: is_prime_def)
  show N: "1 < N" using assms(2,3) q by simp
  fix d assume d: "0 < d \<and> d dvd N"
  then obtain e where e: "N = d * e" by blast
  have e0: "0 < e" using e d N by (metis less_trans zero_less_mult_pos zero_less_one)
  from divisor_cong [OF assms(1,4,5)] d e e0 have "q dvd d - 1" "q dvd e - 1" by auto
  then obtain x y where xy: "d = q * x + 1" "e = q * y + 1" by (metis diff_eq_eq dvdE)
  have "q * x \<ge> 0" "q * y \<ge> 0" using d e0 xy by simp_all
  then have xy0: "0 \<le> x" "0 \<le> y" using q by (simp_all add: zero_le_mult_iff)
  have "q * m = q * (q * (x * y) + x + y)" using assms(2) e unfolding xy by (simp add: algebra_simps)
  then have m: "m = q * (x * y) + (x + y)" using q by simp
  show "d = 1 \<or> d = N"
  proof (rule ccontr)
    assume n: "\<not> (d = 1 \<or> d = N)"
    then have "x \<noteq> 0" "y \<noteq> 0" using xy e by auto
    then have "1 \<le> x" "1 \<le> y" using xy0 by auto
    then have "0 \<le> (x - 1) * (y - 1)" by simp
    then have s: "x + y \<le> x * y + 1" by (simp add: algebra_simps)
    have "q * (x * y) \<le> m" using m xy0 by simp
    then have "x * y \<le> m div q" using q by (simp add: zdiv_mono1 [of "q * (x * y)" m q, simplified])
    with s assms(6) have "x + y < m mod q" by linarith
    moreover have "m mod q = (x + y) mod q" unfolding m by simp
    moreover have "(x + y) mod q \<le> x + y" using xy0 q by (simp add: zmod_le_nonneg_dividend)
    ultimately show False by linarith
  qed
qed

section \<open>Certificates\<close>

text \<open>
  Powers by squaring and multiplying modulo \<open>A - c\<close>: a step carries its quotient \<open>k\<close> and its remainder \<open>s\<close>, and says
  whether it squares the last power or multiplies it by the base.
\<close>

primrec powers :: "int \<Rightarrow> int \<Rightarrow> int \<Rightarrow> nat \<Rightarrow> int \<Rightarrow> (bool \<times> int \<times> int) list \<Rightarrow> (nat \<times> int) option" where
  "powers A c b e r [] = Some (e, r)"
| "powers A c b e r (x # xs) =
    (case x of (d, k, s) \<Rightarrow>
      if r * (if d then b else r) + k * c = k * A + s
      then powers A c b (if d then e + 1 else 2 * e) s xs else None)"

lemma powers_square:
  "r * r + k * c = k * A + s \<Longrightarrow> powers A c b e r ((False, k, s) # xs) = powers A c b (2 * e) s xs"
  by simp

lemma powers_times:
  "r * b + k * c = k * A + s \<Longrightarrow> powers A c b e r ((True, k, s) # xs) = powers A c b (e + 1) s xs"
  by simp

lemma powers_dvd:
  assumes "powers A c b e r xs = Some (e', r')" "A - c dvd b ^ e - r"
  shows "A - c dvd b ^ e' - r'"
  using assms
proof (induction xs arbitrary: e r)
  case (Cons x xs)
  obtain d k s where x: "x = (d, k, s)" by (cases x)
  from Cons.prems(1) have q: "r * (if d then b else r) + k * c = k * A + s"
    and p: "powers A c b (if d then e + 1 else 2 * e) s xs = Some (e', r')" by (auto simp: x split: if_splits)
  have "A - c dvd b ^ (if d then e + 1 else 2 * e) - r * (if d then b else r)"
  proof (cases d)
    case True
    have "b ^ (e + 1) - r * b = (b ^ e - r) * b" by (simp add: algebra_simps)
    with True Cons.prems(2) show ?thesis by (simp del: power_Suc)
  next
    case False
    have "b ^ (2 * e) - r * r = (b ^ e - r) * (b ^ e + r)" by (simp only: mult_2 power_add) (simp add: algebra_simps)
    with False Cons.prems(2) show ?thesis by simp
  qed
  moreover have "r * (if d then b else r) - s = (A - c) * k" using q by (simp add: algebra_simps)
  ultimately have "A - c dvd (b ^ (if d then e + 1 else 2 * e) - r * (if d then b else r)) + (r * (if d then b else r) - s)"
    by (simp only: dvd_add_right_iff dvd_triv_left)
  then have "A - c dvd b ^ (if d then e + 1 else 2 * e) - s" by simp
  with Cons.IH [OF p] show ?case by blast
qed simp

lemma coprime_witness: "a * w = 1 + k * n \<Longrightarrow> coprime a (n :: int)"
proof (rule coprimeI)
  fix d assume a: "a * w = 1 + k * n" "d dvd a" "d dvd n"
  have "d dvd a * w - k * n" by (intro dvd_diff dvd_mult2 dvd_mult a(2,3))
  with a(1) show "is_unit d" by simp
qed

lemma prime_trial:
  assumes "1 < p" "\<forall>d\<in>set [2..s]. p mod d \<noteq> 0" "p < (s + 1) * (s + 1)" "0 < s"
  shows "is_prime p"
  unfolding is_prime_def
proof (intro conjI allI impI)
  fix d assume d: "0 < d \<and> d dvd p"
  then obtain e where e: "p = d * e" by blast
  have e0: "0 < e" using e d assms(1) by (metis less_trans zero_less_mult_pos zero_less_one)
  have small: "x = 1 \<or> s < x" if "0 < x" "x dvd p" for x
  proof (rule ccontr)
    assume "\<not> (x = 1 \<or> s < x)"
    then have "x \<in> set [2..s]" using that(1) by (simp only: set_upto atLeastAtMost_iff) linarith
    from bspec [OF assms(2) this] have "p mod x \<noteq> 0" .
    with that(2) show False by (simp add: dvd_eq_mod_eq_0)
  qed
  show "d = 1 \<or> d = p"
  proof (rule ccontr)
    assume "\<not> (d = 1 \<or> d = p)"
    with e have "d \<noteq> 1" "e \<noteq> 1" by auto
    with small [of d] small [of e] d e e0 have "s + 1 \<le> d" "s + 1 \<le> e" by auto
    then have "(s + 1) * (s + 1) \<le> d * e" using assms(4) by (intro mult_mono) auto
    with e assms(3) show False by simp
  qed
qed (rule assms(1))

lemma prime_1871: "is_prime 1871"
  by (rule prime_trial [of _ 44]) code_simp+

lemma powers_21_0:
  "powers 2097152 469381 1122242 1 1122242
    [(False, 773712, 1150612),
     (True, 793271, 1583163),
     (False, 1539777, 737502),
     (True, 508459, 904595),
     (False, 502707, 237928),
     (False, 34777, 741117),
     (True, 510951, 1404093),
     (False, 1211151, 678228),
     (False, 282590, 1413094),
     (False, 1226729, 761777),
     (True, 525195, 953689),
     (False, 558753, 779158),
     (True, 537178, 1061998),
     (False, 692873, 1175921),
     (True, 810720, 1429762),
     (False, 1255839, 1071775),
     (True, 738919, 1)]
    = Some (1871, 1)"
  by (simp only: powers_square powers_times powers.simps(1) arith_simps numeral_plus_one One_nat_def [symmetric] mult_1_right)

lemma power_21: "1627771 dvd 1122242 ^ nat 1871 - (1 :: int)"
proof -
  have "2097152 - 469381 dvd 1122242 ^ 1 - (1122242 :: int)" by simp
  from powers_dvd [OF powers_21_0 this] have "2097152 - 469381 dvd 1122242 ^ 1871 - (1 :: int)" .
  moreover have "2097152 - 469381 = (1627771 :: int)" by simp
  ultimately show ?thesis by (simp only: nat_numeral)
qed

lemma prime_1627771: "is_prime 1627771"
proof (rule pocklington [OF prime_1871 _ _ power_21])
  show "1627771 = 1871 * 870 + (1 :: int)" by simp
  show "coprime (1122242 - 1) (1627771 :: int)" by (rule coprime_witness [of _ 1144012 788721]) simp
  show "870 div 1871 + 1 < 870 mod (1871 :: int)" by simp
qed simp

lemma powers_39_0:
  "powers 549755813888 252596451211 23042369775 1 23042369775
    [(False, 1786754420, 140320768285),
     (True, 10880771182, 57674611661),
     (False, 11193861772, 185203295277),
     (False, 115427157577, 260678953100),
     (False, 228677016861, 19656513103),
     (False, 1300240059, 108865810666),
     (True, 8441686785, 271657896705),
     (False, 248344902133, 260231966984),
     (True, 20178940877, 14736060871),
     (False, 730757691, 264941179834),
     (False, 236216110236, 62192205784),
     (True, 4822516073, 45552971179),
     (False, 6983031476, 273214028789),
     (False, 251198228636, 51429787949),
     (True, 3987975275, 280063030300),
     (False, 263950293318, 34626397714),
     (True, 2685004614, 221158302672),
     (False, 164595166715, 15998643529),
     (False, 861344540, 216299840261),
     (False, 157442863234, 276601430703),
     (True, 21448263952, 48170882321),
     (False, 7808718805, 165925306056),
     (True, 12866201565, 43178867895),
     (False, 6274123809, 254830054332),
     (True, 19760065066, 232672673618),
     (False, 182180270414, 594271646),
     (True, 46081088, 272387147074),
     (False, 249680027654, 274531291718),
     (False, 253626301568, 282129613988),
     (True, 21876931056, 59879815788),
     (False, 12066227045, 196633061479),
     (True, 15247346312, 1)]
    = Some (1627771, 1)"
  by (simp only: powers_square powers_times powers.simps(1) arith_simps numeral_plus_one One_nat_def [symmetric] mult_1_right)

lemma power_39: "297159362677 dvd 23042369775 ^ nat 1627771 - (1 :: int)"
proof -
  have "549755813888 - 252596451211 dvd 23042369775 ^ 1 - (23042369775 :: int)" by simp
  from powers_dvd [OF powers_39_0 this] have "549755813888 - 252596451211 dvd 23042369775 ^ 1627771 - (1 :: int)" .
  moreover have "549755813888 - 252596451211 = (297159362677 :: int)" by simp
  ultimately show ?thesis by (simp only: nat_numeral)
qed

lemma prime_297159362677: "is_prime 297159362677"
proof (rule pocklington [OF prime_1627771 _ _ power_39])
  show "297159362677 = 1627771 * 182556 + (1 :: int)" by simp
  show "coprime (23042369775 - 1) (297159362677 :: int)" by (rule coprime_witness [of _ 337514035 26171557]) simp
  show "182556 div 1627771 + 1 < 182556 mod (1627771 :: int)" by simp
qed simp

lemma powers_95_0:
  "powers 39614081257132168796771975168 10566469383689593149274216989 19080336074975213629845085860 1 19080336074975213629845085860
    [(False, 12533189520714085748015262912, 13544641191673107795488582352),
     (False, 6315744847131402965156211576, 4361090512531534398077371800),
     (False, 654756423397449949009025045, 18464183917283884919470646945),
     (False, 11736802640322529160424105493, 23159505071411522867938255778),
     (True, 15212649563685250176149675562, 29018489040422935319869177482),
     (False, 28989395405652252087513942619, 10484307563535354803071929523),
     (False, 3784156355631496644427470484, 11144265947431740440586918893),
     (True, 7320269236326004524708151846, 21657483297119183423120704546),
     (False, 16147509296412510689763382628, 22161655073692135909631551704),
     (False, 16908066582035925959020142059, 21030826308121403718216153055),
     (False, 15226575497132347007110413832, 588199866724310178233101097),
     (True, 386367429627369540082867145, 27346901500462991259831059465),
     (False, 25745766121302599712847478129, 16432159014405684623132719134),
     (True, 10793696838084879627758258544, 12597265792283540536422213864),
     (False, 5463137766121280566110089006, 22667553701995562855799330422),
     (False, 17688820446634453185171653904, 10932812202933610605861417268),
     (False, 4114843698180011758178801905, 15572413764472017661974052829),
     (False, 8348365143009523344709671503, 2450390978700442039661430204),
     (False, 206709452558686273378695693, 3002606905514517710220658569),
     (False, 310374851754550759835853665, 694348237512547069872251726),
     (False, 16597559793807659507235144, 20275200693834293690907736300),
     (False, 14152067473440082888438918528, 16369332579703575335111049488),
     (True, 10752428402878172881799750219, 12615335451234038799404748479),
     (False, 5478821778552670770566496035, 25668076402451529263460493176),
     (False, 22681731946592739392254804433, 14460923877659911231571359469),
     (True, 9498863064631147674991977277, 21722821159321480801220109757),
     (False, 16245086211417355494983391572, 6727294433614175311003931661),
     (False, 1558010709923903223169102282, 23993998289432649185005154443),
     (False, 19819596751072480989199516423, 20719499703933763834889566532),
     (False, 14779103695399009913016308396, 10127375689210957714359136140),
     (False, 3530883667727338944507669200, 4663240100161454814527712800),
     (False, 748626369923215729773558930, 20518092011803698713937851530),
     (False, 14493174228541112209198855631, 20116966579736819587552884951),
     (True, 13214114978634647591545003003, 23790621147152327820974081323),
     (False, 19485032264728234438559596161, 10756400255783643008742679510),
     (False, 3983120780004770359301308326, 20848041671259373147906541746),
     (False, 14963049059600915423824787867, 23211450188944292688501514323),
     (False, 18547873133984752061651974205, 24960287870944289017138375634),
     (False, 21448096088409070821912256885, 16943522059326213492227089541),
     (True, 11129592910915805608281126391, 27703360431727286799599988271)]
    = Some (4643115041, 27703360431727286799599988271)"
  by (simp only: powers_square powers_times powers.simps(1) arith_simps numeral_plus_one One_nat_def [symmetric] mult_1_right)

lemma powers_95_1:
  "powers 39614081257132168796771975168 10566469383689593149274216989 19080336074975213629845085860 4643115041 27703360431727286799599988271
    [(False, 26421317613096972913523427471, 5549558167983110514534034132),
     (True, 3645306036657403820810359035, 7645166010595994499112776255),
     (False, 2012164152572217860726671607, 28260196340237222568860501372),
     (True, 18563111007741713888930599141, 25929553750745662497184675681),
     (False, 23146197375609794619695314603, 18942429361138565548531425824),
     (False, 12352672283871279768820903074, 17590193358102563941164336730),
     (True, 11554368130457154890536811198, 18413321441158903496418349358),
     (False, 11672229991665048506964435396, 6786340691098439928862908280),
     (False, 1585480423530607956140450437, 3605987259614128162931684177),
     (True, 2368643904197217057130997761, 1)]
    = Some (297159362677, 1)"
  by (simp only: powers_square powers_times powers.simps(1) arith_simps numeral_plus_one One_nat_def [symmetric] mult_1_right)

lemma power_95: "29047611873442575647497758179 dvd 19080336074975213629845085860 ^ nat 297159362677 - (1 :: int)"
proof -
  have "39614081257132168796771975168 - 10566469383689593149274216989 dvd 19080336074975213629845085860 ^ 1 - (19080336074975213629845085860 :: int)" by simp
  from powers_dvd [OF powers_95_0 this] have "39614081257132168796771975168 - 10566469383689593149274216989 dvd 19080336074975213629845085860 ^ 4643115041 - (27703360431727286799599988271 :: int)" .
  from powers_dvd [OF powers_95_1 this] have "39614081257132168796771975168 - 10566469383689593149274216989 dvd 19080336074975213629845085860 ^ 297159362677 - (1 :: int)" .
  moreover have "39614081257132168796771975168 - 10566469383689593149274216989 = (29047611873442575647497758179 :: int)" by simp
  ultimately show ?thesis by (simp only: nat_numeral)
qed

lemma prime_29047611873442575647497758179: "is_prime 29047611873442575647497758179"
proof (rule pocklington [OF prime_297159362677 _ _ power_95])
  show "29047611873442575647497758179 = 297159362677 * 97750956294169114 + (1 :: int)" by simp
  show "coprime (19080336074975213629845085860 - 1) (29047611873442575647497758179 :: int)" by (rule coprime_witness [of _ 8141760595647681792134137763 5348030987324575022205233304]) simp
  show "97750956294169114 div 297159362677 + 1 < 97750956294169114 mod (297159362677 :: int)" by simp
qed simp

lemma powers_109_0:
  "powers 649037107316853453566312041152512 307088620342687453043968431869323 224976567909137005340836453944956 1 224976567909137005340836453944956
    [(False, 148017780561194370427835666204585, 220005680574110021496731002620371),
     (False, 141549096804554982490446779201925, 57841216819482574244065605238816),
     (True, 38055201117817950632098355366347, 33634566315193776011139535171513),
     (False, 3308346415630245625248792096614, 109293489166311008761537352687123),
     (True, 71906953895394023073312236361270, 200893956732053856294214190311558),
     (False, 118024741704762618363199816226397, 92686745994486492506508998247331),
     (True, 60980957070533564645680062969146, 299775237596746742763064664425842),
     (False, 262803306636578925187740095135103, 31773812648118986888067575725497),
     (False, 2952418883707588663732248838164, 26259224149209139035935789072013),
     (True, 17276608466152166846717304346238, 112237713973170847442794773323446),
     (False, 36839772415413638484385637690651, 224643524529766230172148696548877),
     (True, 147798662889059858646891817602761, 120252770817536679965469764329583),
     (False, 42289202731250864094445752431090, 72771545027312716465976431007879),
     (True, 47878242090092731386360054857396, 257504436476017320793195493192480),
     (False, 193913812549902608555430716591870, 164441036280639804160962563476970),
     (False, 79078736836445240370420889136047, 4885895188411266793428549367017),
     (True, 3214554158081646659687819078484, 298450441150652620817160587110776),
     (False, 260485626391289015413015953802716, 200524969935667783606999813980852),
     (True, 131930455126177267690593992572150, 149985771110729401875766181396162),
     (False, 65786901807170883094433341256364, 213078493721476732075296863865448),
     (False, 132775684689733767120855145822356, 296091510952311585254915157067420),
     (True, 194806102259824683719192046927683, 230045748685091983345017710312433),
     (False, 154763212893182512444367709535595, 38116425425070017482916443767034),
     (True, 25077761416574655025505577926604, 150733644857852855648345430320348),
     (False, 66444603668767923186470297029719, 274168906356129298484060482747213),
     (True, 180382665603265421531807712213362, 269257446482030664652772916636210),
     (False, 212018988963974874960269525497786, 158494308193278269542775616644546),
     (False, 73462660858516123643038780615985, 122283353177923353803562386369951),
     (False, 43729447662584464425309632262343, 42497821262427462325796408090574),
     (True, 27960392677389466812981357975153, 319911277644624373287366855841827),
     (False, 299294278123090249343932556440080, 195886469552250392884422412882809),
     (True, 128878668274477290726963627903909, 85151393907277476354734503575603),
     (False, 21204246138103609170432432792927, 197391877578168012468528197609406),
     (True, 129869114332510009574141203751153, 267752359428120640482696849589219),
     (False, 209655339064979515335144025399807, 70656945754671310152996632085438),
     (True, 46486993685773976277723171780769, 273357763881318065782791595958387),
     (False, 218525508726230531801566587478269, 169779958125543821523758831121928),
     (True, 111702533375231953754759942483816, 261371724745890983413179043225944),
     (False, 199782075660428265313909677190396, 318855033215841373306081199638292),
     (False, 297321193337393830950079873983693, 209008969681236018384550027640287)]
    = Some (24604284, 209008969681236018384550027640287)"
  by (simp only: powers_square powers_times powers.simps(1) arith_simps numeral_plus_one One_nat_def [symmetric] mult_1_right)

lemma powers_109_1:
  "powers 649037107316853453566312041152512 307088620342687453043968431869323 224976567909137005340836453944956 24604284 209008969681236018384550027640287
    [(False, 127752427840138954364239347696859, 311553346291915239751026408639018),
     (False, 283859970969906042639187309019141, 28748313657328820075909341483675),
     (True, 18914243478696364794884042872437, 72093557206015489645673687031707),
     (False, 15199602245965470378676687514409, 56625683611259056011165824363548),
     (False, 9377049955143270309062088479179, 68743093984224248938107929926473),
     (False, 13819663342686190331027034932437, 169824767707426708947726571318136),
     (True, 111732014733756628493782975588947, 72997769882784597535174327210033),
     (False, 15583266517750529288493804525860, 207541069549599255949651082093549),
     (False, 125964281728334585943709386216237, 62427084011089261335796264475608),
     (True, 41072359259923520186719707342929, 76628444077646298528938738912667),
     (False, 17171938655791116097428827111758, 226211781821857347015045879416627),
     (True, 148830459070687040049404466843758, 120481379208836273355530410199150),
     (False, 42450144653396470377145999497751, 228929782393899074819167533114561),
     (True, 150618700468342987069381783475009, 273944572868135769369065950780615),
     (False, 219464720162879386493997003534745, 83962376082748096356099153876420),
     (False, 20616206434606709144995244847911, 258975940128920383702868597948221),
     (True, 170386828427898349620521680684979, 194806098180573764184962162605245),
     (False, 110979920467396014663697573516054, 43175670890384452773900377693819),
     (True, 28406367111157820988467038469189, 236961233295542589383567895263243),
     (False, 164207850667245991892328655062925, 198923111865941247125741327209224),
     (True, 130876552142153075227988325704940, 139861714724695251703940275220484),
     (False, 57205397862192853643546722069231, 287747583363778234339164070736597),
     (True, 189316421026369143918047748194279, 7917990937697955992621112079001),
     (False, 183345102779189936017799082343, 245252752041213163789644248526174),
     (False, 175900507459572415934107100832554, 154992548214785823032546106943570),
     (True, 101973521969372942871242784263008, 307243680820753085332241649160408),
     (False, 276061111542267358833740646202693, 1386901664927912650894783298487),
     (True, 912477722489594364063174791378, 262184197452943142987184018537130),
     (False, 201026049281034498388586554125810, 341498710410064921754340564628810),
     (False, 341049525452493249432814101127714, 304722022353445761583328999816154),
     (False, 271548243212987445013174172084407, 234606133962552910607742525217793),
     (False, 160960028160655565471439991895820, 270613780021969274769862718420869),
     (True, 178043657970214716456233395646008, 145062647763315697161843298327252),
     (False, 61539011218650601662769504970735, 124306089940756896697395513397589),
     (True, 81784124072433159715924999952315, 115661495165275867158453617978549),
     (False, 39121627886827880328202142625809, 163947516533247496900708282920500),
     (False, 78604787566877397487869389063370, 110080163221916417412087523563070),
     (True, 72424526675608247021198911497239, 211489690298916171567163231759749),
     (False, 130803003395393417056399171581971, 318538665530064799160280790757482),
     (False, 296731482380678740122085349693427, 61061787239254754796462964081621)]
    = Some (1651165568628276, 61061787239254754796462964081621)"
  by (simp only: powers_square powers_times powers.simps(1) arith_simps numeral_plus_one One_nat_def [symmetric] mult_1_right)

lemma powers_109_2:
  "powers 649037107316853453566312041152512 307088620342687453043968431869323 224976567909137005340836453944956 1651165568628276 61061787239254754796462964081621
    [(False, 10903811547303918532319900505359, 266304264424754410218971106877790),
     (True, 175208318539437988820281596807824, 251882931074386629516634452056504),
     (False, 185539674493185979206268200498876, 76285074088269793754440248506452),
     (False, 17018389466049792960225802182562, 226463984235897776152576150078086),
     (False, 149981468290197691787476866687247, 298133989126355090363849179632713),
     (False, 259933524663054695128965384324610, 27014243141034672859446587759079),
     (True, 17773354578381516487218645520955, 205276339724983717633856226530029),
     (False, 123230185996028275648518317469217, 326754602216162366631512095647828),
     (False, 312235831233576420239682539953186, 167584492044750918135283924327430),
     (True, 110258080650237070267340937901238, 211263404681523561452451285255098),
     (False, 130523245043634683214871851864324, 195278643728592685339504012940368),
     (False, 111518986482193771938010478788469, 247527794925113233467874875227783),
     (False, 179179062327940127483124489837993, 242540044125756211880266666695412),
     (False, 172030803601619720082651156628774, 91218284090066931579156469969458),
     (True, 60014818801331083223774750668870, 293450311736532484196669936527418),
     (False, 251830578986518181864938251673462, 140599673014188906195731151716406),
     (True, 92504084939170614208393205360189, 260668389132319768078534398585415),
     (False, 198708319180169126430980125734837, 336996687349758141467119594967032),
     (True, 221718653553875656348822131015191, 93531961295657411011574782766493),
     (False, 25583466858484094503577050853374, 133175262762980636116905681389363),
     (True, 87619377444639597794185511571662, 288859110646159009529867780512910),
     (False, 244012150899190096486524901433134, 287574007942077182380290122883774),
     (True, 189202221361404303634466661880423, 335256483917488115238995519434997),
     (False, 328695444753374461365871863235879, 325135162142703390686520892051878),
     (False, 309148534614070590111208530865012, 337504287336457925033117603443616),
     (False, 333117847598770394915279175202831, 32295347136441795560438097647397),
     (False, 3050136164930820414955609756057, 208901790700470598007625219849836),
     (True, 137441777613174289737458348014454, 138442154726789527813479778413410),
     (False, 56050051207988906797341432971584, 224812276253427029530148421926724),
     (False, 147801676215825745436228221397876, 80590384110364430163900498265612),
     (False, 18993533407699384141487693519548, 5431252860968305509411262455972),
     (False, 86265939939675761697305269905, 223058331888782370993152014337739),
     (True, 146755724512583542492033011487104, 167112096793906491362851941999828),
     (False, 81668596173568677613363997968699, 330181267044371852701016503128473),
     (True, 217234615964670325878142547851222, 287276078827876911086832900625230),
     (False, 241344964550041873824875581565696, 297420436951766458858220040668356),
     (True, 195680436324022969480030140988259, 294648757091594860096848019934385),
     (False, 253891721597764259041093167407070, 214420023444745172785439234581995),
     (False, 134452843645769733281195099616172, 177815571662260236014012426047517),
     (True, 116989366987311193831017009561931, 99862468525110624206335545796293)]
    = Some (221615691173115353755933, 99862468525110624206335545796293)"
  by (simp only: powers_square powers_times powers.simps(1) arith_simps numeral_plus_one One_nat_def [symmetric] mult_1_right)

lemma powers_109_3:
  "powers 649037107316853453566312041152512 307088620342687453043968431869323 224976567909137005340836453944956 221615691173115353755933 99862468525110624206335545796293
    [(False, 29163786359090184627250021245294, 276306520784751718277410972979283),
     (True, 181789056261460834515404840324840, 260549302898320573184311499231788),
     (False, 198526801043952397169912524247447, 287324650656964255555668816408461),
     (True, 189038162889661205364093802048856, 312145979071940952231437189190932),
     (False, 284940907658239652318537071466421, 86787056107938631789591857732055),
     (False, 22026689383923273966885249611246, 290539057358191955433709201379531),
     (True, 191153002448992179828211246252444, 252150017969415872526296959731720),
     (False, 185933361263213162784577849094912, 124781421950557036169089627124032),
     (False, 45534353439555624634146664299065, 154319268680739443751105739018739),
     (False, 69643345688958746398408885649596, 134240151813473942763936405708477),
     (True, 88319994914551384769469665213903, 86451452526845736347886553615345),
     (False, 21856665342011316263444090551862, 271595961028262291443980970221107),
     (False, 215717772871556007914326328057978, 118230914574995977152437455573607),
     (True, 77787112372427344047244161769831, 26366121651232718599777468705233),
     (False, 2032973963648865590507538162269, 147441044341915949694363985788448),
     (True, 97005196363068470819966284702641, 219962468813485770015279627466139),
     (False, 141493498376493892589709939969926, 143225260626727912122824514193307),
     (True, 94231525510821388218747384224913, 30069162439910936098731835721935),
     (False, 2644124961155505632156262127044, 314045174358347488280945348680909),
     (True, 206618272011553925652051333923898, 329618322262470251467413437294282),
     (False, 317732765342909676012128083494364, 38970725676605921728464708448728),
     (False, 4441363297729725743785060140176, 142905596636738707962052984516720),
     (False, 59722473787828562251394161169700, 316315702826037289471497173385100),
     (False, 292604376582280582480927569624929, 48748689578026263464049626991419),
     (True, 32072997217738351451182709603834, 212318674561751783200573204185938),
     (False, 131830440212080164260839424167851, 43661577891200142008040348383005),
     (True, 28726057630434178786591730909311, 1)]
    = Some (29047611873442575647497758179, 1)"
  by (simp only: powers_square powers_times powers.simps(1) arith_simps numeral_plus_one One_nat_def [symmetric] mult_1_right)

lemma power_109: "341948486974166000522343609283189 dvd 224976567909137005340836453944956 ^ nat 29047611873442575647497758179 - (1 :: int)"
proof -
  have "649037107316853453566312041152512 - 307088620342687453043968431869323 dvd 224976567909137005340836453944956 ^ 1 - (224976567909137005340836453944956 :: int)" by simp
  from powers_dvd [OF powers_109_0 this] have "649037107316853453566312041152512 - 307088620342687453043968431869323 dvd 224976567909137005340836453944956 ^ 24604284 - (209008969681236018384550027640287 :: int)" .
  from powers_dvd [OF powers_109_1 this] have "649037107316853453566312041152512 - 307088620342687453043968431869323 dvd 224976567909137005340836453944956 ^ 1651165568628276 - (61061787239254754796462964081621 :: int)" .
  from powers_dvd [OF powers_109_2 this] have "649037107316853453566312041152512 - 307088620342687453043968431869323 dvd 224976567909137005340836453944956 ^ 221615691173115353755933 - (99862468525110624206335545796293 :: int)" .
  from powers_dvd [OF powers_109_3 this] have "649037107316853453566312041152512 - 307088620342687453043968431869323 dvd 224976567909137005340836453944956 ^ 29047611873442575647497758179 - (1 :: int)" .
  moreover have "649037107316853453566312041152512 - 307088620342687453043968431869323 = (341948486974166000522343609283189 :: int)" by simp
  ultimately show ?thesis by (simp only: nat_numeral)
qed

lemma prime_341948486974166000522343609283189: "is_prime 341948486974166000522343609283189"
proof (rule pocklington [OF prime_29047611873442575647497758179 _ _ power_109])
  show "341948486974166000522343609283189 = 29047611873442575647497758179 * 11772 + (1 :: int)" by simp
  show "coprime (224976567909137005340836453944956 - 1) (341948486974166000522343609283189 :: int)" by (rule coprime_witness [of _ 52549495971823967042140694230817 34573643982782563778526764281906]) simp
  show "11772 div 29047611873442575647497758179 + 1 < 11772 mod (29047611873442575647497758179 :: int)" by simp
qed simp

lemma powers_256_0:
  "powers 115792089237316195423570985008687907853269984665640564039457584007913129639936 432420386565659656852420866394968145599 43445164867623600386259672723475402380771590341346845158858667594426909773631 1 43445164867623600386259672723475402380771590341346845158858667594426909773631
    [(False, 16300615722604295225416020535802261081235086373090107432994016589544590868034, 69839666553105227591548703307830857944416830568579441670317273179890257600703),
     (False, 42123594594206809888012495331322439783750046582082975485114372278215242073551, 35543635370797451852064327715306733225862976197756141197252357431081562113522),
     (False, 10910503676835508942834270906973850948315175791558060587998699548030881639140, 95447702263351779797229156735298731616658494655266848303777867625817227694304),
     (False, 78677774339850958187113881661125767136873835709644136165665111700379084035139, 16521470459121997194223812672599310114020886346830754516697315711508016536573),
     (False, 2357319812860537021464800670625294889933490552817692911693784712093985058658, 24005421185574784005621249599323116456852956030717180560069659076046366764583),
     (True, 9006828428378856069779076871918644825729161913009409982312246468203477975461, 107471129253550651477048962357489909928102937038339077690283686683591221646516),
     (False, 99748123547210081245461092939070106863585591490556017860584613660087604290340, 44010669419781591377004639627163230190331767473097197137341756812183241133676),
     (True, 16512792898642137395346602835548197006766013175883365029733121259767703700688, 16539565874983489460763090271444711425803689158984845010271702765969915893700),
     (False, 2362486428345394739424461565478995914845892336165499726657736403455564185054, 81030269984651222365559065285272161075016091712620048073446038532871458650802),
     (False, 56704259306770341844888991187151541042194246888296657984201592815285556784573, 106636970299814938925842264399836139926248509812555782860265642725227706780103),
     (True, 40010166378156290400487993368140567294006882825427945629845421514786645731311, 71424881028518378202913326233403559228842833852624355800307014886085674778186),
     (False, 44057531594256311949107079270923222871349620784794550343581333141295351802359, 105252380302762183989346650343928158794881747863425718777234817807754579709613)]
    = Some (538, 105252380302762183989346650343928158794881747863425718777234817807754579709613)"
  by (simp only: powers_square powers_times powers.simps(1) arith_simps numeral_plus_one One_nat_def [symmetric] mult_1_right)

lemma powers_256_1:
  "powers 115792089237316195423570985008687907853269984665640564039457584007913129639936 432420386565659656852420866394968145599 43445164867623600386259672723475402380771590341346845158858667594426909773631 538 105252380302762183989346650343928158794881747863425718777234817807754579709613
    [(True, 39490668534286022533297746997620860870930631941283683513794430195036624616601, 52290437530028374871772343514219535709884233394492680538855005832937686926266),
     (False, 23613788084243523943406356099917189458978774669463477660251857868541205045008, 98676299572892571053645019091188243612067998625580009228494579806110298583060),
     (False, 84090477696133510142867208736166607478525338081744801881478011624669584326643, 38241539001065522792897937802397214194414903643055041448048295916072916242909),
     (True, 14348216511474159614501094302889750933648857255630612472993699963947768987213, 88669955778326495285287935203130926183716145299374922854174118431751074019798),
     (False, 67900675335570172613190375737933939962939428407977454849506816006259256997410, 19324002088084604122375223340181959813868999171792243563222161064237157293634),
     (True, 7250361075172503638829260508134524660142203014351968439694603865634423699087, 68661719500918404346001673793762429570022229974172330161647669786504394794735),
     (False, 40714627017054319759351377348246725669232273493341588570307979908732582533110, 54564968080989779084924670128734521231810402788813017832244922788300403722155),
     (True, 20472763294016588657577988993643005676504812313092337898090178850294844705406, 68850271736062060060474167182208852468656294871014230348793047474575367208983),
     (False, 40938547264780807907398425354258979617070061129140152708051298279105810520010, 33700420743590517211458508481348888558583913315348674897365708458930555710919),
     (True, 12644390000709407883316034043498666384407460871369240731720754900951170754007, 25000842726875335635310042940817812757242817711421305332973141230546414418530),
     (False, 5397969249634401559521057546305897844798736814723382836652304741331482553380, 92436130428328444515264998309496799924250873352567288281034487074452837151840),
     (True, 34682014571421058463815334078766211430229109784257681849821983462658281533538, 54948625374192566108953465646727240589518529673383927364651903973219112556734)]
    = Some (34527, 54948625374192566108953465646727240589518529673383927364651903973219112556734)"
  by (simp only: powers_square powers_times powers.simps(1) arith_simps numeral_plus_one One_nat_def [symmetric] mult_1_right)

lemma powers_256_2:
  "powers 115792089237316195423570985008687907853269984665640564039457584007913129639936 432420386565659656852420866394968145599 43445164867623600386259672723475402380771590341346845158858667594426909773631 34527 54948625374192566108953465646727240589518529673383927364651903973219112556734
    [(False, 26075627880978901104742636710036792469900519677236135633129452004089191906965, 84869241763721595897761088554615782971280190928690066532681030673759290389551),
     (True, 31842919709810663563566039379524699889463498426154190485357485801569767089030, 78537200195561331997194425878990130708393006458998554176953763837583897906571),
     (False, 53268680573818461085819683194384790219323269232823202264411411360222695688342, 108233879719054385216899875128370900233002130871233564851374109956298695058787),
     (True, 40609326419697024825679796877122788593613684404230896556467740582826709753572, 104026914281428208235199696110469034501153886787664127149386323565615863923833),
     (False, 93457152092115000534220417370021281670548563224862762458714636275847185887980, 17353578100068362258170472426330420621045049790552825546137096417044139042629),
     (True, 6511058454567416083707338776430405682188947690101073000715249404520945605080, 58797255140185261263093110470555757975748917741610677319060498825489990683939),
     (False, 29856246957723261987905517060489257473840023730411205603077113547757677765203, 89404685400225646067846805276908898507139426939812061447748704691503892400310),
     (True, 33544617104110998124233966600740588260246818229419049902995839515592481115089, 32629275634786305808919723296186288517913999420166518330790986646755015474617),
     (False, 9194666366791396600024460752097323888715828193185314755547415885302735556589, 46796797454138749644526420098261249663582952151534957777786558390034104760196),
     (True, 17558147487131125084338988491611525146161235500579793024228114181984867697915, 64497807324577904804639873745485959927070241417932481299047795881136399984321),
     (False, 35926177488278249033306146691054990357911499242645701432141913150795022454200, 15757906526755681573092967533312826461747380073564840999400222675027903965641),
     (False, 2144460988151392492095468539271721629403037876720314165040882301047429051287, 90236237909395318005732238641021011852837488926578643169514900654635975479162)]
    = Some (4419580, 90236237909395318005732238641021011852837488926578643169514900654635975479162)"
  by (simp only: powers_square powers_times powers.simps(1) arith_simps numeral_plus_one One_nat_def [symmetric] mult_1_right)

lemma powers_256_3:
  "powers 115792089237316195423570985008687907853269984665640564039457584007913129639936 432420386565659656852420866394968145599 43445164867623600386259672723475402380771590341346845158858667594426909773631 4419580 90236237909395318005732238641021011852837488926578643169514900654635975479162
    [(False, 70320681539416359514718267091048827088145861348676131568746369666503457024220, 71657286371052876257099793787676309886888572828590761142691253525041094380104),
     (True, 26885797128821769259915574106418836478210290003200215355524287455738613563193, 42481744404458032005346594814887000958608080924307144646005922369043849099583),
     (False, 15585681366772532338799775728371874876995481765418262221851451351857116753135, 92265579727819816700000437869194757901057238613535564922578693840530721277394),
     (False, 73519160579816360694415912983319098294608404676730144661575784706451139016489, 101901643944263274911460860161522086447713120285489461075096071390054372308443),
     (False, 89677499619697552419706821851468688653888649552369372998392294196281719840145, 60086541929254529179179642931021611310704340743658484926977402614506766325384),
     (True, 22544456513706015042419335102833243028426013144364844554830194956518267022907, 12696263922360497075324681400237561968680899553763019329466524669417799371645),
     (False, 1392108205732974824424396390612615441747020647819859935973557034498552466418, 90428230936649863090805899865144412121720482400265170594857429556408940331159),
     (True, 33928651150584871194987668011457895132997592604853573304566231955311321328623, 57818302058943948105711205546226754351046205522845067383667674949400935360378),
     (False, 28870331945802313410009207554138410630493182555059259944009839037450566007275, 81113009356254479138156851539594419182820907147530611577513864774367119001209),
     (False, 56820118974997438844923729692034567332060690689675517184436905428658996966332, 54117569635024453951851225173543871276249629548361868810675601694554945799797),
     (True, 20304899501468158664071390340547140400730888852197406848434621231521513677692, 103079833051359131536834510695476356517691836678330480052940469131740214522703),
     (False, 91763194289716789353131776944882753840570036948847001070534070576362161122731, 11861165031306156502945302454985868181243466504707986158839167078369483951862)]
    = Some (1131412634, 11861165031306156502945302454985868181243466504707986158839167078369483951862)"
  by (simp only: powers_square powers_times powers.simps(1) arith_simps numeral_plus_one One_nat_def [symmetric] mult_1_right)

lemma powers_256_4:
  "powers 115792089237316195423570985008687907853269984665640564039457584007913129639936 432420386565659656852420866394968145599 43445164867623600386259672723475402380771590341346845158858667594426909773631 1131412634 11861165031306156502945302454985868181243466504707986158839167078369483951862
    [(True, 4450306352544153864107653059826917983833868659419284852797814449952095633086, 4312475353488336318944354898727725604645435154496352908722536065119902116940),
     (False, 160610658266376392292493062608377209805034596932117093462611295889386943700, 93144137434737000735721181787763234671657303299134708042268433940284147136700),
     (True, 34947658635047984872259602036606426220018959044114985440371751954499374029016, 1005786299052610293493630730182224479899922985730890404516948884474854675308),
     (False, 8736400612728020397477455681547732621164024368312791675426128247199356325, 4708167757735297503475668143952709129879088293265654444154633372359572263339),
     (False, 191436597966094332668347492981759133270053142180757738617523119154607462011, 82009324556486686163453494902624176163749351191306803827443663573460444297214),
     (True, 30769879440872908498801938793912352967961392093378758823237191942025035789002, 91665059573850808679205507065580376618519014504464768273833907795131474082360),
     (False, 72565260736048264929916825677622718092202343385905604139697255680955563065166, 6876548785013473760456839669635665593642775878719788044896110386745392204658),
     (False, 408377839143705293081936740559045588005395911070322641759484984123316356669, 84759634026649892875188745112685857770405575869230867321213634156110241213511),
     (True, 31801794912432772776985564469940216677785708230106790574517000464219119791740, 23889287300703458338265261105267401561435451317453910423657388039977119352061),
     (False, 4928644534307558413737972404119094554047932667889797381906123721956237300875, 76680974603231291226886757533097430542597397859283017992499759815938987302846),
     (False, 50780428134864932560742083402969050602697055964875504377240886475727607675461, 200210923339414396033013216991413567566032543987677183750966402063034335359),
     (True, 75119091727872974046459229256349542046804826320963461513637532768407706798, 46868817082827965857375723758400723428488091712104294851985501330572195715603)]
    = Some (144820817365, 46868817082827965857375723758400723428488091712104294851985501330572195715603)"
  by (simp only: powers_square powers_times powers.simps(1) arith_simps numeral_plus_one One_nat_def [symmetric] mult_1_right)

lemma powers_256_5:
  "powers 115792089237316195423570985008687907853269984665640564039457584007913129639936 432420386565659656852420866394968145599 43445164867623600386259672723475402380771590341346845158858667594426909773631 144820817365 46868817082827965857375723758400723428488091712104294851985501330572195715603
    [(False, 18970950685944293785106249102910988149085899613372774450105848714452769497813, 89731186075500345188023361742954019301010293578191478411519278106432124268628),
     (False, 69535715328653545857603581209155577498190981040987071448102208450925207900888, 11540683523075197271019464627541182229765414376382825705623075318758835731128),
     (True, 4330061765424020762430322502308134801008895650437950531101711392337193455729, 89681621419401318925034174574328152598356878969814152591165259094773166579095),
     (False, 69458917905255991208985323851156877233397576841906027834334625065498591522124, 50342186793709967905723217080265610044083865712506699620527122332933654807237),
     (True, 18888376740201270361945889520179081953523770524050524429925101707689241915632, 23850449491577287909739098085438992556458504949420208611593493342469010791563),
     (False, 4912632155590803260031193195649983362341561990857356485897699659713088607290, 48075134714372782399855729072091829605296016023262898676869382373475280066239),
     (True, 18037779328935701248154031982024060020138396084064039222601368378664488588385, 75055511128927912469680918167999893682560323217127092605183078219962874068064),
     (False, 48650385254549621151338232789268520221166713066928844190552407353391194532539, 30019742258708660622566472639439065426757690397975091674753718465244093976453),
     (False, 7782784914022214863439114610734369313064726237982330589008386373665307878819, 44455252867743170376081743136621490189096849722560850259746673767604967713206),
     (False, 17067396577365641552142788486285030249099944466516141246364655552204442410383, 24390145508825474096362281296229458981369476806112541462260181128783582297365),
     (False, 5137477023343735887306216014306674463626143165256503320931553622683622277431, 42284264460980604413123346031641819266157986384802506558006521963101136534978),
     (False, 15441115475010737448960685168263584618778121794899324260793127246682159275195, 44207893858614387708384218479725605900116218655183902846870379527470200389769)]
    = Some (74148258491104, 44207893858614387708384218479725605900116218655183902846870379527470200389769)"
  by (simp only: powers_square powers_times powers.simps(1) arith_simps numeral_plus_one One_nat_def [symmetric] mult_1_right)

lemma powers_256_6:
  "powers 115792089237316195423570985008687907853269984665640564039457584007913129639936 432420386565659656852420866394968145599 43445164867623600386259672723475402380771590341346845158858667594426909773631 74148258491104 44207893858614387708384218479725605900116218655183902846870379527470200389769
    [(False, 16877991340229598985030229243655887984275481986526169677554200688338354538025, 99824247098944659321653848493699420891999538446745175519995391645180231208936),
     (False, 86058385978752939571981158987326529774027062130231551376574541772543845526331, 51959758640623134488707252612851196959043781302086397179156846667368845364549),
     (True, 19495289319784654001547386248465305205180647405423320884257374364083204901366, 78363144921236453413400862391656037867408245340774257412920950765488009843077),
     (False, 53032832574262966301476247595664241121930336605148352852973035865380852609787, 83487643011573711204410076656079980494853598663221744900752999868659893551710),
     (True, 31324544180330847563989361413019409267641659366902287839447249973196056201247, 37132144633838408422067388395687198498892632909579129787093859288891570120771),
     (False, 11907516084993061106563488097232935917737079771761157987592261699942499794632, 13079319373156256111015426856997947246930444348988630189043762673782794635457),
     (False, 1477377223191948963590929169841804465934632306602360067115509991274100460342, 112857236218880494782332900223179230249910385719040808231532855103987195515595),
     (False, 109996769648573975350934323536858328340810351508018375115515554583676644039459, 39527094264285726788952858703230265327706400344814669310462484770578455160342),
     (True, 14830556546315191929962075993363203188505137555359564943797899820503350221569, 2529378225692224236479234524246751237802263067790810549200608023233939787049),
     (False, 55252083719585801315477592472337293235037090944734966793570427250497945457, 48662183134558014997967798495252269548411116274632336170035250136184027751392),
     (True, 18258039759231194381585774173324978545264965961696395724251080862103569330749, 66415786870965723969864065348500382730948444082367796061443560061195821675939),
     (False, 38094629561861263923869658466385417308168733116154771499226095686437357330988, 37810285953952818076556814995867382077939797596026991158990701651574734916765)]
    = Some (18981954173722726, 37810285953952818076556814995867382077939797596026991158990701651574734916765)"
  by (simp only: powers_square powers_times powers.simps(1) arith_simps numeral_plus_one One_nat_def [symmetric] mult_1_right)

lemma powers_256_7:
  "powers 115792089237316195423570985008687907853269984665640564039457584007913129639936 432420386565659656852420866394968145599 43445164867623600386259672723475402380771590341346845158858667594426909773631 18981954173722726 37810285953952818076556814995867382077939797596026991158990701651574734916765
    [(False, 12346419633120846724221277832497984102208531637411854538931254042696719663550, 96759806273183176342589584893117916168342981372098995155700509875831607748875),
     (False, 80855783600514810846091778566366778400122702972000241896362866744898866218974, 110092464898460671654806595310164055685232542704552437153387599944328160815387),
     (False, 104673392692467132107126010581990816827384254322359352176937016415103759359114, 30909758479167762767928828371722392419736708977459564465642733912501035622351),
     (False, 8251109169317789668954727469337466856234562504373574153648584007461819171114, 97053861902860095987369300225190766451904487476008951107201539837748945785783),
     (False, 81347976120840570840384110509760302235306913115522760225374400022720774953318, 22248497725604650376035497987392547399857417130871619042152510640179028562923),
     (False, 4274865876473999833492935239016485665518324698249489422541220046675147248102, 28811583830690868263363141582639601976839025873567591356137432924228963305555),
     (False, 7168947104250103257898420175268865609425721142670009282649260830882469529812, 64045486950161324947282033395469929408266781811827637294316671454416603183381),
     (False, 35424046890427760894522347455933783245047891804025599155440560456525819482184, 56527201664618635574033576237588507102525294805842664386465498095214126199153),
     (True, 21208992876806345118252551093861621556947795951270136089016294390180096777070, 68995548109740888209153308809626619795773426702426705838908586604004897481953),
     (False, 41111492938063725232501119838546926023514181970413058191218946328514339589288, 105581803016868010717259636423856120857619146470787281679913152227331042832153),
     (False, 96271836890738303478047790885754377133634030763916918571150953389297968231391, 57977089181794779315531738127417409575217138863247616319725184915365778482642),
     (True, 21752990334993040432536606571710359320777280563799638082982377927390712157454, 30931468335649906626499959182624526873058285276676576057391791161789009475104)]
    = Some (19437521073892071429, 30931468335649906626499959182624526873058285276676576057391791161789009475104)"
  by (simp only: powers_square powers_times powers.simps(1) arith_simps numeral_plus_one One_nat_def [symmetric] mult_1_right)

lemma powers_256_8:
  "powers 115792089237316195423570985008687907853269984665640564039457584007913129639936 432420386565659656852420866394968145599 43445164867623600386259672723475402380771590341346845158858667594426909773631 19437521073892071429 30931468335649906626499959182624526873058285276676576057391791161789009475104
    [(False, 8262703779689468939403434272849754652715989341804910961942061741911865887298, 64801602451672987105653877419680377728534331653604474892750128759623488579390),
     (False, 36265410771700484506665804124716739148563237944134841022575386286991342622757, 86381750997457460569309918320986089118479979415808988494469125723032349944991),
     (False, 64441422160487577430063048943484186719635614898445711531434604653385284904724, 33477889797197081535098692706400509279141753487606085493277995804644215442093),
     (False, 9679150904482370824597368769182275050351026526006301095692865749120902301289, 44234726068204746703364337649931136420565073377153184906140222108388994920256),
     (False, 16898485926087991908491910680701469272010449600130492322677103152010704947468, 71870622051716925140815501798346040048965993876735313472358868492153834616820),
     (False, 44609146860751999596322474931361530569490147211064616501585317798567303184784, 27988343599820702990077480855845978268265476925825237318981737772339546344192),
     (False, 6765119988949780239288986030416739714540583373832219156028200488841619326205, 93303611352748284598555880171924425154369518360415780809161386211870268931779),
     (False, 75182717133833056477852006084114347520899508674853059957975399185952190621312, 62553402920163163264110101901704529022157065362278786396036720788059356594697),
     (True, 23470022181977905433924397235878857108025079022118870365931674282266123432509, 30908313089803037488630772825909803728179728359737800588263593381648079833274),
     (False, 8250337517439132474449516375868590561831533039977251463313361231326499175538, 97178397886730780438470036997167311797253328898842166424319794682887081630770),
     (False, 81556875586526416226953631870879227287824150990634356376457414500604823539870, 57092084883575307784582957773402044707886046960813086431905062530329312076710),
     (True, 21420936928772009104635776348439792647919966400095687843973651242912929429141, 9269955644051994978327542655563066748839379610803652875360440629295692959493)]
    = Some (19904021579665481143301, 9269955644051994978327542655563066748839379610803652875360440629295692959493)"
  by (simp only: powers_square powers_times powers.simps(1) arith_simps numeral_plus_one One_nat_def [symmetric] mult_1_right)

lemma powers_256_9:
  "powers 115792089237316195423570985008687907853269984665640564039457584007913129639936 432420386565659656852420866394968145599 43445164867623600386259672723475402380771590341346845158858667594426909773631 19904021579665481143301 9269955644051994978327542655563066748839379610803652875360440629295692959493
    [(False, 742123906811746136855484990928063237903098518077832341855627520881666091077, 85052955265839805627319376564624438528497200376760410322235042132009077086100),
     (True, 31911848972945177949553083583680090708389443974553481577276503409476860769561, 94127633476851181861401887189392366856936617284606218311743026583760533153043),
     (False, 76516551711868833905639251993450479526127170432011899069770880103754777172687, 53769535752948386471887789668189899503706818972139209470322086746575438586330),
     (True, 20174317270109291447941315408345402073153894604926439091809864227358958132596, 644144079723545689045966876986255116997114706163486592120632449320601955378),
     (False, 3583332835393535987259342929939435497938765140597275461001710815266118534, 34703340413723297308366100738464680674934365470406584643793753410293891380926),
     (False, 10400726369160676118579837517475939454069009190548551833533271320057597797914, 16730022562272753434868270824862066967541554852849733224186095350952455204458),
     (False, 2417208781512807792157781501581719304444801144533279672589856204832564924203, 114632690515495017172134836011782203666152670286645579189929253470532964335353),
     (True, 43010158737683245295393160174060812553369280000950389509623010522517091401129, 107173423970407842944136254238994518776495317514104728671970730790129871570270),
     (False, 99196265316535658366807503603594159142886478227552798692410928543447452402923, 7664931599808729403501037351210306521131182038521257841002823487132441125849),
     (False, 507385062457381827564992738230945765653733120962066366955235560717337638304, 5445493307438844561316158918098024568283415832910763221032363550375605686353),
     (True, 2043147818521086222365910484242592064523002455526274662869772507071833592903, 22247278145019207656967387987697082282053778215914059435119450243261418067432),
     (False, 4274397224558800300578126201904119879058920913131975866568557177884539444209, 25188160658600400850467059001823905951974820147197237282431790602526818130191)]
    = Some (5095429524394363172685258, 25188160658600400850467059001823905951974820147197237282431790602526818130191)"
  by (simp only: powers_square powers_times powers.simps(1) arith_simps numeral_plus_one One_nat_def [symmetric] mult_1_right)

lemma powers_256_10:
  "powers 115792089237316195423570985008687907853269984665640564039457584007913129639936 432420386565659656852420866394968145599 43445164867623600386259672723475402380771590341346845158858667594426909773631 5095429524394363172685258 25188160658600400850467059001823905951974820147197237282431790602526818130191
    [(True, 9450592002725734782705273794947955057425568566701580984789143899858678832130, 65404606298919424576725039260813298351772574984010746999698327915515728145711),
     (False, 36943478205573826172764398814522640824041747655012603063914002827294158437490, 2499159237520750062699368673633260519534347874605932033248543077851044201391),
     (True, 937683962865596844844526197210135651962519323376925916445481262623263240393, 6588364841258954438465555801999117129665977526634361715933133492449246166280),
     (False, 374866293262705411654158172140039902155984176283535227397385281435352869060, 34404744543642655117500985186527459494517790400775680059977153084247516525180),
     (False, 10222515673651422955279618525137419637972949719294305290119268453869449461658, 21583061514594654295254875014273369195741664188569610614493909734972108401654),
     (True, 8097959644962012166439011683577950454586430508398478806652270650906971051982, 26030281715308029249531482623900439762850686963753139726890622197508340359740),
     (False, 5851656798329345186998304696972275145832913634784290632420007591889448347361, 72114114446754864332738477674380843216599339635311652790665001028441802472943),
     (True, 27057198916247468841081140752416809556822462944545018265719979558062454576433, 102934215224952684960176781039890114746089398989541413412934819772004469206112),
     (False, 91504115123628805599144912166502973659343548192728885646381337172372599773915, 57557140202412231302944731546097785722984958396298613932177949110846785337189),
     (True, 21595425575902526110310796960220441031383488246564765292108094395454365320096, 98137420017871503848997256337426586765411169672716085877141872402553299566907),
     (False, 83174535248478523412321274898354510122926909476907335768612210774815476732549, 77621952199952292330748287651124332738447142398030706006082206385829842471636),
     (False, 52034361786003202211919784449629885248031107126274348701100327081961068485211, 63403853266901482126533525190630327727431919699533440969140988945816719766389)]
    = Some (652214979122478486103713244, 63403853266901482126533525190630327727431919699533440969140988945816719766389)"
  by (simp only: powers_square powers_times powers.simps(1) arith_simps numeral_plus_one One_nat_def [symmetric] mult_1_right)

lemma powers_256_11:
  "powers 115792089237316195423570985008687907853269984665640564039457584007913129639936 432420386565659656852420866394968145599 43445164867623600386259672723475402380771590341346845158858667594426909773631 652214979122478486103713244 63403853266901482126533525190630327727431919699533440969140988945816719766389
    [(False, 34717817387780899365445048525533538451729685167944643865057535830872523366529, 83284610799902086877900845066539697238353747546746138226282802276886125253048),
     (False, 59903283909794112934754743959169265097714969600407310022302932347346804838597, 32476350082215069059916700935048206523612218355510591555724553058658418765115),
     (False, 9108681962728498439727921503232678728730568658997052581639491778207820293558, 71336831079936521805014104396622374538449827840942031522338332867994246382179),
     (False, 43948973561549564076488929067274507473290731005747886633650168298577292978948, 1687154864521276275220606998991316821403844148827165802749946126076166570565),
     (False, 24582780703126567768599927365845308220657114987603280264858351967555502277, 95604830723540299969979926596068609335559328749935440850730473593796198313876),
     (False, 78937030309071974390965232751195900846389220511250866405107568991063646976178, 42592170514508057738997963785633057440799772341449300335125336603561493239390),
     (True, 15980572440318359103341528623510211508282876262566268751494588866044388732183, 41613224251739564343564433180724318783384884621360366475517944431653628377419),
     (False, 14954911376342153685688563883366245389823411527695878660563273418534033297604, 9201985400329467341305622136119665710015221263900722340174923403190227433013),
     (True, 3452582775386540075044582759795615428586282879185787214162565930074569024148, 44434641144709824894696427800421368631645133977589058486341553119206528030327),
     (False, 17051573614951576539853905580021110927080916489632964167640785079127437352859, 48193683691613741108336185487481861307528762148840724421477210202979232467446),
     (False, 20058634083431015283734936008658910776585983842202354987816456081099009454448, 14241560403119161410002498684694605939201022135827453440382692149114638301940),
     (False, 1751605347581278149960297201589843287428526367433515920031044720649651373215, 100152225917196323822418282320527911102306056493906866884550133093518111780145)]
    = Some (667868138621417969770202361880, 100152225917196323822418282320527911102306056493906866884550133093518111780145)"
  by (simp only: powers_square powers_times powers.simps(1) arith_simps numeral_plus_one One_nat_def [symmetric] mult_1_right)

lemma powers_256_12:
  "powers 115792089237316195423570985008687907853269984665640564039457584007913129639936 432420386565659656852420866394968145599 43445164867623600386259672723475402380771590341346845158858667594426909773631 667868138621417969770202361880 100152225917196323822418282320527911102306056493906866884550133093518111780145
    [(True, 37577091798684339177022468023517155132559749518671381867737413990541716700430, 52435172869189223770376813294196473048339664169832979127421814328138619891585),
     (False, 23744690780963093046322002173507638316025170931102772967933811447106000638087, 60944710831002046927247768942572387182440939325683763374759858165201716798906),
     (False, 32076956230248829831616135750095737527269916276284643756209744784445863382012, 100080857400937991529148818845751413255999796067608190052338657747397037130792),
     (False, 86501401642202872913099965548108043690016860966974742861941554041814955871924, 45949509701783078678261648805026883143442613858987837243563302959691091252876),
     (True, 17240245320118946653658966538618776161033098645569350224187885678687057685713, 47863135450386160171194793289663019983506157966943277068599437652888362405475),
     (False, 19784423532136537016475463450969046154289729614929958202472702951318868999733, 112985045234807990042670906472521238250361552282817592156353885621932575963604),
     (True, 42391962612764021284245968046585948938436635437236602731956967243851465839684, 7518579035076426172962380708338739415575646377842819770572199940325419056616),
     (False, 488194237439091064431610437027966345573484234892642429923294561422042529540, 35322678956331432124249665740094818054374678446885083762278894511633548156476),
     (True, 13253060903658036664319464411082177448193037086705745896529400385535477245514, 70502325876149460253992044972044691116281796995238716061861569312511657030138),
     (False, 42926749026520810049160940605020226989229219401819549626566900242111315171406, 30233488363300967531853782751586652234969183649442821554298255243525986971222),
     (False, 7894009207662526795866563627612050794500916879554044590849364454196547724996, 110111772616010465213026107898034911048863298346801204345768395460827968825632),
     (True, 41313911396523781674090314362332344941186712589489919473965505179557185797404, 19970752436759762015997974928670813791423247587155386568531885898872455208644)]
    = Some (85487121743541500130585902320797, 19970752436759762015997974928670813791423247587155386568531885898872455208644)"
  by (simp only: powers_square powers_times powers.simps(1) arith_simps numeral_plus_one One_nat_def [symmetric] mult_1_right)

lemma powers_256_13:
  "powers 115792089237316195423570985008687907853269984665640564039457584007913129639936 432420386565659656852420866394968145599 43445164867623600386259672723475402380771590341346845158858667594426909773631 85487121743541500130585902320797 19970752436759762015997974928670813791423247587155386568531885898872455208644
    [(False, 3444371334149959689505585690039312593133897386678454787362921656556738341608, 62558088546064577333992463070714321473464482478475621687633391871741108844840),
     (False, 33797770368548215635081679168257543855021889483012937245919470288622188646974, 81674116009065657946141393089602005789239795091527503123682967714515201439362),
     (True, 30644109272084469965762085985423129905179360915968330495206716459877071231933, 1)]
    = Some (341948486974166000522343609283189, 1)"
  by (simp only: powers_square powers_times powers.simps(1) arith_simps numeral_plus_one One_nat_def [symmetric] mult_1_right)

lemma power_256: "115792089237316195423570985008687907852837564279074904382605163141518161494337 dvd 43445164867623600386259672723475402380771590341346845158858667594426909773631 ^ nat 341948486974166000522343609283189 - (1 :: int)"
proof -
  have "115792089237316195423570985008687907853269984665640564039457584007913129639936 - 432420386565659656852420866394968145599 dvd 43445164867623600386259672723475402380771590341346845158858667594426909773631 ^ 1 - (43445164867623600386259672723475402380771590341346845158858667594426909773631 :: int)" by simp
  from powers_dvd [OF powers_256_0 this] have "115792089237316195423570985008687907853269984665640564039457584007913129639936 - 432420386565659656852420866394968145599 dvd 43445164867623600386259672723475402380771590341346845158858667594426909773631 ^ 538 - (105252380302762183989346650343928158794881747863425718777234817807754579709613 :: int)" .
  from powers_dvd [OF powers_256_1 this] have "115792089237316195423570985008687907853269984665640564039457584007913129639936 - 432420386565659656852420866394968145599 dvd 43445164867623600386259672723475402380771590341346845158858667594426909773631 ^ 34527 - (54948625374192566108953465646727240589518529673383927364651903973219112556734 :: int)" .
  from powers_dvd [OF powers_256_2 this] have "115792089237316195423570985008687907853269984665640564039457584007913129639936 - 432420386565659656852420866394968145599 dvd 43445164867623600386259672723475402380771590341346845158858667594426909773631 ^ 4419580 - (90236237909395318005732238641021011852837488926578643169514900654635975479162 :: int)" .
  from powers_dvd [OF powers_256_3 this] have "115792089237316195423570985008687907853269984665640564039457584007913129639936 - 432420386565659656852420866394968145599 dvd 43445164867623600386259672723475402380771590341346845158858667594426909773631 ^ 1131412634 - (11861165031306156502945302454985868181243466504707986158839167078369483951862 :: int)" .
  from powers_dvd [OF powers_256_4 this] have "115792089237316195423570985008687907853269984665640564039457584007913129639936 - 432420386565659656852420866394968145599 dvd 43445164867623600386259672723475402380771590341346845158858667594426909773631 ^ 144820817365 - (46868817082827965857375723758400723428488091712104294851985501330572195715603 :: int)" .
  from powers_dvd [OF powers_256_5 this] have "115792089237316195423570985008687907853269984665640564039457584007913129639936 - 432420386565659656852420866394968145599 dvd 43445164867623600386259672723475402380771590341346845158858667594426909773631 ^ 74148258491104 - (44207893858614387708384218479725605900116218655183902846870379527470200389769 :: int)" .
  from powers_dvd [OF powers_256_6 this] have "115792089237316195423570985008687907853269984665640564039457584007913129639936 - 432420386565659656852420866394968145599 dvd 43445164867623600386259672723475402380771590341346845158858667594426909773631 ^ 18981954173722726 - (37810285953952818076556814995867382077939797596026991158990701651574734916765 :: int)" .
  from powers_dvd [OF powers_256_7 this] have "115792089237316195423570985008687907853269984665640564039457584007913129639936 - 432420386565659656852420866394968145599 dvd 43445164867623600386259672723475402380771590341346845158858667594426909773631 ^ 19437521073892071429 - (30931468335649906626499959182624526873058285276676576057391791161789009475104 :: int)" .
  from powers_dvd [OF powers_256_8 this] have "115792089237316195423570985008687907853269984665640564039457584007913129639936 - 432420386565659656852420866394968145599 dvd 43445164867623600386259672723475402380771590341346845158858667594426909773631 ^ 19904021579665481143301 - (9269955644051994978327542655563066748839379610803652875360440629295692959493 :: int)" .
  from powers_dvd [OF powers_256_9 this] have "115792089237316195423570985008687907853269984665640564039457584007913129639936 - 432420386565659656852420866394968145599 dvd 43445164867623600386259672723475402380771590341346845158858667594426909773631 ^ 5095429524394363172685258 - (25188160658600400850467059001823905951974820147197237282431790602526818130191 :: int)" .
  from powers_dvd [OF powers_256_10 this] have "115792089237316195423570985008687907853269984665640564039457584007913129639936 - 432420386565659656852420866394968145599 dvd 43445164867623600386259672723475402380771590341346845158858667594426909773631 ^ 652214979122478486103713244 - (63403853266901482126533525190630327727431919699533440969140988945816719766389 :: int)" .
  from powers_dvd [OF powers_256_11 this] have "115792089237316195423570985008687907853269984665640564039457584007913129639936 - 432420386565659656852420866394968145599 dvd 43445164867623600386259672723475402380771590341346845158858667594426909773631 ^ 667868138621417969770202361880 - (100152225917196323822418282320527911102306056493906866884550133093518111780145 :: int)" .
  from powers_dvd [OF powers_256_12 this] have "115792089237316195423570985008687907853269984665640564039457584007913129639936 - 432420386565659656852420866394968145599 dvd 43445164867623600386259672723475402380771590341346845158858667594426909773631 ^ 85487121743541500130585902320797 - (19970752436759762015997974928670813791423247587155386568531885898872455208644 :: int)" .
  from powers_dvd [OF powers_256_13 this] have "115792089237316195423570985008687907853269984665640564039457584007913129639936 - 432420386565659656852420866394968145599 dvd 43445164867623600386259672723475402380771590341346845158858667594426909773631 ^ 341948486974166000522343609283189 - (1 :: int)" .
  moreover have "115792089237316195423570985008687907853269984665640564039457584007913129639936 - 432420386565659656852420866394968145599 = (115792089237316195423570985008687907852837564279074904382605163141518161494337 :: int)" by simp
  ultimately show ?thesis by (simp only: nat_numeral)
qed

lemma prime_order: "is_prime 115792089237316195423570985008687907852837564279074904382605163141518161494337"
proof (rule pocklington [OF prime_341948486974166000522343609283189 _ _ power_256])
  show "115792089237316195423570985008687907852837564279074904382605163141518161494337 = 341948486974166000522343609283189 * 338624364920977752681389262317185522840540224 + (1 :: int)" by simp
  show "coprime (43445164867623600386259672723475402380771590341346845158858667594426909773631 - 1) (115792089237316195423570985008687907852837564279074904382605163141518161494337 :: int)" by (rule coprime_witness [of _ 28835063215576350985334850427918368018745471584383684626975118004172072190109 10818908991283169328588588797002260245036811253227742358550436659577789309637]) simp
  show "338624364920977752681389262317185522840540224 div 341948486974166000522343609283189 + 1 < 338624364920977752681389262317185522840540224 mod (341948486974166000522343609283189 :: int)" by simp
qed simp

end
