(* ===== verification/Curve_Scalar.thy ===== *)
theory Curve_Scalar
  imports Fiat Primality
begin

text \<open>
  Scalars of the secp256k1 group (\<^verbatim>\<open>internal/curve/secp256k1/fiat.go\<close>, \<^verbatim>\<open>conversion.go\<close>, \<^verbatim>\<open>scalar_inv_gen.go\<close> and
  the sampling of \<^verbatim>\<open>scalar.go\<close>): parsing and printing, arithmetic, inversion by an addition chain, reduction and the
  low-S form.  A well-formed scalar is a Montgomery form below the group order; it stands for the number
  \<open>sval\<close>.

  A reader of random bytes is the list of the bytes that it delivers before it fails.
\<close>

section \<open>Bytes\<close>

definition ScalarSize :: nat where "ScalarSize = 32"

record Scalar =
  s_mont :: limbs

definition scalarModulus :: bytes where
  "scalarModulus = [0xFF, 0xFF, 0xFF, 0xFF, 0xFF, 0xFF, 0xFF, 0xFF, 0xFF, 0xFF, 0xFF, 0xFF, 0xFF, 0xFF, 0xFF, 0xFE,
    0xBA, 0xAE, 0xDC, 0xE6, 0xAF, 0x48, 0xA0, 0x3B, 0xBF, 0xD2, 0x5E, 0x8C, 0xD0, 0x36, 0x41, 0x41]"

definition halfOrder :: Scalar where
  "halfOrder = \<lparr>s_mont = (0xbfd25e8cd0364141, 0xbaaedce6af48a03b, 0xfffffffffffffffe, 0x7fffffffffffffff)\<rparr>"

definition ScalarZero :: Scalar where
  "ScalarZero = \<lparr>s_mont = (0, 0, 0, 0)\<rparr>"

definition lt32BE :: "bytes \<Rightarrow> bytes \<Rightarrow> bool" where
  "lt32BE a b \<longleftrightarrow> a < b"

definition ScalarFromBytes :: "bytes \<Rightarrow> string + Scalar" where
  "ScalarFromBytes be =
    (if length be \<noteq> ScalarSize then Inl ''secp256k1 scalar must be 32 bytes''
     else if be = replicate ScalarSize 0 then Inl ''secp256k1 scalar is zero''
     else if \<not> lt32BE be scalarModulus then Inl ''secp256k1 scalar out of range''
     else Inr \<lparr>s_mont = scalar_ToMontgomery (fiat_FromBytes (rev be))\<rparr>)"

definition ScalarFromBytesAllowZero :: "bytes \<Rightarrow> string + Scalar" where
  "ScalarFromBytesAllowZero be =
    (if length be \<noteq> ScalarSize then Inl ''secp256k1 scalar must be 32 bytes''
     else if be = replicate ScalarSize 0 then Inr ScalarZero
     else if \<not> lt32BE be scalarModulus then Inl ''secp256k1 scalar out of range''
     else Inr \<lparr>s_mont = scalar_ToMontgomery (fiat_FromBytes (rev be))\<rparr>)"

definition Scalar_Bytes :: "Scalar \<Rightarrow> bytes" where
  "Scalar_Bytes s = rev (fiat_ToBytes (scalar_FromMontgomery (s_mont s)))"

definition Scalar_IsZero :: "Scalar \<Rightarrow> bool" where
  "Scalar_IsZero s \<longleftrightarrow> fiat_Nonzero (s_mont s) = 0"

definition Scalar_Equal :: "Scalar \<Rightarrow> Scalar \<Rightarrow> bool" where
  "Scalar_Equal s t \<longleftrightarrow> s_mont s = s_mont t"

section \<open>Arithmetic\<close>

definition ScalarOne :: Scalar where
  "ScalarOne = \<lparr>s_mont = scalar_SetOne\<rparr>"

definition ScalarAdd :: "Scalar \<Rightarrow> Scalar \<Rightarrow> Scalar" where
  "ScalarAdd a b = \<lparr>s_mont = scalar_Add (s_mont a) (s_mont b)\<rparr>"

definition ScalarSub :: "Scalar \<Rightarrow> Scalar \<Rightarrow> Scalar" where
  "ScalarSub a b = \<lparr>s_mont = scalar_Sub (s_mont a) (s_mont b)\<rparr>"

definition ScalarMul :: "Scalar \<Rightarrow> Scalar \<Rightarrow> Scalar" where
  "ScalarMul a b = \<lparr>s_mont = scalar_Mul (s_mont a) (s_mont b)\<rparr>"

definition ScalarSquare :: "Scalar \<Rightarrow> Scalar" where
  "ScalarSquare a = \<lparr>s_mont = scalar_Square (s_mont a)\<rparr>"

definition ScalarNeg :: "Scalar \<Rightarrow> Scalar" where
  "ScalarNeg a = \<lparr>s_mont = scalar_Opp (s_mont a)\<rparr>"

text \<open>The generated addition chain; a loop that squares \<open>k\<close> times is the \<open>k\<close>-fold iterate.\<close>

definition scalarInvAddchain :: "Scalar \<Rightarrow> Scalar" where
  "scalarInvAddchain x =
    (let z = ScalarSquare x;
         t2 = ScalarMul x z;
         t6 = ScalarMul z t2;
         t5 = ScalarMul z t6;
         t0 = ScalarMul z t5;
         t3 = ScalarMul z t0;
         t1 = ScalarMul z t3;
         z = ScalarSquare t1;
         z = (ScalarSquare ^^ 1) z;
         z = ScalarMul t3 z;
         t4 = ScalarSquare z;
         t7 = ScalarMul x t4;
         t4 = ScalarSquare t7;
         t4 = ScalarMul x t4;
         t9 = ScalarSquare t4;
         t9 = (ScalarSquare ^^ 2) t9;
         t10 = ScalarSquare t9;
         t10 = (ScalarSquare ^^ 1) t10;
         t11 = ScalarSquare t10;
         t8 = ScalarSquare t11;
         t12 = ScalarSquare t8;
         t12 = (ScalarSquare ^^ 6) t12;
         t11 = ScalarMul t11 t12;
         t11 = (ScalarSquare ^^ 9) t11;
         t8 = ScalarMul t8 t11;
         t11 = ScalarSquare t8;
         t11 = (ScalarSquare ^^ 5) t11;
         t10 = ScalarMul t10 t11;
         t10 = (ScalarSquare ^^ 26) t10;
         t8 = ScalarMul t8 t10;
         t10 = ScalarSquare t8;
         t10 = (ScalarSquare ^^ 3) t10;
         t9 = ScalarMul t9 t10;
         t9 = (ScalarSquare ^^ 60) t9;
         t8 = ScalarMul t8 t9;
         t7 = ScalarMul t7 t8;
         t7 = (ScalarSquare ^^ 5) t7;
         t7 = ScalarMul t3 t7;
         t7 = (ScalarSquare ^^ 3) t7;
         t7 = ScalarMul t6 t7;
         t7 = (ScalarSquare ^^ 4) t7;
         t7 = ScalarMul t6 t7;
         t7 = (ScalarSquare ^^ 4) t7;
         t7 = ScalarMul t5 t7;
         t7 = (ScalarSquare ^^ 5) t7;
         t7 = ScalarMul t1 t7;
         t7 = (ScalarSquare ^^ 2) t7;
         t7 = ScalarMul t2 t7;
         t7 = (ScalarSquare ^^ 5) t7;
         t7 = ScalarMul t5 t7;
         t7 = (ScalarSquare ^^ 6) t7;
         t7 = ScalarMul t1 t7;
         t7 = (ScalarSquare ^^ 5) t7;
         t7 = ScalarMul t3 t7;
         t7 = (ScalarSquare ^^ 4) t7;
         t7 = ScalarMul t1 t7;
         t7 = (ScalarSquare ^^ 3) t7;
         t7 = ScalarMul x t7;
         t7 = (ScalarSquare ^^ 6) t7;
         t6 = ScalarMul t6 t7;
         t6 = (ScalarSquare ^^ 10) t6;
         t6 = ScalarMul t5 t6;
         t6 = (ScalarSquare ^^ 4) t6;
         t5 = ScalarMul t5 t6;
         t5 = (ScalarSquare ^^ 9) t5;
         t4 = ScalarMul t4 t5;
         t4 = (ScalarSquare ^^ 5) t4;
         t4 = ScalarMul t0 t4;
         t4 = (ScalarSquare ^^ 6) t4;
         t3 = ScalarMul t3 t4;
         t3 = (ScalarSquare ^^ 4) t3;
         t3 = ScalarMul t1 t3;
         t3 = (ScalarSquare ^^ 5) t3;
         t2 = ScalarMul t2 t3;
         t2 = (ScalarSquare ^^ 6) t2;
         t2 = ScalarMul t1 t2;
         t2 = (ScalarSquare ^^ 10) t2;
         t1 = ScalarMul t1 t2;
         t1 = (ScalarSquare ^^ 4) t1;
         t0 = ScalarMul t0 t1;
         t0 = (ScalarSquare ^^ 6) t0;
         t0 = ScalarMul x t0;
         t0 = (ScalarSquare ^^ 8) t0;
         z = ScalarMul z t0
     in z)"

definition ScalarInvert :: "Scalar \<Rightarrow> string + Scalar" where
  "ScalarInvert a =
    (if Scalar_IsZero a then Inl ''zero scalar is not invertible'' else Inr (scalarInvAddchain a))"

section \<open>Comparison and the low-S form\<close>

fun limbsLessOrEqual :: "limbs \<Rightarrow> limbs \<Rightarrow> bool" where
  "limbsLessOrEqual (a0, a1, a2, a3) (b0, b1, b2, b3) =
    (if a3 \<noteq> b3 then a3 < b3
     else if a2 \<noteq> b2 then a2 < b2
     else if a1 \<noteq> b1 then a1 < b1
     else if a0 \<noteq> b0 then a0 < b0
     else True)"

definition scalarLessOrEqual :: "Scalar \<Rightarrow> Scalar \<Rightarrow> bool" where
  "scalarLessOrEqual a b \<longleftrightarrow>
    limbsLessOrEqual (scalar_FromMontgomery (s_mont a)) (scalar_FromMontgomery (s_mont b))"

definition IsLowS :: "Scalar \<Rightarrow> bool" where
  "IsLowS s \<longleftrightarrow> scalarLessOrEqual s halfOrder"

definition NormalizeLowS :: "Scalar \<Rightarrow> Scalar \<times> bool" where
  "NormalizeLowS s = (if IsLowS s then (s, False) else (ScalarNeg s, True))"

section \<open>Conversions\<close>

text \<open>Subtraction of 256-bit numbers, byte by byte from the least significant one.\<close>

fun subLoop :: "bytes \<Rightarrow> bytes \<Rightarrow> u16 \<Rightarrow> bytes" where
  "subLoop (a # as) (b # bs) borrow =
    (let diff = (ucast a :: u16) - ucast b - borrow;
         borrow = (if diff > 0xFF then 1 else 0)
     in (ucast diff :: u8) # subLoop as bs borrow)"
| "subLoop _ _ _ = []"

definition sub32BE :: "bytes \<Rightarrow> bytes \<Rightarrow> bytes" where
  "sub32BE a b = rev (subLoop (rev a) (rev b) 0)"

definition mustScalarFromBytes :: "bytes \<Rightarrow> Scalar" where
  "mustScalarFromBytes be = (case ScalarFromBytes be of Inl _ \<Rightarrow> ScalarZero | Inr s \<Rightarrow> s)"

definition ScalarFromBytesModOrder :: "bytes \<Rightarrow> string + Scalar" where
  "ScalarFromBytesModOrder be =
    (if length be \<noteq> ScalarSize then Inl ''secp256k1 scalar input must be 32 bytes''
     else Inr (mustScalarFromBytes (if \<not> lt32BE be scalarModulus then sub32BE be scalarModulus else be)))"

definition orderBytes :: bytes where
  "orderBytes = [0xFF, 0xFF, 0xFF, 0xFF, 0xFF, 0xFF, 0xFF, 0xFF, 0xFF, 0xFF, 0xFF, 0xFF, 0xFF, 0xFF, 0xFF, 0xFE,
    0xBA, 0xAE, 0xDC, 0xE6, 0xAF, 0x48, 0xA0, 0x3B, 0xBF, 0xD2, 0x5E, 0x8C, 0xD0, 0x36, 0x41, 0x41]"

definition Order :: int where
  "Order = be_int orderBytes"

definition XCoordGTEOrder :: "bytes \<Rightarrow> bool" where
  "XCoordGTEOrder x32 \<longleftrightarrow> orderBytes \<le> x32"

definition scalarFromBig :: "int \<Rightarrow> Scalar" where
  "scalarFromBig x =
    (let reduced = x mod Order;
         reduced = (if reduced < 0 then reduced + Order else reduced)
     in case ScalarFromBytes (be_bytes 32 reduced) of Inl _ \<Rightarrow> ScalarZero | Inr s \<Rightarrow> s)"

definition scalarFromUint64 :: "u64 \<Rightarrow> Scalar" where
  "scalarFromUint64 w =
    (let le = [ucast w, ucast (drop_bit 8 w), ucast (drop_bit 16 w), ucast (drop_bit 24 w), ucast (drop_bit 32 w),
               ucast (drop_bit 40 w), ucast (drop_bit 48 w), ucast (drop_bit 56 w)] @ replicate 24 (0 :: u8)
     in \<lparr>s_mont = scalar_ToMontgomery (fiat_FromBytes le)\<rparr>)"

section \<open>Sampling\<close>

text \<open>
  \<^verbatim>\<open>io.ReadFull\<close> on 32 bytes, and the rejection loop of \<^verbatim>\<open>RandomScalar\<close>.  The second component is what the reader
  still delivers.
\<close>

function RandomScalar :: "bytes \<Rightarrow> (string + Scalar) \<times> bytes" where
  "RandomScalar reader =
    (if length reader < 32 then (Inl (if reader = [] then ''EOF'' else ''unexpected EOF''), [])
     else case ScalarFromBytes (take 32 reader) of
       Inl _ \<Rightarrow> RandomScalar (drop 32 reader)
     | Inr s \<Rightarrow> (Inr s, drop 32 reader))"
  by pat_completeness auto
termination
  by (relation "measure length") auto

declare RandomScalar.simps [simp del]

section \<open>Bytes: laws\<close>

lemma low_byte: "(ucast (x :: u64) :: u8) = word_of_int (uint x mod 256)"
  by (rule word_uint_eqI) (simp add: unsigned_ucast_eq uint_word_of_int take_bit_eq_mod)

lemma be_bytes_8:
  "be_bytes 8 k = map word_of_int
    [k div 256 div 256 div 256 div 256 div 256 div 256 div 256 mod 256, k div 256 div 256 div 256 div 256 div 256 div 256 mod 256,
    k div 256 div 256 div 256 div 256 div 256 mod 256, k div 256 div 256 div 256 div 256 mod 256, k div 256 div 256 div 256 mod 256, k div 256 div 256 mod 256, k div 256 mod 256, k mod 256]"
proof -
  have "be_bytes (Suc (Suc (Suc (Suc (Suc (Suc (Suc (Suc 0)))))))) k = map word_of_int
    [k div 256 div 256 div 256 div 256 div 256 div 256 div 256 mod 256, k div 256 div 256 div 256 div 256 div 256 div 256 mod 256,
    k div 256 div 256 div 256 div 256 div 256 mod 256, k div 256 div 256 div 256 div 256 mod 256, k div 256 div 256 div 256 mod 256, k div 256 div 256 mod 256, k div 256 mod 256, k mod 256]"
    by (simp only: be_bytes.simps append.simps list.map)
  moreover have "(8 :: nat) = Suc (Suc (Suc (Suc (Suc (Suc (Suc (Suc 0)))))))" by simp
  ultimately show ?thesis by (simp only:)
qed

lemma and_full: "(x :: u8) AND 0xff = x"
proof -
  have "(0xff :: u8) = - 1" by simp
  then show ?thesis by (metis and.right_neutral)
qed

lemma rev_word_to_bytes: "rev (word_to_bytes w) = be_bytes 8 (uint w)"
proof -
  have d: "uint (drop_bit 8 x) = uint x div 256" for x :: u64
    unfolding unsigned_drop_bit_eq using uint_lt2p [of x] by (simp add: drop_bit_eq_div take_bit_int_eq_self)
  show ?thesis
    by (simp only: word_to_bytes_def Let_def and_full low_byte drop_bit_drop_bit d be_bytes_8 rev.simps append.simps list.map arith_simps)
qed

lemma word_from_bytes_law:
  assumes "length bs = 8"
  shows "uint (word_from_bytes bs) = be_int (rev bs)"
proof -
  from assms obtain a0 a1 a2 a3 a4 a5 a6 a7 where b: "bs = [a0, a1, a2, a3, a4, a5, a6, a7]"
    by (auto simp: numeral_eq_Suc length_Suc_conv)
  have w: "of_int (uint x) = (ucast x :: u64)" for x :: u8
    by (rule word_uint_eqI) (simp add: unsigned_ucast_eq uint_word_of_int take_bit_eq_mod)
  have "be_int (rev bs) = uint a7 * 2 ^ 56 + (uint a6 * 2 ^ 48 + (uint a5 * 2 ^ 40 + (uint a4 * 2 ^ 32 +
      (uint a3 * 2 ^ 24 + (uint a2 * 2 ^ 16 + (uint a1 * 2 ^ 8 + uint a0))))))"
    by (simp add: b be_int_Cons)
  then have "word_from_bytes bs = word_of_int (be_int (rev bs))"
    by (simp only: b word_from_bytes.simps Let_def push_bit_eq_mult of_int_add of_int_mult of_int_power of_int_numeral w)
  moreover have "be_int (rev bs) < 2 ^ 64" using be_int_less [of "rev bs"] assms by simp
  ultimately show ?thesis by (simp add: uint_word_of_int)
qed

lemma length_word_to_bytes [simp]: "length (word_to_bytes w) = 8"
  by (simp add: word_to_bytes_def Let_def)

lemma rev_fiat_ToBytes: "rev (fiat_ToBytes a) = be_bytes 32 (ev4 a)"
proof -
  obtain a0 a1 a2 a3 where a: "a = (a0, a1, a2, a3)" by (cases a)
  have r: "rev (fiat_ToBytes a) = be_bytes 8 (uint a3) @ be_bytes 8 (uint a2) @ be_bytes 8 (uint a1) @ be_bytes 8 (uint a0)"
    by (simp add: a rev_word_to_bytes)
  have u: "uint x mod 18446744073709551616 = uint x" for x :: u64 using u64_bounds [of x] by (simp add: W_def)
  have "be_int (rev (fiat_ToBytes a)) = ev4 a"
    unfolding r by (simp add: be_int_append be_int_be_bytes a u W_numeral algebra_simps)
  moreover have "length (rev (fiat_ToBytes a)) = 32" by (simp add: a)
  ultimately show ?thesis by (metis be_bytes_be_int)
qed

lemma ev4_FromBytes:
  assumes "length be = 32"
  shows "ev4 (fiat_FromBytes (rev be)) = be_int be"
proof -
  have "be = take 8 be @ take 8 (drop 8 be) @ take 8 (drop 16 be) @ drop 24 be"
    using append_take_drop_id [of 8 be] append_take_drop_id [of 8 "drop 8 be"] append_take_drop_id [of 8 "drop 16 be"] by simp
  moreover have "length (take 8 be) = 8" "length (take 8 (drop 8 be)) = 8" "length (take 8 (drop 16 be)) = 8"
    "length (drop 24 be) = 8" using assms by simp_all
  ultimately obtain b3 b2 b1 b0 where b: "be = b3 @ b2 @ b1 @ b0" "length b3 = 8" "length b2 = 8" "length b1 = 8" "length b0 = 8"
    by blast
  have f: "fiat_FromBytes (rev be) = (word_from_bytes (rev b0), word_from_bytes (rev b1), word_from_bytes (rev b2), word_from_bytes (rev b3))"
    using b by (simp add: fiat_FromBytes_def)
  have "be_int be = be_int b3 * 256 ^ 24 + (be_int b2 * 256 ^ 16 + (be_int b1 * 256 ^ 8 + be_int b0))"
    using b by (simp add: be_int_append)
  then show ?thesis unfolding f ev4.simps using b(2-5) by (simp add: word_from_bytes_law W_numeral)
qed

section \<open>Scalars: laws\<close>

definition sval :: "Scalar \<Rightarrow> int" where
  "sval s = scalarVal (s_mont s)"

definition sok :: "Scalar \<Rightarrow> bool" where
  "sok s \<longleftrightarrow> ev4 (s_mont s) < orderN"

lemmas scalar_defs = ScalarAdd_def ScalarSub_def ScalarMul_def ScalarSquare_def ScalarNeg_def ScalarZero_def ScalarOne_def
  scalar_operations fiat_Square_def

lemma orderN_gt: "1 < orderN"
  by (simp add: orderN_def)

lemma orderN_pos: "0 < orderN"
  by (simp add: orderN_def)

lemma sval_bounds: "0 \<le> sval s" "sval s < orderN"
  using sc.val_less [of "s_mont s"] by (simp_all add: sval_def scalarVal_val)

lemma ev4_zero: "ev4 (0, 0, 0, 0) = 0"
  by simp

lemma val_zero_form: "sc.val (0, 0, 0, 0) = 0" "fe.val (0, 0, 0, 0) = 0"
  by (simp_all add: sc.val_def fe.val_def)

interpretation scalars: modular orderN sok sval ScalarAdd ScalarSub ScalarMul ScalarSquare ScalarNeg ScalarZero ScalarOne
proof
  show "1 < orderN" by (rule orderN_gt)
  show "0 \<le> sval a" "sval a < orderN" for a by (rule sval_bounds)+
  show "sval a = sval b \<longleftrightarrow> a = b" if "sok a" "sok b" for a b
    using that sc.val_inject [of "s_mont a" "s_mont b"] by (cases a, cases b) (simp add: sok_def sval_def scalarVal_val)
qed (simp_all add: sok_def sval_def scalarVal_val scalar_defs sc.fiat_less [unfolded ev4_scalar] sc.val_Add sc.val_Sub sc.val_Mul
    sc.val_Opp sc.val_one scalar_SetOne_law orderN_pos ev4_zero val_zero_form
    del: ev4.simps)

lemma IsZero_iff: "sok s \<Longrightarrow> Scalar_IsZero s \<longleftrightarrow> sval s = 0"
  using sc.val_zero [of "s_mont s"] by (simp add: Scalar_IsZero_def sok_def sval_def scalarVal_val)

lemma Scalar_Bytes_law: "Scalar_Bytes s = be_bytes 32 (sval s)"
  by (simp add: Scalar_Bytes_def scalar_FromMontgomery_def rev_fiat_ToBytes sc.fiat_FromMontgomery_law sval_def scalarVal_val)

lemma be_int_scalarModulus: "be_int scalarModulus = orderN"
  by (simp add: scalarModulus_def be_int_def orderN_def)

lemma lt_modulus: "length be = 32 \<Longrightarrow> lt32BE be scalarModulus \<longleftrightarrow> be_int be < orderN"
  using bytes_less_iff [of be scalarModulus] by (simp add: lt32BE_def be_int_scalarModulus) (simp add: scalarModulus_def)

lemma zero_bytes: "length be = 32 \<Longrightarrow> be = replicate 32 0 \<longleftrightarrow> be_int be = 0"
proof -
  have "be_int (replicate n 0) = 0" for n by (induction n) (simp_all add: be_int_Cons)
  then show ?thesis if "length be = 32" using that be_int_inject [of be "replicate 32 0"] by simp
qed

lemma to_scalar:
  assumes "length be = 32" "be_int be < orderN"
  shows "sok \<lparr>s_mont = scalar_ToMontgomery (fiat_FromBytes (rev be))\<rparr>"
    "sval \<lparr>s_mont = scalar_ToMontgomery (fiat_FromBytes (rev be))\<rparr> = be_int be"
  using sc.toMontgomery_law [of "fiat_FromBytes (rev be)"] sc.val_toMontgomery [of "fiat_FromBytes (rev be)"] orderN_gt assms
  by (simp_all add: sok_def sval_def scalarVal_val scalar_ToMontgomery_def ev4_FromBytes)

lemma ScalarFromBytes_iff:
  "ScalarFromBytes be = Inr s \<longleftrightarrow> length be = 32 \<and> 0 < be_int be \<and> be_int be < orderN \<and> sok s \<and> sval s = be_int be"
  using to_scalar [of be] scalars.v_inject [of s "\<lparr>s_mont = scalar_ToMontgomery (fiat_FromBytes (rev be))\<rparr>"] be_int_nonneg [of be]
  by (auto simp: ScalarFromBytes_def ScalarSize_def zero_bytes lt_modulus less_le)

lemma ScalarFromBytesAllowZero_iff:
  "ScalarFromBytesAllowZero be = Inr s \<longleftrightarrow> length be = 32 \<and> be_int be < orderN \<and> sok s \<and> sval s = be_int be"
  using to_scalar [of be] scalars.v_inject [of s "\<lparr>s_mont = scalar_ToMontgomery (fiat_FromBytes (rev be))\<rparr>"]
    scalars.v_inject [of s ScalarZero] scalars.ok_zero scalars.v_zero orderN_gt
  by (auto simp: ScalarFromBytesAllowZero_def ScalarSize_def zero_bytes lt_modulus)

lemma limbsLessOrEqual_iff: "limbsLessOrEqual a b \<longleftrightarrow> ev4 a \<le> ev4 b"
proof -
  obtain a0 a1 a2 a3 where a: "a = (a0, a1, a2, a3)" by (cases a)
  obtain b0 b1 b2 b3 where b: "b = (b0, b1, b2, b3)" by (cases b)
  have lt: "uint x + W * y < uint x' + W * y' \<longleftrightarrow> y < y' \<or> y = y' \<and> uint x < uint x'" for x x' :: u64 and y y'
  proof -
    have "uint x + W * y < uint x' + W * y'" if "y < y'" for x x' :: u64 and y y'
    proof -
      have "W * (y + 1) \<le> W * y'" using that W_pos by (intro mult_left_mono) auto
      then have "W * y + W \<le> W * y'" by (simp add: algebra_simps)
      then show ?thesis using u64_bounds(2) [of x] u64_bounds(1) [of x'] by linarith
    qed
    from this [of y y' x x'] this [of y' y x' x] show ?thesis by (cases y y' rule: linorder_cases) auto
  qed
  have "uint b0 + W * (uint b1 + W * (uint b2 + W * uint b3)) < uint a0 + W * (uint a1 + W * (uint a2 + W * uint a3))
    \<longleftrightarrow> b3 < a3 \<or> b3 = a3 \<and> (b2 < a2 \<or> b2 = a2 \<and> (b1 < a1 \<or> b1 = a1 \<and> b0 < a0))"
    using ev4_inject [of "(b1, b2, b3, 0)" "(a1, a2, a3, 0)"] ev4_inject [of "(b2, b3, 0, 0)" "(a2, a3, 0, 0)"]
    by (simp only: lt word_less_def) (auto dest: word_uint_eqI)
  then have "ev4 b < ev4 a \<longleftrightarrow> \<not> limbsLessOrEqual a b" by (auto simp: a b)
  then show ?thesis by linarith
qed

lemma halfOrder_law: "sok halfOrder" "sval halfOrder = orderN div 2"
proof -
  have e: "ev4 (s_mont halfOrder) = 57896044618658097711785492504343953926202571946254622362876371137561596674369"
    unfolding halfOrder_def by (simp only: Scalar.simps ev4_numeral) simp
  show "sok halfOrder" unfolding sok_def e by (simp add: orderN_def)
  have "sval halfOrder = 57896044618658097711785492504343953926202571946254622362876371137561596674369 * scalarRi mod orderN"
    by (simp only: sval_def scalarVal_def e)
  also have "\<dots> = 57896044618658097711785492504343953926418782139537452191302581570759080747168"
  proof (rule modulo_witness)
    show "57896044618658097711785492504343953926202571946254622362876371137561596674369 * scalarRi = 57896044618658097711785492504343953926418782139537452191302581570759080747168 + 49281371280959353120723206308849813365398032984003400123022329057810012399478 * orderN" by (simp only: scalarRi_def orderN_def arith_simps)
  qed (simp_all add: orderN_def)
  also have "\<dots> = orderN div 2" by (simp add: orderN_def)
  finally show "sval halfOrder = orderN div 2" .
qed

lemma IsLowS_iff: "IsLowS s \<longleftrightarrow> sval s \<le> orderN div 2"
  by (simp add: IsLowS_def scalarLessOrEqual_def limbsLessOrEqual_iff scalar_FromMontgomery_def sc.fiat_FromMontgomery_law
    halfOrder_law(2) [unfolded sval_def scalarVal_val] sval_def scalarVal_val)

section \<open>Inversion\<close>

lemma prime_orderN: "is_prime orderN"
  unfolding orderN_def by (rule prime_order)

lemmas pw_chain = scalars.pw_mul scalars.pw_sq scalars.pw_sqs

lemma scalarInvAddchain_power:
  assumes "sok x"
  shows "sok (scalarInvAddchain x)" "sval (scalarInvAddchain x) = sval x ^ nat (orderN - 2) mod orderN"
proof -
  note x = scalars.pw_self [OF assms]
  have "scalars.pw x (nat (orderN - 2)) (scalarInvAddchain x)"
    unfolding scalarInvAddchain_def
    apply (rule scalars.pw_eq)
     apply ((rule scalars.pw_let, (rule pw_chain | assumption | rule x)+)+)
    apply (simp add: orderN_def)
    done
  then show "sok (scalarInvAddchain x)" "sval (scalarInvAddchain x) = sval x ^ nat (orderN - 2) mod orderN"
    by (simp_all add: scalars.pw_def)
qed

interpretation order_field: modular_field orderN "\<lambda>d. d ^ nat (orderN - 2)"
proof
  show "1 < orderN" by (rule orderN_gt)
  fix d assume d: "\<not> orderN dvd d"
  have "nat orderN - 1 = Suc (nat (orderN - 2))" by (simp add: orderN_def)
  with fermat [OF prime_orderN d] show "orderN dvd d * d ^ nat (orderN - 2) - 1" by simp
qed

section \<open>Reduction\<close>

lemma subLoop_law:
  assumes "length as = length bs" "borrow = 0 \<or> borrow = 1"
  shows "length (subLoop as bs borrow) = length as \<and>
    (\<exists>c\<ge>0. be_int (rev (subLoop as bs borrow)) = be_int (rev as) - be_int (rev bs) - uint borrow + c * 256 ^ length as)"
  using assms
proof (induction as bs arbitrary: borrow rule: list_induct2)
  case (Cons a as b bs)
  let ?t = "uint a - uint b - uint borrow"
  let ?diff = "(ucast a :: u16) - ucast b - borrow" and ?bw = "(if (ucast a :: u16) - ucast b - borrow > 0xFF then 1 else 0) :: u16"
  have bo: "uint borrow = 0 \<or> uint borrow = 1" using Cons.prems by auto
  have ab: "0 \<le> uint a" "uint a < 256" "0 \<le> uint b" "uint b < 256" by simp_all
  have u: "uint (ucast x :: u16) = uint x" for x :: u8
  proof -
    have "uint x < 65536" using uint_byte_bounds(2) [of x] by linarith
    then show ?thesis by (simp only: unsigned_ucast_eq) (simp add: take_bit_int_eq_self)
  qed
  have d: "uint ?diff = ?t mod 65536" by (simp add: uint_word_ariths u mod_simps)
  have e: "uint (ucast ?diff :: u8) = ?t mod 256"
    unfolding unsigned_ucast_eq d by (simp add: take_bit_eq_mod mod_mod_cancel)
  have w: "uint ?bw = (if ?t < 0 then 1 else 0)" "?t mod 256 = ?t + (if ?t < 0 then 256 else 0)"
  proof -
    have t: "- 256 \<le> ?t" "?t < 256" using bo ab by linarith+
    have n: "?t < 0 \<Longrightarrow> ?t mod 65536 = ?t + 65536"
    proof -
      assume "?t < 0"
      have "?t mod 65536 = (?t + 65536) mod 65536" by simp
      also have "\<dots> = ?t + 65536" using t \<open>?t < 0\<close> by (intro mod_pos_pos_trivial) linarith+
      finally show ?thesis .
    qed
    have p: "\<not> ?t < 0 \<Longrightarrow> ?t mod 65536 = ?t" using t by (intro mod_pos_pos_trivial) linarith+
    have "?diff > 0xFF \<longleftrightarrow> 255 < ?t mod 65536" by (simp only: word_less_def d) simp
    then show "uint ?bw = (if ?t < 0 then 1 else 0)" using n p t by auto
    show "?t mod 256 = ?t + (if ?t < 0 then 256 else 0)"
    proof (cases "?t < 0")
      case True
      have "?t mod 256 = (?t + 256) mod 256" by simp
      also have "\<dots> = ?t + 256" using t True by (intro mod_pos_pos_trivial) linarith+
      finally show ?thesis using True by simp
    next
      case False
      then show ?thesis using t by simp
    qed
  qed
  have "?bw = 0 \<or> ?bw = 1" by simp
  from Cons.IH [OF this] obtain c where ih: "length (subLoop as bs ?bw) = length as" "0 \<le> c"
    "be_int (rev (subLoop as bs ?bw)) = be_int (rev as) - be_int (rev bs) - uint ?bw + c * 256 ^ length as" by blast
  have "be_int (rev (subLoop (a # as) (b # bs) borrow)) = be_int (rev (subLoop as bs ?bw)) * 256 + ?t mod 256"
    by (simp add: Let_def e)
  also have "\<dots> = be_int (rev (a # as)) - be_int (rev (b # bs)) - uint borrow + c * 256 ^ length (a # as)"
    unfolding ih w by (simp add: algebra_simps)
  finally show ?case using ih(1,2) by (auto simp: Let_def)
qed simp

lemma sub32BE_law:
  assumes "length a = length b" "be_int b \<le> be_int a"
  shows "length (sub32BE a b) = length a" "be_int (sub32BE a b) = be_int a - be_int b"
proof -
  from subLoop_law [of "rev a" "rev b" 0] assms obtain c where
    l: "length (sub32BE a b) = length a" and c: "0 \<le> c" "be_int (sub32BE a b) = be_int a - be_int b + c * 256 ^ length a"
    by (auto simp: sub32BE_def)
  show "length (sub32BE a b) = length a" by (rule l)
  have "c * 256 ^ length a < 1 * 256 ^ length a" using c(2) be_int_less [of "sub32BE a b"] assms(2) unfolding l by linarith
  then have "c < 1" using mult_less_cancel_right_pos [of "256 ^ length a" c 1] by simp
  with c show "be_int (sub32BE a b) = be_int a - be_int b" by simp
qed

lemma mustScalarFromBytes_law:
  assumes "length be = 32" "be_int be < orderN"
  shows "sok (mustScalarFromBytes be)" "sval (mustScalarFromBytes be) = be_int be"
proof -
  have "sok (mustScalarFromBytes be) \<and> sval (mustScalarFromBytes be) = be_int be"
  proof (cases "ScalarFromBytes be")
    case (Inl e)
    then have "be_int be = 0" using assms by (auto simp: ScalarFromBytes_def ScalarSize_def zero_bytes lt_modulus split: if_splits)
    with Inl show ?thesis by (simp add: mustScalarFromBytes_def scalars.ok_zero scalars.v_zero)
  next
    case (Inr s)
    with ScalarFromBytes_iff [of be s] show ?thesis by (simp add: mustScalarFromBytes_def)
  qed
  then show "sok (mustScalarFromBytes be)" "sval (mustScalarFromBytes be) = be_int be" by blast+
qed

lemma reduce_once:
  assumes "length be = 32" "be' = (if \<not> lt32BE be scalarModulus then sub32BE be scalarModulus else be)"
  shows "length be' = 32" "be_int be' = be_int be mod orderN" "be_int be' < orderN"
proof -
  have m: "length scalarModulus = 32" by (simp add: scalarModulus_def)
  have b: "0 \<le> be_int be" "be_int be < 2 * orderN"
    using be_int_less [of be] assms(1) by (simp_all add: orderN_def)
  have "length be' = 32 \<and> be_int be' = be_int be mod orderN"
  proof (cases "be_int be < orderN")
    case True
    then show ?thesis using assms b by (simp add: lt_modulus)
  next
    case False
    have "be_int be mod orderN = (be_int be - orderN) mod orderN" by simp
    also have "\<dots> = be_int be - orderN" using False b by (intro mod_pos_pos_trivial) linarith+
    finally show ?thesis using False assms m sub32BE_law [of be scalarModulus] by (simp add: lt_modulus be_int_scalarModulus)
  qed
  then show "length be' = 32" "be_int be' = be_int be mod orderN" "be_int be' < orderN" using orderN_pos by simp_all
qed

lemma scalarFromBig_law: "sok (scalarFromBig x)" "sval (scalarFromBig x) = x mod orderN"
proof -
  have o: "Order = orderN" by (simp add: Order_def orderBytes_def be_int_def orderN_def)
  have r: "0 \<le> x mod orderN" "x mod orderN < orderN" using orderN_pos by simp_all
  then have "x mod orderN < 256 ^ 32" by (simp add: orderN_def)
  with r have b: "be_int (be_bytes 32 (x mod orderN)) = x mod orderN" by simp
  have "scalarFromBig x = mustScalarFromBytes (be_bytes 32 (x mod orderN))"
    using r by (simp add: scalarFromBig_def mustScalarFromBytes_def o Let_def)
  with mustScalarFromBytes_law [of "be_bytes 32 (x mod orderN)"] b r
  show "sok (scalarFromBig x)" "sval (scalarFromBig x) = x mod orderN" by simp_all
qed

lemma scalarFromUint64_law: "sok (scalarFromUint64 w)" "sval (scalarFromUint64 w) = uint w"
proof -
  let ?le = "word_to_bytes w @ replicate 24 0"
  have le: "scalarFromUint64 w = \<lparr>s_mont = scalar_ToMontgomery (fiat_FromBytes ?le)\<rparr>"
    by (simp only: scalarFromUint64_def word_to_bytes_def Let_def and_full drop_bit_drop_bit arith_simps)
  have z: "be_int (replicate n 0 @ xs) = be_int xs" for n xs by (induction n) (simp_all add: be_int_Cons)
  have "be_int (rev ?le) = be_int (be_bytes 8 (uint w))" by (simp add: z rev_word_to_bytes)
  also have "\<dots> = uint w" using u64_bounds [of w] by (intro be_int_be_bytes_id) (simp_all add: W_def)
  finally have "be_int (rev ?le) = uint w" .
  moreover have "uint w < orderN" using u64_bounds [of w] by (simp add: W_def orderN_def)
  ultimately show "sok (scalarFromUint64 w)" "sval (scalarFromUint64 w) = uint w"
    using to_scalar [of "rev ?le"] le by simp_all
qed

lemma RandomScalar_shorter: "RandomScalar reader = (Inr k, rest) \<Longrightarrow> length rest < length reader"
proof (induction reader rule: RandomScalar.induct)
  case (1 reader)
  then show ?case
    by (subst (asm) (2) RandomScalar.simps) (force split: if_splits sum.splits)
qed

section \<open>Properties\<close>

text \<open>
  C24: (\<^verbatim>\<open>fiat.go\<close>) \<^verbatim>\<open>ScalarFromBytes\<close> and \<^verbatim>\<open>Bytes\<close> are inverse to each other: a byte string parses to a scalar exactly
  when it is the encoding of that scalar and the scalar is not zero; \<^verbatim>\<open>ScalarFromBytesAllowZero\<close> differs only in that
  it takes zero.  The encoding is the number in 32 bytes, most significant first.
\<close>

theorem scalar_codec:
  "(ScalarFromBytes be = Inr s \<longleftrightarrow> sok s \<and> \<not> Scalar_IsZero s \<and> Scalar_Bytes s = be) \<and>
   (ScalarFromBytesAllowZero be = Inr s \<longleftrightarrow> sok s \<and> Scalar_Bytes s = be) \<and>
   Scalar_Bytes s = be_bytes 32 (sval s)"
proof -
  have "sval s < 256 ^ 32" using sval_bounds(2) [of s] by (simp add: orderN_def)
  then have b: "be_int (Scalar_Bytes s) = sval s" "length (Scalar_Bytes s) = 32"
    using sval_bounds(1) [of s] by (simp_all add: Scalar_Bytes_law)
  have "Scalar_Bytes s = be \<longleftrightarrow> length be = 32 \<and> be_int be = sval s"
    using b be_int_inject [of be "Scalar_Bytes s"] by auto
  then show ?thesis using sval_bounds [of s]
    by (auto simp: ScalarFromBytes_iff ScalarFromBytesAllowZero_iff IsZero_iff Scalar_Bytes_law)
qed

text \<open>
  C23: (\<^verbatim>\<open>fiat.go\<close>, \<^verbatim>\<open>scalar_inv_gen.go\<close>) The addition chain of \<^verbatim>\<open>ScalarInvert\<close> raises to the group order minus two,
  and so \<^verbatim>\<open>ScalarInvert\<close> inverts every non-zero scalar and refuses zero.
\<close>

theorem scalar_inverse:
  assumes "sok a"
  shows "sval (scalarInvAddchain a) = sval a ^ nat (orderN - 2) mod orderN \<and>
    (if Scalar_IsZero a then ScalarInvert a = Inl ''zero scalar is not invertible''
     else \<exists>b. ScalarInvert a = Inr b \<and> sok b \<and> ScalarMul a b = ScalarOne)"
proof -
  note p = scalarInvAddchain_power [OF assms]
  have "ScalarMul a (scalarInvAddchain a) = ScalarOne" if "\<not> Scalar_IsZero a"
  proof -
    have "\<not> orderN dvd sval a"
      using that assms sval_bounds [of a] zdvd_not_zless [of "sval a" orderN] by (simp add: IsZero_iff)
    then have "sval a * sval a ^ nat (orderN - 2) mod orderN = 1 mod orderN"
      using order_field.inverse by (simp only: mod_eq_dvd_iff)
    then have "sval (ScalarMul a (scalarInvAddchain a)) = sval ScalarOne"
      using assms p orderN_gt by (simp add: scalars.v_mul scalars.v_one mod_mult_right_eq)
    then show ?thesis using assms p by (simp add: scalars.v_inject scalars.ok_mul scalars.ok_one)
  qed
  with p show ?thesis by (simp add: ScalarInvert_def)
qed

theorem scalar_inverse_witness: "\<exists>b. ScalarInvert (scalarFromUint64 2) = Inr b \<and> sok b \<and> ScalarMul (scalarFromUint64 2) b = ScalarOne"
proof -
  have s: "sok (scalarFromUint64 2)" "sval (scalarFromUint64 2) = 2" using scalarFromUint64_law [of 2] by simp_all
  from scalar_inverse [OF s(1)] s show ?thesis by (simp add: IsZero_iff)
qed

text \<open>
  C25: (\<^verbatim>\<open>fiat.go\<close>) \<^verbatim>\<open>IsLowS\<close> holds exactly up to half of the group order; \<^verbatim>\<open>NormalizeLowS\<close> returns a low scalar that is the
  argument or its negation and says which, and of a non-zero scalar and its negation exactly one is low.
\<close>

theorem low_s:
  assumes "sok s" "NormalizeLowS s = (t, negated)"
  shows "(IsLowS s \<longleftrightarrow> sval s \<le> orderN div 2) \<and> IsLowS t \<and> sok t \<and> t = (if negated then ScalarNeg s else s) \<and>
    (negated \<longleftrightarrow> \<not> IsLowS s) \<and> (\<not> Scalar_IsZero s \<longrightarrow> IsLowS s \<noteq> IsLowS (ScalarNeg s))"
proof -
  have odd: "orderN = 2 * (orderN div 2) + 1" by (simp add: orderN_def)
  have n: "sval (ScalarNeg s) = (if sval s = 0 then 0 else orderN - sval s)"
    using assms(1) sval_bounds [of s] by (simp add: scalars.v_neg zmod_zminus1_eq_if)
  have low: "IsLowS s \<noteq> IsLowS (ScalarNeg s)" if "sval s \<noteq> 0"
    using that odd unfolding IsLowS_iff n by auto
  moreover have "IsLowS s" if "sval s = 0" using that by (simp add: IsLowS_iff orderN_def)
  ultimately show ?thesis using assms scalars.ok_neg [OF assms(1)]
    by (auto simp: NormalizeLowS_def IsZero_iff simp flip: IsLowS_iff split: if_splits)
qed

theorem low_s_witness: "snd (NormalizeLowS (ScalarNeg ScalarOne)) \<and> IsLowS (fst (NormalizeLowS (ScalarNeg ScalarOne)))"
proof -
  have s: "sok (ScalarNeg ScalarOne)" by (intro scalars.ok_neg scalars.ok_one)
  have "sval (ScalarNeg ScalarOne) = orderN - 1"
    using orderN_gt by (simp add: scalars.v_neg scalars.ok_one scalars.v_one zmod_zminus1_eq_if)
  then have "\<not> IsLowS (ScalarNeg ScalarOne)" by (simp add: IsLowS_iff orderN_def)
  moreover obtain t negated where n: "NormalizeLowS (ScalarNeg ScalarOne) = (t, negated)" by fastforce
  ultimately have "negated \<and> IsLowS t" using low_s [OF s n] by blast
  then show ?thesis unfolding n by simp
qed





end
