(* ===== verification/Lifecycle_Types.thy ===== *)
theory Lifecycle_Types
  imports Session
begin

text \<open>
  The data of the lifecycle stores (\<^verbatim>\<open>tssrun/lifecycle.go\<close> and the stored records of
  \<^verbatim>\<open>tssrun/lifecycle_memory.go\<close>) and their validation functions.  A 32-byte array (\<^verbatim>\<open>SessionID\<close>,
  \<^verbatim>\<open>EpochID\<close>) is a 256-bit word, a \<^verbatim>\<open>uint64\<close> token a 64-bit word; a nil and an empty byte slice are the
  same value, as the code only takes their length or compares them with \<^verbatim>\<open>bytes.Equal\<close>.  An
  enumeration that callers can forge keeps a constructor for the values outside the named ones.
\<close>

section \<open>Errors\<close>

datatype lerror =
    ErrContext
  | ErrInvalidLifecycleRecord
  | ErrGenerationNotCurrent
  | ErrGenerationConflict
  | ErrRunLeaseConflict
  | ErrRunLeaseNotFound
  | ErrSessionAlreadyUsed
  | ErrRefreshDisabled
  | ErrPresignUnavailable
  | ErrPresignBurned
  | ErrAttemptNotFound
  | ErrAttemptConflict
  | ErrAttemptNonDeterminism
  | ErrCutoverConflict
  | ErrLifecycleCorrupt
  | ErrLifecycleHistoryCompacted
  | ErrPanic

section \<open>Identifiers and records of lifecycle.go\<close>

type_synonym EpochID = array32
type_synonym KeyGeneration = string

definition EpochID_Valid :: "EpochID \<Rightarrow> bool" where
  "EpochID_Valid e \<longleftrightarrow> e \<noteq> 0"

definition NewEpochID :: "bytes \<Rightarrow> lerror + EpochID" where
  "NewEpochID raw =
    (if length raw \<noteq> 32 then Inl ErrInvalidLifecycleRecord
     else let e = word_of_int (be_int raw) in
       if \<not> EpochID_Valid e then Inl ErrInvalidLifecycleRecord else Inr e)"

record GenerationBinding =
  KeyID :: string
  KeyGen :: KeyGeneration
  Epoch :: EpochID

datatype GenerationStatus = GenerationCurrent | GenerationRetired

record GenerationRecord =
  g_Binding :: GenerationBinding
  g_Blob :: bytes
  g_Metadata :: bytes
  g_Status :: GenerationStatus

datatype RunKind =
    RunKeygen | RunPresign | RunSign | RunChildDerivation | RunRefresh | RunReshare
  | RunKindOther string

datatype RunLeaseState =
    RunLeaseUnset | RunLeaseActive | RunLeaseCompleted | RunLeaseAborted | RunLeaseStateOther u8

record RunLease =
  l_Token :: u64
  l_Binding :: GenerationBinding
  l_Kind :: RunKind
  l_SessionID :: SessionID
  l_State :: RunLeaseState

datatype RunLeaseOutcome = LeaseCompleted | LeaseAborted | LeaseOutcomeOther u8

record RefreshDisabledRecord =
  d_KeyID :: string
  d_SessionID :: SessionID
  d_Reason :: string

record ReshareReceiverAnchor =
  r_Source :: GenerationBinding
  r_TargetKeyGeneration :: KeyGeneration
  r_SessionID :: SessionID
  r_PlanDigest :: bytes
  r_SourceEpochDigest :: bytes

record PresignCandidate =
  pc_Binding :: GenerationBinding
  pc_PresignID :: string
  pc_Blob :: bytes
  pc_Metadata :: bytes

record SignAttemptIntent =
  i_AttemptID :: string
  i_SessionID :: SessionID
  i_IntentDigest :: bytes

record AttemptQuery =
  q_Binding :: GenerationBinding
  q_PresignID :: string
  q_AttemptID :: string
  q_IntentDigest :: bytes

record SignAttemptRecord =
  a_Binding :: GenerationBinding
  a_PresignID :: string
  a_Intent :: SignAttemptIntent
  a_PresignMetadata :: bytes
  a_ExactOutbox :: bytes
  a_OutboxDigest :: bytes
  a_Delivery :: bytes
  a_Completion :: bytes
  a_Delivered :: bool
  a_Completed :: bool
  a_Aborted :: bool
  a_AbortReason :: string

datatype AttemptCommitStatus = AttemptCreated | AttemptExistingSame

record AttemptCommit =
  ac_Status :: AttemptCommitStatus
  ac_Record :: SignAttemptRecord

record CutoverFence =
  f_Token :: u64
  f_Source :: GenerationBinding
  f_Target :: GenerationBinding

section \<open>Stored records of lifecycle_memory.go\<close>

datatype storedLeaseEffectKind =
    storedLeaseEffectPresign | storedLeaseEffectCutover | storedLeaseEffectRefreshFailed
  | storedLeaseEffectChildGeneration | storedLeaseEffectReshareReceiverGeneration
  | storedLeaseEffectRetirement

record storedLeaseEffect =
  e_LeaseToken :: u64
  e_Kind :: storedLeaseEffectKind
  e_PresignID :: string
  e_Target :: GenerationBinding
  e_Digest :: bytes
  e_Reason :: string
  e_CutoverToken :: u64

datatype storedPresignState = storedPresignAvailable | storedPresignClaimed | storedPresignBurned

record storedPresign =
  p_binding :: GenerationBinding
  p_blob :: bytes
  p_metadata :: bytes
  p_artifactDigest :: bytes
  p_state :: storedPresignState
  p_attemptID :: string
  p_reason :: string

datatype attemptProgressKind = attemptProgressDelivery | attemptProgressCompletion

datatype storedCutoverState = storedCutoverActive | storedCutoverCommitted | storedCutoverAborted

record storedCutover =
  c_fence :: CutoverFence
  c_state :: storedCutoverState
  c_targetBlobDigest :: bytes
  c_targetMetadataDigest :: bytes
  c_reason :: string

record storedLifecycleTombstone =
  t_Namespace :: string
  t_IdentifierHash :: string
  t_KeyID :: string
  t_Digest :: bytes
  t_State :: string

record MemoryLifecycleStore =
  generations :: "(GenerationBinding, GenerationRecord) fmap"
  current :: "(string, GenerationBinding) fmap"
  leasesByToken :: "(u64, RunLease) fmap"
  leaseBySession :: "(SessionID, u64) fmap"
  leaseEffects :: "(u64, storedLeaseEffect) fmap"
  refreshDisabled :: "(string, RefreshDisabledRecord) fmap"
  reshareReceivers :: "(u64, ReshareReceiverAnchor) fmap"
  attempts :: "(string, SignAttemptRecord) fmap"
  presigns :: "(string, storedPresign) fmap"
  cutoversByToken :: "(u64, storedCutover) fmap"
  cutoverByKey :: "(string, u64) fmap"
  tombstones :: "(string, storedLifecycleTombstone) fmap"
  nextLeaseToken :: u64
  nextCutoverToken :: u64

definition NewMemoryLifecycleStore :: MemoryLifecycleStore where
  "NewMemoryLifecycleStore =
    \<lparr>generations = fmempty, current = fmempty, leasesByToken = fmempty, leaseBySession = fmempty,
     leaseEffects = fmempty, refreshDisabled = fmempty, reshareReceivers = fmempty,
     attempts = fmempty, presigns = fmempty, cutoversByToken = fmempty, cutoverByKey = fmempty,
     tombstones = fmempty, nextLeaseToken = 0, nextCutoverToken = 0\<rparr>"

text \<open>The zero value of \<^verbatim>\<open>GenerationBinding\<close>, which lease effects without a target carry.\<close>

definition zeroBinding :: GenerationBinding where
  "zeroBinding = \<lparr>KeyID = [], KeyGen = [], Epoch = 0\<rparr>"

end
