(* ===== verification/Lifecycle_Store.thy ===== *)
theory Lifecycle_Store
  imports Lifecycle_Types
begin

text \<open>
  The operations of \<^verbatim>\<open>MemoryLifecycleStore\<close> (\<^verbatim>\<open>tssrun/lifecycle_memory.go\<close>).  An operation that can change
  the store takes it as its last argument and returns the result together with the new store; a read
  returns the result alone.  Each operation holds the store's mutex for its whole body, so it is one
  atomic step.  \<open>ctx\<close> is the truth value of \<^verbatim>\<open>ctx.Err() != nil\<close>.  A validation function is a
  predicate: its only error is \<^const>\<open>ErrInvalidLifecycleRecord\<close>, which its callers return.
  Stored pointers are never nil (every insertion stores a fresh record), so a map lookup is
  the code's nil test.
\<close>

section \<open>Validation (lifecycle.go)\<close>

definition printable :: "string \<Rightarrow> bool" where
  "printable v =
    (case utf8_runes (str_bytes v) of
       None \<Rightarrow> False
     | Some rs \<Rightarrow> list_all (\<lambda>r. \<not> (r < 0x20 \<or> r = 0x7F)) rs)"

definition validateLifecycleIdentifier :: "string \<Rightarrow> bool" where
  "validateLifecycleIdentifier v \<longleftrightarrow> v \<noteq> [] \<and> length v \<le> 256 \<and> printable v"

definition validateLifecycleReason :: "string \<Rightarrow> bool" where
  "validateLifecycleReason v \<longleftrightarrow> v \<noteq> [] \<and> length v \<le> 256 \<and> printable v"

definition validateLifecycleBlob :: "bytes \<Rightarrow> bool \<Rightarrow> bool" where
  "validateLifecycleBlob blob required \<longleftrightarrow>
    \<not> (required \<and> blob = []) \<and> length blob \<le> 16 * 2 ^ 20"

definition GenerationBinding_Validate :: "GenerationBinding \<Rightarrow> bool" where
  "GenerationBinding_Validate b \<longleftrightarrow>
    validateLifecycleIdentifier (KeyID b) \<and> validateLifecycleIdentifier (KeyGen b)
    \<and> EpochID_Valid (Epoch b)"

definition ReshareReceiverAnchor_Validate :: "ReshareReceiverAnchor \<Rightarrow> bool" where
  "ReshareReceiverAnchor_Validate a \<longleftrightarrow>
    GenerationBinding_Validate (r_Source a)
    \<and> validateLifecycleIdentifier (r_TargetKeyGeneration a)
    \<and> r_TargetKeyGeneration a \<noteq> KeyGen (r_Source a) \<and> SessionID_Valid (r_SessionID a)
    \<and> length (r_PlanDigest a) = 32 \<and> length (r_SourceEpochDigest a) = 32
    \<and> r_PlanDigest a \<noteq> replicate 32 0 \<and> r_SourceEpochDigest a \<noteq> replicate 32 0"

definition SignAttemptIntent_Validate :: "SignAttemptIntent \<Rightarrow> bool" where
  "SignAttemptIntent_Validate i \<longleftrightarrow>
    validateLifecycleIdentifier (i_AttemptID i) \<and> SessionID_Valid (i_SessionID i)
    \<and> length (i_IntentDigest i) = 32"

definition AttemptQuery_Validate :: "AttemptQuery \<Rightarrow> bool" where
  "AttemptQuery_Validate q \<longleftrightarrow>
    GenerationBinding_Validate (q_Binding q) \<and> validateLifecycleIdentifier (q_PresignID q)
    \<and> validateLifecycleIdentifier (q_AttemptID q) \<and> length (q_IntentDigest q) = 32"

definition Query :: "SignAttemptRecord \<Rightarrow> AttemptQuery" where
  "Query r = \<lparr>q_Binding = a_Binding r, q_PresignID = a_PresignID r,
    q_AttemptID = i_AttemptID (a_Intent r), q_IntentDigest = i_IntentDigest (a_Intent r)\<rparr>"

definition Terminal :: "SignAttemptRecord \<Rightarrow> bool" where
  "Terminal r \<longleftrightarrow> a_Aborted r \<or> (a_Delivered r \<and> a_Completed r)"

definition sameAttemptQuery :: "SignAttemptRecord \<Rightarrow> AttemptQuery \<Rightarrow> bool" where
  "sameAttemptQuery r q \<longleftrightarrow>
    a_Binding r = q_Binding q \<and> a_PresignID r = q_PresignID q
    \<and> i_AttemptID (a_Intent r) = q_AttemptID q \<and> i_IntentDigest (a_Intent r) = q_IntentDigest q"

section \<open>Validation and helpers (lifecycle\_memory.go)\<close>

definition validatePresignInput :: "GenerationBinding \<Rightarrow> string \<Rightarrow> bytes \<Rightarrow> bytes \<Rightarrow> bool" where
  "validatePresignInput b presignID blob metadata \<longleftrightarrow>
    GenerationBinding_Validate b \<and> validateLifecycleIdentifier presignID
    \<and> validateLifecycleBlob blob True \<and> validateLifecycleBlob metadata True"

fun validLeaseRunKind :: "RunKind \<Rightarrow> bool" where
  "validLeaseRunKind (RunKindOther _) = False"
| "validLeaseRunKind _ = True"

fun exclusiveLeaseRunKind :: "RunKind \<Rightarrow> bool" where
  "exclusiveLeaseRunKind RunKeygen = True"
| "exclusiveLeaseRunKind RunChildDerivation = True"
| "exclusiveLeaseRunKind RunRefresh = True"
| "exclusiveLeaseRunKind RunReshare = True"
| "exclusiveLeaseRunKind _ = False"

fun cutoverLeaseRunKind :: "RunKind \<Rightarrow> bool" where
  "cutoverLeaseRunKind RunRefresh = True"
| "cutoverLeaseRunKind RunReshare = True"
| "cutoverLeaseRunKind _ = False"

definition validateRunLease :: "RunLease \<Rightarrow> bool" where
  "validateRunLease l \<longleftrightarrow>
    \<not> (l_Token l = 0 \<or> l_State l = RunLeaseUnset) \<and> GenerationBinding_Validate (l_Binding l)
    \<and> validLeaseRunKind (l_Kind l) \<and> SessionID_Valid (l_SessionID l)"

definition reshareReceiverAnchorsEqual :: "ReshareReceiverAnchor \<Rightarrow> ReshareReceiverAnchor \<Rightarrow> bool" where
  "reshareReceiverAnchorsEqual a b \<longleftrightarrow>
    r_Source a = r_Source b \<and> r_TargetKeyGeneration a = r_TargetKeyGeneration b
    \<and> r_SessionID a = r_SessionID b \<and> r_PlanDigest a = r_PlanDigest b
    \<and> r_SourceEpochDigest a = r_SourceEpochDigest b"

definition leaseEffectArtifactDigest ::
  "string \<Rightarrow> GenerationBinding \<Rightarrow> string \<Rightarrow> bytes \<Rightarrow> bytes \<Rightarrow> lerror + bytes" where
  "leaseEffectArtifactDigest label b identifier blob metadata =
    (case transcript_sum ''tssrun-lifecycle-lease-effect-v1''
        [(''kind'', TString label),
         (''key_id'', TString (KeyID b)),
         (''key_generation'', TString (KeyGen b)),
         (''epoch_id'', TBytes (array32_bytes (Epoch b))),
         (''identifier'', TString identifier),
         (''blob_digest'', TBytes (sha256 blob)),
         (''metadata_digest'', TBytes (sha256 metadata))] of
       Inl _ \<Rightarrow> Inl ErrPanic
     | Inr d \<Rightarrow> Inr d)"

definition validateCutoverBindings :: "GenerationBinding \<Rightarrow> GenerationBinding \<Rightarrow> bool" where
  "validateCutoverBindings source target \<longleftrightarrow>
    GenerationBinding_Validate source \<and> GenerationBinding_Validate target
    \<and> \<not> (KeyID source \<noteq> KeyID target \<or> KeyGen source = KeyGen target \<or> Epoch source = Epoch target)"

definition validateCutoverFence :: "CutoverFence \<Rightarrow> bool" where
  "validateCutoverFence f \<longleftrightarrow> f_Token f \<noteq> 0 \<and> validateCutoverBindings (f_Source f) (f_Target f)"

definition sameBaseAttempt ::
  "SignAttemptRecord \<Rightarrow> GenerationBinding \<Rightarrow> string \<Rightarrow> SignAttemptIntent \<Rightarrow> bytes \<Rightarrow> bool" where
  "sameBaseAttempt r b presignID intent outboxDigest \<longleftrightarrow>
    a_Binding r = b \<and> a_PresignID r = presignID
    \<and> i_AttemptID (a_Intent r) = i_AttemptID intent \<and> i_SessionID (a_Intent r) = i_SessionID intent
    \<and> i_IntentDigest (a_Intent r) = i_IntentDigest intent \<and> a_OutboxDigest r = outboxDigest"

definition lifecycleTombstoneHash :: "string \<Rightarrow> bytes \<Rightarrow> string" where
  "lifecycleTombstoneHash ns identifier = hex_encode (sha256 (str_bytes ns @ [0] @ identifier))"

definition lifecycleTombstoneMapKey :: "string \<Rightarrow> string \<Rightarrow> string" where
  "lifecycleTombstoneMapKey ns identifierHash = ns @ '':'' @ identifierHash"

definition tombstonedLocked :: "string \<Rightarrow> bytes \<Rightarrow> MemoryLifecycleStore \<Rightarrow> bool" where
  "tombstonedLocked ns identifier s \<longleftrightarrow>
    fm_has (lifecycleTombstoneMapKey ns (lifecycleTombstoneHash ns identifier)) (tombstones s)"

definition generationTombstoneIdentifier :: "GenerationBinding \<Rightarrow> bytes" where
  "generationTombstoneIdentifier b =
    str_bytes (KeyID b) @ [0] @ str_bytes (KeyGen b) @ [0]
    @ str_bytes (hex_encode (array32_bytes (Epoch b)))"

definition cutoverTombstoneIdentifier :: "u64 \<Rightarrow> bytes" where
  "cutoverTombstoneIdentifier token = be_bytes 8 (uint token)"

text \<open>\<^verbatim>\<open>[]byte(keyID + "\x00" + string(generation))\<close>.\<close>

definition generationName :: "string \<Rightarrow> KeyGeneration \<Rightarrow> bytes" where
  "generationName keyID generation = str_bytes keyID @ [0] @ str_bytes generation"

definition isCurrentLocked :: "GenerationBinding \<Rightarrow> MemoryLifecycleStore \<Rightarrow> bool" where
  "isCurrentLocked b s =
    (case fmlookup (current s) (KeyID b) of
       None \<Rightarrow> False
     | Some c \<Rightarrow>
         if c \<noteq> b then False
         else (case fmlookup (generations s) b of
                 None \<Rightarrow> False
               | Some r \<Rightarrow> g_Status r = GenerationCurrent))"

definition hasGenerationForKeyLocked :: "string \<Rightarrow> MemoryLifecycleStore \<Rightarrow> bool" where
  "hasGenerationForKeyLocked keyID s = fm_ex (\<lambda>b _. KeyID b = keyID) (generations s)"

definition hasKeyGenerationLocked :: "string \<Rightarrow> KeyGeneration \<Rightarrow> MemoryLifecycleStore \<Rightarrow> bool" where
  "hasKeyGenerationLocked keyID generation s \<longleftrightarrow>
    tombstonedLocked ''generation-name'' (generationName keyID generation) s
    \<or> fm_ex (\<lambda>b _. KeyID b = keyID \<and> KeyGen b = generation) (generations s)"

definition hasConflictingPresignArtifactLocked :: "string \<Rightarrow> bytes \<Rightarrow> MemoryLifecycleStore \<Rightarrow> bool" where
  "hasConflictingPresignArtifactLocked presignID artifactDigest s =
    fm_ex (\<lambda>i p. i \<noteq> presignID \<and> p_artifactDigest p = artifactDigest) (presigns s)"

definition hasActiveLeaseForKeyLocked :: "string \<Rightarrow> MemoryLifecycleStore \<Rightarrow> bool" where
  "hasActiveLeaseForKeyLocked keyID s =
    fm_ex (\<lambda>_ l. KeyID (l_Binding l) = keyID \<and> l_State l = RunLeaseActive) (leasesByToken s)"

definition hasOtherActiveLeaseForKeyLocked :: "string \<Rightarrow> u64 \<Rightarrow> MemoryLifecycleStore \<Rightarrow> bool" where
  "hasOtherActiveLeaseForKeyLocked keyID exceptToken s =
    fm_ex (\<lambda>t l. t \<noteq> exceptToken \<and> KeyID (l_Binding l) = keyID \<and> l_State l = RunLeaseActive)
      (leasesByToken s)"

definition hasActiveLeaseLocked :: "GenerationBinding \<Rightarrow> MemoryLifecycleStore \<Rightarrow> bool" where
  "hasActiveLeaseLocked b s =
    fm_ex (\<lambda>_ l. l_Binding l = b \<and> l_State l = RunLeaseActive) (leasesByToken s)"

definition hasOtherActiveLeaseLocked :: "GenerationBinding \<Rightarrow> u64 \<Rightarrow> MemoryLifecycleStore \<Rightarrow> bool" where
  "hasOtherActiveLeaseLocked b exceptToken s =
    fm_ex (\<lambda>t l. t \<noteq> exceptToken \<and> l_Binding l = b \<and> l_State l = RunLeaseActive) (leasesByToken s)"

definition exactActiveLeaseLocked :: "RunLease \<Rightarrow> MemoryLifecycleStore \<Rightarrow> lerror + RunLease" where
  "exactActiveLeaseLocked lease s =
    (case fmlookup (leasesByToken s) (l_Token lease) of
       None \<Rightarrow>
         if tombstonedLocked ''session'' (array32_bytes (l_SessionID lease)) s
         then Inl ErrLifecycleHistoryCompacted else Inl ErrRunLeaseNotFound
     | Some stored \<Rightarrow>
         if l_Binding stored \<noteq> l_Binding lease \<or> l_Kind stored \<noteq> l_Kind lease
            \<or> l_SessionID stored \<noteq> l_SessionID lease then Inl ErrRunLeaseConflict
         else if l_State stored \<noteq> RunLeaseActive then Inl ErrRunLeaseConflict
         else Inr stored)"

definition hasIncompatibleLeaseLocked :: "GenerationBinding \<Rightarrow> RunKind \<Rightarrow> MemoryLifecycleStore \<Rightarrow> bool" where
  "hasIncompatibleLeaseLocked b requested s =
    fm_ex (\<lambda>_ l. \<not> (l_Binding l \<noteq> b \<or> l_State l \<noteq> RunLeaseActive)
        \<and> (exclusiveLeaseRunKind requested \<or> exclusiveLeaseRunKind (l_Kind l))) (leasesByToken s)"

definition hasActiveSignLeaseLocked :: "GenerationBinding \<Rightarrow> SessionID \<Rightarrow> MemoryLifecycleStore \<Rightarrow> bool" where
  "hasActiveSignLeaseLocked b sessionID s =
    (case fmlookup (leaseBySession s) sessionID of
       None \<Rightarrow> False
     | Some token \<Rightarrow>
         (case fmlookup (leasesByToken s) token of
            None \<Rightarrow> False
          | Some l \<Rightarrow> l_Binding l = b \<and> l_Kind l = RunSign \<and> l_State l = RunLeaseActive))"

definition hasNonTerminalAttemptLocked :: "GenerationBinding \<Rightarrow> MemoryLifecycleStore \<Rightarrow> bool" where
  "hasNonTerminalAttemptLocked b s = fm_ex (\<lambda>_ a. a_Binding a = b \<and> \<not> Terminal a) (attempts s)"

definition hasNonTerminalAttemptForKeyLocked :: "string \<Rightarrow> MemoryLifecycleStore \<Rightarrow> bool" where
  "hasNonTerminalAttemptForKeyLocked keyID s =
    fm_ex (\<lambda>_ a. KeyID (a_Binding a) = keyID \<and> \<not> Terminal a) (attempts s)"

definition mutableAttemptLocked :: "AttemptQuery \<Rightarrow> MemoryLifecycleStore \<Rightarrow> lerror + SignAttemptRecord" where
  "mutableAttemptLocked q s =
    (case fmlookup (attempts s) (q_AttemptID q) of
       None \<Rightarrow> Inl ErrAttemptNotFound
     | Some a \<Rightarrow> if \<not> sameAttemptQuery a q then Inl ErrAttemptConflict else Inr a)"

definition queryAttemptLocked :: "AttemptQuery \<Rightarrow> MemoryLifecycleStore \<Rightarrow> lerror + SignAttemptRecord" where
  "queryAttemptLocked q s =
    (case fmlookup (attempts s) (q_AttemptID q) of
       None \<Rightarrow> Inl ErrAttemptNotFound
     | Some a \<Rightarrow> if \<not> sameAttemptQuery a q then Inl ErrAttemptConflict else Inr a)"

definition clearAttemptSecretsIfTerminalLocked :: "SignAttemptRecord \<Rightarrow> SignAttemptRecord" where
  "clearAttemptSecretsIfTerminalLocked r = (if \<not> Terminal r then r else r\<lparr>a_ExactOutbox := []\<rparr>)"

text \<open>The body of the loop of \<^verbatim>\<open>burnEpochPresignsLocked\<close> on one stored presign.\<close>

definition burnEpochPresign ::
  "MemoryLifecycleStore \<Rightarrow> string \<Rightarrow> EpochID \<Rightarrow> storedPresign \<Rightarrow> storedPresign" where
  "burnEpochPresign s keyID epochID p =
    (if KeyID (p_binding p) \<noteq> keyID \<or> Epoch (p_binding p) \<noteq> epochID then p
     else case p_state p of
       storedPresignAvailable \<Rightarrow>
         p\<lparr>p_blob := [], p_metadata := [], p_state := storedPresignBurned,
           p_reason := ''generation cutover''\<rparr>
     | storedPresignClaimed \<Rightarrow>
         (case fmlookup (attempts s) (p_attemptID p) of
            None \<Rightarrow> p
          | Some a \<Rightarrow>
              if Terminal a
              then p\<lparr>p_state := storedPresignBurned, p_reason := ''generation cutover''\<rparr> else p)
     | storedPresignBurned \<Rightarrow> p)"

definition burnEpochPresignsLocked ::
  "string \<Rightarrow> EpochID \<Rightarrow> MemoryLifecycleStore \<Rightarrow> MemoryLifecycleStore" where
  "burnEpochPresignsLocked keyID epochID s =
    s\<lparr>presigns := fmmap (burnEpochPresign s keyID epochID) (presigns s)\<rparr>"

end
