(* ===== verification/Lifecycle_Ops.thy ===== *)
theory Lifecycle_Ops
  imports Lifecycle_Store
begin

text \<open>
  The twenty-two methods of the \<^verbatim>\<open>LifecycleStore\<close> interface as \<^verbatim>\<open>MemoryLifecycleStore\<close> implements them, in
  the order of \<^verbatim>\<open>tssrun/lifecycle_memory.go\<close>: generations, run leases, presigns, signing attempts,
  cutovers and lease-bound installations.
\<close>

type_synonym 'a result = "(lerror + 'a) \<times> MemoryLifecycleStore"

section \<open>Generations and run leases\<close>

definition InstallInitialGeneration ::
  "bool \<Rightarrow> GenerationBinding \<Rightarrow> bytes \<Rightarrow> bytes \<Rightarrow> MemoryLifecycleStore \<Rightarrow> GenerationRecord result" where
  "InstallInitialGeneration ctx b blob metadata s =
    (if ctx then (Inl ErrContext, s)
     else if \<not> GenerationBinding_Validate b then (Inl ErrInvalidLifecycleRecord, s)
     else if \<not> validateLifecycleBlob blob True then (Inl ErrInvalidLifecycleRecord, s)
     else if \<not> validateLifecycleBlob metadata False then (Inl ErrInvalidLifecycleRecord, s)
     else if tombstonedLocked ''generation'' (generationTombstoneIdentifier b) s
          \<or> tombstonedLocked ''generation-name'' (generationName (KeyID b) (KeyGen b)) s
     then (Inl ErrGenerationConflict, s)
     else case fmlookup (current s) (KeyID b) of
       Some c \<Rightarrow>
         (case fmlookup (generations s) c of
            Some stored \<Rightarrow>
              if c = b \<and> g_Status stored = GenerationCurrent
                 \<and> g_Blob stored = blob \<and> g_Metadata stored = metadata
              then (Inr stored, s) else (Inl ErrGenerationConflict, s)
          | None \<Rightarrow> (Inl ErrGenerationConflict, s))
     | None \<Rightarrow>
         if hasGenerationForKeyLocked (KeyID b) s then (Inl ErrGenerationConflict, s)
         else if hasActiveLeaseForKeyLocked (KeyID b) s then (Inl ErrRunLeaseConflict, s)
         else
           let record = \<lparr>g_Binding = b, g_Blob = blob, g_Metadata = metadata,
                         g_Status = GenerationCurrent\<rparr>
           in (Inr record, s\<lparr>generations := fmupd b record (generations s),
                             current := fmupd (KeyID b) b (current s)\<rparr>))"

definition LoadCurrentGeneration ::
  "bool \<Rightarrow> string \<Rightarrow> MemoryLifecycleStore \<Rightarrow> lerror + GenerationRecord" where
  "LoadCurrentGeneration ctx keyID s =
    (if ctx then Inl ErrContext
     else if \<not> validateLifecycleIdentifier keyID then Inl ErrInvalidLifecycleRecord
     else case fmlookup (current s) keyID of
       None \<Rightarrow> Inl ErrGenerationNotCurrent
     | Some b \<Rightarrow>
         (case fmlookup (generations s) b of
            None \<Rightarrow> Inl ErrLifecycleCorrupt
          | Some r \<Rightarrow> if g_Status r \<noteq> GenerationCurrent then Inl ErrLifecycleCorrupt else Inr r))"

text \<open>The grant shared by the two lease operations: \<^verbatim>\<open>s.nextLeaseToken++\<close> and both lease indexes.\<close>

definition newLease ::
  "GenerationBinding \<Rightarrow> RunKind \<Rightarrow> SessionID \<Rightarrow> MemoryLifecycleStore \<Rightarrow> RunLease" where
  "newLease b kind sessionID s =
    \<lparr>l_Token = nextLeaseToken s + 1, l_Binding = b, l_Kind = kind, l_SessionID = sessionID,
     l_State = RunLeaseActive\<rparr>"

definition storeLease :: "RunLease \<Rightarrow> MemoryLifecycleStore \<Rightarrow> MemoryLifecycleStore" where
  "storeLease l s =
    s\<lparr>nextLeaseToken := nextLeaseToken s + 1,
      leasesByToken := fmupd (l_Token l) l (leasesByToken s),
      leaseBySession := fmupd (l_SessionID l) (l_Token l) (leaseBySession s)\<rparr>"

definition AcquireRunLease ::
  "bool \<Rightarrow> GenerationBinding \<Rightarrow> RunKind \<Rightarrow> SessionID \<Rightarrow> MemoryLifecycleStore \<Rightarrow> RunLease result" where
  "AcquireRunLease ctx b kind sessionID s =
    (if ctx then (Inl ErrContext, s)
     else if \<not> GenerationBinding_Validate b then (Inl ErrInvalidLifecycleRecord, s)
     else if \<not> validLeaseRunKind kind \<or> \<not> SessionID_Valid sessionID
     then (Inl ErrInvalidLifecycleRecord, s)
     else if tombstonedLocked ''session'' (array32_bytes sessionID) s
     then (Inl ErrSessionAlreadyUsed, s)
     else if kind = RunRefresh \<and> fm_has (KeyID b) (refreshDisabled s) then (Inl ErrRefreshDisabled, s)
     else case fmlookup (leaseBySession s) sessionID of
       Some token \<Rightarrow>
         (case fmlookup (leasesByToken s) token of
            None \<Rightarrow> (Inl ErrLifecycleCorrupt, s)
          | Some lease \<Rightarrow>
              if fm_has token (reshareReceivers s) then (Inl ErrSessionAlreadyUsed, s)
              else if l_Binding lease = b \<and> l_Kind lease = kind \<and> l_SessionID lease = sessionID
                   \<and> l_State lease = RunLeaseActive
              then (Inr lease, s)
              else (Inl ErrSessionAlreadyUsed, s))
     | None \<Rightarrow>
         if kind = RunKeygen
            \<and> (fm_has (KeyID b) (current s) \<or> hasGenerationForKeyLocked (KeyID b) s)
         then (Inl ErrGenerationConflict, s)
         else if kind = RunKeygen \<and> hasActiveLeaseForKeyLocked (KeyID b) s
         then (Inl ErrRunLeaseConflict, s)
         else if kind \<noteq> RunKeygen \<and> \<not> isCurrentLocked b s then (Inl ErrGenerationNotCurrent, s)
         else if kind \<noteq> RunKeygen \<and> fm_has (KeyID b) (cutoverByKey s)
         then (Inl ErrRunLeaseConflict, s)
         else if kind \<noteq> RunKeygen \<and> hasIncompatibleLeaseLocked b kind s
         then (Inl ErrRunLeaseConflict, s)
         else let lease = newLease b kind sessionID s in (Inr lease, storeLease lease s))"

definition AcquireReshareReceiverLease ::
  "bool \<Rightarrow> ReshareReceiverAnchor \<Rightarrow> MemoryLifecycleStore \<Rightarrow> RunLease result" where
  "AcquireReshareReceiverLease ctx anchor s =
    (let keyID = KeyID (r_Source anchor) in
     if ctx then (Inl ErrContext, s)
     else if \<not> ReshareReceiverAnchor_Validate anchor then (Inl ErrInvalidLifecycleRecord, s)
     else if tombstonedLocked ''session'' (array32_bytes (r_SessionID anchor)) s
     then (Inl ErrSessionAlreadyUsed, s)
     else case fmlookup (leaseBySession s) (r_SessionID anchor) of
       Some token \<Rightarrow>
         (case fmlookup (leasesByToken s) token of
            None \<Rightarrow> (Inl ErrSessionAlreadyUsed, s)
          | Some lease \<Rightarrow>
              (case fmlookup (reshareReceivers s) token of
                 None \<Rightarrow> (Inl ErrSessionAlreadyUsed, s)
               | Some storedAnchor \<Rightarrow>
                   if l_State lease = RunLeaseActive \<and> reshareReceiverAnchorsEqual storedAnchor anchor
                   then (Inr lease, s) else (Inl ErrSessionAlreadyUsed, s)))
     | None \<Rightarrow>
         if fm_has keyID (current s) then (Inl ErrGenerationConflict, s)
         else if hasActiveLeaseForKeyLocked keyID s then (Inl ErrRunLeaseConflict, s)
         else if fm_has keyID (cutoverByKey s) then (Inl ErrRunLeaseConflict, s)
         else if hasNonTerminalAttemptForKeyLocked keyID s then (Inl ErrRunLeaseConflict, s)
         else if hasKeyGenerationLocked keyID (r_TargetKeyGeneration anchor) s
         then (Inl ErrGenerationConflict, s)
         else
           let lease = newLease (r_Source anchor) RunReshare (r_SessionID anchor) s;
               s' = storeLease lease s
           in (Inr lease, s'\<lparr>reshareReceivers := fmupd (l_Token lease) anchor (reshareReceivers s')\<rparr>))"

definition QueryRunLease ::
  "bool \<Rightarrow> GenerationBinding \<Rightarrow> RunKind \<Rightarrow> SessionID \<Rightarrow> MemoryLifecycleStore \<Rightarrow> lerror + RunLease" where
  "QueryRunLease ctx b kind sessionID s =
    (if ctx then Inl ErrContext
     else if \<not> GenerationBinding_Validate b \<or> \<not> validLeaseRunKind kind \<or> \<not> SessionID_Valid sessionID
     then Inl ErrInvalidLifecycleRecord
     else if tombstonedLocked ''session'' (array32_bytes sessionID) s
     then Inl ErrLifecycleHistoryCompacted
     else case fmlookup (leaseBySession s) sessionID of
       None \<Rightarrow> Inl ErrRunLeaseNotFound
     | Some token \<Rightarrow>
         (case fmlookup (leasesByToken s) token of
            None \<Rightarrow> Inl ErrLifecycleCorrupt
          | Some stored \<Rightarrow>
              if l_Binding stored \<noteq> b \<or> l_Kind stored \<noteq> kind \<or> l_SessionID stored \<noteq> sessionID
              then Inl ErrRunLeaseConflict else Inr stored))"

text \<open>\<^verbatim>\<open>stored.lease.State = st\<close>.\<close>

definition setLeaseState :: "u64 \<Rightarrow> RunLease \<Rightarrow> RunLeaseState \<Rightarrow> MemoryLifecycleStore \<Rightarrow> MemoryLifecycleStore" where
  "setLeaseState token stored st s =
    s\<lparr>leasesByToken := fmupd token (stored\<lparr>l_State := st\<rparr>) (leasesByToken s)\<rparr>"

definition setLeaseEffect :: "storedLeaseEffect \<Rightarrow> MemoryLifecycleStore \<Rightarrow> MemoryLifecycleStore" where
  "setLeaseEffect e s = s\<lparr>leaseEffects := fmupd (e_LeaseToken e) e (leaseEffects s)\<rparr>"

definition FinishRunLease ::
  "bool \<Rightarrow> RunLease \<Rightarrow> RunLeaseOutcome \<Rightarrow> MemoryLifecycleStore \<Rightarrow> unit result" where
  "FinishRunLease ctx lease outcome s =
    (if ctx then (Inl ErrContext, s)
     else if \<not> validateRunLease lease then (Inl ErrInvalidLifecycleRecord, s)
     else if outcome \<noteq> LeaseCompleted \<and> outcome \<noteq> LeaseAborted then (Inl ErrInvalidLifecycleRecord, s)
     else case fmlookup (leasesByToken s) (l_Token lease) of
       None \<Rightarrow>
         if tombstonedLocked ''session'' (array32_bytes (l_SessionID lease)) s
         then (Inl ErrLifecycleHistoryCompacted, s) else (Inl ErrRunLeaseNotFound, s)
     | Some stored \<Rightarrow>
         if l_Binding stored \<noteq> l_Binding lease \<or> l_Kind stored \<noteq> l_Kind lease
            \<or> l_SessionID stored \<noteq> l_SessionID lease then (Inl ErrRunLeaseConflict, s)
         else
           let wanted = (if outcome = LeaseAborted then RunLeaseAborted else RunLeaseCompleted) in
           if l_State stored = wanted then (Inr (), s)
           else if l_State stored \<noteq> RunLeaseActive then (Inl ErrRunLeaseConflict, s)
           else if fm_has (l_Token lease) (reshareReceivers s) then
             (if outcome \<noteq> LeaseAborted then (Inl ErrRunLeaseConflict, s)
              else (Inr (), setLeaseState (l_Token lease) stored wanted
                      (s\<lparr>reshareReceivers := fmdrop (l_Token lease) (reshareReceivers s)\<rparr>)))
           else (Inr (), setLeaseState (l_Token lease) stored wanted s))"

definition MarkProtocolRefreshFailed ::
  "bool \<Rightarrow> RunLease \<Rightarrow> string \<Rightarrow> MemoryLifecycleStore \<Rightarrow> RefreshDisabledRecord result" where
  "MarkProtocolRefreshFailed ctx lease reason s =
    (let keyID = KeyID (l_Binding lease) in
     if ctx then (Inl ErrContext, s)
     else if \<not> validateRunLease lease \<or> l_Kind lease \<noteq> RunRefresh \<or> l_State lease \<noteq> RunLeaseActive
     then (Inl ErrInvalidLifecycleRecord, s)
     else if \<not> validateLifecycleReason reason then (Inl ErrInvalidLifecycleRecord, s)
     else case fmlookup (leaseEffects s) (l_Token lease) of
       Some effect \<Rightarrow>
         if e_Kind effect = storedLeaseEffectRefreshFailed \<and> e_Reason effect = reason then
           (case fmlookup (refreshDisabled s) keyID of
              None \<Rightarrow> (Inl ErrLifecycleCorrupt, s)
            | Some record \<Rightarrow>
                if d_SessionID record \<noteq> l_SessionID lease \<or> d_Reason record \<noteq> reason
                then (Inl ErrLifecycleCorrupt, s) else (Inr record, s))
         else (Inl ErrRunLeaseConflict, s)
     | None \<Rightarrow>
         (case exactActiveLeaseLocked lease s of
            Inl e \<Rightarrow> (Inl e, s)
          | Inr stored \<Rightarrow>
              if fm_has keyID (refreshDisabled s) then (Inl ErrRefreshDisabled, s)
              else
                let record = \<lparr>d_KeyID = keyID, d_SessionID = l_SessionID lease, d_Reason = reason\<rparr>;
                    s = s\<lparr>refreshDisabled := fmupd keyID record (refreshDisabled s)\<rparr>;
                    s = setLeaseState (l_Token lease) stored RunLeaseAborted s
                in (Inr record, setLeaseEffect
                     \<lparr>e_LeaseToken = l_Token lease, e_Kind = storedLeaseEffectRefreshFailed,
                      e_PresignID = [], e_Target = zeroBinding, e_Digest = [], e_Reason = reason,
                      e_CutoverToken = 0\<rparr> s)))"

section \<open>Presigns and signing attempts\<close>

definition CommitAvailablePresignFromLease ::
  "bool \<Rightarrow> RunLease \<Rightarrow> string \<Rightarrow> bytes \<Rightarrow> bytes \<Rightarrow> MemoryLifecycleStore \<Rightarrow> unit result" where
  "CommitAvailablePresignFromLease ctx lease presignID blob metadata s =
    (if ctx then (Inl ErrContext, s)
     else if \<not> validateRunLease lease \<or> l_Kind lease \<noteq> RunPresign \<or> l_State lease \<noteq> RunLeaseActive
     then (Inl ErrInvalidLifecycleRecord, s)
     else if \<not> validatePresignInput (l_Binding lease) presignID blob metadata
     then (Inl ErrInvalidLifecycleRecord, s)
     else case leaseEffectArtifactDigest ''presign'' (l_Binding lease) presignID blob metadata of
       Inl e \<Rightarrow> (Inl e, s)
     | Inr digest \<Rightarrow>
         (let artifactDigest = sha256 metadata in
          if tombstonedLocked ''presign'' (str_bytes presignID) s
             \<or> tombstonedLocked ''presign-artifact'' artifactDigest s
          then (Inl ErrPresignUnavailable, s)
          else case fmlookup (leaseEffects s) (l_Token lease) of
            Some effect \<Rightarrow>
              if e_Kind effect = storedLeaseEffectPresign \<and> e_PresignID effect = presignID
                 \<and> e_Digest effect = digest then
                (case fmlookup (presigns s) presignID of
                   None \<Rightarrow> (Inl ErrLifecycleCorrupt, s)
                 | Some presign \<Rightarrow>
                     if p_binding presign \<noteq> l_Binding lease \<or> p_artifactDigest presign \<noteq> artifactDigest
                     then (Inl ErrLifecycleCorrupt, s)
                     else if p_state presign = storedPresignAvailable
                          \<and> (p_blob presign \<noteq> blob \<or> p_metadata presign \<noteq> metadata)
                     then (Inl ErrLifecycleCorrupt, s)
                     else (Inr (), s))
              else (Inl ErrRunLeaseConflict, s)
          | None \<Rightarrow>
              (case exactActiveLeaseLocked lease s of
                 Inl e \<Rightarrow> (Inl e, s)
               | Inr stored \<Rightarrow>
                   if \<not> isCurrentLocked (l_Binding lease) s then (Inl ErrGenerationNotCurrent, s)
                   else if fm_has (KeyID (l_Binding lease)) (cutoverByKey s)
                   then (Inl ErrRunLeaseConflict, s)
                   else if fm_has presignID (presigns s) then (Inl ErrPresignUnavailable, s)
                   else if hasConflictingPresignArtifactLocked presignID artifactDigest s
                   then (Inl ErrPresignUnavailable, s)
                   else
                     let presign = \<lparr>p_binding = l_Binding lease, p_blob = blob, p_metadata = metadata,
                           p_artifactDigest = artifactDigest, p_state = storedPresignAvailable,
                           p_attemptID = [], p_reason = []\<rparr>;
                         s = s\<lparr>presigns := fmupd presignID presign (presigns s)\<rparr>;
                         s = setLeaseState (l_Token lease) stored RunLeaseCompleted s
                     in (Inr (), setLeaseEffect
                          \<lparr>e_LeaseToken = l_Token lease, e_Kind = storedLeaseEffectPresign,
                           e_PresignID = presignID, e_Target = zeroBinding, e_Digest = digest,
                           e_Reason = [], e_CutoverToken = 0\<rparr> s))))"

definition PreparePresignCandidate ::
  "bool \<Rightarrow> GenerationBinding \<Rightarrow> string \<Rightarrow> MemoryLifecycleStore \<Rightarrow> lerror + PresignCandidate" where
  "PreparePresignCandidate ctx b presignID s =
    (if ctx then Inl ErrContext
     else if \<not> GenerationBinding_Validate b then Inl ErrInvalidLifecycleRecord
     else if \<not> validateLifecycleIdentifier presignID then Inl ErrInvalidLifecycleRecord
     else if \<not> isCurrentLocked b s then Inl ErrGenerationNotCurrent
     else if fm_has (KeyID b) (cutoverByKey s) then Inl ErrRunLeaseConflict
     else case fmlookup (presigns s) presignID of
       None \<Rightarrow>
         if tombstonedLocked ''presign'' (str_bytes presignID) s
         then Inl ErrLifecycleHistoryCompacted else Inl ErrPresignUnavailable
     | Some record \<Rightarrow>
         if p_binding record \<noteq> b then Inl ErrPresignUnavailable
         else
           (case p_state record of
              storedPresignAvailable \<Rightarrow>
                Inr \<lparr>pc_Binding = b, pc_PresignID = presignID, pc_Blob = p_blob record,
                     pc_Metadata = p_metadata record\<rparr>
            | storedPresignBurned \<Rightarrow> Inl ErrPresignBurned
            | storedPresignClaimed \<Rightarrow> Inl ErrPresignUnavailable))"

text \<open>
  The record that \<^verbatim>\<open>CommitSignAttempt\<close> creates; the progress fields have their zero values.
\<close>

definition newAttempt ::
  "GenerationBinding \<Rightarrow> string \<Rightarrow> SignAttemptIntent \<Rightarrow> bytes \<Rightarrow> bytes \<Rightarrow> SignAttemptRecord" where
  "newAttempt b presignID intent metadata exactOutbox =
    \<lparr>a_Binding = b, a_PresignID = presignID, a_Intent = intent, a_PresignMetadata = metadata,
     a_ExactOutbox = exactOutbox, a_OutboxDigest = sha256 exactOutbox, a_Delivery = [],
     a_Completion = [], a_Delivered = False, a_Completed = False, a_Aborted = False,
     a_AbortReason = []\<rparr>"

definition CommitSignAttempt ::
  "bool \<Rightarrow> GenerationBinding \<Rightarrow> string \<Rightarrow> SignAttemptIntent \<Rightarrow> bytes \<Rightarrow> MemoryLifecycleStore
    \<Rightarrow> AttemptCommit result" where
  "CommitSignAttempt ctx b presignID intent exactOutbox s =
    (if ctx then (Inl ErrContext, s)
     else if \<not> GenerationBinding_Validate b then (Inl ErrInvalidLifecycleRecord, s)
     else if \<not> validateLifecycleIdentifier presignID then (Inl ErrInvalidLifecycleRecord, s)
     else if \<not> SignAttemptIntent_Validate intent then (Inl ErrInvalidLifecycleRecord, s)
     else if \<not> validateLifecycleBlob exactOutbox True then (Inl ErrInvalidLifecycleRecord, s)
     else if tombstonedLocked ''attempt'' (str_bytes (i_AttemptID intent)) s
     then (Inl ErrAttemptConflict, s)
     else if tombstonedLocked ''presign'' (str_bytes presignID) s then (Inl ErrPresignBurned, s)
     else case fmlookup (attempts s) (i_AttemptID intent) of
       Some existing \<Rightarrow>
         if \<not> sameBaseAttempt existing b presignID intent (sha256 exactOutbox) then
           (if a_PresignID existing = presignID
               \<and> i_IntentDigest (a_Intent existing) = i_IntentDigest intent
            then (Inl ErrAttemptNonDeterminism, s) else (Inl ErrAttemptConflict, s))
         else (Inr \<lparr>ac_Status = AttemptExistingSame, ac_Record = existing\<rparr>, s)
     | None \<Rightarrow>
         if \<not> isCurrentLocked b s then (Inl ErrGenerationNotCurrent, s)
         else if fm_has (KeyID b) (cutoverByKey s) then (Inl ErrRunLeaseConflict, s)
         else if \<not> hasActiveSignLeaseLocked b (i_SessionID intent) s then (Inl ErrRunLeaseNotFound, s)
         else
           (case fmlookup (presigns s) presignID of
              None \<Rightarrow> (Inl ErrPresignUnavailable, s)
            | Some presign \<Rightarrow>
                if p_binding presign \<noteq> b then (Inl ErrPresignUnavailable, s)
                else
                  (case p_state presign of
                     storedPresignBurned \<Rightarrow> (Inl ErrPresignBurned, s)
                   | storedPresignClaimed \<Rightarrow>
                       (case fmlookup (attempts s) (p_attemptID presign) of
                          None \<Rightarrow> (Inl ErrLifecycleCorrupt, s)
                        | Some attempt \<Rightarrow>
                            if i_IntentDigest (a_Intent attempt) = i_IntentDigest intent
                            then (Inl ErrAttemptNonDeterminism, s) else (Inl ErrAttemptConflict, s))
                   | storedPresignAvailable \<Rightarrow>
                       let record = newAttempt b presignID intent (p_metadata presign) exactOutbox;
                           s = s\<lparr>attempts := fmupd (i_AttemptID intent) record (attempts s)\<rparr>;
                           s = s\<lparr>presigns := fmupd presignID
                                 (presign\<lparr>p_state := storedPresignClaimed,
                                          p_attemptID := i_AttemptID intent,
                                          p_blob := [], p_metadata := []\<rparr>) (presigns s)\<rparr>
                       in (Inr \<lparr>ac_Status = AttemptCreated, ac_Record = record\<rparr>, s))))"

definition QueryAttemptOutcome ::
  "bool \<Rightarrow> AttemptQuery \<Rightarrow> MemoryLifecycleStore \<Rightarrow> lerror + SignAttemptRecord" where
  "QueryAttemptOutcome ctx q s =
    (if ctx then Inl ErrContext
     else if \<not> AttemptQuery_Validate q then Inl ErrInvalidLifecycleRecord
     else if tombstonedLocked ''attempt'' (str_bytes (q_AttemptID q)) s
     then Inl ErrLifecycleHistoryCompacted
     else queryAttemptLocked q s)"

definition putAttempt :: "AttemptQuery \<Rightarrow> SignAttemptRecord \<Rightarrow> MemoryLifecycleStore \<Rightarrow> MemoryLifecycleStore" where
  "putAttempt q record s = s\<lparr>attempts := fmupd (q_AttemptID q) record (attempts s)\<rparr>"

definition recordAttemptProgress ::
  "bool \<Rightarrow> AttemptQuery \<Rightarrow> bytes \<Rightarrow> attemptProgressKind \<Rightarrow> MemoryLifecycleStore
    \<Rightarrow> SignAttemptRecord result" where
  "recordAttemptProgress ctx q value kind s =
    (if ctx then (Inl ErrContext, s)
     else if \<not> AttemptQuery_Validate q then (Inl ErrInvalidLifecycleRecord, s)
     else if \<not> validateLifecycleBlob value True then (Inl ErrInvalidLifecycleRecord, s)
     else case mutableAttemptLocked q s of
       Inl e \<Rightarrow> (Inl e, s)
     | Inr record \<Rightarrow>
         if a_Aborted record then (Inl ErrAttemptConflict, s)
         else
           let recorded = (case kind of attemptProgressDelivery \<Rightarrow> a_Delivered record
                                      | attemptProgressCompletion \<Rightarrow> a_Completed record);
               existing = (case kind of attemptProgressDelivery \<Rightarrow> a_Delivery record
                                      | attemptProgressCompletion \<Rightarrow> a_Completion record)
           in if recorded then
                (if existing = value then (Inr record, s) else (Inl ErrAttemptConflict, s))
              else
                let record =
                      (case kind of
                         attemptProgressDelivery \<Rightarrow> record\<lparr>a_Delivery := value, a_Delivered := True\<rparr>
                       | attemptProgressCompletion \<Rightarrow>
                           record\<lparr>a_Completion := value, a_Completed := True\<rparr>);
                    record = clearAttemptSecretsIfTerminalLocked record
                in (Inr record, putAttempt q record s))"

definition MarkAttemptDelivered ::
  "bool \<Rightarrow> AttemptQuery \<Rightarrow> bytes \<Rightarrow> MemoryLifecycleStore \<Rightarrow> SignAttemptRecord result" where
  "MarkAttemptDelivered ctx q delivery s = recordAttemptProgress ctx q delivery attemptProgressDelivery s"

definition CompleteAttempt ::
  "bool \<Rightarrow> AttemptQuery \<Rightarrow> bytes \<Rightarrow> MemoryLifecycleStore \<Rightarrow> SignAttemptRecord result" where
  "CompleteAttempt ctx q completion s =
    recordAttemptProgress ctx q completion attemptProgressCompletion s"

text \<open>
  \<^verbatim>\<open>AbortAttempt\<close> writes the aborted record before it looks at the presign: its corruption branch
  returns an error from a changed store.
\<close>

definition AbortAttempt ::
  "bool \<Rightarrow> AttemptQuery \<Rightarrow> string \<Rightarrow> MemoryLifecycleStore \<Rightarrow> SignAttemptRecord result" where
  "AbortAttempt ctx q reason s =
    (if ctx then (Inl ErrContext, s)
     else if \<not> AttemptQuery_Validate q then (Inl ErrInvalidLifecycleRecord, s)
     else if \<not> validateLifecycleReason reason then (Inl ErrInvalidLifecycleRecord, s)
     else case mutableAttemptLocked q s of
       Inl e \<Rightarrow> (Inl e, s)
     | Inr record \<Rightarrow>
         if Terminal record \<and> \<not> a_Aborted record then (Inl ErrAttemptConflict, s)
         else if a_Aborted record then
           (if a_AbortReason record = reason then (Inr record, s) else (Inl ErrAttemptConflict, s))
         else
           let record = record\<lparr>a_Aborted := True, a_AbortReason := reason, a_ExactOutbox := []\<rparr>;
               s = putAttempt q record s
           in (case fmlookup (presigns s) (a_PresignID record) of
                 None \<Rightarrow> (Inl ErrLifecycleCorrupt, s)
               | Some presign \<Rightarrow>
                   if p_state presign \<noteq> storedPresignClaimed
                      \<or> p_attemptID presign \<noteq> i_AttemptID (a_Intent record)
                   then (Inl ErrLifecycleCorrupt, s)
                   else (Inr record, s\<lparr>presigns := fmupd (a_PresignID record)
                          (presign\<lparr>p_state := storedPresignBurned, p_reason := reason\<rparr>) (presigns s)\<rparr>)))"

definition BurnPresign ::
  "bool \<Rightarrow> GenerationBinding \<Rightarrow> string \<Rightarrow> string \<Rightarrow> MemoryLifecycleStore \<Rightarrow> unit result" where
  "BurnPresign ctx b presignID reason s =
    (if ctx then (Inl ErrContext, s)
     else if \<not> GenerationBinding_Validate b then (Inl ErrInvalidLifecycleRecord, s)
     else if \<not> validateLifecycleIdentifier presignID then (Inl ErrInvalidLifecycleRecord, s)
     else if \<not> validateLifecycleReason reason then (Inl ErrInvalidLifecycleRecord, s)
     else case fmlookup (presigns s) presignID of
       None \<Rightarrow>
         if tombstonedLocked ''presign'' (str_bytes presignID) s
         then (Inl ErrPresignBurned, s) else (Inl ErrPresignUnavailable, s)
     | Some presign \<Rightarrow>
         if p_binding presign \<noteq> b then (Inl ErrPresignUnavailable, s)
         else
           (case p_state presign of
              storedPresignAvailable \<Rightarrow>
                (Inr (), s\<lparr>presigns := fmupd presignID
                   (presign\<lparr>p_blob := [], p_metadata := [], p_state := storedPresignBurned,
                            p_reason := reason\<rparr>) (presigns s)\<rparr>)
            | storedPresignBurned \<Rightarrow>
                if p_reason presign = reason then (Inr (), s) else (Inl ErrPresignBurned, s)
            | storedPresignClaimed \<Rightarrow> (Inl ErrAttemptConflict, s)))"

section \<open>Cutovers\<close>

definition newCutover :: "CutoverFence \<Rightarrow> storedCutover" where
  "newCutover fence =
    \<lparr>c_fence = fence, c_state = storedCutoverActive, c_targetBlobDigest = [],
     c_targetMetadataDigest = [], c_reason = []\<rparr>"

text \<open>\<^verbatim>\<open>s.nextCutoverToken++\<close>, the stored cutover and its index entry.\<close>

definition openCutover ::
  "GenerationBinding \<Rightarrow> GenerationBinding \<Rightarrow> MemoryLifecycleStore \<Rightarrow> CutoverFence \<times> MemoryLifecycleStore" where
  "openCutover source target s =
    (let fence = \<lparr>f_Token = nextCutoverToken s + 1, f_Source = source, f_Target = target\<rparr>
     in (fence, s\<lparr>nextCutoverToken := nextCutoverToken s + 1,
                  cutoversByToken := fmupd (f_Token fence) (newCutover fence) (cutoversByToken s),
                  cutoverByKey := fmupd (KeyID source) (f_Token fence) (cutoverByKey s)\<rparr>))"

definition BeginCutover ::
  "bool \<Rightarrow> GenerationBinding \<Rightarrow> GenerationBinding \<Rightarrow> MemoryLifecycleStore \<Rightarrow> CutoverFence result" where
  "BeginCutover ctx source target s =
    (if ctx then (Inl ErrContext, s)
     else if \<not> validateCutoverBindings source target then (Inl ErrInvalidLifecycleRecord, s)
     else case fmlookup (cutoverByKey s) (KeyID source) of
       Some token \<Rightarrow>
         (case fmlookup (cutoversByToken s) token of
            None \<Rightarrow> (Inl ErrLifecycleCorrupt, s)
          | Some cutover \<Rightarrow>
              if c_state cutover \<noteq> storedCutoverActive then (Inl ErrLifecycleCorrupt, s)
              else if f_Source (c_fence cutover) = source \<and> f_Target (c_fence cutover) = target
              then (Inr (c_fence cutover), s)
              else (Inl ErrCutoverConflict, s))
     | None \<Rightarrow>
         if \<not> isCurrentLocked source s then (Inl ErrGenerationNotCurrent, s)
         else if hasKeyGenerationLocked (KeyID target) (KeyGen target) s
         then (Inl ErrGenerationConflict, s)
         else if hasActiveLeaseLocked source s \<or> hasNonTerminalAttemptLocked source s
         then (Inl ErrRunLeaseConflict, s)
         else let (fence, s) = openCutover source target s in (Inr fence, s))"

definition BeginCutoverFromLease ::
  "bool \<Rightarrow> RunLease \<Rightarrow> GenerationBinding \<Rightarrow> MemoryLifecycleStore \<Rightarrow> CutoverFence result" where
  "BeginCutoverFromLease ctx lease target s =
    (let b = l_Binding lease in
     if ctx then (Inl ErrContext, s)
     else if \<not> validateRunLease lease \<or> l_State lease \<noteq> RunLeaseActive
          \<or> \<not> cutoverLeaseRunKind (l_Kind lease)
     then (Inl ErrInvalidLifecycleRecord, s)
     else if \<not> validateCutoverBindings b target then (Inl ErrInvalidLifecycleRecord, s)
     else case fmlookup (leaseEffects s) (l_Token lease) of
       Some effect \<Rightarrow>
         if e_Kind effect \<noteq> storedLeaseEffectCutover \<or> e_Target effect \<noteq> target
            \<or> e_CutoverToken effect = 0
         then (Inl ErrRunLeaseConflict, s)
         else
           (case fmlookup (cutoversByToken s) (e_CutoverToken effect) of
              None \<Rightarrow> (Inl ErrLifecycleCorrupt, s)
            | Some cutover \<Rightarrow>
                if f_Source (c_fence cutover) \<noteq> b \<or> f_Target (c_fence cutover) \<noteq> target
                then (Inl ErrLifecycleCorrupt, s) else (Inr (c_fence cutover), s))
     | None \<Rightarrow>
         (case exactActiveLeaseLocked lease s of
            Inl e \<Rightarrow> (Inl e, s)
          | Inr stored \<Rightarrow>
              if fm_has (KeyID b) (cutoverByKey s) then (Inl ErrCutoverConflict, s)
              else if \<not> isCurrentLocked b s then (Inl ErrGenerationNotCurrent, s)
              else if hasKeyGenerationLocked (KeyID target) (KeyGen target) s
              then (Inl ErrGenerationConflict, s)
              else if hasOtherActiveLeaseLocked b (l_Token lease) s \<or> hasNonTerminalAttemptLocked b s
              then (Inl ErrRunLeaseConflict, s)
              else
                let (fence, s) = openCutover b target s;
                    s = setLeaseState (l_Token lease) stored RunLeaseCompleted s
                in (Inr fence, setLeaseEffect
                     \<lparr>e_LeaseToken = l_Token lease, e_Kind = storedLeaseEffectCutover,
                      e_PresignID = [], e_Target = target, e_Digest = [], e_Reason = [],
                      e_CutoverToken = f_Token fence\<rparr> s)))"

text \<open>\<^verbatim>\<open>source.record.Status = GenerationRetired\<close> with both secret slices cleared.\<close>

definition retireRecord :: "GenerationRecord \<Rightarrow> GenerationRecord" where
  "retireRecord r = r\<lparr>g_Status := GenerationRetired, g_Blob := [], g_Metadata := []\<rparr>"

definition CommitRetirementFromLease ::
  "bool \<Rightarrow> RunLease \<Rightarrow> GenerationBinding \<Rightarrow> MemoryLifecycleStore \<Rightarrow> unit result" where
  "CommitRetirementFromLease ctx lease target s =
    (let b = l_Binding lease in
     if ctx then (Inl ErrContext, s)
     else if \<not> validateRunLease lease \<or> l_Kind lease \<noteq> RunReshare \<or> l_State lease \<noteq> RunLeaseActive
     then (Inl ErrInvalidLifecycleRecord, s)
     else if \<not> validateCutoverBindings b target then (Inl ErrInvalidLifecycleRecord, s)
     else case fmlookup (leaseEffects s) (l_Token lease) of
       Some effect \<Rightarrow>
         if e_Kind effect \<noteq> storedLeaseEffectRetirement \<or> e_Target effect \<noteq> target
         then (Inl ErrRunLeaseConflict, s)
         else
           (case fmlookup (generations s) b of
              None \<Rightarrow> (Inl ErrLifecycleCorrupt, s)
            | Some source \<Rightarrow>
                if g_Status source \<noteq> GenerationRetired \<or> g_Blob source \<noteq> [] \<or> g_Metadata source \<noteq> []
                then (Inl ErrLifecycleCorrupt, s)
                else if fm_has (KeyID b) (current s) then (Inl ErrLifecycleCorrupt, s)
                else (Inr (), s))
     | None \<Rightarrow>
         (case exactActiveLeaseLocked lease s of
            Inl e \<Rightarrow> (Inl e, s)
          | Inr stored \<Rightarrow>
              if fm_has (l_Token lease) (reshareReceivers s) then (Inl ErrRunLeaseConflict, s)
              else if \<not> isCurrentLocked b s then (Inl ErrGenerationNotCurrent, s)
              else if fm_has (KeyID b) (cutoverByKey s) then (Inl ErrRunLeaseConflict, s)
              else if hasOtherActiveLeaseLocked b (l_Token lease) s \<or> hasNonTerminalAttemptLocked b s
              then (Inl ErrRunLeaseConflict, s)
              else if hasKeyGenerationLocked (KeyID target) (KeyGen target) s
              then (Inl ErrGenerationConflict, s)
              else
                (case fmlookup (generations s) b of
                   None \<Rightarrow> (Inl ErrLifecycleCorrupt, s)
                 | Some source \<Rightarrow>
                     if g_Status source \<noteq> GenerationCurrent then (Inl ErrLifecycleCorrupt, s)
                     else
                       let s = s\<lparr>generations := fmupd b (retireRecord source) (generations s),
                                 current := fmdrop (KeyID b) (current s)\<rparr>;
                           s = burnEpochPresignsLocked (KeyID b) (Epoch b) s;
                           s = setLeaseState (l_Token lease) stored RunLeaseCompleted s
                       in (Inr (), setLeaseEffect
                            \<lparr>e_LeaseToken = l_Token lease, e_Kind = storedLeaseEffectRetirement,
                             e_PresignID = [], e_Target = target, e_Digest = [], e_Reason = [],
                             e_CutoverToken = 0\<rparr> s))))"

definition CommitCutover ::
  "bool \<Rightarrow> CutoverFence \<Rightarrow> bytes \<Rightarrow> bytes \<Rightarrow> MemoryLifecycleStore \<Rightarrow> GenerationRecord result" where
  "CommitCutover ctx fence targetBlob targetMetadata s =
    (let source = f_Source fence in
     if ctx then (Inl ErrContext, s)
     else if \<not> validateCutoverFence fence then (Inl ErrInvalidLifecycleRecord, s)
     else if \<not> validateLifecycleBlob targetBlob True then (Inl ErrInvalidLifecycleRecord, s)
     else if \<not> validateLifecycleBlob targetMetadata False then (Inl ErrInvalidLifecycleRecord, s)
     else case fmlookup (cutoversByToken s) (f_Token fence) of
       None \<Rightarrow>
         if tombstonedLocked ''cutover'' (cutoverTombstoneIdentifier (f_Token fence)) s
         then (Inl ErrLifecycleHistoryCompacted, s) else (Inl ErrCutoverConflict, s)
     | Some cutover \<Rightarrow>
         if c_fence cutover \<noteq> fence then (Inl ErrCutoverConflict, s)
         else if c_state cutover = storedCutoverCommitted then
           (if c_targetBlobDigest cutover \<noteq> sha256 targetBlob
               \<or> c_targetMetadataDigest cutover \<noteq> sha256 targetMetadata
            then (Inl ErrCutoverConflict, s)
            else
              (case fmlookup (generations s) (f_Target fence) of
                 None \<Rightarrow> (Inl ErrLifecycleCorrupt, s)
               | Some target \<Rightarrow>
                   if g_Status target \<noteq> GenerationCurrent then (Inl ErrLifecycleCorrupt, s)
                   else (Inr target, s)))
         else if c_state cutover \<noteq> storedCutoverActive then (Inl ErrCutoverConflict, s)
         else if fmlookup (cutoverByKey s) (KeyID source) \<noteq> Some (f_Token fence)
         then (Inl ErrCutoverConflict, s)
         else if \<not> isCurrentLocked source s then (Inl ErrGenerationConflict, s)
         else if hasActiveLeaseLocked source s \<or> hasNonTerminalAttemptLocked source s
         then (Inl ErrRunLeaseConflict, s)
         else if fm_has (f_Target fence) (generations s) then (Inl ErrGenerationConflict, s)
         else
           (case fmlookup (generations s) source of
              None \<Rightarrow> (Inl ErrLifecycleCorrupt, s)
            | Some src \<Rightarrow>
                if g_Status src \<noteq> GenerationCurrent then (Inl ErrLifecycleCorrupt, s)
                else
                  let target = \<lparr>g_Binding = f_Target fence, g_Blob = targetBlob,
                        g_Metadata = targetMetadata, g_Status = GenerationCurrent\<rparr>;
                      s = s\<lparr>generations := fmupd (f_Target fence) target (generations s),
                            current := fmupd (KeyID source) (f_Target fence) (current s)\<rparr>;
                      s = s\<lparr>generations := fmupd source (retireRecord src) (generations s)\<rparr>;
                      s = burnEpochPresignsLocked (KeyID source) (Epoch source) s
                  in (Inr target,
                      s\<lparr>cutoversByToken := fmupd (f_Token fence)
                          (cutover\<lparr>c_state := storedCutoverCommitted,
                                   c_targetBlobDigest := sha256 targetBlob,
                                   c_targetMetadataDigest := sha256 targetMetadata\<rparr>)
                          (cutoversByToken s),
                        cutoverByKey := fmdrop (KeyID source) (cutoverByKey s)\<rparr>)))"

definition AbortCutover ::
  "bool \<Rightarrow> CutoverFence \<Rightarrow> string \<Rightarrow> MemoryLifecycleStore \<Rightarrow> unit result" where
  "AbortCutover ctx fence reason s =
    (if ctx then (Inl ErrContext, s)
     else if \<not> validateCutoverFence fence then (Inl ErrInvalidLifecycleRecord, s)
     else if \<not> validateLifecycleReason reason then (Inl ErrInvalidLifecycleRecord, s)
     else case fmlookup (cutoversByToken s) (f_Token fence) of
       None \<Rightarrow>
         if tombstonedLocked ''cutover'' (cutoverTombstoneIdentifier (f_Token fence)) s
         then (Inl ErrLifecycleHistoryCompacted, s) else (Inl ErrCutoverConflict, s)
     | Some cutover \<Rightarrow>
         if c_fence cutover \<noteq> fence then (Inl ErrCutoverConflict, s)
         else if c_state cutover = storedCutoverAborted then
           (if c_reason cutover = reason then (Inr (), s) else (Inl ErrCutoverConflict, s))
         else if c_state cutover \<noteq> storedCutoverActive then (Inl ErrCutoverConflict, s)
         else if fmlookup (cutoverByKey s) (KeyID (f_Source fence)) \<noteq> Some (f_Token fence)
         then (Inl ErrCutoverConflict, s)
         else (Inr (), s\<lparr>cutoversByToken := fmupd (f_Token fence)
                 (cutover\<lparr>c_state := storedCutoverAborted, c_reason := reason\<rparr>) (cutoversByToken s),
               cutoverByKey := fmdrop (KeyID (f_Source fence)) (cutoverByKey s)\<rparr>))"

section \<open>First generations from leases\<close>

definition CommitInitialGenerationFromLease ::
  "bool \<Rightarrow> RunLease \<Rightarrow> GenerationBinding \<Rightarrow> bytes \<Rightarrow> bytes \<Rightarrow> MemoryLifecycleStore
    \<Rightarrow> GenerationRecord result" where
  "CommitInitialGenerationFromLease ctx lease child childBlob childMetadata s =
    (let b = l_Binding lease in
     if ctx then (Inl ErrContext, s)
     else if \<not> validateRunLease lease \<or> l_Kind lease \<noteq> RunChildDerivation
          \<or> l_State lease \<noteq> RunLeaseActive
     then (Inl ErrInvalidLifecycleRecord, s)
     else if \<not> GenerationBinding_Validate child \<or> KeyID child = KeyID b \<or> Epoch child = Epoch b
     then (Inl ErrInvalidLifecycleRecord, s)
     else if \<not> validateLifecycleBlob childBlob True then (Inl ErrInvalidLifecycleRecord, s)
     else if \<not> validateLifecycleBlob childMetadata True then (Inl ErrInvalidLifecycleRecord, s)
     else case leaseEffectArtifactDigest ''child-generation'' child (KeyID child) childBlob childMetadata of
       Inl e \<Rightarrow> (Inl e, s)
     | Inr digest \<Rightarrow>
         (case fmlookup (leaseEffects s) (l_Token lease) of
            Some effect \<Rightarrow>
              if e_Kind effect = storedLeaseEffectChildGeneration \<and> e_Target effect = child
                 \<and> e_Digest effect = digest then
                (case fmlookup (generations s) child of
                   None \<Rightarrow> (Inl ErrLifecycleCorrupt, s)
                 | Some generation \<Rightarrow>
                     if g_Status generation \<noteq> GenerationCurrent \<or> g_Blob generation \<noteq> childBlob
                        \<or> g_Metadata generation \<noteq> childMetadata
                     then (Inl ErrLifecycleCorrupt, s) else (Inr generation, s))
              else (Inl ErrRunLeaseConflict, s)
          | None \<Rightarrow>
              (case exactActiveLeaseLocked lease s of
                 Inl e \<Rightarrow> (Inl e, s)
               | Inr stored \<Rightarrow>
                   if \<not> isCurrentLocked b s then (Inl ErrGenerationNotCurrent, s)
                   else if fm_has (KeyID b) (cutoverByKey s) then (Inl ErrRunLeaseConflict, s)
                   else if fm_has (KeyID child) (current s) \<or> hasGenerationForKeyLocked (KeyID child) s
                        \<or> hasKeyGenerationLocked (KeyID child) (KeyGen child) s
                        \<or> hasActiveLeaseForKeyLocked (KeyID child) s
                   then (Inl ErrGenerationConflict, s)
                   else
                     let record = \<lparr>g_Binding = child, g_Blob = childBlob, g_Metadata = childMetadata,
                                   g_Status = GenerationCurrent\<rparr>;
                         s = s\<lparr>generations := fmupd child record (generations s),
                               current := fmupd (KeyID child) child (current s)\<rparr>;
                         s = setLeaseState (l_Token lease) stored RunLeaseCompleted s
                     in (Inr record, setLeaseEffect
                          \<lparr>e_LeaseToken = l_Token lease, e_Kind = storedLeaseEffectChildGeneration,
                           e_PresignID = [], e_Target = child, e_Digest = digest, e_Reason = [],
                           e_CutoverToken = 0\<rparr> s))))"

definition CommitInitialGenerationFromReshareLease ::
  "bool \<Rightarrow> RunLease \<Rightarrow> GenerationBinding \<Rightarrow> bytes \<Rightarrow> bytes \<Rightarrow> MemoryLifecycleStore
    \<Rightarrow> GenerationRecord result" where
  "CommitInitialGenerationFromReshareLease ctx lease target targetBlob targetMetadata s =
    (let b = l_Binding lease in
     if ctx then (Inl ErrContext, s)
     else if \<not> validateRunLease lease \<or> l_Kind lease \<noteq> RunReshare \<or> l_State lease \<noteq> RunLeaseActive
     then (Inl ErrInvalidLifecycleRecord, s)
     else if \<not> GenerationBinding_Validate target \<or> KeyID target \<noteq> KeyID b \<or> KeyGen target = KeyGen b
          \<or> Epoch target = Epoch b
     then (Inl ErrInvalidLifecycleRecord, s)
     else if \<not> validateLifecycleBlob targetBlob True then (Inl ErrInvalidLifecycleRecord, s)
     else if \<not> validateLifecycleBlob targetMetadata False then (Inl ErrInvalidLifecycleRecord, s)
     else case leaseEffectArtifactDigest ''reshare-receiver-generation'' target (KeyID target)
                 targetBlob targetMetadata of
       Inl e \<Rightarrow> (Inl e, s)
     | Inr digest \<Rightarrow>
         (case fmlookup (leaseEffects s) (l_Token lease) of
            Some effect \<Rightarrow>
              if e_Kind effect = storedLeaseEffectReshareReceiverGeneration \<and> e_Target effect = target
                 \<and> e_Digest effect = digest then
                (case fmlookup (generations s) target of
                   None \<Rightarrow> (Inl ErrLifecycleCorrupt, s)
                 | Some generation \<Rightarrow>
                     if g_Status generation \<noteq> GenerationCurrent \<or> g_Blob generation \<noteq> targetBlob
                        \<or> g_Metadata generation \<noteq> targetMetadata
                     then (Inl ErrLifecycleCorrupt, s)
                     else if fm_has (l_Token lease) (reshareReceivers s)
                     then (Inl ErrLifecycleCorrupt, s)
                     else (Inr generation, s))
              else (Inl ErrRunLeaseConflict, s)
          | None \<Rightarrow>
              (case exactActiveLeaseLocked lease s of
                 Inl e \<Rightarrow> (Inl e, s)
               | Inr stored \<Rightarrow>
                   (case fmlookup (reshareReceivers s) (l_Token lease) of
                      None \<Rightarrow> (Inl ErrRunLeaseConflict, s)
                    | Some anchor \<Rightarrow>
                        if r_Source anchor \<noteq> b \<or> r_SessionID anchor \<noteq> l_SessionID lease
                           \<or> r_TargetKeyGeneration anchor \<noteq> KeyGen target
                        then (Inl ErrRunLeaseConflict, s)
                        else if fm_has (KeyID target) (current s) then (Inl ErrGenerationConflict, s)
                        else if hasOtherActiveLeaseForKeyLocked (KeyID target) (l_Token lease) s
                             \<or> hasNonTerminalAttemptForKeyLocked (KeyID target) s
                        then (Inl ErrRunLeaseConflict, s)
                        else if fm_has (KeyID target) (cutoverByKey s) then (Inl ErrRunLeaseConflict, s)
                        else if hasKeyGenerationLocked (KeyID target) (KeyGen target) s
                        then (Inl ErrGenerationConflict, s)
                        else
                          let record = \<lparr>g_Binding = target, g_Blob = targetBlob,
                                g_Metadata = targetMetadata, g_Status = GenerationCurrent\<rparr>;
                              s = s\<lparr>generations := fmupd target record (generations s),
                                    current := fmupd (KeyID target) target (current s)\<rparr>;
                              s = setLeaseState (l_Token lease) stored RunLeaseCompleted s;
                              s = s\<lparr>reshareReceivers := fmdrop (l_Token lease) (reshareReceivers s)\<rparr>
                          in (Inr record, setLeaseEffect
                               \<lparr>e_LeaseToken = l_Token lease,
                                e_Kind = storedLeaseEffectReshareReceiverGeneration,
                                e_PresignID = [], e_Target = target, e_Digest = digest, e_Reason = [],
                                e_CutoverToken = 0\<rparr> s)))))"

end
