(* ===== verification/Lifecycle_Validate.thy ===== *)
theory Lifecycle_Validate
  imports Lifecycle_Store
begin

text \<open>
  The consistency check that the file-backed store runs over a loaded or mutated lifecycle state
  (\<^verbatim>\<open>tssrun/file_lifecycle_state.go\<close>).  Every failure is \<^const>\<open>ErrLifecycleCorrupt\<close>, so a loop that
  returns at the first bad entry is the test that a bad entry exists, whatever the iteration order;
  the counters of the code are \<^const>\<open>fm_count\<close>.  Tests for nil pointers and for states outside an
  enumeration have no counterpart: stored records are values of the model's types.
\<close>

section \<open>Entry checks\<close>

definition validateStoredLease :: "MemoryLifecycleStore \<Rightarrow> u64 \<Rightarrow> RunLease \<Rightarrow> bool" where
  "validateStoredLease s token l \<longleftrightarrow>
    \<not> (l_Token l \<noteq> token \<or> \<not> validateRunLease l \<or> token > nextLeaseToken s)
    \<and> fm_get 0 (leaseBySession s) (l_SessionID l) = token
    \<and> \<not> (l_State l \<noteq> RunLeaseActive \<and> l_State l \<noteq> RunLeaseCompleted \<and> l_State l \<noteq> RunLeaseAborted)"

definition validateReceiverLease ::
  "MemoryLifecycleStore \<Rightarrow> RunLease \<Rightarrow> ReshareReceiverAnchor \<Rightarrow> bool" where
  "validateReceiverLease s l a \<longleftrightarrow>
    (let keyID = KeyID (l_Binding l) in
     \<not> (\<not> ReshareReceiverAnchor_Validate a \<or> l_Kind l \<noteq> RunReshare \<or> r_Source a \<noteq> l_Binding l
        \<or> r_SessionID a \<noteq> l_SessionID l)
     \<and> \<not> (fm_has keyID (current s) \<or> hasKeyGenerationLocked keyID (r_TargetKeyGeneration a) s
          \<or> hasNonTerminalAttemptForKeyLocked keyID s)
     \<and> \<not> fm_has keyID (cutoverByKey s))"

definition validateStoredPresign :: "MemoryLifecycleStore \<Rightarrow> string \<Rightarrow> storedPresign \<Rightarrow> bool" where
  "validateStoredPresign s presignID p =
    (case p_state p of
       storedPresignAvailable \<Rightarrow>
         \<not> (\<not> isCurrentLocked (p_binding p) s \<or> p_blob p = [] \<or> p_attemptID p \<noteq> [] \<or> p_reason p \<noteq> [])
         \<and> p_artifactDigest p = sha256 (p_metadata p)
     | storedPresignClaimed \<Rightarrow>
         \<not> (\<not> isCurrentLocked (p_binding p) s \<or> p_blob p \<noteq> [] \<or> p_metadata p \<noteq> []
            \<or> p_attemptID p = [] \<or> p_reason p \<noteq> [])
         \<and> (case fmlookup (attempts s) (p_attemptID p) of
              None \<Rightarrow> False
            | Some a \<Rightarrow> \<not> (a_Binding a \<noteq> p_binding p \<or> a_PresignID a \<noteq> presignID \<or> a_Aborted a))
     | storedPresignBurned \<Rightarrow>
         \<not> (p_blob p \<noteq> [] \<or> p_metadata p \<noteq> [] \<or> \<not> validateLifecycleReason (p_reason p))
         \<and> (p_attemptID p = []
            \<or> (case fmlookup (attempts s) (p_attemptID p) of
                 None \<Rightarrow> False
               | Some a \<Rightarrow> \<not> (a_Binding a \<noteq> p_binding p \<or> a_PresignID a \<noteq> presignID
                             \<or> (\<not> a_Aborted a \<and> \<not> Terminal a)))))"

definition validateStoredAttemptProgress :: "SignAttemptRecord \<Rightarrow> bool" where
  "validateStoredAttemptProgress r \<longleftrightarrow>
    \<not> (a_Delivered r \<noteq> (a_Delivery r \<noteq> []) \<or> a_Completed r \<noteq> (a_Completion r \<noteq> []))
    \<and> \<not> (\<not> Terminal r \<and> \<not> a_Aborted r \<and> a_ExactOutbox r = [])
    \<and> \<not> ((Terminal r \<or> a_Aborted r) \<and> a_ExactOutbox r \<noteq> [])
    \<and> \<not> (a_ExactOutbox r \<noteq> [] \<and> a_OutboxDigest r \<noteq> sha256 (a_ExactOutbox r))
    \<and> a_PresignMetadata r \<noteq> []"

definition validateCommittedCutover :: "MemoryLifecycleStore \<Rightarrow> storedCutover \<Rightarrow> bool" where
  "validateCommittedCutover s c \<longleftrightarrow>
    \<not> (length (c_targetBlobDigest c) \<noteq> 32 \<or> length (c_targetMetadataDigest c) \<noteq> 32 \<or> c_reason c \<noteq> [])
    \<and> (case fmlookup (generations s) (f_Source (c_fence c)) of
         None \<Rightarrow> False
       | Some source \<Rightarrow>
           g_Status source = GenerationRetired
           \<and> (case fmlookup (generations s) (f_Target (c_fence c)) of
                None \<Rightarrow> False
              | Some target \<Rightarrow>
                  \<not> (g_Status target = GenerationCurrent
                     \<and> (c_targetBlobDigest c \<noteq> sha256 (g_Blob target)
                        \<or> c_targetMetadataDigest c \<noteq> sha256 (g_Metadata target)))))"

section \<open>The seven passes\<close>

definition validateMemoryLifecycleGenerations :: "MemoryLifecycleStore \<Rightarrow> lerror + unit" where
  "validateMemoryLifecycleGenerations s =
    (if fm_ex (\<lambda>keyID b. keyID \<noteq> KeyID b \<or> \<not> GenerationBinding_Validate b) (current s)
     then Inl ErrLifecycleCorrupt
     else if fm_ex (\<lambda>b g. \<not> GenerationBinding_Validate b \<or> g_Binding g \<noteq> b
              \<or> (if g_Status g = GenerationCurrent
                 then fmlookup (current s) (KeyID b) \<noteq> Some b \<or> g_Blob g = []
                 else g_Blob g \<noteq> [] \<or> g_Metadata g \<noteq> [])) (generations s)
     then Inl ErrLifecycleCorrupt
     else if fm_ex (\<lambda>keyID _. fm_count (\<lambda>b g. KeyID b = keyID \<and> g_Status g = GenerationCurrent)
                                (generations s) \<noteq> 1) (current s)
     then Inl ErrLifecycleCorrupt
     else Inr ())"

definition leaseEntryBad :: "MemoryLifecycleStore \<Rightarrow> u64 \<Rightarrow> RunLease \<Rightarrow> bool" where
  "leaseEntryBad s token l \<longleftrightarrow>
    (let keyID = KeyID (l_Binding l) in
     \<not> validateStoredLease s token l
     \<or> (if l_State l \<noteq> RunLeaseActive then fm_has token (reshareReceivers s)
        else case fmlookup (reshareReceivers s) token of
          Some a \<Rightarrow> \<not> validateReceiverLease s l a
        | None \<Rightarrow>
            if l_Kind l = RunKeygen
            then fm_has keyID (current s) \<or> hasGenerationForKeyLocked keyID s
            else \<not> isCurrentLocked (l_Binding l) s))"

definition activeLeaseCount :: "MemoryLifecycleStore \<Rightarrow> string \<Rightarrow> nat" where
  "activeLeaseCount s keyID =
    fm_count (\<lambda>_ l. l_State l = RunLeaseActive \<and> KeyID (l_Binding l) = keyID) (leasesByToken s)"

definition validateMemoryLifecycleLeases :: "MemoryLifecycleStore \<Rightarrow> lerror + unit" where
  "validateMemoryLifecycleLeases s =
    (if fm_size (leasesByToken s) \<noteq> fm_size (leaseBySession s) then Inl ErrLifecycleCorrupt
     else if fm_ex (leaseEntryBad s) (leasesByToken s) then Inl ErrLifecycleCorrupt
     else if fm_count (\<lambda>t l. l_State l = RunLeaseActive \<and> fm_has t (reshareReceivers s))
               (leasesByToken s) \<noteq> fm_size (reshareReceivers s)
     then Inl ErrLifecycleCorrupt
     else if fm_ex (\<lambda>_ l. l_State l = RunLeaseActive \<and> exclusiveLeaseRunKind (l_Kind l)
               \<and> activeLeaseCount s (KeyID (l_Binding l)) \<noteq> 1) (leasesByToken s)
     then Inl ErrLifecycleCorrupt
     else Inr ())"

definition leaseEffectOk :: "MemoryLifecycleStore \<Rightarrow> u64 \<Rightarrow> storedLeaseEffect \<Rightarrow> bool" where
  "leaseEffectOk s token e =
    (case fmlookup (leasesByToken s) token of
       None \<Rightarrow> False
     | Some l \<Rightarrow>
         e_LeaseToken e = token \<and> l_State l \<noteq> RunLeaseActive
         \<and> (case e_Kind e of
              storedLeaseEffectPresign \<Rightarrow>
                l_Kind l = RunPresign \<and> l_State l = RunLeaseCompleted
                \<and> validateLifecycleIdentifier (e_PresignID e) \<and> length (e_Digest e) = 32
                \<and> fm_has (e_PresignID e) (presigns s)
            | storedLeaseEffectCutover \<Rightarrow>
                cutoverLeaseRunKind (l_Kind l) \<and> l_State l = RunLeaseCompleted
                \<and> KeyID (e_Target e) = KeyID (l_Binding l)
                \<and> (case fmlookup (cutoversByToken s) (e_CutoverToken e) of
                     None \<Rightarrow> False
                   | Some c \<Rightarrow> f_Source (c_fence c) = l_Binding l \<and> f_Target (c_fence c) = e_Target e)
            | storedLeaseEffectRefreshFailed \<Rightarrow>
                l_Kind l = RunRefresh \<and> l_State l = RunLeaseAborted
                \<and> (case fmlookup (refreshDisabled s) (KeyID (l_Binding l)) of
                     None \<Rightarrow> False
                   | Some d \<Rightarrow> d_SessionID d = l_SessionID l \<and> d_Reason d = e_Reason e)
            | storedLeaseEffectChildGeneration \<Rightarrow>
                l_Kind l = RunChildDerivation \<and> l_State l = RunLeaseCompleted
                \<and> KeyID (e_Target e) \<noteq> KeyID (l_Binding l) \<and> Epoch (e_Target e) \<noteq> Epoch (l_Binding l)
                \<and> GenerationBinding_Validate (e_Target e) \<and> length (e_Digest e) = 32
                \<and> fm_has (e_Target e) (generations s)
            | storedLeaseEffectReshareReceiverGeneration \<Rightarrow>
                l_Kind l = RunReshare \<and> l_State l = RunLeaseCompleted
                \<and> KeyID (e_Target e) = KeyID (l_Binding l) \<and> KeyGen (e_Target e) \<noteq> KeyGen (l_Binding l)
                \<and> Epoch (e_Target e) \<noteq> Epoch (l_Binding l)
                \<and> GenerationBinding_Validate (e_Target e) \<and> length (e_Digest e) = 32
                \<and> fm_has (e_Target e) (generations s)
            | storedLeaseEffectRetirement \<Rightarrow>
                l_Kind l = RunReshare \<and> l_State l = RunLeaseCompleted
                \<and> validateCutoverBindings (l_Binding l) (e_Target e)
                \<and> (case fmlookup (generations s) (l_Binding l) of
                     None \<Rightarrow> False
                   | Some g \<Rightarrow> g_Status g = GenerationRetired \<and> g_Blob g = [] \<and> g_Metadata g = [])))"

definition validateMemoryLifecycleLeaseEffects :: "MemoryLifecycleStore \<Rightarrow> lerror + unit" where
  "validateMemoryLifecycleLeaseEffects s =
    (if fm_ex (\<lambda>t e. \<not> leaseEffectOk s t e) (leaseEffects s) then Inl ErrLifecycleCorrupt else Inr ())"

definition refreshDisabledOk :: "MemoryLifecycleStore \<Rightarrow> string \<Rightarrow> RefreshDisabledRecord \<Rightarrow> bool" where
  "refreshDisabledOk s keyID d \<longleftrightarrow>
    d_KeyID d = keyID \<and> SessionID_Valid (d_SessionID d) \<and> validateLifecycleReason (d_Reason d)
    \<and> (case fmlookup (leaseBySession s) (d_SessionID d) of
         None \<Rightarrow> tombstonedLocked ''session'' (array32_bytes (d_SessionID d)) s
       | Some token \<Rightarrow>
           (case fmlookup (leaseEffects s) token of
              None \<Rightarrow> False
            | Some e \<Rightarrow> e_Kind e = storedLeaseEffectRefreshFailed))"

definition validateMemoryLifecycleRefreshDisabled :: "MemoryLifecycleStore \<Rightarrow> lerror + unit" where
  "validateMemoryLifecycleRefreshDisabled s =
    (if fm_ex (\<lambda>k d. \<not> refreshDisabledOk s k d) (refreshDisabled s)
     then Inl ErrLifecycleCorrupt else Inr ())"

definition validateMemoryLifecyclePresigns :: "MemoryLifecycleStore \<Rightarrow> lerror + unit" where
  "validateMemoryLifecyclePresigns s =
    (if fm_ex (\<lambda>i p. \<not> validateLifecycleIdentifier i \<or> \<not> GenerationBinding_Validate (p_binding p)
              \<or> length (p_artifactDigest p) \<noteq> 32
              \<or> fm_ex (\<lambda>j q. j \<noteq> i \<and> p_artifactDigest q = p_artifactDigest p) (presigns s)
              \<or> \<not> validateStoredPresign s i p) (presigns s)
     then Inl ErrLifecycleCorrupt else Inr ())"

definition attemptEntryOk :: "MemoryLifecycleStore \<Rightarrow> string \<Rightarrow> SignAttemptRecord \<Rightarrow> bool" where
  "attemptEntryOk s attemptID r \<longleftrightarrow>
    i_AttemptID (a_Intent r) = attemptID
    \<and> GenerationBinding_Validate (a_Binding r) \<and> SignAttemptIntent_Validate (a_Intent r)
    \<and> validateLifecycleIdentifier (a_PresignID r) \<and> length (a_OutboxDigest r) = 32
    \<and> (case fmlookup (leaseBySession s) (i_SessionID (a_Intent r)) of
         None \<Rightarrow> False
       | Some token \<Rightarrow>
           (case fmlookup (leasesByToken s) token of
              None \<Rightarrow> False
            | Some l \<Rightarrow> l_Binding l = a_Binding r \<and> l_Kind l = RunSign))
    \<and> \<not> (\<not> Terminal r \<and> \<not> isCurrentLocked (a_Binding r) s)
    \<and> (case fmlookup (presigns s) (a_PresignID r) of
         None \<Rightarrow> False
       | Some p \<Rightarrow>
           p_binding p = a_Binding r \<and> p_attemptID p = attemptID
           \<and> (if a_Aborted r
              then p_state p = storedPresignBurned \<and> validateLifecycleReason (a_AbortReason r)
              else a_AbortReason r = []
                \<and> \<not> (p_state p \<noteq> storedPresignClaimed
                     \<and> (\<not> Terminal r \<or> p_state p \<noteq> storedPresignBurned))))
    \<and> validateStoredAttemptProgress r"

definition validateMemoryLifecycleAttempts :: "MemoryLifecycleStore \<Rightarrow> lerror + unit" where
  "validateMemoryLifecycleAttempts s =
    (if fm_ex (\<lambda>i r. \<not> attemptEntryOk s i r) (attempts s) then Inl ErrLifecycleCorrupt else Inr ())"

definition cutoverEntryOk :: "MemoryLifecycleStore \<Rightarrow> u64 \<Rightarrow> storedCutover \<Rightarrow> bool" where
  "cutoverEntryOk s token c \<longleftrightarrow>
    (let keyID = KeyID (f_Source (c_fence c)) in
     \<not> (f_Token (c_fence c) \<noteq> token \<or> token > nextCutoverToken s \<or> \<not> validateCutoverFence (c_fence c))
     \<and> (case c_state c of
          storedCutoverActive \<Rightarrow>
            fm_get 0 (cutoverByKey s) keyID = token \<and> isCurrentLocked (f_Source (c_fence c)) s
            \<and> \<not> fm_has (f_Target (c_fence c)) (generations s) \<and> \<not> hasActiveLeaseForKeyLocked keyID s
            \<and> \<not> hasNonTerminalAttemptLocked (f_Source (c_fence c)) s
            \<and> c_targetBlobDigest c = [] \<and> c_targetMetadataDigest c = [] \<and> c_reason c = []
        | storedCutoverCommitted \<Rightarrow> validateCommittedCutover s c
        | storedCutoverAborted \<Rightarrow>
            c_targetBlobDigest c = [] \<and> c_targetMetadataDigest c = []
            \<and> validateLifecycleReason (c_reason c)))"

definition validateMemoryLifecycleCutovers :: "MemoryLifecycleStore \<Rightarrow> lerror + unit" where
  "validateMemoryLifecycleCutovers s =
    (if fm_ex (\<lambda>t c. \<not> cutoverEntryOk s t c) (cutoversByToken s) then Inl ErrLifecycleCorrupt
     else if fm_count (\<lambda>_ c. c_state c = storedCutoverActive) (cutoversByToken s)
             \<noteq> fm_size (cutoverByKey s)
     then Inl ErrLifecycleCorrupt else Inr ())"

definition validLifecycleTombstoneNamespace :: "string \<Rightarrow> bool" where
  "validLifecycleTombstoneNamespace ns \<longleftrightarrow>
    ns \<in> {''generation'', ''generation-name'', ''session'', ''presign'', ''presign-artifact'',
          ''attempt'', ''cutover''}"

definition validateMemoryLifecycleTombstones :: "MemoryLifecycleStore \<Rightarrow> lerror + unit" where
  "validateMemoryLifecycleTombstones s =
    (if fm_ex (\<lambda>key t. \<not> validLifecycleTombstoneNamespace (t_Namespace t)
              \<or> length (t_IdentifierHash t) \<noteq> 64 \<or> \<not> validateLifecycleIdentifier (t_KeyID t)
              \<or> length (t_Digest t) \<noteq> 32 \<or> t_State t = []
              \<or> key \<noteq> lifecycleTombstoneMapKey (t_Namespace t) (t_IdentifierHash t)) (tombstones s)
     then Inl ErrLifecycleCorrupt else Inr ())"

definition fileLifecycleGlobalKeyID :: string where
  "fileLifecycleGlobalKeyID = ''tssrun-global-lifecycle''"

definition validateMemoryLifecycleStateForKey :: "MemoryLifecycleStore \<Rightarrow> string \<Rightarrow> lerror + unit" where
  "validateMemoryLifecycleStateForKey s keyID =
    (if keyID \<noteq> fileLifecycleGlobalKeyID then Inl ErrLifecycleCorrupt
     else then_ok (validateMemoryLifecycleGenerations s)
    (then_ok (validateMemoryLifecycleLeases s)
    (then_ok (validateMemoryLifecycleLeaseEffects s)
    (then_ok (validateMemoryLifecycleRefreshDisabled s)
    (then_ok (validateMemoryLifecyclePresigns s)
    (then_ok (validateMemoryLifecycleAttempts s)
    (then_ok (validateMemoryLifecycleCutovers s)
    (validateMemoryLifecycleTombstones s))))))))"

end
