(* ===== verification/Lifecycle_Inv.thy ===== *)
theory Lifecycle_Inv
  imports Lifecycle_Ops Lifecycle_Validate
begin

text \<open>
  The invariant of the lifecycle store, in eight parts that follow the passes of the consistency
  check, and one preservation lemma per part and per primitive update: installing and retiring a
  generation, storing a lease and moving its state, adding, claiming and burning presigns, recording
  attempt progress, opening and closing a cutover.  The operations are compositions of these updates.
\<close>

named_theorems locked "guards of the store unfolded to map lookups"

lemmas [locked] =
  isCurrentLocked_def hasGenerationForKeyLocked_def hasKeyGenerationLocked_def
  hasConflictingPresignArtifactLocked_def hasActiveLeaseForKeyLocked_def
  hasOtherActiveLeaseForKeyLocked_def hasActiveLeaseLocked_def hasOtherActiveLeaseLocked_def
  hasNonTerminalAttemptLocked_def hasNonTerminalAttemptForKeyLocked_def tombstonedLocked_def

section \<open>The invariant\<close>

definition genOk :: "MemoryLifecycleStore \<Rightarrow> GenerationBinding \<Rightarrow> GenerationRecord \<Rightarrow> bool" where
  "genOk s b g \<longleftrightarrow>
    GenerationBinding_Validate b \<and> g_Binding g = b
    \<and> (g_Status g = GenerationCurrent \<longrightarrow> fmlookup (current s) (KeyID b) = Some b \<and> g_Blob g \<noteq> [])
    \<and> (g_Status g \<noteq> GenerationCurrent \<longrightarrow> g_Blob g = [] \<and> g_Metadata g = [])"

definition inv_gen :: "MemoryLifecycleStore \<Rightarrow> bool" where
  "inv_gen s \<longleftrightarrow>
    (\<forall>b g. fmlookup (generations s) b = Some g \<longrightarrow> genOk s b g)
    \<and> (\<forall>k b. fmlookup (current s) k = Some b \<longrightarrow>
         KeyID b = k \<and> (\<exists>g. fmlookup (generations s) b = Some g \<and> g_Status g = GenerationCurrent))
    \<and> (\<forall>b b'. fm_has b (generations s) \<longrightarrow> fm_has b' (generations s) \<longrightarrow>
         KeyID b = KeyID b' \<longrightarrow> KeyGen b = KeyGen b' \<longrightarrow> b = b')"

text \<open>What an active lease says of the generations of its key.\<close>

definition activeOk :: "MemoryLifecycleStore \<Rightarrow> u64 \<Rightarrow> RunLease \<Rightarrow> bool" where
  "activeOk s t l =
    (case fmlookup (reshareReceivers s) t of
       Some a \<Rightarrow>
         ReshareReceiverAnchor_Validate a \<and> l_Kind l = RunReshare \<and> r_Source a = l_Binding l
         \<and> r_SessionID a = l_SessionID l \<and> \<not> fm_has (KeyID (l_Binding l)) (current s)
         \<and> \<not> hasKeyGenerationLocked (KeyID (l_Binding l)) (r_TargetKeyGeneration a) s
     | None \<Rightarrow>
         if l_Kind l = RunKeygen
         then \<not> fm_has (KeyID (l_Binding l)) (current s)
              \<and> \<not> hasGenerationForKeyLocked (KeyID (l_Binding l)) s
         else isCurrentLocked (l_Binding l) s)"

definition inv_lease :: "MemoryLifecycleStore \<Rightarrow> bool" where
  "inv_lease s \<longleftrightarrow>
    (\<forall>t l. fmlookup (leasesByToken s) t = Some l \<longrightarrow>
       validateStoredLease s t l \<and> fmlookup (leaseBySession s) (l_SessionID l) = Some t
       \<and> (l_State l = RunLeaseActive \<longrightarrow> activeOk s t l))
    \<and> (\<forall>sid t. fmlookup (leaseBySession s) sid = Some t \<longrightarrow>
         (\<exists>l. fmlookup (leasesByToken s) t = Some l \<and> l_SessionID l = sid))
    \<and> (\<forall>t. fm_has t (reshareReceivers s) \<longrightarrow>
         (\<exists>l. fmlookup (leasesByToken s) t = Some l \<and> l_State l = RunLeaseActive))
    \<and> (\<forall>t l t' l'. fmlookup (leasesByToken s) t = Some l \<longrightarrow> fmlookup (leasesByToken s) t' = Some l' \<longrightarrow>
         l_State l = RunLeaseActive \<longrightarrow> l_State l' = RunLeaseActive \<longrightarrow>
         KeyID (l_Binding l) = KeyID (l_Binding l') \<longrightarrow> exclusiveLeaseRunKind (l_Kind l) \<longrightarrow> t = t')"

definition inv_eff :: "MemoryLifecycleStore \<Rightarrow> bool" where
  "inv_eff s \<longleftrightarrow> (\<forall>t e. fmlookup (leaseEffects s) t = Some e \<longrightarrow> leaseEffectOk s t e)"

definition inv_ref :: "MemoryLifecycleStore \<Rightarrow> bool" where
  "inv_ref s \<longleftrightarrow> (\<forall>k d. fmlookup (refreshDisabled s) k = Some d \<longrightarrow> refreshDisabledOk s k d)"

definition inv_pre :: "MemoryLifecycleStore \<Rightarrow> bool" where
  "inv_pre s \<longleftrightarrow>
    (\<forall>i p. fmlookup (presigns s) i = Some p \<longrightarrow>
       validateLifecycleIdentifier i \<and> GenerationBinding_Validate (p_binding p)
       \<and> length (p_artifactDigest p) = 32 \<and> validateStoredPresign s i p)
    \<and> (\<forall>i p j q. fmlookup (presigns s) i = Some p \<longrightarrow> fmlookup (presigns s) j = Some q \<longrightarrow>
         p_artifactDigest p = p_artifactDigest q \<longrightarrow> i = j)
    \<and> (\<forall>i p. fmlookup (presigns s) i = Some p \<longrightarrow> p_state p = storedPresignAvailable \<longrightarrow>
         p_metadata p \<noteq> [])"

definition inv_att :: "MemoryLifecycleStore \<Rightarrow> bool" where
  "inv_att s \<longleftrightarrow> (\<forall>i r. fmlookup (attempts s) i = Some r \<longrightarrow> attemptEntryOk s i r)"

definition inv_cut :: "MemoryLifecycleStore \<Rightarrow> bool" where
  "inv_cut s \<longleftrightarrow>
    (\<forall>t c. fmlookup (cutoversByToken s) t = Some c \<longrightarrow>
       cutoverEntryOk s t c
       \<and> (c_state c = storedCutoverActive \<longrightarrow>
            fmlookup (cutoverByKey s) (KeyID (f_Source (c_fence c))) = Some t
            \<and> \<not> hasKeyGenerationLocked (KeyID (f_Target (c_fence c))) (KeyGen (f_Target (c_fence c))) s))
    \<and> (\<forall>k t. fmlookup (cutoverByKey s) k = Some t \<longrightarrow>
         (\<exists>c. fmlookup (cutoversByToken s) t = Some c \<and> c_state c = storedCutoverActive
            \<and> KeyID (f_Source (c_fence c)) = k))"

definition inv_tomb :: "MemoryLifecycleStore \<Rightarrow> bool" where
  "inv_tomb s \<longleftrightarrow> validateMemoryLifecycleTombstones s = Inr ()"

definition store_inv :: "MemoryLifecycleStore \<Rightarrow> bool" where
  "store_inv s \<longleftrightarrow> inv_gen s \<and> inv_lease s \<and> inv_eff s \<and> inv_ref s \<and> inv_pre s \<and> inv_att s \<and> inv_cut s
    \<and> inv_tomb s"

section \<open>Consequences\<close>

lemma isCurrent_iff:
  assumes "inv_gen s"
  shows "isCurrentLocked b s \<longleftrightarrow> fmlookup (current s) (KeyID b) = Some b"
proof
  assume "fmlookup (current s) (KeyID b) = Some b"
  moreover from this assms obtain g where
    "fmlookup (generations s) b = Some g" "g_Status g = GenerationCurrent"
    unfolding inv_gen_def by blast
  ultimately show "isCurrentLocked b s" by (simp add: isCurrentLocked_def)
qed (simp add: isCurrentLocked_def split: option.splits if_splits)

lemma isCurrent_has: "isCurrentLocked b s \<Longrightarrow> fm_has (KeyID b) (current s)"
  by (auto simp: isCurrentLocked_def fm_has_def split: option.splits)

lemma isCurrent_gen:
  "isCurrentLocked b s \<Longrightarrow> \<exists>g. fmlookup (generations s) b = Some g \<and> g_Status g = GenerationCurrent"
  by (auto simp: isCurrentLocked_def split: option.splits if_splits)

lemma fenced_current:
  assumes "inv_cut s" "fm_has k (cutoverByKey s)"
  shows "fm_has k (current s)"
proof -
  from assms obtain t c where c: "fmlookup (cutoversByToken s) t = Some c"
    "c_state c = storedCutoverActive" "KeyID (f_Source (c_fence c)) = k"
    unfolding inv_cut_def fm_has_iff by blast
  with assms(1) have "cutoverEntryOk s t c" unfolding inv_cut_def by blast
  with c have "isCurrentLocked (f_Source (c_fence c)) s" by (simp add: cutoverEntryOk_def Let_def)
  with c isCurrent_has show ?thesis by blast
qed

lemma nonterminal_current:
  assumes "inv_att s" "hasNonTerminalAttemptForKeyLocked k s"
  shows "fm_has k (current s)"
proof -
  from assms(2) obtain i r where r: "fmlookup (attempts s) i = Some r" "KeyID (a_Binding r) = k"
    "\<not> Terminal r" by (auto simp: hasNonTerminalAttemptForKeyLocked_def fm_ex_iff)
  with assms(1) have "isCurrentLocked (a_Binding r) s" by (auto simp: inv_att_def attemptEntryOk_def)
  with r show ?thesis using isCurrent_has by blast
qed

text \<open>Only leases on the current binding can be active under a key that has a current generation.\<close>

lemma active_on_current:
  assumes "inv_gen s" "inv_lease s" "fmlookup (current s) k = Some b"
    and "fmlookup (leasesByToken s) t = Some l" "l_State l = RunLeaseActive" "KeyID (l_Binding l) = k"
  shows "l_Binding l = b"
proof -
  have "activeOk s t l" using assms(2,4,5) by (auto simp: inv_lease_def)
  then have "isCurrentLocked (l_Binding l) s"
    using assms(3,6) by (auto simp: activeOk_def fm_has_def split: option.splits if_splits)
  then show ?thesis using assms(1,3,6) by (auto simp: isCurrent_iff)
qed

section \<open>Frame lemmas\<close>

lemma isCurrent_frame:
  assumes "generations s' = generations s" "current s' = current s"
  shows "isCurrentLocked b s' = isCurrentLocked b s"
  unfolding isCurrentLocked_def assms by (rule refl)

lemma inv_gen_frame:
  assumes "generations s' = generations s" "current s' = current s"
  shows "inv_gen s' = inv_gen s"
  unfolding inv_gen_def genOk_def assms by (rule refl)

lemma inv_lease_frame:
  assumes "generations s' = generations s" "current s' = current s"
    "tombstones s' = tombstones s" "leasesByToken s' = leasesByToken s"
    "leaseBySession s' = leaseBySession s" "reshareReceivers s' = reshareReceivers s"
    "nextLeaseToken s' = nextLeaseToken s"
  shows "inv_lease s' = inv_lease s"
  unfolding inv_lease_def validateStoredLease_def activeOk_def locked assms by (rule refl)

lemma inv_eff_frame:
  assumes "generations s' = generations s" "leasesByToken s' = leasesByToken s"
    "leaseEffects s' = leaseEffects s" "presigns s' = presigns s"
    "cutoversByToken s' = cutoversByToken s" "refreshDisabled s' = refreshDisabled s"
  shows "inv_eff s' = inv_eff s"
  unfolding inv_eff_def leaseEffectOk_def assms by (rule refl)

lemma inv_ref_frame:
  assumes "leaseBySession s' = leaseBySession s" "leaseEffects s' = leaseEffects s"
    "tombstones s' = tombstones s" "refreshDisabled s' = refreshDisabled s"
  shows "inv_ref s' = inv_ref s"
  unfolding inv_ref_def refreshDisabledOk_def locked assms by (rule refl)

lemma inv_pre_frame:
  assumes "generations s' = generations s" "current s' = current s" "presigns s' = presigns s"
    "attempts s' = attempts s"
  shows "inv_pre s' = inv_pre s"
  unfolding inv_pre_def validateStoredPresign_def locked assms by (rule refl)

lemma inv_att_frame:
  assumes "generations s' = generations s" "current s' = current s" "presigns s' = presigns s"
    "attempts s' = attempts s" "leasesByToken s' = leasesByToken s"
    "leaseBySession s' = leaseBySession s"
  shows "inv_att s' = inv_att s"
  unfolding inv_att_def attemptEntryOk_def locked assms by (rule refl)

lemma inv_cut_frame:
  assumes "generations s' = generations s" "current s' = current s" "attempts s' = attempts s"
    "leasesByToken s' = leasesByToken s" "cutoversByToken s' = cutoversByToken s"
    "cutoverByKey s' = cutoverByKey s" "nextCutoverToken s' = nextCutoverToken s"
    "tombstones s' = tombstones s"
  shows "inv_cut s' = inv_cut s"
  unfolding inv_cut_def cutoverEntryOk_def validateCommittedCutover_def locked assms by (rule refl)

lemma inv_tomb_frame:
  assumes "tombstones s' = tombstones s"
  shows "inv_tomb s' = inv_tomb s"
  unfolding inv_tomb_def validateMemoryLifecycleTombstones_def assms by (rule refl)

lemmas inv_frames = inv_gen_frame inv_lease_frame inv_eff_frame inv_ref_frame inv_pre_frame
  inv_att_frame inv_cut_frame inv_tomb_frame

end
