(* ===== verification/Lifecycle_Hist.thy ===== *)
theory Lifecycle_Hist
  imports Lifecycle_Inv
begin

text \<open>
  The history order of the lifecycle store: what later states keep of earlier ones.  Each stored
  record may only move forward (an active lease ends, an available presign is claimed or burned, an
  attempt gains progress, an active cutover closes, a current generation retires) and keeps its
  identity; records in a final state never change, and no entry disappears.
\<close>

section \<open>Orders on maps of records\<close>

definition rec_le :: "('v \<Rightarrow> 'v \<Rightarrow> bool) \<Rightarrow> ('k, 'v) fmap \<Rightarrow> ('k, 'v) fmap \<Rightarrow> bool" where
  "rec_le R m m' \<longleftrightarrow>
    (\<forall>k v. fmlookup m k = Some v \<longrightarrow> (\<exists>v'. fmlookup m' k = Some v' \<and> R v v'))"

lemma rec_leD: "rec_le R m m' \<Longrightarrow> fmlookup m k = Some v \<Longrightarrow> \<exists>v'. fmlookup m' k = Some v' \<and> R v v'"
  by (auto simp: rec_le_def)

lemma rec_le_has: "rec_le R m m' \<Longrightarrow> fm_has k m \<Longrightarrow> fm_has k m'"
  by (auto simp: rec_le_def fm_has_iff)

locale record_order =
  fixes R :: "'v \<Rightarrow> 'v \<Rightarrow> bool"
  assumes refl [simp]: "R v v"
    and trans: "R u v \<Longrightarrow> R v w \<Longrightarrow> R u w"
begin

lemma rec_le_refl [simp]: "rec_le R m m"
  by (auto simp: rec_le_def)

lemma rec_le_trans: "rec_le R m m' \<Longrightarrow> rec_le R m' m'' \<Longrightarrow> rec_le R m m''"
  unfolding rec_le_def by (metis trans)

lemma rec_le_new: "fmlookup m k = None \<Longrightarrow> rec_le R m (fmupd k v m)"
  by (auto simp: rec_le_def)

lemma rec_le_upd: "fmlookup m k = Some v \<Longrightarrow> R v v' \<Longrightarrow> rec_le R m (fmupd k v' m)"
  by (auto simp: rec_le_def)

lemma rec_le_map: "(\<And>k v. fmlookup m k = Some v \<Longrightarrow> R v (f v)) \<Longrightarrow> rec_le R m (fmmap f m)"
  by (auto simp: rec_le_def)

end

interpretation eq_order: record_order "(=)"
  by unfold_locales auto

definition lease_le :: "RunLease \<Rightarrow> RunLease \<Rightarrow> bool" where
  "lease_le l l' \<longleftrightarrow> l' = l \<or> (l_State l = RunLeaseActive \<and> (\<exists>st. l' = l\<lparr>l_State := st\<rparr>))"

definition presign_le :: "storedPresign \<Rightarrow> storedPresign \<Rightarrow> bool" where
  "presign_le p p' \<longleftrightarrow>
    p_binding p' = p_binding p \<and> p_artifactDigest p' = p_artifactDigest p
    \<and> (p_state p = storedPresignBurned \<longrightarrow> p' = p)
    \<and> (p_state p = storedPresignClaimed \<longrightarrow>
         p_state p' \<noteq> storedPresignAvailable \<and> p_attemptID p' = p_attemptID p)"

definition attempt_le :: "SignAttemptRecord \<Rightarrow> SignAttemptRecord \<Rightarrow> bool" where
  "attempt_le a a' \<longleftrightarrow>
    a_Binding a' = a_Binding a \<and> a_PresignID a' = a_PresignID a \<and> a_Intent a' = a_Intent a
    \<and> a_PresignMetadata a' = a_PresignMetadata a \<and> a_OutboxDigest a' = a_OutboxDigest a
    \<and> (Terminal a \<longrightarrow> a' = a)"

definition cutover_le :: "storedCutover \<Rightarrow> storedCutover \<Rightarrow> bool" where
  "cutover_le c c' \<longleftrightarrow> c_fence c' = c_fence c \<and> (c_state c \<noteq> storedCutoverActive \<longrightarrow> c' = c)"

definition gen_le :: "GenerationRecord \<Rightarrow> GenerationRecord \<Rightarrow> bool" where
  "gen_le g g' \<longleftrightarrow> g' = g \<or> (g_Status g = GenerationCurrent \<and> g' = retireRecord g)"

interpretation lease_order: record_order lease_le
  by unfold_locales (auto simp: lease_le_def)

interpretation presign_order: record_order presign_le
proof unfold_locales
  fix p q r assume "presign_le p q" "presign_le q r"
  then show "presign_le p r"
    by (cases "p_state q") (auto simp: presign_le_def)
qed (simp add: presign_le_def)

interpretation attempt_order: record_order attempt_le
  by unfold_locales (auto simp: attempt_le_def)

interpretation cutover_order: record_order cutover_le
  by unfold_locales (auto simp: cutover_le_def)

interpretation gen_order: record_order gen_le
  by unfold_locales (auto simp: gen_le_def retireRecord_def)

section \<open>The history order on stores\<close>

definition hist :: "MemoryLifecycleStore \<Rightarrow> MemoryLifecycleStore \<Rightarrow> bool" where
  "hist s s' \<longleftrightarrow>
    rec_le gen_le (generations s) (generations s')
    \<and> rec_le lease_le (leasesByToken s) (leasesByToken s')
    \<and> rec_le (=) (leaseBySession s) (leaseBySession s')
    \<and> rec_le (=) (leaseEffects s) (leaseEffects s')
    \<and> rec_le (=) (refreshDisabled s) (refreshDisabled s')
    \<and> rec_le attempt_le (attempts s) (attempts s')
    \<and> rec_le presign_le (presigns s) (presigns s')
    \<and> rec_le cutover_le (cutoversByToken s) (cutoversByToken s')
    \<and> rec_le (=) (tombstones s) (tombstones s')"

lemma hist_refl [simp]: "hist s s"
  by (simp add: hist_def)

lemma hist_trans: "hist s s' \<Longrightarrow> hist s' s'' \<Longrightarrow> hist s s''"
  unfolding hist_def
  by (elim conjE, intro conjI)
     (erule (1) gen_order.rec_le_trans lease_order.rec_le_trans eq_order.rec_le_trans
        attempt_order.rec_le_trans presign_order.rec_le_trans cutover_order.rec_le_trans)+

lemma lease_le_fields:
  "lease_le l l' \<Longrightarrow> l_Token l' = l_Token l \<and> l_Binding l' = l_Binding l \<and> l_Kind l' = l_Kind l
    \<and> l_SessionID l' = l_SessionID l"
  by (auto simp: lease_le_def)

lemma leaseEffectOk_hist:
  assumes "leaseEffectOk s t e" "hist s s'"
  shows "leaseEffectOk s' t e"
proof -
  from assms(1) obtain l where l: "fmlookup (leasesByToken s) t = Some l" "l_State l \<noteq> RunLeaseActive"
    by (auto simp: leaseEffectOk_def split: option.splits)
  from assms(2) have g: "rec_le gen_le (generations s) (generations s')"
    and p: "rec_le presign_le (presigns s) (presigns s')"
    and c: "rec_le cutover_le (cutoversByToken s) (cutoversByToken s')"
    and d: "rec_le (=) (refreshDisabled s) (refreshDisabled s')"
    and le: "rec_le lease_le (leasesByToken s) (leasesByToken s')"
    by (simp_all add: hist_def)
  from rec_leD [OF le l(1)] l(2) have l': "fmlookup (leasesByToken s') t = Some l"
    by (auto simp: lease_le_def)
  from assms(1) l l' show ?thesis
    using rec_le_has [OF g] rec_le_has [OF p] rec_leD [OF c, of "e_CutoverToken e"]
      rec_leD [OF d, of "KeyID (l_Binding l)"] rec_leD [OF g, of "l_Binding l"]
    by (cases "e_Kind e")
       (fastforce simp: leaseEffectOk_def cutover_le_def gen_le_def split: option.splits)+
qed

lemma inv_eff_hist: "inv_eff s \<Longrightarrow> hist s s' \<Longrightarrow> leaseEffects s' = leaseEffects s \<Longrightarrow> inv_eff s'"
  unfolding inv_eff_def by (metis leaseEffectOk_hist)

lemma leaseEffectOk_frame:
  assumes "generations s' = generations s" "leasesByToken s' = leasesByToken s"
    "presigns s' = presigns s" "cutoversByToken s' = cutoversByToken s"
    "refreshDisabled s' = refreshDisabled s"
  shows "leaseEffectOk s' t e = leaseEffectOk s t e"
  unfolding leaseEffectOk_def assms by (rule refl)

lemma leaseEffectOk_setEffect: "leaseEffectOk (s\<lparr>leaseEffects := x\<rparr>) t e = leaseEffectOk s t e"
  by (rule leaseEffectOk_frame) simp_all

lemma inv_eff_new:
  "inv_eff s \<Longrightarrow> leaseEffectOk s (e_LeaseToken e) e \<Longrightarrow> inv_eff (setLeaseEffect e s)"
  unfolding inv_eff_def setLeaseEffect_def
  by (auto simp: leaseEffectOk_setEffect)

lemma refreshDisabledOk_hist:
  assumes "refreshDisabledOk s k d" "hist s s'"
    and "\<And>sid. fmlookup (leaseBySession s) sid = None
      \<Longrightarrow> tombstonedLocked ''session'' (array32_bytes sid) s \<Longrightarrow> fmlookup (leaseBySession s') sid = None"
  shows "refreshDisabledOk s' k d"
proof -
  from assms(2) have b: "rec_le (=) (leaseBySession s) (leaseBySession s')"
    and e: "rec_le (=) (leaseEffects s) (leaseEffects s')"
    and t: "rec_le (=) (tombstones s) (tombstones s')"
    by (simp_all add: hist_def)
  show ?thesis
  proof (cases "fmlookup (leaseBySession s) (d_SessionID d)")
    case None
    with assms(1,3) rec_le_has [OF t] show ?thesis
      by (auto simp: refreshDisabledOk_def tombstonedLocked_def)
  next
    case (Some token)
    with assms(1) obtain f where "fmlookup (leaseEffects s) token = Some f"
      "e_Kind f = storedLeaseEffectRefreshFailed"
      by (auto simp: refreshDisabledOk_def split: option.splits)
    with Some assms(1) rec_leD [OF b Some] rec_leD [OF e] show ?thesis
      by (fastforce simp: refreshDisabledOk_def)
  qed
qed

lemma inv_ref_hist:
  assumes "inv_ref s" "hist s s'" "refreshDisabled s' = refreshDisabled s"
    and "\<And>sid. fmlookup (leaseBySession s) sid = None
      \<Longrightarrow> tombstonedLocked ''session'' (array32_bytes sid) s \<Longrightarrow> fmlookup (leaseBySession s') sid = None"
  shows "inv_ref s'"
  unfolding inv_ref_def using assms refreshDisabledOk_hist unfolding inv_ref_def by metis

end
