(* ===== verification/Lifecycle_Prim.thy ===== *)
theory Lifecycle_Prim
  imports Lifecycle_Hist
begin

text \<open>
  Preservation of the parts of the invariant by the primitive updates.  A change of the generations
  of one key leaves every other key alone (\<open>same_off\<close>), which carries the lease, presign, attempt and
  cutover parts across it once nothing live is left under that key.
\<close>

section \<open>Generations of one key\<close>

definition installGen :: "GenerationRecord \<Rightarrow> MemoryLifecycleStore \<Rightarrow> MemoryLifecycleStore" where
  "installGen g s =
    s\<lparr>generations := fmupd (g_Binding g) g (generations s),
      current := fmupd (KeyID (g_Binding g)) (g_Binding g) (current s)\<rparr>"

definition retireGen ::
  "GenerationBinding \<Rightarrow> GenerationRecord \<Rightarrow> MemoryLifecycleStore \<Rightarrow> MemoryLifecycleStore" where
  "retireGen b g s =
    s\<lparr>generations := fmupd b (retireRecord g) (generations s),
      current := fmdrop (KeyID b) (current s)\<rparr>"

definition same_off :: "string \<Rightarrow> MemoryLifecycleStore \<Rightarrow> MemoryLifecycleStore \<Rightarrow> bool" where
  "same_off k s s' \<longleftrightarrow>
    (\<forall>b. KeyID b \<noteq> k \<longrightarrow> fmlookup (generations s') b = fmlookup (generations s) b)
    \<and> (\<forall>k'. k' \<noteq> k \<longrightarrow> fmlookup (current s') k' = fmlookup (current s) k')
    \<and> tombstones s' = tombstones s"

lemma same_off_install: "same_off (KeyID (g_Binding g)) s (installGen g s)"
  by (auto simp: same_off_def installGen_def)

lemma same_off_retire: "same_off (KeyID b) s (retireGen b g s)"
  by (auto simp: same_off_def retireGen_def)

lemma isCurrent_off: "same_off k s s' \<Longrightarrow> KeyID b \<noteq> k \<Longrightarrow> isCurrentLocked b s' = isCurrentLocked b s"
  by (simp add: same_off_def isCurrentLocked_def cong: option.case_cong)

lemma has_current_off:
  "same_off k s s' \<Longrightarrow> k' \<noteq> k \<Longrightarrow> fm_has k' (current s') = fm_has k' (current s)"
  by (simp add: same_off_def fm_has_def)

lemma hasGen_off:
  "same_off k s s' \<Longrightarrow> k' \<noteq> k \<Longrightarrow> hasGenerationForKeyLocked k' s' = hasGenerationForKeyLocked k' s"
  unfolding same_off_def hasGenerationForKeyLocked_def fm_ex_iff by metis

lemma hasKeyGen_off:
  assumes "same_off k s s'" "k' \<noteq> k"
  shows "hasKeyGenerationLocked k' n s' = hasKeyGenerationLocked k' n s"
proof -
  from assms have t: "tombstones s' = tombstones s" by (simp add: same_off_def)
  have "fm_ex (\<lambda>b _. KeyID b = k' \<and> KeyGen b = n) (generations s')
      = fm_ex (\<lambda>b _. KeyID b = k' \<and> KeyGen b = n) (generations s)"
    using assms unfolding same_off_def fm_ex_iff by metis
  then show ?thesis by (simp add: hasKeyGenerationLocked_def tombstonedLocked_def t)
qed

lemma activeOk_off:
  assumes "same_off k s s'" "reshareReceivers s' = reshareReceivers s" "KeyID (l_Binding l) \<noteq> k"
  shows "activeOk s' t l = activeOk s t l"
  unfolding activeOk_def assms(2) isCurrent_off [OF assms(1,3)] has_current_off [OF assms(1,3)]
    hasGen_off [OF assms(1,3)] hasKeyGen_off [OF assms(1,3)]
  by (rule refl)

lemma validateStoredLease_frame:
  "leaseBySession s' = leaseBySession s \<Longrightarrow> nextLeaseToken s' = nextLeaseToken s
    \<Longrightarrow> validateStoredLease s' t l = validateStoredLease s t l"
  by (simp add: validateStoredLease_def)

lemma inv_lease_off:
  assumes "inv_lease s" "same_off k s s'" "\<not> hasActiveLeaseForKeyLocked k s"
    and "leasesByToken s' = leasesByToken s" "leaseBySession s' = leaseBySession s"
    "reshareReceivers s' = reshareReceivers s" "nextLeaseToken s' = nextLeaseToken s"
  shows "inv_lease s'"
proof -
  have "activeOk s' t l" if "fmlookup (leasesByToken s) t = Some l" "l_State l = RunLeaseActive" for t l
  proof -
    have "KeyID (l_Binding l) \<noteq> k"
      using that assms(3) by (auto simp: hasActiveLeaseForKeyLocked_def fm_ex_iff)
    moreover have "activeOk s t l" using that assms(1) by (auto simp: inv_lease_def)
    ultimately show ?thesis using activeOk_off assms(2,6) by metis
  qed
  then show ?thesis
    using assms(1) unfolding inv_lease_def assms(4-7) validateStoredLease_frame [OF assms(5,7)]
    by blast
qed

lemma inv_pre_off:
  assumes "inv_pre s" "same_off k s s'"
    and free: "\<And>i p. fmlookup (presigns s) i = Some p \<Longrightarrow> KeyID (p_binding p) = k
      \<Longrightarrow> p_state p = storedPresignBurned"
    and "presigns s' = presigns s" "attempts s' = attempts s"
  shows "inv_pre s'"
proof -
  have "validateStoredPresign s' i p" if "fmlookup (presigns s) i = Some p" for i p
  proof (cases "KeyID (p_binding p) = k")
    case True
    with that free have b: "p_state p = storedPresignBurned" by blast
    have "validateStoredPresign s i p" using that assms(1) by (auto simp: inv_pre_def)
    then show ?thesis using b unfolding validateStoredPresign_def assms(5) by simp
  next
    case False
    have "validateStoredPresign s i p" using that assms(1) by (auto simp: inv_pre_def)
    then show ?thesis unfolding validateStoredPresign_def assms(5) isCurrent_off [OF assms(2) False] .
  qed
  then show ?thesis using assms(1) unfolding inv_pre_def assms(4) by blast
qed

lemma inv_att_off:
  assumes "inv_att s" "same_off k s s'" "\<not> hasNonTerminalAttemptForKeyLocked k s"
    and "presigns s' = presigns s" "attempts s' = attempts s" "leasesByToken s' = leasesByToken s"
    "leaseBySession s' = leaseBySession s"
  shows "inv_att s'"
proof -
  have "attemptEntryOk s' i r" if "fmlookup (attempts s) i = Some r" for i r
  proof -
    have "\<not> Terminal r \<Longrightarrow> KeyID (a_Binding r) \<noteq> k"
      using that assms(3) by (auto simp: hasNonTerminalAttemptForKeyLocked_def fm_ex_iff)
    then have "\<not> Terminal r \<and> \<not> isCurrentLocked (a_Binding r) s'
        \<longleftrightarrow> \<not> Terminal r \<and> \<not> isCurrentLocked (a_Binding r) s"
      using isCurrent_off [OF assms(2)] by blast
    moreover have "attemptEntryOk s i r" using that assms(1) by (auto simp: inv_att_def)
    ultimately show ?thesis unfolding attemptEntryOk_def assms(4-7) by blast
  qed
  then show ?thesis unfolding inv_att_def assms(5) by blast
qed

lemma validateCommittedCutover_gen_le:
  assumes "validateCommittedCutover s c" "rec_le gen_le (generations s) (generations s')"
  shows "validateCommittedCutover s' c"
proof -
  from assms(1) obtain g h where
    g: "fmlookup (generations s) (f_Source (c_fence c)) = Some g" "g_Status g = GenerationRetired"
    and h: "fmlookup (generations s) (f_Target (c_fence c)) = Some h"
    by (auto simp: validateCommittedCutover_def split: option.splits)
  from rec_leD [OF assms(2) g(1)] g(2)
  have "fmlookup (generations s') (f_Source (c_fence c)) = Some g" by (auto simp: gen_le_def)
  moreover from rec_leD [OF assms(2) h] obtain h' where
    "fmlookup (generations s') (f_Target (c_fence c)) = Some h'" "gen_le h h'" by blast
  ultimately show ?thesis using assms(1) g h
    by (auto simp: validateCommittedCutover_def gen_le_def retireRecord_def)
qed

lemma inv_cut_off:
  assumes "inv_cut s" "same_off k s s'" "\<not> fm_has k (cutoverByKey s)"
    and "rec_le gen_le (generations s) (generations s')"
    and "attempts s' = attempts s" "leasesByToken s' = leasesByToken s"
    "cutoversByToken s' = cutoversByToken s" "cutoverByKey s' = cutoverByKey s"
    "nextCutoverToken s' = nextCutoverToken s"
  shows "inv_cut s'"
proof -
  have "cutoverEntryOk s' t c \<and> (c_state c = storedCutoverActive \<longrightarrow>
       fmlookup (cutoverByKey s) (KeyID (f_Source (c_fence c))) = Some t
       \<and> \<not> hasKeyGenerationLocked (KeyID (f_Target (c_fence c))) (KeyGen (f_Target (c_fence c))) s')"
    if lk: "fmlookup (cutoversByToken s) t = Some c" for t c
  proof -
    from assms(1) lk have ok: "cutoverEntryOk s t c"
      and act: "c_state c = storedCutoverActive \<Longrightarrow>
        fmlookup (cutoverByKey s) (KeyID (f_Source (c_fence c))) = Some t
        \<and> \<not> hasKeyGenerationLocked (KeyID (f_Target (c_fence c))) (KeyGen (f_Target (c_fence c))) s"
      unfolding inv_cut_def by blast+
    show ?thesis
    proof (cases "c_state c")
      case storedCutoverActive
      with act have idx: "fmlookup (cutoverByKey s) (KeyID (f_Source (c_fence c))) = Some t" by blast
      with assms(3) have off: "KeyID (f_Source (c_fence c)) \<noteq> k" by (auto simp: fm_has_def)
      from ok have tk: "KeyID (f_Target (c_fence c)) = KeyID (f_Source (c_fence c))"
        by (simp add: cutoverEntryOk_def validateCutoverFence_def validateCutoverBindings_def Let_def)
      with off have offt: "KeyID (f_Target (c_fence c)) \<noteq> k" by simp
      have "fm_has (f_Target (c_fence c)) (generations s') = fm_has (f_Target (c_fence c)) (generations s)"
        using assms(2) offt by (simp add: same_off_def fm_has_def)
      then show ?thesis
        using ok act storedCutoverActive isCurrent_off [OF assms(2) off] hasKeyGen_off [OF assms(2) offt]
        by (simp add: cutoverEntryOk_def Let_def assms(5-9) hasActiveLeaseForKeyLocked_def
            hasNonTerminalAttemptLocked_def)
    next
      case storedCutoverCommitted
      then show ?thesis using ok validateCommittedCutover_gen_le [OF _ assms(4)]
        by (simp add: cutoverEntryOk_def Let_def assms(9))
    next
      case storedCutoverAborted
      then show ?thesis using ok by (simp add: cutoverEntryOk_def Let_def assms(9))
    qed
  qed
  then show ?thesis using assms(1) unfolding inv_cut_def assms(7,8) by blast
qed

lemma inv_gen_install:
  assumes "inv_gen s" "GenerationBinding_Validate (g_Binding g)" "g_Status g = GenerationCurrent"
    "g_Blob g \<noteq> []" "\<not> fm_has (KeyID (g_Binding g)) (current s)"
    "\<not> hasKeyGenerationLocked (KeyID (g_Binding g)) (KeyGen (g_Binding g)) s"
  shows "inv_gen (installGen g s)"
proof -
  let ?b = "g_Binding g"
  have nm: "\<not> (KeyID b = KeyID ?b \<and> KeyGen b = KeyGen ?b)" if "fm_has b (generations s)" for b
    using assms(6) that by (auto simp: hasKeyGenerationLocked_def fm_ex_iff fm_has_iff)
  have old: "genOk s b h" if "fmlookup (generations s) b = Some h" for b h
    using that assms(1) unfolding inv_gen_def by blast
  have "genOk (installGen g s) b h" if "fmlookup (generations (installGen g s)) b = Some h" for b h
  proof (cases "b = ?b")
    case True
    with that assms show ?thesis by (simp add: installGen_def genOk_def)
  next
    case False
    with that have "fmlookup (generations s) b = Some h" by (simp add: installGen_def)
    with old have o: "genOk s b h" by blast
    moreover have "g_Status h = GenerationCurrent \<Longrightarrow> KeyID b \<noteq> KeyID ?b"
      using o assms(5) by (auto simp: genOk_def fm_has_def)
    ultimately show ?thesis by (auto simp: genOk_def installGen_def)
  qed
  moreover have "KeyID b = k \<and> (\<exists>h. fmlookup (generations (installGen g s)) b = Some h
      \<and> g_Status h = GenerationCurrent)" if "fmlookup (current (installGen g s)) k = Some b" for k b
    using that assms(1,3) unfolding inv_gen_def installGen_def by (auto split: if_splits)
  moreover have "b = b'" if "fm_has b (generations (installGen g s))"
    "fm_has b' (generations (installGen g s))" "KeyID b = KeyID b'" "KeyGen b = KeyGen b'" for b b'
  proof -
    have "b = ?b \<or> fm_has b (generations s)" "b' = ?b \<or> fm_has b' (generations s)"
      using that(1,2) by (auto simp: installGen_def)
    then show ?thesis using that(3,4) nm [of b] nm [of b'] assms(1) unfolding inv_gen_def by metis
  qed
  ultimately show ?thesis unfolding inv_gen_def by blast
qed

lemma inv_gen_retire:
  assumes "inv_gen s" "fmlookup (generations s) b = Some g" "fmlookup (current s) (KeyID b) = Some b"
  shows "inv_gen (retireGen b g s)"
proof -
  have old: "genOk s c h" if "fmlookup (generations s) c = Some h" for c h
    using that assms(1) unfolding inv_gen_def by blast
  have "genOk (retireGen b g s) c h" if "fmlookup (generations (retireGen b g s)) c = Some h" for c h
  proof (cases "c = b")
    case True
    with that old [OF assms(2)] show ?thesis by (auto simp: retireGen_def genOk_def retireRecord_def)
  next
    case False
    with that have "genOk s c h" by (simp add: retireGen_def old)
    moreover have "g_Status h = GenerationCurrent \<Longrightarrow> KeyID c \<noteq> KeyID b"
      using \<open>genOk s c h\<close> False assms(3) by (auto simp: genOk_def)
    ultimately show ?thesis by (auto simp: genOk_def retireGen_def)
  qed
  moreover have "KeyID c = k \<and> (\<exists>h. fmlookup (generations (retireGen b g s)) c = Some h
      \<and> g_Status h = GenerationCurrent)" if "fmlookup (current (retireGen b g s)) k = Some c" for k c
    using that assms(1) unfolding inv_gen_def retireGen_def by (auto split: if_splits)
  moreover have "fm_has c (generations (retireGen b g s)) = fm_has c (generations s)" for c
    using assms(2) by (auto simp: retireGen_def fm_has_def)
  moreover have "c = c'" if "fm_has c (generations s)" "fm_has c' (generations s)"
    "KeyID c = KeyID c'" "KeyGen c = KeyGen c'" for c c'
    using that assms(1) unfolding inv_gen_def by blast
  ultimately show ?thesis unfolding inv_gen_def by simp
qed

end
