(* ===== verification/Lifecycle_Lease.thy ===== *)
theory Lifecycle_Lease
  imports Lifecycle_Prim
begin

text \<open>
  Preservation of the invariant by the lease updates: granting a lease under a fresh token and
  ending an active one, with the weakening lemmas that carry the attempt and cutover parts across
  changes of leases and attempts.
\<close>

section \<open>Attempts and cutovers across lease changes\<close>

lemma inv_att_lease:
  assumes "inv_att s" "rec_le lease_le (leasesByToken s) (leasesByToken s')"
    "rec_le (=) (leaseBySession s) (leaseBySession s')"
    and same: "generations s' = generations s" "current s' = current s" "presigns s' = presigns s"
    "attempts s' = attempts s"
  shows "inv_att s'"
proof -
  have "attemptEntryOk s' i r" if "fmlookup (attempts s) i = Some r" for i r
  proof -
    from that assms(1) have ok: "attemptEntryOk s i r" by (auto simp: inv_att_def)
    then obtain t l where t: "fmlookup (leaseBySession s) (i_SessionID (a_Intent r)) = Some t"
      and l: "fmlookup (leasesByToken s) t = Some l" "l_Binding l = a_Binding r" "l_Kind l = RunSign"
      by (auto simp: attemptEntryOk_def split: option.splits)
    from rec_leD [OF assms(3) t] have t': "fmlookup (leaseBySession s') (i_SessionID (a_Intent r)) = Some t"
      by simp
    from rec_leD [OF assms(2) l(1)] obtain l' where
      l': "fmlookup (leasesByToken s') t = Some l'" "lease_le l l'" by blast
    with l lease_le_fields have "l_Binding l' = a_Binding r" "l_Kind l' = RunSign" by metis+
    then show ?thesis
      using ok t l t' l' unfolding attemptEntryOk_def isCurrentLocked_def same by simp
  qed
  then show ?thesis unfolding inv_att_def same by blast
qed

lemma inv_cut_weaken:
  assumes "inv_cut s"
    and lease: "\<And>k. fm_has k (cutoverByKey s) \<Longrightarrow> hasActiveLeaseForKeyLocked k s'
      \<Longrightarrow> hasActiveLeaseForKeyLocked k s"
    and att: "\<And>b. fm_has (KeyID b) (cutoverByKey s) \<Longrightarrow> hasNonTerminalAttemptLocked b s'
      \<Longrightarrow> hasNonTerminalAttemptLocked b s"
    and same: "generations s' = generations s" "current s' = current s"
    "cutoversByToken s' = cutoversByToken s" "cutoverByKey s' = cutoverByKey s"
    "nextCutoverToken s' = nextCutoverToken s" "tombstones s' = tombstones s"
  shows "inv_cut s'"
proof -
  have "cutoverEntryOk s' t c" if lk: "fmlookup (cutoversByToken s) t = Some c" for t c
  proof -
    from assms(1) lk have ok: "cutoverEntryOk s t c"
      and idx: "c_state c = storedCutoverActive \<Longrightarrow> fm_has (KeyID (f_Source (c_fence c))) (cutoverByKey s)"
      unfolding inv_cut_def fm_has_iff by blast+
    show ?thesis
    proof (cases "c_state c")
      case storedCutoverActive
      with ok idx lease att show ?thesis
        unfolding cutoverEntryOk_def isCurrentLocked_def same Let_def by auto
    next
      case storedCutoverCommitted
      with ok show ?thesis
        unfolding cutoverEntryOk_def validateCommittedCutover_def same Let_def by simp
    next
      case storedCutoverAborted
      with ok show ?thesis unfolding cutoverEntryOk_def same Let_def by simp
    qed
  qed
  then show ?thesis
    using assms(1) unfolding inv_cut_def hasKeyGenerationLocked_def tombstonedLocked_def same by blast
qed

section \<open>Ending a lease\<close>

definition endLease ::
  "u64 \<Rightarrow> RunLease \<Rightarrow> RunLeaseState \<Rightarrow> MemoryLifecycleStore \<Rightarrow> MemoryLifecycleStore" where
  "endLease t stored st s =
    setLeaseState t stored st (s\<lparr>reshareReceivers := fmdrop t (reshareReceivers s)\<rparr>)"

lemma fmdrop_idle': "\<not> fm_has k m \<Longrightarrow> fmdrop k m = m"
  by (rule fmap_ext) (auto simp: fm_has_def)

lemma setLeaseState_endLease:
  "\<not> fm_has t (reshareReceivers s) \<Longrightarrow> setLeaseState t stored st s = endLease t stored st s"
  by (simp add: endLease_def setLeaseState_def fmdrop_idle')

lemma endLease_sel [simp]:
  "generations (endLease t l st s) = generations s" "current (endLease t l st s) = current s"
  "leaseBySession (endLease t l st s) = leaseBySession s"
  "leaseEffects (endLease t l st s) = leaseEffects s"
  "refreshDisabled (endLease t l st s) = refreshDisabled s"
  "attempts (endLease t l st s) = attempts s" "presigns (endLease t l st s) = presigns s"
  "cutoversByToken (endLease t l st s) = cutoversByToken s"
  "cutoverByKey (endLease t l st s) = cutoverByKey s" "tombstones (endLease t l st s) = tombstones s"
  "nextLeaseToken (endLease t l st s) = nextLeaseToken s"
  "nextCutoverToken (endLease t l st s) = nextCutoverToken s"
  "leasesByToken (endLease t l st s) = fmupd t (l\<lparr>l_State := st\<rparr>) (leasesByToken s)"
  "reshareReceivers (endLease t l st s) = fmdrop t (reshareReceivers s)"
  by (simp_all add: endLease_def setLeaseState_def)

lemma hist_endLease:
  assumes "fmlookup (leasesByToken s) t = Some l" "l_State l = RunLeaseActive"
  shows "hist s (endLease t l st s)"
  using lease_order.rec_le_upd [OF assms(1), of "l\<lparr>l_State := st\<rparr>"] assms(2)
  by (auto simp: hist_def lease_le_def)

lemma activeOk_frame:
  assumes "fmlookup (reshareReceivers s') t = fmlookup (reshareReceivers s) t"
    "generations s' = generations s" "current s' = current s" "tombstones s' = tombstones s"
  shows "activeOk s' t l = activeOk s t l"
  unfolding activeOk_def locked assms by (rule refl)

lemma inv_lease_endLease:
  assumes "inv_lease s" "fmlookup (leasesByToken s) t = Some l"
    "st = RunLeaseCompleted \<or> st = RunLeaseAborted"
  shows "inv_lease (endLease t l st s)" (is "inv_lease ?s")
proof -
  from assms(1) have D: "validateStoredLease s u m \<and> fmlookup (leaseBySession s) (l_SessionID m) = Some u
      \<and> (l_State m = RunLeaseActive \<longrightarrow> activeOk s u m)"
    if "fmlookup (leasesByToken s) u = Some m" for u m
    using that unfolding inv_lease_def by blast
  have "validateStoredLease ?s u m \<and> fmlookup (leaseBySession ?s) (l_SessionID m) = Some u
      \<and> (l_State m = RunLeaseActive \<longrightarrow> activeOk ?s u m)"
    if "fmlookup (leasesByToken ?s) u = Some m" for u m
  proof (cases "u = t")
    case True
    with that have m: "m = l\<lparr>l_State := st\<rparr>" by simp
    from D [OF assms(2)] show ?thesis
      using assms(3) by (auto simp: m True validateStoredLease_def validateRunLease_def)
  next
    case False
    with that have u: "fmlookup (leasesByToken s) u = Some m" by simp
    have "activeOk ?s u m = activeOk s u m" by (rule activeOk_frame) (simp_all add: False)
    with D [OF u] show ?thesis by (simp add: validateStoredLease_def)
  qed
  moreover have "\<exists>m. fmlookup (leasesByToken ?s) u = Some m \<and> l_SessionID m = sid"
    if "fmlookup (leaseBySession s) sid = Some u" for sid u
  proof -
    from that assms(1) obtain m where "fmlookup (leasesByToken s) u = Some m" "l_SessionID m = sid"
      unfolding inv_lease_def by blast
    then show ?thesis using assms(2) by (cases "u = t") auto
  qed
  moreover have "\<exists>m. fmlookup (leasesByToken ?s) u = Some m \<and> l_State m = RunLeaseActive"
    if "fm_has u (reshareReceivers ?s)" for u
    using that assms(1) unfolding inv_lease_def by auto
  moreover have "u = v" if "fmlookup (leasesByToken ?s) u = Some m" "fmlookup (leasesByToken ?s) v = Some n"
    "l_State m = RunLeaseActive" "l_State n = RunLeaseActive"
    "KeyID (l_Binding m) = KeyID (l_Binding n)" "exclusiveLeaseRunKind (l_Kind m)" for u v m n
  proof -
    have "u \<noteq> t" "v \<noteq> t" using that(1-4) assms(3) by auto
    then show ?thesis using that assms(1) unfolding inv_lease_def by simp
  qed
  ultimately show ?thesis unfolding inv_lease_def endLease_sel(3) by blast
qed

lemma active_endLease:
  assumes "st \<noteq> RunLeaseActive"
  shows "hasActiveLeaseForKeyLocked k (endLease t l st s) \<Longrightarrow> hasActiveLeaseForKeyLocked k s"
  using assms by (auto simp: hasActiveLeaseForKeyLocked_def fm_ex_iff split: if_splits)

lemma inv_endLease:
  assumes "store_inv s" "fmlookup (leasesByToken s) t = Some l" "l_State l = RunLeaseActive"
    "st = RunLeaseCompleted \<or> st = RunLeaseAborted"
  shows "store_inv (endLease t l st s)" (is "store_inv ?s")
proof -
  note h = hist_endLease [OF assms(2,3), of st]
  have st: "st \<noteq> RunLeaseActive" using assms(4) by auto
  from assms(1) have i: "inv_gen s" "inv_lease s" "inv_eff s" "inv_ref s" "inv_pre s" "inv_att s"
    "inv_cut s" "inv_tomb s" by (simp_all add: store_inv_def)
  have "inv_gen ?s" "inv_pre ?s" "inv_tomb ?s"
    using i inv_gen_frame [of ?s s] inv_pre_frame [of ?s s] inv_tomb_frame [of ?s s] by simp_all
  moreover have "inv_lease ?s" by (rule inv_lease_endLease [OF i(2) assms(2,4)])
  moreover have "inv_eff ?s" by (rule inv_eff_hist [OF i(3) h]) simp
  moreover have "inv_ref ?s" by (rule inv_ref_hist [OF i(4) h]) simp_all
  moreover have "inv_att ?s" by (rule inv_att_lease [OF i(6)]) (use h in \<open>simp_all add: hist_def\<close>)
  moreover have "inv_cut ?s"
    by (rule inv_cut_weaken [OF i(7)])
       (use st in \<open>auto simp: hasNonTerminalAttemptLocked_def dest: active_endLease [rotated]\<close>)
  ultimately show ?thesis by (simp add: store_inv_def)
qed

section \<open>Granting a lease\<close>

text \<open>\<^const>\<open>storeLease\<close> with the receiver anchor, when there is one.\<close>

definition grant ::
  "RunLease \<Rightarrow> ReshareReceiverAnchor option \<Rightarrow> MemoryLifecycleStore \<Rightarrow> MemoryLifecycleStore" where
  "grant l a s =
    (storeLease l s)\<lparr>reshareReceivers :=
       (case a of None \<Rightarrow> reshareReceivers s | Some x \<Rightarrow> fmupd (l_Token l) x (reshareReceivers s))\<rparr>"

lemma grant_sel [simp]:
  "generations (grant l a s) = generations s" "current (grant l a s) = current s"
  "leaseEffects (grant l a s) = leaseEffects s"
  "refreshDisabled (grant l a s) = refreshDisabled s"
  "attempts (grant l a s) = attempts s" "presigns (grant l a s) = presigns s"
  "cutoversByToken (grant l a s) = cutoversByToken s"
  "cutoverByKey (grant l a s) = cutoverByKey s" "tombstones (grant l a s) = tombstones s"
  "nextLeaseToken (grant l a s) = nextLeaseToken s + 1"
  "nextCutoverToken (grant l a s) = nextCutoverToken s"
  "leasesByToken (grant l a s) = fmupd (l_Token l) l (leasesByToken s)"
  "leaseBySession (grant l a s) = fmupd (l_SessionID l) (l_Token l) (leaseBySession s)"
  "reshareReceivers (grant l a s) =
    (case a of None \<Rightarrow> reshareReceivers s | Some x \<Rightarrow> fmupd (l_Token l) x (reshareReceivers s))"
  by (simp_all add: grant_def storeLease_def)

lemma word_less_inc: "(x :: 'a::len word) + 1 \<noteq> 0 \<Longrightarrow> x < x + 1"
  by (simp add: word_less_nat_alt unatSuc add.commute)

lemma token_fresh:
  assumes "inv_lease s" "nextLeaseToken s + 1 \<noteq> 0"
  shows "fmlookup (leasesByToken s) (nextLeaseToken s + 1) = None"
    "fmlookup (reshareReceivers s) (nextLeaseToken s + 1) = None"
proof -
  show none: "fmlookup (leasesByToken s) (nextLeaseToken s + 1) = None"
  proof (rule ccontr)
    assume "\<not> ?thesis"
    then obtain l where "fmlookup (leasesByToken s) (nextLeaseToken s + 1) = Some l" by auto
    then have "validateStoredLease s (nextLeaseToken s + 1) l"
      using assms(1) unfolding inv_lease_def by blast
    then have "\<not> nextLeaseToken s < nextLeaseToken s + 1" by (simp add: validateStoredLease_def)
    with word_less_inc [OF assms(2)] show False by simp
  qed
  then show "fmlookup (reshareReceivers s) (nextLeaseToken s + 1) = None"
    using assms(1) unfolding inv_lease_def fm_has_def by force
qed

text \<open>The situation in which both lease operations grant a lease.\<close>

definition grantable ::
  "MemoryLifecycleStore \<Rightarrow> RunLease \<Rightarrow> ReshareReceiverAnchor option \<Rightarrow> bool" where
  "grantable s l a \<longleftrightarrow>
    store_inv s \<and> nextLeaseToken s + 1 \<noteq> 0 \<and> l_Token l = nextLeaseToken s + 1
    \<and> validateRunLease l \<and> l_State l = RunLeaseActive
    \<and> fmlookup (leaseBySession s) (l_SessionID l) = None
    \<and> \<not> tombstonedLocked ''session'' (array32_bytes (l_SessionID l)) s
    \<and> activeOk (grant l a s) (l_Token l) l
    \<and> \<not> fm_has (KeyID (l_Binding l)) (cutoverByKey s)
    \<and> (\<forall>u m. fmlookup (leasesByToken s) u = Some m \<longrightarrow> l_State m = RunLeaseActive
         \<longrightarrow> KeyID (l_Binding m) = KeyID (l_Binding l)
         \<longrightarrow> \<not> exclusiveLeaseRunKind (l_Kind m) \<and> \<not> exclusiveLeaseRunKind (l_Kind l))"

lemma inv_parts:
  assumes "store_inv s"
  shows "inv_gen s" "inv_lease s" "inv_eff s" "inv_ref s" "inv_pre s" "inv_att s" "inv_cut s" "inv_tomb s"
  using assms by (simp_all add: store_inv_def)

lemma grantable_fresh:
  assumes "grantable s l a"
  shows "fmlookup (leasesByToken s) (l_Token l) = None" "fmlookup (reshareReceivers s) (l_Token l) = None"
  using assms token_fresh [of s] by (simp_all add: grantable_def store_inv_def)

lemma hist_grant: "grantable s l a \<Longrightarrow> hist s (grant l a s)"
  using lease_order.rec_le_new [OF grantable_fresh(1)] eq_order.rec_le_new [of "leaseBySession s" "l_SessionID l"]
  by (simp add: hist_def grantable_def)

lemma inv_lease_grant:
  assumes g: "grantable s l a"
  shows "inv_lease (grant l a s)"
proof -
  let ?s = "grant l a s"
  from g have nowrap: "nextLeaseToken s + 1 \<noteq> 0" and tok: "l_Token l = nextLeaseToken s + 1"
    and valid: "validateRunLease l" and active: "l_State l = RunLeaseActive"
    and session: "fmlookup (leaseBySession s) (l_SessionID l) = None"
    and ok: "activeOk ?s (l_Token l) l" and parts: "inv_lease s"
    and compat: "\<And>u m. fmlookup (leasesByToken s) u = Some m \<Longrightarrow> l_State m = RunLeaseActive
      \<Longrightarrow> KeyID (l_Binding m) = KeyID (l_Binding l)
      \<Longrightarrow> \<not> exclusiveLeaseRunKind (l_Kind m) \<and> \<not> exclusiveLeaseRunKind (l_Kind l)"
    unfolding grantable_def store_inv_def by blast+
  note fresh = grantable_fresh [OF g]
  from parts have D: "validateStoredLease s u m" "fmlookup (leaseBySession s) (l_SessionID m) = Some u"
    "l_State m = RunLeaseActive \<Longrightarrow> activeOk s u m" if "fmlookup (leasesByToken s) u = Some m" for u m
    using that unfolding inv_lease_def by blast+
  have "validateStoredLease ?s u m \<and> fmlookup (leaseBySession ?s) (l_SessionID m) = Some u
      \<and> (l_State m = RunLeaseActive \<longrightarrow> activeOk ?s u m)"
    if "fmlookup (leasesByToken ?s) u = Some m" for u m
  proof (cases "u = l_Token l")
    case True
    with that have "m = l" by simp
    with True show ?thesis using ok valid active tok by (simp add: validateStoredLease_def)
  next
    case False
    with that have u: "fmlookup (leasesByToken s) u = Some m" by simp
    have "activeOk ?s u m = activeOk s u m"
      by (rule activeOk_frame) (use False in \<open>auto split: option.splits\<close>)
    moreover have "l_SessionID m \<noteq> l_SessionID l" using D(2) [OF u] session by auto
    moreover have "\<not> nextLeaseToken s + 1 < u"
      using D(1) [OF u] word_less_inc [OF nowrap] by (auto simp: validateStoredLease_def)
    ultimately show ?thesis using D [OF u] by (auto simp: validateStoredLease_def)
  qed
  moreover have "\<exists>m. fmlookup (leasesByToken ?s) u = Some m \<and> l_SessionID m = sid"
    if "fmlookup (leaseBySession ?s) sid = Some u" for sid u
  proof (cases "sid = l_SessionID l")
    case False
    with that have "fmlookup (leaseBySession s) sid = Some u" by simp
    with parts obtain m where "fmlookup (leasesByToken s) u = Some m" "l_SessionID m = sid"
      unfolding inv_lease_def by blast
    then show ?thesis using fresh(1) by auto
  qed (use that in auto)
  moreover have "\<exists>m. fmlookup (leasesByToken ?s) u = Some m \<and> l_State m = RunLeaseActive"
    if "fm_has u (reshareReceivers ?s)" for u
  proof (cases "u = l_Token l")
    case False
    with that have "fm_has u (reshareReceivers s)" by (auto split: option.splits)
    with parts False show ?thesis unfolding inv_lease_def by auto
  qed (simp add: active)
  moreover have "u = v" if "fmlookup (leasesByToken ?s) u = Some m" "fmlookup (leasesByToken ?s) v = Some n"
    "l_State m = RunLeaseActive" "l_State n = RunLeaseActive"
    "KeyID (l_Binding m) = KeyID (l_Binding n)" "exclusiveLeaseRunKind (l_Kind m)" for u v m n
  proof (cases "u = l_Token l \<or> v = l_Token l")
    case True
    show ?thesis
    proof (rule ccontr)
      assume "u \<noteq> v"
      with True that compat [of u m] compat [of v n] show False by (auto split: if_splits)
    qed
  next
    case False
    with that(1,2) have "fmlookup (leasesByToken s) u = Some m" "fmlookup (leasesByToken s) v = Some n"
      by auto
    with that(3-6) parts show ?thesis unfolding inv_lease_def by blast
  qed
  ultimately show ?thesis unfolding inv_lease_def by blast
qed

lemma inv_grant:
  assumes g: "grantable s l a"
  shows "store_inv (grant l a s)" (is "store_inv ?s")
proof -
  note h = hist_grant [OF g]
  from g have i: "store_inv s" by (simp add: grantable_def)
  note parts = inv_parts [OF i]
  have "inv_gen ?s" "inv_pre ?s" "inv_tomb ?s"
    using parts inv_gen_frame [of ?s s] inv_pre_frame [of ?s s] inv_tomb_frame [of ?s s] by simp_all
  moreover have "inv_eff ?s" by (rule inv_eff_hist [OF parts(3) h]) simp
  moreover have "inv_ref ?s"
    by (rule inv_ref_hist [OF parts(4) h]) (use g in \<open>auto simp: grantable_def\<close>)
  moreover have "inv_att ?s" by (rule inv_att_lease [OF parts(6)]) (use h in \<open>simp_all add: hist_def\<close>)
  moreover have "inv_cut ?s"
    by (rule inv_cut_weaken [OF parts(7)])
       (use g in \<open>auto simp: grantable_def hasNonTerminalAttemptLocked_def
          hasActiveLeaseForKeyLocked_def fm_ex_iff split: if_splits\<close>)
  ultimately show ?thesis using inv_lease_grant [OF g] by (simp add: store_inv_def)
qed

section \<open>Installing and retiring\<close>

lemma hist_install:
  assumes "\<not> fm_has (g_Binding g) (generations s)"
  shows "hist s (installGen g s)"
  using gen_order.rec_le_new [of "generations s" "g_Binding g" g] assms
  by (simp add: hist_def installGen_def fm_has_def)

lemma hist_retire:
  assumes "fmlookup (generations s) b = Some g" "g_Status g = GenerationCurrent"
  shows "hist s (retireGen b g s)"
  using gen_order.rec_le_upd [OF assms(1), of "retireRecord g"] assms(2)
  by (simp add: hist_def retireGen_def gen_le_def)

lemma inv_hist_same:
  assumes "store_inv s" "hist s s'" "leaseEffects s' = leaseEffects s" "refreshDisabled s' = refreshDisabled s"
    "leaseBySession s' = leaseBySession s" "tombstones s' = tombstones s"
  shows "inv_eff s'" "inv_ref s'" "inv_tomb s'"
  using inv_eff_hist [OF inv_parts(3) assms(2)] inv_ref_hist [OF inv_parts(4) assms(2)]
    inv_tomb_frame [OF assms(6)] inv_parts(8) assms by auto

lemma not_current_free:
  assumes "store_inv s" "\<not> fm_has k (current s)"
  shows "\<And>i p. fmlookup (presigns s) i = Some p \<Longrightarrow> KeyID (p_binding p) = k
      \<Longrightarrow> p_state p = storedPresignBurned"
    "\<not> hasNonTerminalAttemptForKeyLocked k s" "\<not> fm_has k (cutoverByKey s)"
proof -
  fix i p
  assume p: "fmlookup (presigns s) i = Some p" "KeyID (p_binding p) = k"
  then have "validateStoredPresign s i p" using inv_parts(5) [OF assms(1)] unfolding inv_pre_def by blast
  moreover have "\<not> isCurrentLocked (p_binding p) s" using isCurrent_has p(2) assms(2) by blast
  ultimately show "p_state p = storedPresignBurned"
    by (cases "p_state p") (auto simp: validateStoredPresign_def)
next
  show "\<not> hasNonTerminalAttemptForKeyLocked k s"
    using nonterminal_current [OF inv_parts(6)] assms by blast
  show "\<not> fm_has k (cutoverByKey s)" using fenced_current [OF inv_parts(7)] assms by blast
qed

lemma inv_install:
  assumes i: "store_inv s" and g: "GenerationBinding_Validate (g_Binding g)" "g_Status g = GenerationCurrent"
    "g_Blob g \<noteq> []"
    and cur: "\<not> fm_has (KeyID (g_Binding g)) (current s)"
    and name: "\<not> hasKeyGenerationLocked (KeyID (g_Binding g)) (KeyGen (g_Binding g)) s"
    and lease: "\<not> hasActiveLeaseForKeyLocked (KeyID (g_Binding g)) s"
  shows "store_inv (installGen g s) \<and> hist s (installGen g s)"
proof -
  let ?s = "installGen g s"
  note p = inv_parts [OF i] and off = same_off_install [of g s] and free = not_current_free [OF i cur]
  have "\<not> fm_has (g_Binding g) (generations s)"
    using name by (auto simp: hasKeyGenerationLocked_def fm_ex_iff fm_has_iff)
  then have h: "hist s ?s" by (rule hist_install)
  have sel: "leaseEffects ?s = leaseEffects s" "refreshDisabled ?s = refreshDisabled s"
    "leaseBySession ?s = leaseBySession s" "tombstones ?s = tombstones s"
    "leasesByToken ?s = leasesByToken s" "reshareReceivers ?s = reshareReceivers s"
    "nextLeaseToken ?s = nextLeaseToken s" "presigns ?s = presigns s" "attempts ?s = attempts s"
    "cutoversByToken ?s = cutoversByToken s" "cutoverByKey ?s = cutoverByKey s"
    "nextCutoverToken ?s = nextCutoverToken s"
    by (simp_all add: installGen_def)
  have "inv_gen ?s" by (rule inv_gen_install [OF p(1) g cur name])
  moreover have "inv_lease ?s" by (rule inv_lease_off [OF p(2) off lease]) (simp_all add: sel)
  moreover have "inv_pre ?s" by (rule inv_pre_off [OF p(5) off free(1)]) (simp_all add: sel)
  moreover have "inv_att ?s" by (rule inv_att_off [OF p(6) off free(2)]) (simp_all add: sel)
  moreover have "inv_cut ?s"
    by (rule inv_cut_off [OF p(7) off free(3)]) (use h in \<open>simp_all add: sel hist_def\<close>)
  ultimately show ?thesis using inv_hist_same [OF i h sel(1-4)] h by (simp add: store_inv_def)
qed

lemma inv_retire:
  assumes i: "store_inv s" and g: "fmlookup (generations s) b = Some g" and cur: "isCurrentLocked b s"
    and lease: "\<not> hasActiveLeaseForKeyLocked (KeyID b) s"
    and free: "\<And>j p. fmlookup (presigns s) j = Some p \<Longrightarrow> KeyID (p_binding p) = KeyID b
      \<Longrightarrow> p_state p = storedPresignBurned"
    and att: "\<not> hasNonTerminalAttemptForKeyLocked (KeyID b) s"
    and fence: "\<not> fm_has (KeyID b) (cutoverByKey s)"
  shows "store_inv (retireGen b g s) \<and> hist s (retireGen b g s)"
proof -
  let ?s = "retireGen b g s"
  note p = inv_parts [OF i] and off = same_off_retire [of b s g]
  have "g_Status g = GenerationCurrent" using isCurrent_gen [OF cur] g by simp
  with g have h: "hist s ?s" by (rule hist_retire)
  have c: "fmlookup (current s) (KeyID b) = Some b" using cur isCurrent_iff [OF p(1)] by blast
  have sel: "leaseEffects ?s = leaseEffects s" "refreshDisabled ?s = refreshDisabled s"
    "leaseBySession ?s = leaseBySession s" "tombstones ?s = tombstones s"
    "leasesByToken ?s = leasesByToken s" "reshareReceivers ?s = reshareReceivers s"
    "nextLeaseToken ?s = nextLeaseToken s" "presigns ?s = presigns s" "attempts ?s = attempts s"
    "cutoversByToken ?s = cutoversByToken s" "cutoverByKey ?s = cutoverByKey s"
    "nextCutoverToken ?s = nextCutoverToken s"
    by (simp_all add: retireGen_def)
  have "inv_gen ?s" by (rule inv_gen_retire [OF p(1) g c])
  moreover have "inv_lease ?s" by (rule inv_lease_off [OF p(2) off lease]) (simp_all add: sel)
  moreover have "inv_pre ?s" by (rule inv_pre_off [OF p(5) off free]) (simp_all add: sel)
  moreover have "inv_att ?s" by (rule inv_att_off [OF p(6) off att]) (simp_all add: sel)
  moreover have "inv_cut ?s"
    by (rule inv_cut_off [OF p(7) off fence]) (use h in \<open>simp_all add: sel hist_def\<close>)
  ultimately show ?thesis using inv_hist_same [OF i h sel(1-4)] h by (simp add: store_inv_def)
qed

end
