(* ===== verification/Lifecycle_Sign.thy ===== *)
theory Lifecycle_Sign
  imports Lifecycle_Lease
begin

text \<open>
  Preservation of the invariant by the presign and attempt updates: a new available presign, the
  claim that turns it into a signing attempt, delivery and completion, abort, and the two ways of
  burning.
\<close>

section \<open>Entries that an update does not touch\<close>

lemma validateStoredPresign_frame:
  assumes "generations s' = generations s" "current s' = current s"
    "fmlookup (attempts s') (p_attemptID p) = fmlookup (attempts s) (p_attemptID p)"
  shows "validateStoredPresign s' i p = validateStoredPresign s i p"
  unfolding validateStoredPresign_def isCurrentLocked_def assms by (rule refl)

lemma attemptEntryOk_frame:
  assumes "generations s' = generations s" "current s' = current s"
    "leasesByToken s' = leasesByToken s" "leaseBySession s' = leaseBySession s"
    "fmlookup (presigns s') (a_PresignID r) = fmlookup (presigns s) (a_PresignID r)"
  shows "attemptEntryOk s' i r = attemptEntryOk s i r"
  unfolding attemptEntryOk_def isCurrentLocked_def assms by (rule refl)

lemma inv_preD:
  assumes "inv_pre s" "fmlookup (presigns s) i = Some p"
  shows "validateLifecycleIdentifier i" "GenerationBinding_Validate (p_binding p)"
    "length (p_artifactDigest p) = 32" "validateStoredPresign s i p"
    "p_state p = storedPresignAvailable \<Longrightarrow> p_metadata p \<noteq> []"
  using assms unfolding inv_pre_def by blast+

lemma inv_pre_unique:
  "inv_pre s \<Longrightarrow> fmlookup (presigns s) i = Some p \<Longrightarrow> fmlookup (presigns s) j = Some q
    \<Longrightarrow> p_artifactDigest p = p_artifactDigest q \<Longrightarrow> i = j"
  unfolding inv_pre_def by blast

lemma inv_attD: "inv_att s \<Longrightarrow> fmlookup (attempts s) i = Some r \<Longrightarrow> attemptEntryOk s i r"
  by (auto simp: inv_att_def)

text \<open>The presign of an attempt is claimed by it, or burned once the attempt is terminal.\<close>

lemma attempt_presign:
  assumes "inv_att s" "fmlookup (attempts s) i = Some r"
  obtains p where "fmlookup (presigns s) (a_PresignID r) = Some p" "p_attemptID p = i"
    "p_binding p = a_Binding r" "p_state p \<noteq> storedPresignAvailable"
    "\<not> Terminal r \<Longrightarrow> p_state p = storedPresignClaimed"
    "a_Aborted r \<Longrightarrow> p_state p = storedPresignBurned"
proof -
  from inv_attD [OF assms] obtain p where p: "fmlookup (presigns s) (a_PresignID r) = Some p"
    "p_binding p = a_Binding r" "p_attemptID p = i"
    and st: "a_Aborted r \<longrightarrow> p_state p = storedPresignBurned"
      "\<not> a_Aborted r \<longrightarrow> \<not> (p_state p \<noteq> storedPresignClaimed
         \<and> (\<not> Terminal r \<or> p_state p \<noteq> storedPresignBurned))"
    by (auto simp: attemptEntryOk_def split: option.splits if_splits)
  from st have "p_state p \<noteq> storedPresignAvailable" by (cases "a_Aborted r") auto
  moreover have "\<not> Terminal r \<Longrightarrow> p_state p = storedPresignClaimed"
    using st by (auto simp: Terminal_def)
  ultimately show thesis using that p st by blast
qed

lemma presign_attempt:
  assumes "inv_pre s" "fmlookup (presigns s) i = Some p" "p_state p \<noteq> storedPresignAvailable"
    "p_attemptID p \<noteq> []"
  obtains r where "fmlookup (attempts s) (p_attemptID p) = Some r" "a_PresignID r = i"
    "a_Binding r = p_binding p" "p_state p = storedPresignBurned \<Longrightarrow> Terminal r"
    "p_state p = storedPresignClaimed \<Longrightarrow> \<not> a_Aborted r"
  using inv_preD(4) [OF assms(1,2)] assms(3,4)
  by (cases "p_state p") (auto simp: validateStoredPresign_def Terminal_def split: option.splits)

lemma inv_preI:
  assumes "inv_pre s" "presigns s' = fmupd i p (presigns s)"
    and new: "validateLifecycleIdentifier i" "GenerationBinding_Validate (p_binding p)"
      "length (p_artifactDigest p) = 32" "validateStoredPresign s' i p"
      "p_state p = storedPresignAvailable \<Longrightarrow> p_metadata p \<noteq> []"
    and uniq: "\<And>j q. fmlookup (presigns s) j = Some q \<Longrightarrow> p_artifactDigest q = p_artifactDigest p \<Longrightarrow> j = i"
    and old: "\<And>j q. j \<noteq> i \<Longrightarrow> fmlookup (presigns s) j = Some q \<Longrightarrow> validateStoredPresign s' j q"
  shows "inv_pre s'"
proof -
  have "validateLifecycleIdentifier j \<and> GenerationBinding_Validate (p_binding q)
      \<and> length (p_artifactDigest q) = 32 \<and> validateStoredPresign s' j q"
    if "fmlookup (presigns s') j = Some q" for j q
    using that inv_preD [OF assms(1)] new old by (cases "j = i") (auto simp: assms(2))
  moreover have "j = k" if "fmlookup (presigns s') j = Some q" "fmlookup (presigns s') k = Some r"
    "p_artifactDigest q = p_artifactDigest r" for j q k r
  proof (cases "j = i \<or> k = i")
    case True
    with that uniq show ?thesis by (auto simp: assms(2) split: if_splits)
  next
    case False
    with that inv_pre_unique [OF assms(1)] show ?thesis by (auto simp: assms(2))
  qed
  moreover have "p_metadata q \<noteq> []"
    if "fmlookup (presigns s') j = Some q" "p_state q = storedPresignAvailable" for j q
    using that inv_preD(5) [OF assms(1)] new(5) by (cases "j = i") (auto simp: assms(2))
  ultimately show ?thesis unfolding inv_pre_def by blast
qed

lemma inv_attI:
  assumes "inv_att s" "attempts s' = fmupd i r (attempts s)" "attemptEntryOk s' i r"
    and "\<And>j q. j \<noteq> i \<Longrightarrow> fmlookup (attempts s) j = Some q \<Longrightarrow> attemptEntryOk s' j q"
  shows "inv_att s'"
  using assms by (auto simp: inv_att_def)

section \<open>A new available presign\<close>

definition availablePresign :: "string \<Rightarrow> storedPresign \<Rightarrow> MemoryLifecycleStore \<Rightarrow> bool" where
  "availablePresign i p s \<longleftrightarrow>
    validateLifecycleIdentifier i \<and> GenerationBinding_Validate (p_binding p)
    \<and> p_state p = storedPresignAvailable \<and> p_blob p \<noteq> [] \<and> p_metadata p \<noteq> [] \<and> p_attemptID p = []
    \<and> p_reason p = [] \<and> p_artifactDigest p = sha256 (p_metadata p) \<and> isCurrentLocked (p_binding p) s
    \<and> \<not> fm_has i (presigns s) \<and> \<not> hasConflictingPresignArtifactLocked i (p_artifactDigest p) s"

lemma inv_addPresign:
  assumes i: "store_inv s" and a: "availablePresign i p s"
  shows "store_inv (s\<lparr>presigns := fmupd i p (presigns s)\<rparr>) \<and> hist s (s\<lparr>presigns := fmupd i p (presigns s)\<rparr>)"
    (is "store_inv ?s \<and> hist s ?s")
proof -
  note parts = inv_parts [OF i]
  from a have fresh: "fmlookup (presigns s) i = None" by (simp add: availablePresign_def fm_has_def)
  have h: "hist s ?s" using presign_order.rec_le_new [OF fresh, of p] by (simp add: hist_def)
  have "inv_pre ?s"
  proof (rule inv_preI [OF parts(5)])
    show "validateStoredPresign ?s i p"
      using a isCurrent_frame [of ?s s] by (simp add: validateStoredPresign_def availablePresign_def)
    show "j = i" if "fmlookup (presigns s) j = Some q" "p_artifactDigest q = p_artifactDigest p" for j q
      using a that unfolding availablePresign_def hasConflictingPresignArtifactLocked_def fm_ex_iff
      by blast
    show "validateStoredPresign ?s j q" if "fmlookup (presigns s) j = Some q" for j q
      using inv_preD(4) [OF parts(5) that] validateStoredPresign_frame [of ?s s] by simp
  qed (use a in \<open>simp_all add: availablePresign_def\<close>)
  moreover have "inv_att ?s"
  proof -
    have "attemptEntryOk ?s j r" if r: "fmlookup (attempts s) j = Some r" for j r
    proof -
      from attempt_presign [OF parts(6) r] fresh have "a_PresignID r \<noteq> i" by (metis option.distinct(1))
      then show ?thesis using inv_attD [OF parts(6) r] attemptEntryOk_frame [of ?s s r] by simp
    qed
    then show ?thesis by (simp add: inv_att_def)
  qed
  moreover have "inv_gen ?s" "inv_lease ?s" "inv_cut ?s"
    using parts inv_gen_frame [of ?s s] inv_lease_frame [of ?s s] inv_cut_frame [of ?s s] by simp_all
  ultimately show ?thesis using inv_hist_same [OF i h] h by (simp add: store_inv_def)
qed

section \<open>Claiming a presign\<close>

definition claim ::
  "SignAttemptIntent \<Rightarrow> string \<Rightarrow> storedPresign \<Rightarrow> bytes \<Rightarrow> MemoryLifecycleStore \<Rightarrow> MemoryLifecycleStore" where
  "claim intent i p outbox s =
    s\<lparr>attempts := fmupd (i_AttemptID intent) (newAttempt (p_binding p) i intent (p_metadata p) outbox)
        (attempts s),
      presigns := fmupd i (p\<lparr>p_state := storedPresignClaimed, p_attemptID := i_AttemptID intent,
                            p_blob := [], p_metadata := []\<rparr>) (presigns s)\<rparr>"

definition claimable ::
  "SignAttemptIntent \<Rightarrow> string \<Rightarrow> storedPresign \<Rightarrow> bytes \<Rightarrow> MemoryLifecycleStore \<Rightarrow> bool" where
  "claimable intent i p outbox s \<longleftrightarrow>
    store_inv s \<and> fmlookup (presigns s) i = Some p \<and> p_state p = storedPresignAvailable
    \<and> SignAttemptIntent_Validate intent \<and> outbox \<noteq> []
    \<and> fmlookup (attempts s) (i_AttemptID intent) = None
    \<and> hasActiveSignLeaseLocked (p_binding p) (i_SessionID intent) s
    \<and> \<not> fm_has (KeyID (p_binding p)) (cutoverByKey s)"

lemma hist_claim:
  assumes "claimable intent i p outbox s"
  shows "hist s (claim intent i p outbox s)"
proof -
  have a: "fmlookup (attempts s) (i_AttemptID intent) = None"
    and p: "fmlookup (presigns s) i = Some p" "p_state p = storedPresignAvailable"
    using assms by (simp_all add: claimable_def)
  show ?thesis
    using attempt_order.rec_le_new [OF a] presign_order.rec_le_upd [OF p(1)] p(2)
    by (simp add: hist_def claim_def presign_le_def)
qed

lemma inv_claim:
  assumes c: "claimable intent i p outbox s"
  shows "store_inv (claim intent i p outbox s)" (is "store_inv ?s")
proof -
  let ?r = "newAttempt (p_binding p) i intent (p_metadata p) outbox"
  let ?p = "p\<lparr>p_state := storedPresignClaimed, p_attemptID := i_AttemptID intent, p_blob := [], p_metadata := []\<rparr>"
  from c have i: "store_inv s" and p: "fmlookup (presigns s) i = Some p"
    and av: "p_state p = storedPresignAvailable" and v: "SignAttemptIntent_Validate intent"
    and ob: "outbox \<noteq> []" and none: "fmlookup (attempts s) (i_AttemptID intent) = None"
    and sl: "hasActiveSignLeaseLocked (p_binding p) (i_SessionID intent) s"
    and nf: "\<not> fm_has (KeyID (p_binding p)) (cutoverByKey s)"
    by (simp_all add: claimable_def)
  note parts = inv_parts [OF i] and h = hist_claim [OF c]
  have sel: "attempts ?s = fmupd (i_AttemptID intent) ?r (attempts s)"
    "presigns ?s = fmupd i ?p (presigns s)" "generations ?s = generations s" "current ?s = current s"
    "leasesByToken ?s = leasesByToken s" "leaseBySession ?s = leaseBySession s"
    by (simp_all add: claim_def)
  note D = inv_preD [OF parts(5) p]
  from D(4) av have cur: "isCurrentLocked (p_binding p) s" and pr: "p_reason p = []"
    by (simp_all add: validateStoredPresign_def)
  have cur': "isCurrentLocked (p_binding p) ?s" using cur isCurrent_frame [OF sel(3,4)] by simp
  have ne: "i_AttemptID intent \<noteq> []"
    using v by (auto simp: SignAttemptIntent_Validate_def validateLifecycleIdentifier_def)
  have "inv_pre ?s"
  proof (rule inv_preI [OF parts(5) sel(2)])
    show "validateStoredPresign ?s i ?p"
      using cur' pr ne by (simp add: validateStoredPresign_def sel newAttempt_def)
    show "j = i" if "fmlookup (presigns s) j = Some q" "p_artifactDigest q = p_artifactDigest ?p" for j q
      using inv_pre_unique [OF parts(5) that(1) p] that by simp
    show "validateStoredPresign ?s j q" if "j \<noteq> i" "fmlookup (presigns s) j = Some q" for j q
    proof -
      have ok: "validateStoredPresign s j q" by (rule inv_preD(4) [OF parts(5) that(2)])
      have "p_attemptID q \<noteq> i_AttemptID intent"
      proof
        assume eq: "p_attemptID q = i_AttemptID intent"
        then have "p_state q \<noteq> storedPresignAvailable" using ok ne
          by (auto simp: validateStoredPresign_def)
        with presign_attempt [OF parts(5) that(2)] eq ne none show False by (metis option.distinct(1))
      qed
      then show ?thesis using ok validateStoredPresign_frame [OF sel(3,4), of q] by (simp add: sel)
    qed
  qed (use D in simp_all)
  moreover have "inv_att ?s"
  proof (rule inv_attI [OF parts(6) sel(1)])
    show "attemptEntryOk ?s (i_AttemptID intent) ?r"
      using v D av ob cur' sl
      by (auto simp: attemptEntryOk_def newAttempt_def sel Terminal_def validateStoredAttemptProgress_def
          hasActiveSignLeaseLocked_def split: option.splits)
    show "attemptEntryOk ?s j r" if "fmlookup (attempts s) j = Some r" for j r
    proof -
      from attempt_presign [OF parts(6) that] p av have "a_PresignID r \<noteq> i" by (metis option.inject)
      then show ?thesis
        using inv_attD [OF parts(6) that] attemptEntryOk_frame [OF sel(3-6), of r] by (simp add: sel)
    qed
  qed
  moreover have "inv_gen ?s" "inv_lease ?s"
    using parts inv_gen_frame [of ?s s] inv_lease_frame [of ?s s] by (simp_all add: claim_def)
  moreover have "inv_cut ?s"
    by (rule inv_cut_weaken [OF parts(7)])
       (use nf in \<open>auto simp: claim_def hasActiveLeaseForKeyLocked_def hasNonTerminalAttemptLocked_def
          fm_ex_iff newAttempt_def split: if_splits\<close>)
  moreover have "inv_eff ?s" "inv_ref ?s" "inv_tomb ?s"
    using inv_hist_same [OF i h] by (simp_all add: claim_def)
  ultimately show ?thesis by (simp add: store_inv_def)
qed

section \<open>Attempt progress\<close>

text \<open>A step of an attempt that keeps its base and does not abort it.\<close>

lemma inv_progress:
  assumes i: "store_inv s" and r: "fmlookup (attempts s) a = Some r" and nt: "\<not> Terminal r"
    and le: "attempt_le r r'" and na: "\<not> a_Aborted r'" "a_AbortReason r' = []"
    and pr: "validateStoredAttemptProgress r'"
  shows "store_inv (s\<lparr>attempts := fmupd a r' (attempts s)\<rparr>) \<and> hist s (s\<lparr>attempts := fmupd a r' (attempts s)\<rparr>)"
    (is "store_inv ?s \<and> hist s ?s")
proof -
  note parts = inv_parts [OF i]
  have h: "hist s ?s" using attempt_order.rec_le_upd [OF r le] by (simp add: hist_def)
  have base: "a_Binding r' = a_Binding r" "a_PresignID r' = a_PresignID r" "a_Intent r' = a_Intent r"
    "a_OutboxDigest r' = a_OutboxDigest r" using le by (simp_all add: attempt_le_def)
  from attempt_presign [OF parts(6) r] nt obtain p where
    p: "fmlookup (presigns s) (a_PresignID r) = Some p" "p_attemptID p = a"
      "p_binding p = a_Binding r" "p_state p = storedPresignClaimed" by metis
  have cur: "isCurrentLocked b ?s = isCurrentLocked b s" for b by (rule isCurrent_frame) simp_all
  have ok: "attemptEntryOk s a r" by (rule inv_attD [OF parts(6) r])
  have "inv_att ?s"
  proof (rule inv_attI [OF parts(6)])
    show "attemptEntryOk ?s a r'"
      using ok nt na pr p by (simp add: attemptEntryOk_def base cur cong: option.case_cong)
    show "attemptEntryOk ?s j q" if "fmlookup (attempts s) j = Some q" for j q
      using inv_attD [OF parts(6) that] attemptEntryOk_frame [of ?s s q] by simp
  qed simp
  moreover have "inv_pre ?s"
  proof -
    have "validateStoredPresign ?s j q" if q: "fmlookup (presigns s) j = Some q" for j q
    proof (cases "p_attemptID q = a")
      case False
      then show ?thesis
        using inv_preD(4) [OF parts(5) q] validateStoredPresign_frame [of ?s s q] by simp
    next
      case True
      from ok have "a \<noteq> []"
        by (auto simp: attemptEntryOk_def SignAttemptIntent_Validate_def validateLifecycleIdentifier_def)
      with True inv_preD(4) [OF parts(5) q] r nt na show ?thesis
        by (cases "p_state q")
           (auto simp: validateStoredPresign_def cur base Terminal_def split: option.splits)
    qed
    then show ?thesis using parts(5) unfolding inv_pre_def by simp
  qed
  moreover have "inv_gen ?s" "inv_lease ?s"
    using parts inv_gen_frame [of ?s s] inv_lease_frame [of ?s s] by simp_all
  moreover have "inv_cut ?s"
    by (rule inv_cut_weaken [OF parts(7)])
       (use r nt base in \<open>auto simp: hasActiveLeaseForKeyLocked_def hasNonTerminalAttemptLocked_def
          fm_ex_iff split: if_splits\<close>)
  ultimately show ?thesis using inv_hist_same [OF i h] h by (simp add: store_inv_def)
qed

section \<open>Aborting an attempt\<close>

lemma inv_abort:
  assumes i: "store_inv s" and r: "fmlookup (attempts s) a = Some r" and nt: "\<not> Terminal r"
    and v: "validateLifecycleReason reason" and p: "fmlookup (presigns s) (a_PresignID r) = Some p"
  defines "r' \<equiv> r\<lparr>a_Aborted := True, a_AbortReason := reason, a_ExactOutbox := []\<rparr>"
    and "p' \<equiv> p\<lparr>p_state := storedPresignBurned, p_reason := reason\<rparr>"
  defines "s' \<equiv> s\<lparr>attempts := fmupd a r' (attempts s), presigns := fmupd (a_PresignID r) p' (presigns s)\<rparr>"
  shows "store_inv s' \<and> hist s s'"
proof -
  let ?i = "a_PresignID r"
  note parts = inv_parts [OF i]
  have pc: "p_attemptID p = a" "p_binding p = a_Binding r" "p_state p = storedPresignClaimed"
    using attempt_presign [OF parts(6) r] nt p by (metis option.inject)+
  have sel: "attempts s' = fmupd a r' (attempts s)" "presigns s' = fmupd ?i p' (presigns s)"
    "generations s' = generations s" "current s' = current s" "leasesByToken s' = leasesByToken s"
    "leaseBySession s' = leaseBySession s" "leaseEffects s' = leaseEffects s"
    "refreshDisabled s' = refreshDisabled s" "tombstones s' = tombstones s"
    by (simp_all add: s'_def)
  have h: "hist s s'"
    using attempt_order.rec_le_upd [OF r, of r'] presign_order.rec_le_upd [OF p, of p'] nt pc
    by (simp add: hist_def s'_def attempt_le_def presign_le_def r'_def p'_def)
  have ok: "attemptEntryOk s a r" by (rule inv_attD [OF parts(6) r])
  then have a: "a \<noteq> []"
    by (auto simp: attemptEntryOk_def SignAttemptIntent_Validate_def validateLifecycleIdentifier_def)
  note D = inv_preD [OF parts(5) p]
  have "inv_pre s'"
  proof (rule inv_preI [OF parts(5) sel(2)])
    show "validateStoredPresign s' ?i p'"
      using D(4) pc v a by (simp add: validateStoredPresign_def p'_def sel r'_def)
    show "j = ?i" if "fmlookup (presigns s) j = Some q" "p_artifactDigest q = p_artifactDigest p'" for j q
      using inv_pre_unique [OF parts(5) that(1) p] that by (simp add: p'_def)
    show "validateStoredPresign s' j q" if "j \<noteq> ?i" "fmlookup (presigns s) j = Some q" for j q
    proof -
      have ok: "validateStoredPresign s j q" by (rule inv_preD(4) [OF parts(5) that(2)])
      have "p_attemptID q \<noteq> a"
      proof
        assume eq: "p_attemptID q = a"
        then have "p_state q \<noteq> storedPresignAvailable" using ok a by (auto simp: validateStoredPresign_def)
        with presign_attempt [OF parts(5) that(2)] eq a r that(1) show False by (metis option.inject)
      qed
      then show ?thesis using ok validateStoredPresign_frame [OF sel(3,4), of q] by (simp add: sel)
    qed
  qed (use D in \<open>simp_all add: p'_def\<close>)
  moreover have "inv_att s'"
  proof (rule inv_attI [OF parts(6) sel(1)])
    show "attemptEntryOk s' a r'"
      using ok nt p pc v
      by (simp add: attemptEntryOk_def sel r'_def p'_def Terminal_def validateStoredAttemptProgress_def
          cong: option.case_cong)
    show "attemptEntryOk s' j q" if "j \<noteq> a" "fmlookup (attempts s) j = Some q" for j q
    proof -
      from attempt_presign [OF parts(6) that(2)] p pc that(1) have "a_PresignID q \<noteq> ?i"
        by (metis option.inject)
      then show ?thesis
        using inv_attD [OF parts(6) that(2)] attemptEntryOk_frame [OF sel(3-6), of q] by (simp add: sel)
    qed
  qed
  moreover have "inv_gen s'" "inv_lease s'"
    using parts inv_gen_frame [of s' s] inv_lease_frame [of s' s] by (simp_all add: s'_def)
  moreover have "inv_cut s'"
    by (rule inv_cut_weaken [OF parts(7)])
       (auto simp: s'_def r'_def hasActiveLeaseForKeyLocked_def hasNonTerminalAttemptLocked_def
          fm_ex_iff Terminal_def split: if_splits)
  ultimately show ?thesis using inv_hist_same [OF i h sel(7,8,6,9)] h by (simp add: store_inv_def)
qed

section \<open>Burning presigns\<close>

definition burnt :: "string \<Rightarrow> storedPresign \<Rightarrow> storedPresign" where
  "burnt reason p =
    p\<lparr>p_blob := [], p_metadata := [], p_state := storedPresignBurned, p_reason := reason\<rparr>"

definition burnWhere ::
  "(string \<Rightarrow> storedPresign \<Rightarrow> bool) \<Rightarrow> string \<Rightarrow> MemoryLifecycleStore \<Rightarrow> MemoryLifecycleStore" where
  "burnWhere B reason s =
    s\<lparr>presigns := fmmap_keys (\<lambda>j q. if B j q then burnt reason q else q) (presigns s)\<rparr>"

lemma burnWhere_sel [simp]:
  "generations (burnWhere B r s) = generations s" "current (burnWhere B r s) = current s"
  "leasesByToken (burnWhere B r s) = leasesByToken s" "leaseBySession (burnWhere B r s) = leaseBySession s"
  "leaseEffects (burnWhere B r s) = leaseEffects s" "refreshDisabled (burnWhere B r s) = refreshDisabled s"
  "reshareReceivers (burnWhere B r s) = reshareReceivers s" "attempts (burnWhere B r s) = attempts s"
  "cutoversByToken (burnWhere B r s) = cutoversByToken s" "cutoverByKey (burnWhere B r s) = cutoverByKey s"
  "tombstones (burnWhere B r s) = tombstones s" "nextLeaseToken (burnWhere B r s) = nextLeaseToken s"
  "nextCutoverToken (burnWhere B r s) = nextCutoverToken s"
  "fmlookup (presigns (burnWhere B r s)) j =
    map_option (\<lambda>q. if B j q then burnt r q else q) (fmlookup (presigns s) j)"
  by (simp_all add: burnWhere_def)

definition burnable :: "MemoryLifecycleStore \<Rightarrow> storedPresign \<Rightarrow> bool" where
  "burnable s q \<longleftrightarrow>
    p_state q = storedPresignAvailable
    \<or> (p_state q = storedPresignClaimed
       \<and> (\<exists>a. fmlookup (attempts s) (p_attemptID q) = Some a \<and> Terminal a))"

lemma burnt_valid:
  assumes "validateStoredPresign s j q" "burnable s q" "validateLifecycleReason r"
  shows "validateStoredPresign s j (burnt r q)"
  using assms
  by (auto simp: validateStoredPresign_def burnable_def burnt_def split: option.splits)

lemma inv_burnWhere:
  assumes i: "store_inv s" and v: "validateLifecycleReason r"
    and B: "\<And>j q. fmlookup (presigns s) j = Some q \<Longrightarrow> B j q \<Longrightarrow> burnable s q"
  shows "store_inv (burnWhere B r s) \<and> hist s (burnWhere B r s)" (is "store_inv ?s \<and> hist s ?s")
proof -
  note parts = inv_parts [OF i]
  have "presign_le q (if B j q then burnt r q else q)" if "fmlookup (presigns s) j = Some q" for j q
    using B [OF that] by (auto simp: presign_le_def burnt_def burnable_def)
  then have h: "hist s ?s" by (auto simp: hist_def rec_le_def)
  have val: "validateStoredPresign ?s j q = validateStoredPresign s j q" for j q
    by (rule validateStoredPresign_frame) simp_all
  have "inv_pre ?s"
    using inv_preD [OF parts(5)] inv_pre_unique [OF parts(5)] burnt_valid [OF _ B v]
    unfolding inv_pre_def val by (auto simp: burnt_def)
  moreover have "inv_att ?s"
  proof -
    have "attemptEntryOk ?s j r'" if r': "fmlookup (attempts s) j = Some r'" for j r'
    proof -
      obtain p where p: "fmlookup (presigns s) (a_PresignID r') = Some p" "p_attemptID p = j"
        "p_state p \<noteq> storedPresignAvailable" using attempt_presign [OF parts(6) r'] by metis
      have "B (a_PresignID r') p \<Longrightarrow> Terminal r' \<and> p_state p = storedPresignClaimed"
        using B [OF p(1)] p r' by (auto simp: burnable_def)
      then show ?thesis
        using inv_attD [OF parts(6) r'] p isCurrent_frame [of ?s s]
        by (auto simp: attemptEntryOk_def burnt_def cong: option.case_cong split: if_splits)
    qed
    then show ?thesis by (simp add: inv_att_def)
  qed
  moreover have "inv_gen ?s" "inv_lease ?s" "inv_cut ?s"
    using parts inv_gen_frame [of ?s s] inv_lease_frame [of ?s s] inv_cut_frame [of ?s s] by simp_all
  ultimately show ?thesis using inv_hist_same [OF i h] h by (simp add: store_inv_def)
qed

lemma burn_one:
  "fmlookup (presigns s) i = Some p \<Longrightarrow>
    s\<lparr>presigns := fmupd i (burnt r p) (presigns s)\<rparr> = burnWhere (\<lambda>j _. j = i) r s"
  unfolding burnWhere_def
  by (rule arg_cong [where f = "\<lambda>m. s\<lparr>presigns := m\<rparr>"]) (rule fmap_ext, auto simp: option.map_ident)

lemma valid_cutover_reason: "validateLifecycleReason ''generation cutover''"
  by (simp add: validateLifecycleReason_def printable_def str_bytes_def)

definition inEpoch :: "MemoryLifecycleStore \<Rightarrow> string \<Rightarrow> EpochID \<Rightarrow> storedPresign \<Rightarrow> bool" where
  "inEpoch s k e q \<longleftrightarrow> KeyID (p_binding q) = k \<and> Epoch (p_binding q) = e \<and> burnable s q"

lemma burn_epoch:
  assumes "inv_pre s"
  shows "burnEpochPresignsLocked k e s = burnWhere (\<lambda>_. inEpoch s k e) ''generation cutover'' s"
proof -
  have "burnEpochPresign s k e q = (if inEpoch s k e q then burnt ''generation cutover'' q else q)"
    if "fmlookup (presigns s) j = Some q" for j q
    using inv_preD(4) [OF assms that]
    by (cases "p_state q")
       (auto simp: burnEpochPresign_def inEpoch_def burnable_def burnt_def validateStoredPresign_def
          split: option.splits)
  then have "fmmap (burnEpochPresign s k e) (presigns s)
      = fmmap_keys (\<lambda>_ q. if inEpoch s k e q then burnt ''generation cutover'' q else q) (presigns s)"
    by (intro fmap_ext) (auto split: option.splits simp: map_option_case)
  then show ?thesis by (simp add: burnEpochPresignsLocked_def burnWhere_def)
qed

lemma inv_burnEpoch:
  assumes "store_inv s"
  shows "store_inv (burnEpochPresignsLocked k e s) \<and> hist s (burnEpochPresignsLocked k e s)"
  unfolding burn_epoch [OF inv_parts(5) [OF assms]]
  by (rule inv_burnWhere [OF assms valid_cutover_reason]) (simp add: inEpoch_def)

end
