(* ===== verification/Lifecycle_Cutover.thy ===== *)
theory Lifecycle_Cutover
  imports Lifecycle_Sign
begin

text \<open>
  Preservation of the invariant by the cutover updates: opening a fence, closing it, and committing
  it, which retires the source, burns its presigns and installs the target in one step.
\<close>

section \<open>Opening\<close>

definition fenceable :: "GenerationBinding \<Rightarrow> GenerationBinding \<Rightarrow> MemoryLifecycleStore \<Rightarrow> bool" where
  "fenceable source target s \<longleftrightarrow>
    store_inv s \<and> nextCutoverToken s + 1 \<noteq> 0 \<and> validateCutoverBindings source target
    \<and> \<not> fm_has (KeyID source) (cutoverByKey s) \<and> isCurrentLocked source s
    \<and> \<not> hasKeyGenerationLocked (KeyID target) (KeyGen target) s
    \<and> \<not> hasActiveLeaseLocked source s \<and> \<not> hasNonTerminalAttemptLocked source s"

lemma no_active_for_key:
  assumes "store_inv s" "isCurrentLocked b s" "\<not> hasActiveLeaseLocked b s"
  shows "\<not> hasActiveLeaseForKeyLocked (KeyID b) s"
proof
  assume "hasActiveLeaseForKeyLocked (KeyID b) s"
  then obtain t l where l: "fmlookup (leasesByToken s) t = Some l" "l_State l = RunLeaseActive"
    "KeyID (l_Binding l) = KeyID b" by (auto simp: hasActiveLeaseForKeyLocked_def fm_ex_iff)
  have "fmlookup (current s) (KeyID b) = Some b"
    using isCurrent_iff [OF inv_parts(1)] assms(1,2) by blast
  from active_on_current [OF inv_parts(1,2) [OF assms(1)] this l] assms(3) l
  show False by (auto simp: hasActiveLeaseLocked_def fm_ex_iff)
qed

lemma no_nonterminal_for_key:
  assumes "store_inv s" "isCurrentLocked b s" "\<not> hasNonTerminalAttemptLocked b s"
  shows "\<not> hasNonTerminalAttemptForKeyLocked (KeyID b) s"
proof
  assume "hasNonTerminalAttemptForKeyLocked (KeyID b) s"
  then obtain i r where r: "fmlookup (attempts s) i = Some r" "KeyID (a_Binding r) = KeyID b"
    "\<not> Terminal r" by (auto simp: hasNonTerminalAttemptForKeyLocked_def fm_ex_iff)
  then have "isCurrentLocked (a_Binding r) s"
    using inv_attD [OF inv_parts(6) [OF assms(1)]] by (auto simp: attemptEntryOk_def)
  then have "a_Binding r = b"
    using isCurrent_iff [OF inv_parts(1) [OF assms(1)]] assms(2) r(2) by auto
  with assms(3) r show False by (auto simp: hasNonTerminalAttemptLocked_def fm_ex_iff)
qed

definition fenced :: "GenerationBinding \<Rightarrow> GenerationBinding \<Rightarrow> MemoryLifecycleStore \<Rightarrow> MemoryLifecycleStore" where
  "fenced source target s = snd (openCutover source target s)"

lemma cutover_fresh:
  assumes "inv_cut s" "nextCutoverToken s + 1 \<noteq> 0"
  shows "fmlookup (cutoversByToken s) (nextCutoverToken s + 1) = None"
proof (rule ccontr)
  assume "\<not> ?thesis"
  then obtain c where "fmlookup (cutoversByToken s) (nextCutoverToken s + 1) = Some c" by auto
  then have "cutoverEntryOk s (nextCutoverToken s + 1) c" using assms(1) unfolding inv_cut_def by blast
  then have "\<not> nextCutoverToken s < nextCutoverToken s + 1" by (simp add: cutoverEntryOk_def Let_def)
  with word_less_inc [OF assms(2)] show False by simp
qed

lemma inv_fenced:
  assumes f: "fenceable source target s"
  shows "store_inv (fenced source target s) \<and> hist s (fenced source target s)" (is "store_inv ?s \<and> hist s ?s")
proof -
  let ?t = "nextCutoverToken s + 1"
  let ?f = "\<lparr>f_Token = ?t, f_Source = source, f_Target = target\<rparr>"
  from f have i: "store_inv s" and nw: "?t \<noteq> 0" and vb: "validateCutoverBindings source target"
    and nf: "\<not> fm_has (KeyID source) (cutoverByKey s)" and cur: "isCurrentLocked source s"
    and nm: "\<not> hasKeyGenerationLocked (KeyID target) (KeyGen target) s"
    and nl: "\<not> hasActiveLeaseLocked source s" and na: "\<not> hasNonTerminalAttemptLocked source s"
    by (simp_all add: fenceable_def)
  note parts = inv_parts [OF i]
  note fresh = cutover_fresh [OF parts(7) nw]
  have eq: "?s = s\<lparr>nextCutoverToken := ?t, cutoversByToken := fmupd ?t (newCutover ?f) (cutoversByToken s),
      cutoverByKey := fmupd (KeyID source) ?t (cutoverByKey s)\<rparr>"
    by (simp add: fenced_def openCutover_def Let_def)
  have h: "hist s ?s" using cutover_order.rec_le_new [OF fresh] by (simp add: hist_def eq)
  have tgt: "\<not> fm_has target (generations s)"
    using nm by (auto simp: hasKeyGenerationLocked_def fm_ex_iff fm_has_iff)
  have guards: "isCurrentLocked b ?s = isCurrentLocked b s"
    "hasKeyGenerationLocked k n ?s = hasKeyGenerationLocked k n s"
    "hasActiveLeaseForKeyLocked k ?s = hasActiveLeaseForKeyLocked k s"
    "hasNonTerminalAttemptLocked b ?s = hasNonTerminalAttemptLocked b s" for b k n
    unfolding locked by (simp_all add: eq cong: option.case_cong)
  have old: "cutoverEntryOk ?s t c \<and> (c_state c = storedCutoverActive \<longrightarrow>
       fmlookup (cutoverByKey ?s) (KeyID (f_Source (c_fence c))) = Some t
       \<and> \<not> hasKeyGenerationLocked (KeyID (f_Target (c_fence c))) (KeyGen (f_Target (c_fence c))) ?s)"
    if c: "fmlookup (cutoversByToken s) t = Some c" for t c
  proof -
    from parts(7) c have ok: "cutoverEntryOk s t c" and act: "c_state c = storedCutoverActive \<Longrightarrow>
        fmlookup (cutoverByKey s) (KeyID (f_Source (c_fence c))) = Some t
        \<and> \<not> hasKeyGenerationLocked (KeyID (f_Target (c_fence c))) (KeyGen (f_Target (c_fence c))) s"
      unfolding inv_cut_def by blast+
    from act nf have k: "c_state c = storedCutoverActive \<Longrightarrow> KeyID (f_Source (c_fence c)) \<noteq> KeyID source"
      by (auto simp: fm_has_def)
    have "\<not> ?t < t" using ok word_less_inc [OF nw] by (auto simp: cutoverEntryOk_def Let_def)
    then show ?thesis using ok act k
      by (cases "c_state c")
         (auto simp: cutoverEntryOk_def Let_def guards validateCommittedCutover_def fm_get_def
            eq [THEN arg_cong [where f = cutoverByKey]] eq [THEN arg_cong [where f = generations]]
            eq [THEN arg_cong [where f = nextCutoverToken]] cong: option.case_cong)
  qed
  have new: "cutoverEntryOk ?s ?t (newCutover ?f)"
    using vb nw cur tgt no_active_for_key [OF i cur nl] na
    by (simp add: cutoverEntryOk_def Let_def newCutover_def validateCutoverFence_def guards eq
        [THEN arg_cong [where f = cutoverByKey]] eq [THEN arg_cong [where f = generations]]
        eq [THEN arg_cong [where f = nextCutoverToken]])
  have "inv_cut ?s"
    unfolding inv_cut_def
  proof (intro conjI allI impI)
    fix t c assume c: "fmlookup (cutoversByToken ?s) t = Some c"
    show "cutoverEntryOk ?s t c" using c new old by (cases "t = ?t") (auto simp: eq)
    assume a: "c_state c = storedCutoverActive"
    show "fmlookup (cutoverByKey ?s) (KeyID (f_Source (c_fence c))) = Some t"
      using c a old by (cases "t = ?t") (auto simp: eq newCutover_def)
    show "\<not> hasKeyGenerationLocked (KeyID (f_Target (c_fence c))) (KeyGen (f_Target (c_fence c))) ?s"
      using c a old nm by (cases "t = ?t") (auto simp: guards newCutover_def eq [THEN arg_cong [where f = cutoversByToken]])
  next
    fix k t assume k: "fmlookup (cutoverByKey ?s) k = Some t"
    show "\<exists>c. fmlookup (cutoversByToken ?s) t = Some c \<and> c_state c = storedCutoverActive
        \<and> KeyID (f_Source (c_fence c)) = k"
    proof (cases "k = KeyID source")
      case False
      with k have "fmlookup (cutoverByKey s) k = Some t" by (simp add: eq)
      with parts(7) obtain c where "fmlookup (cutoversByToken s) t = Some c" "c_state c = storedCutoverActive"
        "KeyID (f_Source (c_fence c)) = k" unfolding inv_cut_def by blast
      then show ?thesis using fresh by (auto simp: eq)
    qed (use k in \<open>auto simp: eq newCutover_def\<close>)
  qed
  moreover have "inv_gen ?s" "inv_lease ?s" "inv_pre ?s" "inv_att ?s"
    using parts inv_gen_frame [of ?s s] inv_lease_frame [of ?s s] inv_pre_frame [of ?s s]
      inv_att_frame [of ?s s] by (simp_all add: eq)
  moreover have "inv_eff ?s" "inv_ref ?s" "inv_tomb ?s" using inv_hist_same [OF i h] by (simp_all add: eq)
  ultimately show ?thesis using h by (simp add: store_inv_def)
qed

section \<open>Closing\<close>

definition closeCutover :: "u64 \<Rightarrow> storedCutover \<Rightarrow> MemoryLifecycleStore \<Rightarrow> MemoryLifecycleStore" where
  "closeCutover t c s =
    s\<lparr>cutoversByToken := fmupd t c (cutoversByToken s),
      cutoverByKey := fmdrop (KeyID (f_Source (c_fence c))) (cutoverByKey s)\<rparr>"

lemma closeCutover_sel [simp]:
  "generations (closeCutover t c s) = generations s" "current (closeCutover t c s) = current s"
  "leasesByToken (closeCutover t c s) = leasesByToken s" "leaseBySession (closeCutover t c s) = leaseBySession s"
  "leaseEffects (closeCutover t c s) = leaseEffects s" "refreshDisabled (closeCutover t c s) = refreshDisabled s"
  "reshareReceivers (closeCutover t c s) = reshareReceivers s" "attempts (closeCutover t c s) = attempts s"
  "presigns (closeCutover t c s) = presigns s" "tombstones (closeCutover t c s) = tombstones s"
  "nextLeaseToken (closeCutover t c s) = nextLeaseToken s"
  "nextCutoverToken (closeCutover t c s) = nextCutoverToken s"
  "cutoversByToken (closeCutover t c s) = fmupd t c (cutoversByToken s)"
  "cutoverByKey (closeCutover t c s) = fmdrop (KeyID (f_Source (c_fence c))) (cutoverByKey s)"
  by (simp_all add: closeCutover_def)

lemma inv_cutD:
  assumes "inv_cut s" "fmlookup (cutoversByToken s) t = Some c"
  shows "cutoverEntryOk s t c"
    "c_state c = storedCutoverActive \<Longrightarrow> fmlookup (cutoverByKey s) (KeyID (f_Source (c_fence c))) = Some t"
    "c_state c = storedCutoverActive \<Longrightarrow>
      \<not> hasKeyGenerationLocked (KeyID (f_Target (c_fence c))) (KeyGen (f_Target (c_fence c))) s"
  using assms unfolding inv_cut_def by blast+

lemma inv_cut_index:
  assumes "inv_cut s" "fmlookup (cutoverByKey s) k = Some t"
  obtains c where "fmlookup (cutoversByToken s) t = Some c" "c_state c = storedCutoverActive"
    "KeyID (f_Source (c_fence c)) = k"
  using assms unfolding inv_cut_def by blast

text \<open>An entry of the cutover map depends on the index only while it is active.\<close>

lemma cutoverEntryOk_frame:
  assumes "generations s' = generations s" "current s' = current s" "leasesByToken s' = leasesByToken s"
    "attempts s' = attempts s" "nextCutoverToken s' = nextCutoverToken s"
    and "c_state c = storedCutoverActive \<Longrightarrow> fmlookup (cutoverByKey s') (KeyID (f_Source (c_fence c)))
      = fmlookup (cutoverByKey s) (KeyID (f_Source (c_fence c)))"
  shows "cutoverEntryOk s' t c = cutoverEntryOk s t c"
proof (cases "c_state c = storedCutoverActive")
  case True
  then show ?thesis unfolding cutoverEntryOk_def locked assms(1-5) fm_get_def Let_def
    using assms(6) by simp
next
  case False
  then show ?thesis unfolding cutoverEntryOk_def validateCommittedCutover_def assms(1-5) Let_def
    by (cases "c_state c") simp_all
qed

lemma inv_closeCutover:
  assumes i: "store_inv s" and c: "fmlookup (cutoversByToken s) t = Some c" "c_state c = storedCutoverActive"
    and v: "validateLifecycleReason reason"
  defines "c' \<equiv> c\<lparr>c_state := storedCutoverAborted, c_reason := reason\<rparr>"
  shows "store_inv (closeCutover t c' s) \<and> hist s (closeCutover t c' s)" (is "store_inv ?s \<and> hist s ?s")
proof -
  note parts = inv_parts [OF i] and D = inv_cutD [OF inv_parts(7) [OF i] c(1)]
  have h: "hist s ?s"
    using cutover_order.rec_le_upd [OF c(1), of c'] c(2) by (simp add: hist_def cutover_le_def c'_def)
  have other: "KeyID (f_Source (c_fence d)) \<noteq> KeyID (f_Source (c_fence c))"
    if "fmlookup (cutoversByToken s) u = Some d" "c_state d = storedCutoverActive" "u \<noteq> t" for u d
    using inv_cutD(2) [OF parts(7) that(1,2)] D(2) [OF c(2)] that(3) by auto
  have new: "cutoverEntryOk ?s t c'"
    using D(1) c(2) v by (simp add: cutoverEntryOk_def Let_def c'_def)
  have "inv_cut ?s"
    unfolding inv_cut_def
  proof (intro conjI allI impI)
    fix u d assume d: "fmlookup (cutoversByToken ?s) u = Some d"
    show "cutoverEntryOk ?s u d"
    proof (cases "u = t")
      case False
      with d have d': "fmlookup (cutoversByToken s) u = Some d" by simp
      have "cutoverEntryOk ?s u d = cutoverEntryOk s u d"
        by (rule cutoverEntryOk_frame) (use other [OF d' _ False] in \<open>simp_all add: c'_def\<close>)
      with inv_cutD(1) [OF parts(7) d'] show ?thesis by simp
    qed (use d new in auto)
    assume a: "c_state d = storedCutoverActive"
    then have ut: "u \<noteq> t" using d by (auto simp: c'_def)
    with d have d': "fmlookup (cutoversByToken s) u = Some d" by simp
    show "fmlookup (cutoverByKey ?s) (KeyID (f_Source (c_fence d))) = Some u"
      using inv_cutD(2) [OF parts(7) d' a] other [OF d' a ut] by (simp add: c'_def)
    show "\<not> hasKeyGenerationLocked (KeyID (f_Target (c_fence d))) (KeyGen (f_Target (c_fence d))) ?s"
      using inv_cutD(3) [OF parts(7) d' a] by (simp add: hasKeyGenerationLocked_def tombstonedLocked_def)
  next
    fix k u assume k: "fmlookup (cutoverByKey ?s) k = Some u"
    then have k': "fmlookup (cutoverByKey s) k = Some u" "k \<noteq> KeyID (f_Source (c_fence c))"
      by (auto simp: c'_def split: if_splits)
    from inv_cut_index [OF parts(7) k'(1)] obtain d where
      d: "fmlookup (cutoversByToken s) u = Some d" "c_state d = storedCutoverActive"
        "KeyID (f_Source (c_fence d)) = k" by blast
    then have "u \<noteq> t" using c k' by auto
    with d show "\<exists>d. fmlookup (cutoversByToken ?s) u = Some d \<and> c_state d = storedCutoverActive
        \<and> KeyID (f_Source (c_fence d)) = k" by simp
  qed
  moreover have "inv_gen ?s" "inv_lease ?s" "inv_pre ?s" "inv_att ?s"
    using parts inv_gen_frame [of ?s s] inv_lease_frame [of ?s s] inv_pre_frame [of ?s s]
      inv_att_frame [of ?s s] by simp_all
  moreover have "inv_eff ?s" "inv_ref ?s" "inv_tomb ?s" using inv_hist_same [OF i h] by simp_all
  ultimately show ?thesis using h by (simp add: store_inv_def)
qed

text \<open>Rewriting a closed entry into a committed one.\<close>

lemma inv_recommit:
  assumes i: "store_inv s" and c: "fmlookup (cutoversByToken s) t = Some c" "c_state c \<noteq> storedCutoverActive"
    and c': "c_fence c' = c_fence c" "c_state c' = storedCutoverCommitted" "validateCommittedCutover s c'"
  shows "store_inv (s\<lparr>cutoversByToken := fmupd t c' (cutoversByToken s)\<rparr>)" (is "store_inv ?s")
proof -
  note parts = inv_parts [OF i] and D = inv_cutD [OF inv_parts(7) [OF i] c(1)]
  have frame: "cutoverEntryOk ?s u d = cutoverEntryOk s u d" for u d
    by (rule cutoverEntryOk_frame) simp_all
  have new: "cutoverEntryOk s t c'" using D(1) c' by (simp add: cutoverEntryOk_def Let_def)
  have ok: "cutoverEntryOk ?s u d" if "fmlookup (cutoversByToken ?s) u = Some d" for u d
    unfolding frame using that new inv_cutD(1) [OF parts(7)] by (cases "u = t") auto
  have act: "u \<noteq> t \<and> fmlookup (cutoversByToken s) u = Some d"
    if "fmlookup (cutoversByToken ?s) u = Some d" "c_state d = storedCutoverActive" for u d
    using that c' by (auto split: if_splits)
  have idx: "\<exists>d. fmlookup (cutoversByToken ?s) u = Some d \<and> c_state d = storedCutoverActive
      \<and> KeyID (f_Source (c_fence d)) = k" if "fmlookup (cutoverByKey s) k = Some u" for k u
  proof -
    from inv_cut_index [OF parts(7) that] obtain d where
      d: "fmlookup (cutoversByToken s) u = Some d" "c_state d = storedCutoverActive"
        "KeyID (f_Source (c_fence d)) = k" by blast
    then have "u \<noteq> t" using c by auto
    with d show ?thesis by simp
  qed
  have name: "hasKeyGenerationLocked k n ?s = hasKeyGenerationLocked k n s" for k n
    by (simp add: hasKeyGenerationLocked_def tombstonedLocked_def)
  have key: "cutoverByKey ?s = cutoverByKey s" by simp
  have "inv_cut ?s"
    unfolding inv_cut_def name key using ok act idx inv_cutD(2,3) [OF parts(7)] by blast
  moreover have "inv_eff ?s"
  proof -
    have "leaseEffectOk ?s u e" if "leaseEffectOk s u e" for u e
      using that c c'(1)
      by (cases "e_Kind e") (auto simp: leaseEffectOk_def split: option.splits)
    then show ?thesis using parts(3) by (simp add: inv_eff_def)
  qed
  moreover have "inv_gen ?s" "inv_lease ?s" "inv_pre ?s" "inv_att ?s" "inv_ref ?s" "inv_tomb ?s"
    using parts inv_gen_frame [of ?s s] inv_lease_frame [of ?s s] inv_pre_frame [of ?s s]
      inv_att_frame [of ?s s] inv_ref_frame [of ?s s] inv_tomb_frame [of ?s s] by simp_all
  ultimately show ?thesis by (simp add: store_inv_def)
qed

end
