(* ===== verification/Lifecycle_Steps.thy ===== *)
theory Lifecycle_Steps
  imports Lifecycle_Cutover
begin

text \<open>
  Every operation of the lifecycle store keeps the invariant and moves the store forward in the
  history order, as long as the two 64-bit token counters have a next value.
\<close>

definition nowrap :: "MemoryLifecycleStore \<Rightarrow> bool" where
  "nowrap s \<longleftrightarrow> nextLeaseToken s + 1 \<noteq> 0 \<and> nextCutoverToken s + 1 \<noteq> 0"

definition good :: "MemoryLifecycleStore \<Rightarrow> MemoryLifecycleStore \<Rightarrow> bool" where
  "good s s' \<longleftrightarrow> store_inv s' \<and> hist s s'"

lemma good_refl [intro]: "store_inv s \<Longrightarrow> good s s"
  by (simp add: good_def)

lemma goodI [intro]: "store_inv s' \<Longrightarrow> hist s s' \<Longrightarrow> good s s'"
  by (simp add: good_def)

lemma good_trans: "good s s' \<Longrightarrow> good s' s'' \<Longrightarrow> good s s''"
  unfolding good_def using hist_trans by blast

section \<open>Walking through an operation\<close>

text \<open>
  \<open>step_or s Q r\<close>: an operation that started in \<open>s\<close> and returned \<open>r\<close> either left the store alone or
  made it satisfy \<open>Q\<close>.  The rules below follow the branches of an operation's body and collect its
  guards as premises.
\<close>

definition step_or :: "'s \<Rightarrow> ('s \<Rightarrow> bool) \<Rightarrow> 'r \<times> 's \<Rightarrow> bool" where
  "step_or s Q r \<longleftrightarrow> snd r = s \<or> Q (snd r)"

lemma step_same: "step_or s Q (x, s)"
  by (simp add: step_or_def)

lemma step_if: "(c \<Longrightarrow> step_or s Q x) \<Longrightarrow> (\<not> c \<Longrightarrow> step_or s Q y) \<Longrightarrow> step_or s Q (if c then x else y)"
  by simp

lemma step_option:
  "(m = None \<Longrightarrow> step_or s Q x) \<Longrightarrow> (\<And>v. m = Some v \<Longrightarrow> step_or s Q (f v))
    \<Longrightarrow> step_or s Q (case m of None \<Rightarrow> x | Some v \<Rightarrow> f v)"
  by (cases m) simp_all

lemma step_sum:
  "(\<And>e. m = Inl e \<Longrightarrow> step_or s Q (g e)) \<Longrightarrow> (\<And>v. m = Inr v \<Longrightarrow> step_or s Q (f v))
    \<Longrightarrow> step_or s Q (case m of Inl e \<Rightarrow> g e | Inr v \<Rightarrow> f v)"
  by (cases m) simp_all

lemma step_leaf: "Q s' \<Longrightarrow> step_or s Q (x, s')"
  by (simp add: step_or_def)

lemma step_presign:
  "(p = storedPresignAvailable \<Longrightarrow> step_or s Q x) \<Longrightarrow> (p = storedPresignClaimed \<Longrightarrow> step_or s Q y)
    \<Longrightarrow> (p = storedPresignBurned \<Longrightarrow> step_or s Q z)
    \<Longrightarrow> step_or s Q (case p of storedPresignAvailable \<Rightarrow> x | storedPresignClaimed \<Rightarrow> y
      | storedPresignBurned \<Rightarrow> z)"
  by (cases p) simp_all

lemmas step_rules = step_same step_if step_option step_sum step_presign

lemma step_good: "step_or s Q r \<Longrightarrow> store_inv s \<Longrightarrow> (\<And>s'. Q s' \<Longrightarrow> good s s') \<Longrightarrow> good s (snd r)"
  by (auto simp: step_or_def good_refl)

section \<open>Generations and leases\<close>

lemma hasKeyGeneration_hasGeneration:
  "\<not> hasGenerationForKeyLocked k s \<Longrightarrow> \<not> tombstonedLocked ''generation-name'' (generationName k n) s
    \<Longrightarrow> \<not> hasKeyGenerationLocked k n s"
  unfolding hasKeyGenerationLocked_def hasGenerationForKeyLocked_def fm_ex_iff by blast

lemma InstallInitialGeneration_step:
  "step_or s (\<lambda>s'. GenerationBinding_Validate b \<and> blob \<noteq> [] \<and> \<not> fm_has (KeyID b) (current s)
      \<and> \<not> hasKeyGenerationLocked (KeyID b) (KeyGen b) s \<and> \<not> hasActiveLeaseForKeyLocked (KeyID b) s
      \<and> s' = installGen \<lparr>g_Binding = b, g_Blob = blob, g_Metadata = metadata,
            g_Status = GenerationCurrent\<rparr> s)
    (InstallInitialGeneration ctx b blob metadata s)"
  unfolding InstallInitialGeneration_def Let_def
  by (intro step_rules; intro step_leaf)
     (simp add: installGen_def fm_has_def validateLifecycleBlob_def hasKeyGeneration_hasGeneration)

lemma InstallInitialGeneration_good:
  "store_inv s \<Longrightarrow> good s (snd (InstallInitialGeneration ctx b blob metadata s))"
  by (rule step_good [OF InstallInitialGeneration_step]) (auto simp: good_def inv_install)

lemma validateRunLease_new:
  "GenerationBinding_Validate b \<Longrightarrow> validLeaseRunKind kind \<Longrightarrow> SessionID_Valid sid
    \<Longrightarrow> nextLeaseToken s + 1 \<noteq> 0 \<Longrightarrow> validateRunLease (newLease b kind sid s)"
  by (simp add: validateRunLease_def newLease_def)

definition leaseFree :: "GenerationBinding \<Rightarrow> RunKind \<Rightarrow> MemoryLifecycleStore \<Rightarrow> bool" where
  "leaseFree b kind s \<longleftrightarrow>
    (if kind = RunKeygen
     then \<not> fm_has (KeyID b) (current s) \<and> \<not> hasGenerationForKeyLocked (KeyID b) s
       \<and> \<not> hasActiveLeaseForKeyLocked (KeyID b) s
     else isCurrentLocked b s \<and> \<not> fm_has (KeyID b) (cutoverByKey s)
       \<and> \<not> hasIncompatibleLeaseLocked b kind s)"

lemma AcquireRunLease_step:
  "step_or s (\<lambda>s'. GenerationBinding_Validate b \<and> validLeaseRunKind kind \<and> SessionID_Valid sid
      \<and> \<not> tombstonedLocked ''session'' (array32_bytes sid) s \<and> fmlookup (leaseBySession s) sid = None
      \<and> leaseFree b kind s \<and> s' = storeLease (newLease b kind sid s) s)
    (AcquireRunLease ctx b kind sid s)"
  unfolding AcquireRunLease_def Let_def
  by (intro step_rules; intro step_leaf) (auto simp: leaseFree_def)

lemma AcquireRunLease_good:
  assumes i: "store_inv s" and nw: "nowrap s"
  shows "good s (snd (AcquireRunLease ctx b kind sid s))"
proof (rule step_good [OF AcquireRunLease_step i], elim conjE)
  let ?l = "newLease b kind sid s"
  fix s' assume v: "GenerationBinding_Validate b" "validLeaseRunKind kind" "SessionID_Valid sid"
    "\<not> tombstonedLocked ''session'' (array32_bytes sid) s" "fmlookup (leaseBySession s) sid = None"
    "leaseFree b kind s" and eq: "s' = storeLease ?l s"
  have kg: "kind = RunKeygen \<Longrightarrow> \<not> fm_has (KeyID b) (current s) \<and> \<not> hasGenerationForKeyLocked (KeyID b) s
        \<and> \<not> hasActiveLeaseForKeyLocked (KeyID b) s"
    and ot: "kind \<noteq> RunKeygen \<Longrightarrow> isCurrentLocked b s \<and> \<not> fm_has (KeyID b) (cutoverByKey s)
        \<and> \<not> hasIncompatibleLeaseLocked b kind s"
    using v(6) by (simp_all add: leaseFree_def)
  note parts = inv_parts [OF i]
  have gr: "storeLease ?l s = grant ?l None s" by (simp add: grant_def storeLease_def)
  have l: "l_Token ?l = nextLeaseToken s + 1" "l_Binding ?l = b" "l_Kind ?l = kind" "l_SessionID ?l = sid"
    "l_State ?l = RunLeaseActive" by (simp_all add: newLease_def)
  have nw': "nextLeaseToken s + 1 \<noteq> 0" using nw by (simp add: nowrap_def)
  have cur: "isCurrentLocked b (grant ?l None s) = isCurrentLocked b s" by (rule isCurrent_frame) simp_all
  have "activeOk (grant ?l None s) (l_Token ?l) ?l"
    using kg ot token_fresh(2) [OF parts(2) nw'] cur
    by (cases "kind = RunKeygen") (simp_all add: activeOk_def l hasGenerationForKeyLocked_def newLease_def)
  moreover have "\<not> fm_has (KeyID b) (cutoverByKey s)"
    using kg ot fenced_current [OF parts(7), of "KeyID b"] by blast
  moreover have "\<not> exclusiveLeaseRunKind (l_Kind m) \<and> \<not> exclusiveLeaseRunKind kind"
    if m: "fmlookup (leasesByToken s) u = Some m" "l_State m = RunLeaseActive"
      "KeyID (l_Binding m) = KeyID b" for u m
  proof -
    have ne: "kind \<noteq> RunKeygen" using kg m by (auto simp: hasActiveLeaseForKeyLocked_def fm_ex_iff)
    then have "fmlookup (current s) (KeyID b) = Some b" using ot isCurrent_iff [OF parts(1)] by blast
    from active_on_current [OF parts(1,2) this m] ot ne m show ?thesis
      by (auto simp: hasIncompatibleLeaseLocked_def fm_ex_iff)
  qed
  ultimately have "grantable s ?l None"
    using i nw' v validateRunLease_new [OF v(1-3) nw'] by (auto simp: grantable_def l)
  then show "good s s'" unfolding eq gr using inv_grant hist_grant by blast
qed

lemma AcquireReshareReceiverLease_step:
  "step_or s (\<lambda>s'. ReshareReceiverAnchor_Validate a
      \<and> \<not> tombstonedLocked ''session'' (array32_bytes (r_SessionID a)) s
      \<and> fmlookup (leaseBySession s) (r_SessionID a) = None \<and> \<not> fm_has (KeyID (r_Source a)) (current s)
      \<and> \<not> hasActiveLeaseForKeyLocked (KeyID (r_Source a)) s
      \<and> \<not> fm_has (KeyID (r_Source a)) (cutoverByKey s)
      \<and> \<not> hasKeyGenerationLocked (KeyID (r_Source a)) (r_TargetKeyGeneration a) s
      \<and> s' = grant (newLease (r_Source a) RunReshare (r_SessionID a) s) (Some a) s)
    (AcquireReshareReceiverLease ctx a s)"
  unfolding AcquireReshareReceiverLease_def Let_def
  by (intro step_rules; intro step_leaf) (simp add: grant_def storeLease_def)

lemma AcquireReshareReceiverLease_good:
  assumes i: "store_inv s" and nw: "nowrap s"
  shows "good s (snd (AcquireReshareReceiverLease ctx a s))"
proof (rule step_good [OF AcquireReshareReceiverLease_step i], elim conjE)
  let ?b = "r_Source a" and ?l = "newLease (r_Source a) RunReshare (r_SessionID a) s"
  fix s' assume v: "ReshareReceiverAnchor_Validate a"
    "\<not> tombstonedLocked ''session'' (array32_bytes (r_SessionID a)) s"
    "fmlookup (leaseBySession s) (r_SessionID a) = None" "\<not> fm_has (KeyID ?b) (current s)"
    "\<not> hasActiveLeaseForKeyLocked (KeyID ?b) s" "\<not> fm_has (KeyID ?b) (cutoverByKey s)"
    "\<not> hasKeyGenerationLocked (KeyID ?b) (r_TargetKeyGeneration a) s"
    and eq: "s' = grant ?l (Some a) s"
  have l: "l_Token ?l = nextLeaseToken s + 1" "l_Binding ?l = ?b" "l_Kind ?l = RunReshare"
    "l_SessionID ?l = r_SessionID a" "l_State ?l = RunLeaseActive" by (simp_all add: newLease_def)
  have nw': "nextLeaseToken s + 1 \<noteq> 0" using nw by (simp add: nowrap_def)
  have "activeOk (grant ?l (Some a) s) (l_Token ?l) ?l"
    using v by (simp add: activeOk_def l hasKeyGenerationLocked_def tombstonedLocked_def)
  moreover have "validateRunLease ?l"
    using v(1) validateRunLease_new [OF _ _ _ nw', of ?b RunReshare "r_SessionID a"]
    by (simp add: ReshareReceiverAnchor_Validate_def)
  moreover have "\<not> (fmlookup (leasesByToken s) u = Some m \<and> l_State m = RunLeaseActive
      \<and> KeyID (l_Binding m) = KeyID ?b)" for u m
    using v(5) by (auto simp: hasActiveLeaseForKeyLocked_def fm_ex_iff)
  ultimately have "grantable s ?l (Some a)" using i nw' v by (auto simp: grantable_def l)
  then show "good s s'" unfolding eq using inv_grant hist_grant by blast
qed

lemma FinishRunLease_step:
  "step_or s (\<lambda>s'. \<exists>stored st. fmlookup (leasesByToken s) (l_Token lease) = Some stored
      \<and> l_State stored = RunLeaseActive \<and> (st = RunLeaseCompleted \<or> st = RunLeaseAborted)
      \<and> s' = endLease (l_Token lease) stored st s)
    (FinishRunLease ctx lease outcome s)"
  unfolding FinishRunLease_def Let_def
  by (intro step_rules; intro step_leaf exI conjI)
     (auto simp: setLeaseState_endLease simp flip: endLease_def)

lemma FinishRunLease_good: "store_inv s \<Longrightarrow> good s (snd (FinishRunLease ctx lease outcome s))"
  by (rule step_good [OF FinishRunLease_step]) (auto simp: inv_endLease hist_endLease)

end
