(* ===== verification/Lifecycle_Steps_Sign.thy ===== *)
theory Lifecycle_Steps_Sign
  imports Lifecycle_Steps
begin

text \<open>
  Preservation for the operations on presigns and signing attempts, and for the operations that end
  a lease and record its effect.
\<close>

section \<open>Ending a lease with an effect\<close>

lemma exactActive_iff:
  "exactActiveLeaseLocked lease s = Inr stored \<longleftrightarrow>
    fmlookup (leasesByToken s) (l_Token lease) = Some stored \<and> l_Binding stored = l_Binding lease
    \<and> l_Kind stored = l_Kind lease \<and> l_SessionID stored = l_SessionID lease
    \<and> l_State stored = RunLeaseActive"
  by (auto simp: exactActiveLeaseLocked_def split: option.splits if_splits)

lemma not_receiver:
  assumes "store_inv s" "fmlookup (leasesByToken s) t = Some l" "l_State l = RunLeaseActive"
    and "l_Kind l \<noteq> RunReshare \<or> isCurrentLocked (l_Binding l) s"
  shows "\<not> fm_has t (reshareReceivers s)"
proof
  assume "fm_has t (reshareReceivers s)"
  then obtain a where a: "fmlookup (reshareReceivers s) t = Some a" by (auto simp: fm_has_iff)
  from assms(1-3) have "activeOk s t l" by (auto simp: store_inv_def inv_lease_def)
  with a assms(4) show False using isCurrent_has by (auto simp: activeOk_def)
qed

lemma setLeaseEffect_sel [simp]:
  "generations (setLeaseEffect e s) = generations s" "current (setLeaseEffect e s) = current s"
  "leasesByToken (setLeaseEffect e s) = leasesByToken s"
  "leaseBySession (setLeaseEffect e s) = leaseBySession s"
  "refreshDisabled (setLeaseEffect e s) = refreshDisabled s"
  "reshareReceivers (setLeaseEffect e s) = reshareReceivers s"
  "attempts (setLeaseEffect e s) = attempts s" "presigns (setLeaseEffect e s) = presigns s"
  "cutoversByToken (setLeaseEffect e s) = cutoversByToken s"
  "cutoverByKey (setLeaseEffect e s) = cutoverByKey s" "tombstones (setLeaseEffect e s) = tombstones s"
  "nextLeaseToken (setLeaseEffect e s) = nextLeaseToken s"
  "nextCutoverToken (setLeaseEffect e s) = nextCutoverToken s"
  "leaseEffects (setLeaseEffect e s) = fmupd (e_LeaseToken e) e (leaseEffects s)"
  by (simp_all add: setLeaseEffect_def)

lemma hist_setLeaseEffect:
  "fmlookup (leaseEffects s) (e_LeaseToken e) = None \<Longrightarrow> hist s (setLeaseEffect e s)"
  by (simp add: hist_def eq_order.rec_le_new)

lemma good_setLeaseEffect:
  assumes i: "store_inv s" and n: "fmlookup (leaseEffects s) (e_LeaseToken e) = None"
    and ok: "leaseEffectOk s (e_LeaseToken e) e"
  shows "good s (setLeaseEffect e s)" (is "good s ?s")
proof -
  note parts = inv_parts [OF i] and h = hist_setLeaseEffect [OF n]
  have "inv_ref ?s" by (rule inv_ref_hist [OF parts(4) h]) simp_all
  moreover have "inv_gen ?s = inv_gen s" by (rule inv_gen_frame) simp_all
  moreover have "inv_lease ?s = inv_lease s" by (rule inv_lease_frame) simp_all
  moreover have "inv_pre ?s = inv_pre s" by (rule inv_pre_frame) simp_all
  moreover have "inv_att ?s = inv_att s" by (rule inv_att_frame) simp_all
  moreover have "inv_cut ?s = inv_cut s" by (rule inv_cut_frame) simp_all
  moreover have "inv_tomb ?s = inv_tomb s" by (rule inv_tomb_frame) simp_all
  ultimately show ?thesis
    using parts inv_eff_new [OF parts(3) ok] h by (simp add: good_def store_inv_def)
qed

lemma good_endLease_effect:
  assumes "store_inv s" "fmlookup (leasesByToken s) t = Some l" "l_State l = RunLeaseActive"
    "st = RunLeaseCompleted \<or> st = RunLeaseAborted"
    and "fmlookup (leaseEffects s) t = None" "e_LeaseToken e = t" "leaseEffectOk (endLease t l st s) t e"
  shows "good s (setLeaseEffect e (endLease t l st s))"
proof (rule good_trans)
  show "good s (endLease t l st s)"
    using assms(1-4) by (simp add: goodI inv_endLease hist_endLease)
  show "good (endLease t l st s) (setLeaseEffect e (endLease t l st s))"
    using assms by (intro good_setLeaseEffect) (simp_all add: inv_endLease)
qed

section \<open>A failed refresh\<close>

text \<open>The disabling record and the effect of the lease are consistent only together.\<close>

lemma good_refreshDisabled:
  assumes i: "store_inv s" and k: "\<not> fm_has (d_KeyID d) (refreshDisabled s)"
    and n: "fmlookup (leaseEffects s) (e_LeaseToken e) = None"
    and e: "e_Kind e = storedLeaseEffectRefreshFailed" "e_Reason e = d_Reason d"
    and l: "fmlookup (leasesByToken s) (e_LeaseToken e) = Some l" "l_State l = RunLeaseAborted"
      "l_Kind l = RunRefresh" "KeyID (l_Binding l) = d_KeyID d" "l_SessionID l = d_SessionID d"
    and d: "SessionID_Valid (d_SessionID d)" "validateLifecycleReason (d_Reason d)"
  shows "good s (setLeaseEffect e (s\<lparr>refreshDisabled := fmupd (d_KeyID d) d (refreshDisabled s)\<rparr>))"
    (is "good s (setLeaseEffect e ?r)")
proof -
  let ?s = "setLeaseEffect e ?r"
  note parts = inv_parts [OF i]
  have h: "hist s ?r" using k by (simp add: hist_def eq_order.rec_le_new fm_has_def)
  have h': "hist ?r ?s" using n by (simp add: hist_setLeaseEffect)
  have "inv_eff ?r" by (rule inv_eff_hist [OF parts(3) h]) simp
  then have "inv_eff ?s" using e l by (intro inv_eff_new) (simp_all add: leaseEffectOk_def)
  moreover have "inv_ref ?s"
    unfolding inv_ref_def
  proof (intro allI impI)
    fix k' d' assume l': "fmlookup (refreshDisabled ?s) k' = Some d'"
    show "refreshDisabledOk ?s k' d'"
    proof (cases "k' = d_KeyID d")
      case True
      have "fmlookup (leaseBySession s) (l_SessionID l) = Some (e_LeaseToken e)"
        using parts(2) l(1) by (auto simp: inv_lease_def)
      with True l' d e l show ?thesis by (simp add: refreshDisabledOk_def)
    next
      case False
      with l' have "fmlookup (refreshDisabled s) k' = Some d'" by simp
      with parts(4) have "refreshDisabledOk s k' d'" by (auto simp: inv_ref_def)
      then show ?thesis by (rule refreshDisabledOk_hist [OF _ hist_trans [OF h h']]) simp
    qed
  qed
  moreover have "inv_gen ?s = inv_gen s" by (rule inv_gen_frame) simp_all
  moreover have "inv_lease ?s = inv_lease s" by (rule inv_lease_frame) simp_all
  moreover have "inv_pre ?s = inv_pre s" by (rule inv_pre_frame) simp_all
  moreover have "inv_att ?s = inv_att s" by (rule inv_att_frame) simp_all
  moreover have "inv_cut ?s = inv_cut s" by (rule inv_cut_frame) simp_all
  moreover have "inv_tomb ?s = inv_tomb s" by (rule inv_tomb_frame) simp_all
  ultimately show ?thesis using parts hist_trans [OF h h'] by (simp add: good_def store_inv_def)
qed

definition refreshEffect :: "RunLease \<Rightarrow> string \<Rightarrow> storedLeaseEffect" where
  "refreshEffect lease reason =
    \<lparr>e_LeaseToken = l_Token lease, e_Kind = storedLeaseEffectRefreshFailed, e_PresignID = [],
     e_Target = zeroBinding, e_Digest = [], e_Reason = reason, e_CutoverToken = 0\<rparr>"

definition disablingRecord :: "RunLease \<Rightarrow> string \<Rightarrow> RefreshDisabledRecord" where
  "disablingRecord lease reason =
    \<lparr>d_KeyID = KeyID (l_Binding lease), d_SessionID = l_SessionID lease, d_Reason = reason\<rparr>"

lemma MarkProtocolRefreshFailed_step:
  "step_or s (\<lambda>s'. \<exists>stored. validateRunLease lease \<and> l_Kind lease = RunRefresh
      \<and> validateLifecycleReason reason \<and> fmlookup (leaseEffects s) (l_Token lease) = None
      \<and> exactActiveLeaseLocked lease s = Inr stored
      \<and> \<not> fm_has (KeyID (l_Binding lease)) (refreshDisabled s)
      \<and> s' = setLeaseEffect (refreshEffect lease reason)
          (setLeaseState (l_Token lease) stored RunLeaseAborted s
            \<lparr>refreshDisabled := fmupd (KeyID (l_Binding lease)) (disablingRecord lease reason)
               (refreshDisabled s)\<rparr>))
    (MarkProtocolRefreshFailed ctx lease reason s)"
  unfolding MarkProtocolRefreshFailed_def Let_def
  by (intro step_rules; intro step_leaf exI conjI)
     (auto simp: refreshEffect_def disablingRecord_def setLeaseState_def)

lemma MarkProtocolRefreshFailed_good:
  assumes i: "store_inv s"
  shows "good s (snd (MarkProtocolRefreshFailed ctx lease reason s))"
proof (rule step_good [OF MarkProtocolRefreshFailed_step i], elim exE conjE)
  fix s' stored
  let ?t = "l_Token lease" and ?d = "disablingRecord lease reason"
    and ?s = "endLease (l_Token lease) stored RunLeaseAborted s"
  assume v: "validateRunLease lease" "l_Kind lease = RunRefresh" "validateLifecycleReason reason"
    "fmlookup (leaseEffects s) ?t = None" "\<not> fm_has (KeyID (l_Binding lease)) (refreshDisabled s)"
    and x: "exactActiveLeaseLocked lease s = Inr stored"
    and eq: "s' = setLeaseEffect (refreshEffect lease reason) (setLeaseState ?t stored RunLeaseAborted s
      \<lparr>refreshDisabled := fmupd (KeyID (l_Binding lease)) ?d (refreshDisabled s)\<rparr>)"
  from x have l: "fmlookup (leasesByToken s) ?t = Some stored" "l_State stored = RunLeaseActive"
    "l_Kind stored = RunRefresh" "l_Binding stored = l_Binding lease" "l_SessionID stored = l_SessionID lease"
    using v(2) by (simp_all add: exactActive_iff)
  have nr: "\<not> fm_has ?t (reshareReceivers s)" using not_receiver [OF i l(1,2)] l(3) by simp
  have "good s ?s" using i l by (simp add: goodI inv_endLease hist_endLease)
  moreover have "good ?s s'"
    unfolding eq setLeaseState_endLease [OF nr]
    using good_refreshDisabled [of ?s ?d "refreshEffect lease reason"
        "stored\<lparr>l_State := RunLeaseAborted\<rparr>"] i l v
    by (simp add: inv_endLease validateRunLease_def refreshEffect_def disablingRecord_def)
  ultimately show "good s s'" by (rule good_trans)
qed

section \<open>Presigns\<close>

lemma leaseEffectArtifactDigest_length:
  "leaseEffectArtifactDigest label b i blob metadata = Inr d \<Longrightarrow> length d = 32"
  by (auto simp: leaseEffectArtifactDigest_def split: sum.splits dest: transcript_sum_length)

definition newPresign :: "GenerationBinding \<Rightarrow> bytes \<Rightarrow> bytes \<Rightarrow> storedPresign" where
  "newPresign b blob metadata =
    \<lparr>p_binding = b, p_blob = blob, p_metadata = metadata, p_artifactDigest = sha256 metadata,
     p_state = storedPresignAvailable, p_attemptID = [], p_reason = []\<rparr>"

definition presignEffect :: "u64 \<Rightarrow> string \<Rightarrow> bytes \<Rightarrow> storedLeaseEffect" where
  "presignEffect t presignID digest =
    \<lparr>e_LeaseToken = t, e_Kind = storedLeaseEffectPresign, e_PresignID = presignID,
     e_Target = zeroBinding, e_Digest = digest, e_Reason = [], e_CutoverToken = 0\<rparr>"

lemma CommitAvailablePresignFromLease_step:
  "step_or s (\<lambda>s'. \<exists>stored digest. l_Kind lease = RunPresign
      \<and> validatePresignInput (l_Binding lease) j blob metadata
      \<and> leaseEffectArtifactDigest ''presign'' (l_Binding lease) j blob metadata = Inr digest
      \<and> fmlookup (leaseEffects s) (l_Token lease) = None \<and> exactActiveLeaseLocked lease s = Inr stored
      \<and> isCurrentLocked (l_Binding lease) s \<and> \<not> fm_has j (presigns s)
      \<and> \<not> hasConflictingPresignArtifactLocked j (sha256 metadata) s
      \<and> s' = setLeaseEffect (presignEffect (l_Token lease) j digest)
          (setLeaseState (l_Token lease) stored RunLeaseCompleted
            (s\<lparr>presigns := fmupd j (newPresign (l_Binding lease) blob metadata) (presigns s)\<rparr>)))
    (CommitAvailablePresignFromLease ctx lease j blob metadata s)"
  unfolding CommitAvailablePresignFromLease_def Let_def
  by (intro step_rules; intro step_leaf exI conjI) (auto simp: newPresign_def presignEffect_def)

lemma CommitAvailablePresignFromLease_good:
  assumes i: "store_inv s"
  shows "good s (snd (CommitAvailablePresignFromLease ctx lease j blob metadata s))"
proof (rule step_good [OF CommitAvailablePresignFromLease_step i], elim exE conjE)
  fix s' stored digest
  let ?t = "l_Token lease" and ?b = "l_Binding lease" and ?p = "newPresign (l_Binding lease) blob metadata"
  let ?s1 = "s\<lparr>presigns := fmupd j ?p (presigns s)\<rparr>"
  assume v: "l_Kind lease = RunPresign" "validatePresignInput ?b j blob metadata"
    "fmlookup (leaseEffects s) ?t = None" "isCurrentLocked ?b s" "\<not> fm_has j (presigns s)"
    "\<not> hasConflictingPresignArtifactLocked j (sha256 metadata) s"
    and d: "leaseEffectArtifactDigest ''presign'' ?b j blob metadata = Inr digest"
    and x: "exactActiveLeaseLocked lease s = Inr stored"
    and eq: "s' = setLeaseEffect (presignEffect ?t j digest) (setLeaseState ?t stored RunLeaseCompleted ?s1)"
  from x have l: "fmlookup (leasesByToken s) ?t = Some stored" "l_State stored = RunLeaseActive"
    "l_Kind stored = RunPresign" using v(1) by (simp_all add: exactActive_iff)
  have "availablePresign j ?p s"
    using v by (simp add: availablePresign_def newPresign_def validatePresignInput_def
        validateLifecycleBlob_def)
  with i have g: "good s ?s1" by (simp add: goodI inv_addPresign)
  have nr: "\<not> fm_has ?t (reshareReceivers ?s1)" using not_receiver [OF i l(1,2)] l(3) by simp
  have "good ?s1 s'"
    unfolding eq setLeaseState_endLease [OF nr]
    using g l v leaseEffectArtifactDigest_length [OF d]
    by (intro good_endLease_effect)
       (simp_all add: good_def presignEffect_def leaseEffectOk_def validatePresignInput_def)
  with g show "good s s'" by (rule good_trans)
qed

lemma BurnPresign_step:
  "step_or s (\<lambda>s'. \<exists>p. validateLifecycleReason reason \<and> fmlookup (presigns s) j = Some p
      \<and> p_state p = storedPresignAvailable \<and> s' = burnWhere (\<lambda>j' _. j' = j) reason s)
    (BurnPresign ctx b j reason s)"
  unfolding BurnPresign_def
  by (intro step_rules; intro step_leaf exI conjI) (auto simp flip: burn_one burnt_def)

lemma BurnPresign_good: "store_inv s \<Longrightarrow> good s (snd (BurnPresign ctx b j reason s))"
  by (rule step_good [OF BurnPresign_step], assumption, unfold good_def, elim exE conjE, simp)
     (rule inv_burnWhere, auto simp: burnable_def)

section \<open>Signing attempts\<close>

lemma CommitSignAttempt_step:
  "step_or s (\<lambda>s'. \<exists>p. claimable intent j p outbox s \<and> s' = claim intent j p outbox s)
    (CommitSignAttempt ctx b j intent outbox s)" if "store_inv s"
  unfolding CommitSignAttempt_def Let_def using that
  by (intro step_rules; intro step_leaf exI conjI)
     (auto simp: claimable_def claim_def validateLifecycleBlob_def)

lemma CommitSignAttempt_good: "store_inv s \<Longrightarrow> good s (snd (CommitSignAttempt ctx b j intent outbox s))"
  by (rule step_good [OF CommitSignAttempt_step]) (auto simp: inv_claim hist_claim)

definition progressed :: "attemptProgressKind \<Rightarrow> bytes \<Rightarrow> SignAttemptRecord \<Rightarrow> SignAttemptRecord" where
  "progressed kind v r = clearAttemptSecretsIfTerminalLocked
    (case kind of
       attemptProgressDelivery \<Rightarrow> r\<lparr>a_Delivery := v, a_Delivered := True\<rparr>
     | attemptProgressCompletion \<Rightarrow> r\<lparr>a_Completion := v, a_Completed := True\<rparr>)"

lemma mutableAttempt_iff:
  "mutableAttemptLocked q s = Inr r \<longleftrightarrow>
    fmlookup (attempts s) (q_AttemptID q) = Some r \<and> sameAttemptQuery r q"
  by (auto simp: mutableAttemptLocked_def split: option.splits if_splits)

lemma recordAttemptProgress_step:
  "step_or s (\<lambda>s'. \<exists>r. mutableAttemptLocked q s = Inr r \<and> v \<noteq> [] \<and> \<not> a_Aborted r \<and> \<not> Terminal r
      \<and> s' = s\<lparr>attempts := fmupd (q_AttemptID q) (progressed kind v r) (attempts s)\<rparr>)
    (recordAttemptProgress ctx q v kind s)"
  unfolding recordAttemptProgress_def Let_def
  by (intro step_rules; intro step_leaf exI conjI)
     (auto simp: validateLifecycleBlob_def progressed_def putAttempt_def Terminal_def
       split: attemptProgressKind.splits)

lemma progressed_ok:
  assumes "validateStoredAttemptProgress r" "\<not> Terminal r" "v \<noteq> []" "a_AbortReason r = []"
  shows "attempt_le r (progressed kind v r) \<and> \<not> a_Aborted (progressed kind v r)
    \<and> a_AbortReason (progressed kind v r) = [] \<and> validateStoredAttemptProgress (progressed kind v r)"
  using assms
  by (cases kind) (auto simp: progressed_def clearAttemptSecretsIfTerminalLocked_def
      validateStoredAttemptProgress_def Terminal_def attempt_le_def)

lemma recordAttemptProgress_good:
  assumes i: "store_inv s"
  shows "good s (snd (recordAttemptProgress ctx q v kind s))"
proof (rule step_good [OF recordAttemptProgress_step i], elim exE conjE)
  fix s' r
  assume r: "mutableAttemptLocked q s = Inr r" "v \<noteq> []" "\<not> a_Aborted r" "\<not> Terminal r"
    and eq: "s' = s\<lparr>attempts := fmupd (q_AttemptID q) (progressed kind v r) (attempts s)\<rparr>"
  from r(1) have l: "fmlookup (attempts s) (q_AttemptID q) = Some r" by (simp add: mutableAttempt_iff)
  have "attemptEntryOk s (q_AttemptID q) r" using inv_attD [OF inv_parts(6) [OF i] l] .
  then have "validateStoredAttemptProgress r" "a_AbortReason r = []"
    using r(3) by (auto simp: attemptEntryOk_def split: option.splits)
  then show "good s s'"
    unfolding eq good_def using progressed_ok [of r v kind] r by (intro inv_progress [OF i l r(4)]) simp_all
qed

text \<open>The corruption branches of \<^verbatim>\<open>AbortAttempt\<close> are not reached from a consistent store.\<close>

lemma mutable_claimed:
  assumes i: "store_inv s" and m: "mutableAttemptLocked q s = Inr r" and nt: "\<not> Terminal r"
  obtains p where "fmlookup (attempts s) (q_AttemptID q) = Some r" "i_AttemptID (a_Intent r) = q_AttemptID q"
    "fmlookup (presigns s) (a_PresignID r) = Some p" "p_attemptID p = q_AttemptID q"
    "p_state p = storedPresignClaimed"
proof -
  from m have l: "fmlookup (attempts s) (q_AttemptID q) = Some r" by (simp add: mutableAttempt_iff)
  moreover have "i_AttemptID (a_Intent r) = q_AttemptID q"
    using inv_attD [OF inv_parts(6) [OF i] l] by (simp add: attemptEntryOk_def)
  ultimately show ?thesis using attempt_presign [OF inv_parts(6) [OF i] l] nt that by metis
qed

definition abortedWith :: "string \<Rightarrow> string \<Rightarrow> SignAttemptRecord \<Rightarrow> storedPresign \<Rightarrow> MemoryLifecycleStore
    \<Rightarrow> MemoryLifecycleStore" where
  "abortedWith a reason r p s =
    s\<lparr>attempts := fmupd a (r\<lparr>a_Aborted := True, a_AbortReason := reason, a_ExactOutbox := []\<rparr>) (attempts s),
      presigns := fmupd (a_PresignID r) (p\<lparr>p_state := storedPresignBurned, p_reason := reason\<rparr>)
        (presigns s)\<rparr>"

lemma AbortAttempt_step:
  assumes i: "store_inv s"
  shows "step_or s (\<lambda>s'. \<exists>r p. fmlookup (attempts s) (q_AttemptID q) = Some r \<and> \<not> Terminal r
      \<and> validateLifecycleReason reason \<and> fmlookup (presigns s) (a_PresignID r) = Some p
      \<and> s' = abortedWith (q_AttemptID q) reason r p s)
    (AbortAttempt ctx q reason s)"
  unfolding AbortAttempt_def Let_def
proof (intro step_rules step_same, goal_cases)
  case (1 r)
  then have nt: "\<not> Terminal r" by (auto simp: Terminal_def)
  with 1(4) obtain p' where "fmlookup (presigns s) (a_PresignID r) = Some p'"
    "p_attemptID p' = q_AttemptID q" "p_state p' = storedPresignClaimed" "i_AttemptID (a_Intent r) = q_AttemptID q"
    using mutable_claimed [OF i] by metis
  with 1 show ?case by (simp add: putAttempt_def)
next
  case (2 r p)
  then have nt: "\<not> Terminal r" by (auto simp: Terminal_def)
  with 2(4) obtain p' where "fmlookup (presigns s) (a_PresignID r) = Some p'"
    "p_attemptID p' = q_AttemptID q" "p_state p' = storedPresignClaimed" "i_AttemptID (a_Intent r) = q_AttemptID q"
    using mutable_claimed [OF i] by metis
  with 2 show ?case by (simp add: putAttempt_def)
next
  case (3 r p)
  then have "\<not> Terminal r" by (auto simp: Terminal_def)
  with 3 show ?case
    by (intro step_leaf exI [of _ r] exI [of _ p])
       (auto simp: putAttempt_def abortedWith_def mutableAttempt_iff)
qed

lemma AbortAttempt_good: "store_inv s \<Longrightarrow> good s (snd (AbortAttempt ctx q reason s))"
  by (rule step_good [OF AbortAttempt_step])
     (auto simp: good_def abortedWith_def dest: inv_abort)

end
