(* ===== verification/Lifecycle_Steps_Cut.thy ===== *)
theory Lifecycle_Steps_Cut
  imports Lifecycle_Steps_Sign
begin

text \<open>
  Preservation for cutovers, retirement and the two lease-bound installations.  A committed cutover
  is closing its fence, burning the epoch's presigns, retiring the source and installing the target.
\<close>

section \<open>Cutover fences\<close>

lemma BeginCutover_step:
  assumes "store_inv s" "nowrap s"
  shows "step_or s (\<lambda>s'. fenceable source target s \<and> s' = fenced source target s)
    (BeginCutover ctx source target s)"
  unfolding BeginCutover_def Let_def case_prod_beta
  using assms by (intro step_rules; intro step_leaf) (auto simp: fenceable_def fenced_def nowrap_def fm_has_def)

lemma BeginCutover_good:
  "store_inv s \<Longrightarrow> nowrap s \<Longrightarrow> good s (snd (BeginCutover ctx source target s))"
  by (rule step_good [OF BeginCutover_step]) (auto simp: good_def inv_fenced)

definition cutoverEffect :: "u64 \<Rightarrow> GenerationBinding \<Rightarrow> u64 \<Rightarrow> storedLeaseEffect" where
  "cutoverEffect t target c =
    \<lparr>e_LeaseToken = t, e_Kind = storedLeaseEffectCutover, e_PresignID = [], e_Target = target,
     e_Digest = [], e_Reason = [], e_CutoverToken = c\<rparr>"

lemma fenced_setLeaseState:
  "setLeaseState t stored st (fenced source target s) = fenced source target (setLeaseState t stored st s)"
  by (simp add: setLeaseState_def fenced_def openCutover_def Let_def)

lemma BeginCutoverFromLease_step:
  "step_or s (\<lambda>s'. \<exists>stored. cutoverLeaseRunKind (l_Kind lease)
      \<and> validateCutoverBindings (l_Binding lease) target
      \<and> fmlookup (leaseEffects s) (l_Token lease) = None \<and> exactActiveLeaseLocked lease s = Inr stored
      \<and> \<not> fm_has (KeyID (l_Binding lease)) (cutoverByKey s) \<and> isCurrentLocked (l_Binding lease) s
      \<and> \<not> hasKeyGenerationLocked (KeyID target) (KeyGen target) s
      \<and> \<not> hasOtherActiveLeaseLocked (l_Binding lease) (l_Token lease) s
      \<and> \<not> hasNonTerminalAttemptLocked (l_Binding lease) s
      \<and> s' = setLeaseEffect (cutoverEffect (l_Token lease) target (nextCutoverToken s + 1))
          (fenced (l_Binding lease) target (setLeaseState (l_Token lease) stored RunLeaseCompleted s)))
    (BeginCutoverFromLease ctx lease target s)"
  unfolding BeginCutoverFromLease_def Let_def case_prod_beta fenced_setLeaseState [symmetric]
  by (intro step_rules; intro step_leaf exI conjI)
     (auto simp: cutoverEffect_def fenced_def openCutover_def Let_def)

lemma endLease_other:
  assumes "\<not> hasOtherActiveLeaseLocked b t s" "st \<noteq> RunLeaseActive"
  shows "\<not> hasActiveLeaseLocked b (endLease t l st s)"
  using assms by (auto simp: hasOtherActiveLeaseLocked_def hasActiveLeaseLocked_def fm_ex_iff split: if_splits)

lemma endLease_frames [simp]:
  "isCurrentLocked b (endLease t l st s) = isCurrentLocked b s"
  "hasKeyGenerationLocked k n (endLease t l st s) = hasKeyGenerationLocked k n s"
  "hasNonTerminalAttemptLocked b (endLease t l st s) = hasNonTerminalAttemptLocked b s"
  "hasNonTerminalAttemptForKeyLocked k (endLease t l st s) = hasNonTerminalAttemptForKeyLocked k s"
  "tombstonedLocked ns i (endLease t l st s) = tombstonedLocked ns i s"
  by (simp_all add: isCurrentLocked_def hasKeyGenerationLocked_def hasNonTerminalAttemptLocked_def
      hasNonTerminalAttemptForKeyLocked_def tombstonedLocked_def cong: option.case_cong)

lemma BeginCutoverFromLease_good:
  assumes i: "store_inv s" and nw: "nowrap s"
  shows "good s (snd (BeginCutoverFromLease ctx lease target s))"
proof (rule step_good [OF BeginCutoverFromLease_step i], elim exE conjE)
  fix s' stored
  let ?t = "l_Token lease" and ?b = "l_Binding lease"
  let ?s = "endLease ?t stored RunLeaseCompleted s"
  assume v: "cutoverLeaseRunKind (l_Kind lease)" "validateCutoverBindings ?b target"
    "fmlookup (leaseEffects s) ?t = None" "\<not> fm_has (KeyID ?b) (cutoverByKey s)" "isCurrentLocked ?b s"
    "\<not> hasKeyGenerationLocked (KeyID target) (KeyGen target) s"
    "\<not> hasOtherActiveLeaseLocked ?b ?t s" "\<not> hasNonTerminalAttemptLocked ?b s"
    and x: "exactActiveLeaseLocked lease s = Inr stored"
    and eq: "s' = setLeaseEffect (cutoverEffect ?t target (nextCutoverToken s + 1))
      (fenced ?b target (setLeaseState ?t stored RunLeaseCompleted s))"
  from x have l: "fmlookup (leasesByToken s) ?t = Some stored" "l_State stored = RunLeaseActive"
    "l_Kind stored = l_Kind lease" "l_Binding stored = ?b" by (simp_all add: exactActive_iff)
  have nr: "\<not> fm_has ?t (reshareReceivers s)" using not_receiver [OF i l(1,2)] l(4) v(5) by simp
  have g1: "good s ?s" using i l by (simp add: goodI inv_endLease hist_endLease)
  have "fenceable ?b target ?s"
    using g1 v nw endLease_other [OF v(7)] by (simp add: fenceable_def good_def nowrap_def)
  then have g2: "good ?s (fenced ?b target ?s)" unfolding good_def by (rule inv_fenced)
  have "good (fenced ?b target ?s) s'"
    unfolding eq setLeaseState_endLease [OF nr] using g2 l v
    by (intro good_setLeaseEffect)
       (simp_all add: good_def cutoverEffect_def leaseEffectOk_def fenced_def openCutover_def Let_def
         newCutover_def validateCutoverBindings_def)
  with good_trans [OF g1 g2] show "good s s'" by (rule good_trans)
qed

section \<open>Retirement\<close>

definition retirementEffect :: "u64 \<Rightarrow> GenerationBinding \<Rightarrow> storedLeaseEffect" where
  "retirementEffect t target =
    \<lparr>e_LeaseToken = t, e_Kind = storedLeaseEffectRetirement, e_PresignID = [], e_Target = target,
     e_Digest = [], e_Reason = [], e_CutoverToken = 0\<rparr>"

text \<open>Burning the epoch of the current generation leaves its key without usable presigns.\<close>

lemma burnEpoch_sel [simp]:
  "generations (burnEpochPresignsLocked k e s) = generations s"
  "current (burnEpochPresignsLocked k e s) = current s"
  "leasesByToken (burnEpochPresignsLocked k e s) = leasesByToken s"
  "leaseBySession (burnEpochPresignsLocked k e s) = leaseBySession s"
  "leaseEffects (burnEpochPresignsLocked k e s) = leaseEffects s"
  "refreshDisabled (burnEpochPresignsLocked k e s) = refreshDisabled s"
  "reshareReceivers (burnEpochPresignsLocked k e s) = reshareReceivers s"
  "attempts (burnEpochPresignsLocked k e s) = attempts s"
  "cutoversByToken (burnEpochPresignsLocked k e s) = cutoversByToken s"
  "cutoverByKey (burnEpochPresignsLocked k e s) = cutoverByKey s"
  "tombstones (burnEpochPresignsLocked k e s) = tombstones s"
  "nextLeaseToken (burnEpochPresignsLocked k e s) = nextLeaseToken s"
  "nextCutoverToken (burnEpochPresignsLocked k e s) = nextCutoverToken s"
  by (simp_all add: burnEpochPresignsLocked_def)

lemma burnEpoch_burned:
  assumes i: "store_inv s" and c: "isCurrentLocked b s" and a: "\<not> hasNonTerminalAttemptForKeyLocked (KeyID b) s"
    and p: "fmlookup (presigns (burnEpochPresignsLocked (KeyID b) (Epoch b) s)) j = Some p"
      "KeyID (p_binding p) = KeyID b"
  shows "p_state p = storedPresignBurned"
proof -
  note parts = inv_parts [OF i]
  from p(1) obtain q where q: "fmlookup (presigns s) j = Some q"
    and pq: "p = (if inEpoch s (KeyID b) (Epoch b) q then burnt ''generation cutover'' q else q)"
    unfolding burn_epoch [OF parts(5)] by auto
  have k: "KeyID (p_binding q) = KeyID b" using p(2) pq by (simp add: burnt_def split: if_splits)
  show ?thesis
  proof (cases "p_state q = storedPresignBurned")
    case False
    have v: "validateStoredPresign s j q" using inv_preD(4) [OF parts(5) q] .
    with False have "isCurrentLocked (p_binding q) s"
      by (cases "p_state q") (simp_all add: validateStoredPresign_def)
    then have "fmlookup (current s) (KeyID b) = Some (p_binding q)"
      using k isCurrent_iff [OF parts(1), of "p_binding q"] by simp
    moreover have "fmlookup (current s) (KeyID b) = Some b" using c isCurrent_iff [OF parts(1), of b] by simp
    ultimately have b: "p_binding q = b" by simp
    have "burnable s q"
    proof (cases "p_state q")
      case storedPresignClaimed
      with v have ne: "p_attemptID q \<noteq> []" by (simp add: validateStoredPresign_def)
      from presign_attempt [OF parts(5) q _ ne] storedPresignClaimed obtain r where
        r: "fmlookup (attempts s) (p_attemptID q) = Some r" "a_Binding r = p_binding q" by auto
      with a b have "Terminal r" by (auto simp: hasNonTerminalAttemptForKeyLocked_def fm_ex_iff)
      with r storedPresignClaimed show ?thesis by (simp add: burnable_def)
    qed (use False in \<open>simp_all add: burnable_def\<close>)
    with b have "inEpoch s (KeyID b) (Epoch b) q" by (simp add: inEpoch_def)
    with pq show ?thesis by (simp add: burnt_def)
  qed (use pq in \<open>simp add: burnt_def\<close>)
qed

text \<open>Burning an epoch and then retiring its generation, as both retirement and cutover do.\<close>

definition retired :: "GenerationBinding \<Rightarrow> GenerationRecord \<Rightarrow> MemoryLifecycleStore \<Rightarrow> MemoryLifecycleStore" where
  "retired b g s = retireGen b g (burnEpochPresignsLocked (KeyID b) (Epoch b) s)"

lemma good_retired:
  assumes i: "store_inv s" and g: "fmlookup (generations s) b = Some g" and c: "isCurrentLocked b s"
    and a: "\<not> hasActiveLeaseForKeyLocked (KeyID b) s" "\<not> hasNonTerminalAttemptForKeyLocked (KeyID b) s"
      "\<not> fm_has (KeyID b) (cutoverByKey s)"
  shows "good s (retired b g s)"
proof -
  let ?s = "burnEpochPresignsLocked (KeyID b) (Epoch b) s"
  have 1: "good s ?s" using inv_burnEpoch [OF i] by (simp add: good_def)
  have "good ?s (retired b g s)"
    unfolding retired_def good_def
  proof (rule inv_retire)
    show "store_inv ?s" using 1 by (simp add: good_def)
    show "isCurrentLocked b ?s" using c by (simp add: isCurrent_frame [of ?s s])
    show "p_state p = storedPresignBurned" if "fmlookup (presigns ?s) j = Some p" "KeyID (p_binding p) = KeyID b"
      for j p using burnEpoch_burned [OF i c a(2) that] .
  qed (use g a in \<open>simp_all add: hasActiveLeaseForKeyLocked_def hasNonTerminalAttemptForKeyLocked_def\<close>)
  with 1 show ?thesis by (rule good_trans)
qed

lemma burnEpoch_frame:
  assumes "attempts s' = attempts s" "presigns s' = presigns s"
  shows "presigns (burnEpochPresignsLocked k e s') = presigns (burnEpochPresignsLocked k e s)"
proof -
  have "burnEpochPresign s' k e p = burnEpochPresign s k e p" for p
    unfolding burnEpochPresign_def assms by (rule refl)
  then have "burnEpochPresign s' k e = burnEpochPresign s k e" by blast
  then show ?thesis by (simp add: burnEpochPresignsLocked_def assms(2))
qed

lemma store_eqI:
  fixes s s' :: MemoryLifecycleStore
  assumes "generations s = generations s'" "current s = current s'" "leasesByToken s = leasesByToken s'"
    "leaseBySession s = leaseBySession s'" "leaseEffects s = leaseEffects s'"
    "refreshDisabled s = refreshDisabled s'" "reshareReceivers s = reshareReceivers s'"
    "attempts s = attempts s'" "presigns s = presigns s'" "cutoversByToken s = cutoversByToken s'"
    "cutoverByKey s = cutoverByKey s'" "tombstones s = tombstones s'"
    "nextLeaseToken s = nextLeaseToken s'" "nextCutoverToken s = nextCutoverToken s'"
  shows "s = s'"
  using assms by (cases s, cases s') simp

lemma retireGen_sel [simp]:
  "leasesByToken (retireGen b g s) = leasesByToken s" "leaseBySession (retireGen b g s) = leaseBySession s"
  "leaseEffects (retireGen b g s) = leaseEffects s" "refreshDisabled (retireGen b g s) = refreshDisabled s"
  "reshareReceivers (retireGen b g s) = reshareReceivers s" "attempts (retireGen b g s) = attempts s"
  "presigns (retireGen b g s) = presigns s" "cutoversByToken (retireGen b g s) = cutoversByToken s"
  "cutoverByKey (retireGen b g s) = cutoverByKey s" "tombstones (retireGen b g s) = tombstones s"
  "nextLeaseToken (retireGen b g s) = nextLeaseToken s"
  "nextCutoverToken (retireGen b g s) = nextCutoverToken s"
  "generations (retireGen b g s) = fmupd b (retireRecord g) (generations s)"
  "current (retireGen b g s) = fmdrop (KeyID b) (current s)"
  by (simp_all add: retireGen_def)

lemma retired_setLeaseState:
  "setLeaseState t stored st (burnEpochPresignsLocked (KeyID b) (Epoch b) (retireGen b g s))
    = retired b g (setLeaseState t stored st s)"
  by (rule store_eqI)
     (simp_all add: retired_def setLeaseState_def burnEpoch_frame [of "retireGen b g s" s] burnEpoch_frame [of "s\<lparr>leasesByToken := fmupd t (stored\<lparr>l_State := st\<rparr>) (leasesByToken s)\<rparr>" s])

lemma CommitRetirementFromLease_step:
  "step_or s (\<lambda>s'. \<exists>stored g. l_Kind lease = RunReshare \<and> validateCutoverBindings (l_Binding lease) target
      \<and> fmlookup (leaseEffects s) (l_Token lease) = None \<and> exactActiveLeaseLocked lease s = Inr stored
      \<and> isCurrentLocked (l_Binding lease) s \<and> \<not> fm_has (KeyID (l_Binding lease)) (cutoverByKey s)
      \<and> \<not> hasOtherActiveLeaseLocked (l_Binding lease) (l_Token lease) s
      \<and> \<not> hasNonTerminalAttemptLocked (l_Binding lease) s
      \<and> fmlookup (generations s) (l_Binding lease) = Some g
      \<and> s' = setLeaseEffect (retirementEffect (l_Token lease) target)
          (retired (l_Binding lease) g (setLeaseState (l_Token lease) stored RunLeaseCompleted s)))
    (CommitRetirementFromLease ctx lease target s)"
  unfolding CommitRetirementFromLease_def Let_def retired_setLeaseState [symmetric]
  by (intro step_rules; intro step_leaf exI conjI) (auto simp: retirementEffect_def retireGen_def)

lemma CommitRetirementFromLease_good:
  assumes i: "store_inv s"
  shows "good s (snd (CommitRetirementFromLease ctx lease target s))"
proof (rule step_good [OF CommitRetirementFromLease_step i], elim exE conjE)
  fix s' stored g
  let ?t = "l_Token lease" and ?b = "l_Binding lease"
  let ?s = "endLease ?t stored RunLeaseCompleted s"
  assume v: "l_Kind lease = RunReshare" "validateCutoverBindings ?b target"
    "fmlookup (leaseEffects s) ?t = None" "isCurrentLocked ?b s" "\<not> fm_has (KeyID ?b) (cutoverByKey s)"
    "\<not> hasOtherActiveLeaseLocked ?b ?t s" "\<not> hasNonTerminalAttemptLocked ?b s"
    "fmlookup (generations s) ?b = Some g"
    and x: "exactActiveLeaseLocked lease s = Inr stored"
    and eq: "s' = setLeaseEffect (retirementEffect ?t target)
      (retired ?b g (setLeaseState ?t stored RunLeaseCompleted s))"
  from x have l: "fmlookup (leasesByToken s) ?t = Some stored" "l_State stored = RunLeaseActive"
    "l_Kind stored = RunReshare" "l_Binding stored = ?b" using v(1) by (simp_all add: exactActive_iff)
  have nr: "\<not> fm_has ?t (reshareReceivers s)" using not_receiver [OF i l(1,2)] l(4) v(4) by simp
  have g1: "good s ?s" using i l by (simp add: goodI inv_endLease hist_endLease)
  then have i1: "store_inv ?s" by (simp add: good_def)
  have "\<not> hasActiveLeaseForKeyLocked (KeyID ?b) ?s"
    using no_active_for_key [OF i1] endLease_other [OF v(6)] v(4) by simp
  moreover have "\<not> hasNonTerminalAttemptForKeyLocked (KeyID ?b) ?s"
    using no_nonterminal_for_key [OF i1] v(4,7) by simp
  ultimately have g2: "good ?s (retired ?b g ?s)" using v i1 by (intro good_retired) simp_all
  have "good (retired ?b g ?s) s'"
    unfolding eq setLeaseState_endLease [OF nr] using g2 l v
    by (intro good_setLeaseEffect)
       (simp_all add: good_def retirementEffect_def leaseEffectOk_def retired_def retireRecord_def)
  with good_trans [OF g1 g2] show "good s s'" by (rule good_trans)
qed

section \<open>Closing cutovers\<close>

lemma AbortCutover_step:
  "step_or s (\<lambda>s'. \<exists>c. validateLifecycleReason reason \<and> fmlookup (cutoversByToken s) (f_Token fence) = Some c
      \<and> c_state c = storedCutoverActive
      \<and> s' = closeCutover (f_Token fence) (c\<lparr>c_state := storedCutoverAborted, c_reason := reason\<rparr>) s)
    (AbortCutover ctx fence reason s)"
  unfolding AbortCutover_def
  by (intro step_rules; intro step_leaf exI conjI) (auto simp: closeCutover_def)

lemma AbortCutover_good: "store_inv s \<Longrightarrow> good s (snd (AbortCutover ctx fence reason s))"
  by (rule step_good [OF AbortCutover_step]) (auto simp: good_def inv_closeCutover)

definition targetRecord :: "CutoverFence \<Rightarrow> bytes \<Rightarrow> bytes \<Rightarrow> GenerationRecord" where
  "targetRecord fence blob metadata =
    \<lparr>g_Binding = f_Target fence, g_Blob = blob, g_Metadata = metadata, g_Status = GenerationCurrent\<rparr>"

definition committedCutover :: "storedCutover \<Rightarrow> bytes \<Rightarrow> bytes \<Rightarrow> storedCutover" where
  "committedCutover c blob metadata =
    c\<lparr>c_state := storedCutoverCommitted, c_targetBlobDigest := sha256 blob,
      c_targetMetadataDigest := sha256 metadata\<rparr>"

text \<open>The same store, reached through a fence that is first closed as aborted.\<close>

definition closedAborted :: "CutoverFence \<Rightarrow> storedCutover \<Rightarrow> MemoryLifecycleStore \<Rightarrow> MemoryLifecycleStore" where
  "closedAborted fence c s = closeCutover (f_Token fence)
    (c\<lparr>c_state := storedCutoverAborted, c_reason := ''generation cutover''\<rparr>) s"

definition cutOver ::
  "CutoverFence \<Rightarrow> storedCutover \<Rightarrow> GenerationRecord \<Rightarrow> bytes \<Rightarrow> bytes \<Rightarrow> MemoryLifecycleStore
    \<Rightarrow> MemoryLifecycleStore" where
  "cutOver fence c src blob metadata s =
    installGen (targetRecord fence blob metadata) (retired (f_Source fence) src (closedAborted fence c s))"

lemma installGen_sel [simp]:
  "leasesByToken (installGen g s) = leasesByToken s" "leaseBySession (installGen g s) = leaseBySession s"
  "leaseEffects (installGen g s) = leaseEffects s" "refreshDisabled (installGen g s) = refreshDisabled s"
  "reshareReceivers (installGen g s) = reshareReceivers s" "attempts (installGen g s) = attempts s"
  "presigns (installGen g s) = presigns s" "cutoversByToken (installGen g s) = cutoversByToken s"
  "cutoverByKey (installGen g s) = cutoverByKey s" "tombstones (installGen g s) = tombstones s"
  "nextLeaseToken (installGen g s) = nextLeaseToken s"
  "nextCutoverToken (installGen g s) = nextCutoverToken s"
  "generations (installGen g s) = fmupd (g_Binding g) g (generations s)"
  "current (installGen g s) = fmupd (KeyID (g_Binding g)) (g_Binding g) (current s)"
  by (simp_all add: installGen_def)

lemma fmupd_fmdrop: "fmupd k v (fmdrop k m) = fmupd k v m"
  by (rule fmap_ext) simp

lemma fmupd_fmupd: "fmupd k v (fmupd k w m) = fmupd k v m"
  by (rule fmap_ext) simp

lemma cutOver_sel:
  assumes "validateCutoverFence fence" "c_fence c = fence"
  shows "generations (cutOver fence c src blob metadata s) =
      fmupd (f_Source fence) (retireRecord src) (fmupd (f_Target fence) (targetRecord fence blob metadata) (generations s))"
    "current (cutOver fence c src blob metadata s) = fmupd (KeyID (f_Source fence)) (f_Target fence) (current s)"
    "cutoverByKey (cutOver fence c src blob metadata s) = fmdrop (KeyID (f_Source fence)) (cutoverByKey s)"
    "presigns (cutOver fence c src blob metadata s) =
      presigns (burnEpochPresignsLocked (KeyID (f_Source fence)) (Epoch (f_Source fence)) s)"
proof -
  have ne: "f_Source fence \<noteq> f_Target fence" "KeyID (f_Target fence) = KeyID (f_Source fence)"
    using assms(1) by (auto simp: validateCutoverFence_def validateCutoverBindings_def)
  show "generations (cutOver fence c src blob metadata s) =
      fmupd (f_Source fence) (retireRecord src) (fmupd (f_Target fence) (targetRecord fence blob metadata) (generations s))"
    using ne by (simp add: cutOver_def retired_def targetRecord_def closedAborted_def fmupd_reorder_neq)
  show "current (cutOver fence c src blob metadata s) = fmupd (KeyID (f_Source fence)) (f_Target fence) (current s)"
    using ne by (simp add: cutOver_def retired_def targetRecord_def closedAborted_def fmupd_fmdrop)
  show "cutoverByKey (cutOver fence c src blob metadata s) = fmdrop (KeyID (f_Source fence)) (cutoverByKey s)"
    using assms(2) by (simp add: cutOver_def retired_def closedAborted_def)
  show "presigns (cutOver fence c src blob metadata s) =
      presigns (burnEpochPresignsLocked (KeyID (f_Source fence)) (Epoch (f_Source fence)) s)"
    by (simp add: cutOver_def retired_def closedAborted_def burnEpoch_frame [of "closeCutover _ _ s" s])
qed

lemma cutOver_other [simp]:
  "leasesByToken (cutOver fence c src blob metadata s) = leasesByToken s"
  "leaseBySession (cutOver fence c src blob metadata s) = leaseBySession s"
  "leaseEffects (cutOver fence c src blob metadata s) = leaseEffects s"
  "refreshDisabled (cutOver fence c src blob metadata s) = refreshDisabled s"
  "reshareReceivers (cutOver fence c src blob metadata s) = reshareReceivers s"
  "attempts (cutOver fence c src blob metadata s) = attempts s"
  "tombstones (cutOver fence c src blob metadata s) = tombstones s"
  "nextLeaseToken (cutOver fence c src blob metadata s) = nextLeaseToken s"
  "nextCutoverToken (cutOver fence c src blob metadata s) = nextCutoverToken s"
  by (simp_all add: cutOver_def retired_def closedAborted_def)

lemma cutOver_eq:
  fixes fence blob metadata s src
  assumes "validateCutoverFence fence" "c_fence c = fence"
  defines "s1 \<equiv> s\<lparr>generations := fmupd (f_Target fence) (targetRecord fence blob metadata) (generations s),
      current := fmupd (KeyID (f_Source fence)) (f_Target fence) (current s)\<rparr>"
  defines "s2 \<equiv> s1\<lparr>generations := fmupd (f_Source fence) (retireRecord src) (generations s1)\<rparr>"
  defines "s3 \<equiv> burnEpochPresignsLocked (KeyID (f_Source fence)) (Epoch (f_Source fence)) s2"
  shows "s3\<lparr>cutoversByToken := cs, cutoverByKey := fmdrop (KeyID (f_Source fence)) (cutoverByKey s3)\<rparr>
    = (cutOver fence c src blob metadata s)\<lparr>cutoversByToken := cs\<rparr>" (is "?l = ?r")
proof (rule store_eqI)
  have "presigns s3 = presigns (burnEpochPresignsLocked (KeyID (f_Source fence)) (Epoch (f_Source fence)) s)"
    unfolding s3_def by (rule burnEpoch_frame) (simp_all add: s1_def s2_def)
  then show "presigns ?l = presigns ?r" by (simp add: cutOver_sel [OF assms(1,2)])
qed (simp_all add: cutOver_sel [OF assms(1,2)] s1_def s2_def s3_def)

lemma CommitCutover_step:
  "step_or s (\<lambda>s'. \<exists>c src. validateCutoverFence fence \<and> blob \<noteq> []
      \<and> fmlookup (cutoversByToken s) (f_Token fence) = Some c \<and> c_fence c = fence
      \<and> c_state c = storedCutoverActive \<and> isCurrentLocked (f_Source fence) s
      \<and> fmlookup (generations s) (f_Source fence) = Some src
      \<and> s' = (cutOver fence c src blob metadata s)
          \<lparr>cutoversByToken := fmupd (f_Token fence) (committedCutover c blob metadata) (cutoversByToken s)\<rparr>)
    (CommitCutover ctx fence blob metadata s)"
  unfolding CommitCutover_def Let_def
proof (intro step_rules step_same, goal_cases)
  case (1 c src)
  show ?case
    unfolding targetRecord_def [symmetric] committedCutover_def [symmetric]
    by (rule step_leaf, rule exI [of _ c], rule exI [of _ src])
       (use 1 cutOver_eq [where fence = fence and c = c and src = src and s = s] in \<open>simp add: validateLifecycleBlob_def\<close>)
qed

text \<open>Each stage of the cutover keeps the invariant.\<close>

lemma good_cutOver:
  assumes i: "store_inv s" and c: "fmlookup (cutoversByToken s) (f_Token fence) = Some c" "c_fence c = fence"
      "c_state c = storedCutoverActive"
    and cur: "isCurrentLocked (f_Source fence) s" and g: "fmlookup (generations s) (f_Source fence) = Some src"
    and v: "validateCutoverFence fence" "blob \<noteq> []"
  shows "good s (cutOver fence c src blob metadata s)"
proof -
  let ?b = "f_Source fence" and ?s1 = "closedAborted fence c s"
  let ?s2 = "retired ?b src ?s1"
  have "cutoverEntryOk s (f_Token fence) c" using inv_cutD(1) [OF inv_parts(7) [OF i] c(1)] .
  then have free: "\<not> hasActiveLeaseForKeyLocked (KeyID ?b) s" "\<not> hasNonTerminalAttemptLocked ?b s"
    using c by (simp_all add: cutoverEntryOk_def Let_def)
  have att: "\<not> hasNonTerminalAttemptForKeyLocked (KeyID ?b) s" using no_nonterminal_for_key [OF i cur free(2)] .
  have name: "\<not> hasKeyGenerationLocked (KeyID (f_Target fence)) (KeyGen (f_Target fence)) s"
    using inv_cutD(3) [OF inv_parts(7) [OF i] c(1)] c by simp
  have 1: "good s ?s1"
    using inv_closeCutover [OF i c(1,3) valid_cutover_reason] by (simp add: good_def closedAborted_def)
  have frames: "isCurrentLocked ?b ?s1 = isCurrentLocked ?b s"
    by (rule isCurrent_frame) (simp_all add: closedAborted_def)
  have 2: "good ?s1 ?s2"
    using 1 frames cur g free att c
    by (intro good_retired)
       (simp_all add: good_def closedAborted_def hasActiveLeaseForKeyLocked_def
         hasNonTerminalAttemptForKeyLocked_def)
  have t: "GenerationBinding_Validate (f_Target fence)" "KeyID (f_Target fence) = KeyID ?b"
    "KeyGen (f_Target fence) \<noteq> KeyGen ?b"
    using v(1) by (auto simp: validateCutoverFence_def validateCutoverBindings_def)
  have "\<not> hasKeyGenerationLocked (KeyID (f_Target fence)) (KeyGen (f_Target fence)) ?s2"
    using name t by (auto simp: retired_def closedAborted_def hasKeyGenerationLocked_def tombstonedLocked_def
        fm_ex_iff split: if_splits)
  then have "store_inv (cutOver fence c src blob metadata s) \<and> hist ?s2 (cutOver fence c src blob metadata s)"
    unfolding cutOver_def using 2 t v free(1)
    by (intro inv_install) (simp_all add: good_def targetRecord_def retired_def closedAborted_def
        hasActiveLeaseForKeyLocked_def)
  then have "good ?s2 (cutOver fence c src blob metadata s)" by (simp add: good_def)
  with good_trans [OF 1 2] show ?thesis by (rule good_trans)
qed

lemma CommitCutover_good:
  assumes i: "store_inv s"
  shows "good s (snd (CommitCutover ctx fence blob metadata s))"
proof (rule step_good [OF CommitCutover_step i], elim exE conjE)
  fix s' c src
  let ?c = "committedCutover c blob metadata" and ?s = "cutOver fence c src blob metadata s"
    and ?a = "c\<lparr>c_state := storedCutoverAborted, c_reason := ''generation cutover''\<rparr>"
  assume v: "validateCutoverFence fence" "blob \<noteq> []"
    and c: "fmlookup (cutoversByToken s) (f_Token fence) = Some c" "c_fence c = fence" "c_state c = storedCutoverActive"
    and cur: "isCurrentLocked (f_Source fence) s" and g: "fmlookup (generations s) (f_Source fence) = Some src"
    and eq: "s' = ?s\<lparr>cutoversByToken := fmupd (f_Token fence) ?c (cutoversByToken s)\<rparr>"
  have 1: "good s ?s" by (rule good_cutOver [OF i c cur g v])
  have ab: "cutoversByToken ?s = fmupd (f_Token fence) ?a (cutoversByToken s)"
    by (simp add: cutOver_def retired_def closedAborted_def)
  then have eq': "s' = ?s\<lparr>cutoversByToken := fmupd (f_Token fence) ?c (cutoversByToken ?s)\<rparr>"
    unfolding eq by (simp add: fmupd_fmupd)
  have "c_reason c = []" "f_Source fence \<noteq> f_Target fence"
    using inv_cutD(1) [OF inv_parts(7) [OF i] c(1)] c v(1)
    by (auto simp: cutoverEntryOk_def Let_def validateCutoverFence_def validateCutoverBindings_def)
  then have "validateCommittedCutover ?s ?c"
    by (simp add: validateCommittedCutover_def committedCutover_def c(2) cutOver_sel [OF v(1) c(2)]
        retireRecord_def targetRecord_def)
  then have "store_inv s'"
    unfolding eq' using 1 ab
    by (intro inv_recommit [where c = ?a]) (simp_all add: good_def committedCutover_def)
  moreover have "cutover_le c ?c" using c(3) by (simp add: cutover_le_def committedCutover_def)
  then have "hist s s'"
    using 1 unfolding eq good_def hist_def by (simp add: cutover_order.rec_le_upd [OF c(1)])
  ultimately show "good s s'" by (simp add: good_def)
qed

section \<open>First generations from leases\<close>

definition generationEffect :: "u64 \<Rightarrow> storedLeaseEffectKind \<Rightarrow> GenerationBinding \<Rightarrow> bytes \<Rightarrow> storedLeaseEffect" where
  "generationEffect t kind target digest =
    \<lparr>e_LeaseToken = t, e_Kind = kind, e_PresignID = [], e_Target = target, e_Digest = digest,
     e_Reason = [], e_CutoverToken = 0\<rparr>"

definition firstRecord :: "GenerationBinding \<Rightarrow> bytes \<Rightarrow> bytes \<Rightarrow> GenerationRecord" where
  "firstRecord b blob metadata =
    \<lparr>g_Binding = b, g_Blob = blob, g_Metadata = metadata, g_Status = GenerationCurrent\<rparr>"

lemma CommitInitialGenerationFromLease_step:
  "step_or s (\<lambda>s'. \<exists>stored digest. l_Kind lease = RunChildDerivation \<and> GenerationBinding_Validate child
      \<and> KeyID child \<noteq> KeyID (l_Binding lease) \<and> Epoch child \<noteq> Epoch (l_Binding lease) \<and> blob \<noteq> []
      \<and> length digest = 32
      \<and> fmlookup (leaseEffects s) (l_Token lease) = None \<and> exactActiveLeaseLocked lease s = Inr stored
      \<and> \<not> fm_has (KeyID child) (current s) \<and> \<not> hasKeyGenerationLocked (KeyID child) (KeyGen child) s
      \<and> \<not> hasActiveLeaseForKeyLocked (KeyID child) s
      \<and> s' = setLeaseEffect
          (generationEffect (l_Token lease) storedLeaseEffectChildGeneration child digest)
          (setLeaseState (l_Token lease) stored RunLeaseCompleted
            (installGen (firstRecord child blob metadata) s)))
    (CommitInitialGenerationFromLease ctx lease child blob metadata s)"
  unfolding CommitInitialGenerationFromLease_def Let_def
  by (intro step_rules; intro step_leaf exI conjI)
     (auto simp: generationEffect_def firstRecord_def installGen_def validateLifecycleBlob_def
       intro: leaseEffectArtifactDigest_length)

lemma CommitInitialGenerationFromLease_good:
  assumes i: "store_inv s"
  shows "good s (snd (CommitInitialGenerationFromLease ctx lease child blob metadata s))"
proof (rule step_good [OF CommitInitialGenerationFromLease_step i], elim exE conjE)
  fix s' stored digest
  let ?t = "l_Token lease" and ?b = "l_Binding lease"
    and ?e = "generationEffect (l_Token lease) storedLeaseEffectChildGeneration child digest"
  let ?s = "installGen (firstRecord child blob metadata) s"
  assume v: "l_Kind lease = RunChildDerivation" "GenerationBinding_Validate child"
    "KeyID child \<noteq> KeyID ?b" "Epoch child \<noteq> Epoch ?b" "blob \<noteq> []" "length digest = 32"
    "fmlookup (leaseEffects s) ?t = None" "\<not> fm_has (KeyID child) (current s)"
    "\<not> hasKeyGenerationLocked (KeyID child) (KeyGen child) s" "\<not> hasActiveLeaseForKeyLocked (KeyID child) s"
    and x: "exactActiveLeaseLocked lease s = Inr stored"
    and eq: "s' = setLeaseEffect ?e (setLeaseState ?t stored RunLeaseCompleted ?s)"
  from x have l: "fmlookup (leasesByToken s) ?t = Some stored" "l_State stored = RunLeaseActive"
    "l_Kind stored = RunChildDerivation" "l_Binding stored = ?b" using v(1) by (simp_all add: exactActive_iff)
  have 1: "good s ?s"
    unfolding good_def using i v by (intro inv_install) (simp_all add: firstRecord_def)
  have nr: "\<not> fm_has ?t (reshareReceivers ?s)" using not_receiver [OF i l(1,2)] l(3) by simp
  have "good ?s s'"
    unfolding eq setLeaseState_endLease [OF nr] using 1 l v
    by (intro good_endLease_effect)
       (simp_all add: good_def generationEffect_def leaseEffectOk_def firstRecord_def)
  with 1 show "good s s'" by (rule good_trans)
qed

lemma CommitInitialGenerationFromReshareLease_step:
  "step_or s (\<lambda>s'. \<exists>stored digest. l_Kind lease = RunReshare \<and> GenerationBinding_Validate target
      \<and> KeyID target = KeyID (l_Binding lease) \<and> KeyGen target \<noteq> KeyGen (l_Binding lease)
      \<and> Epoch target \<noteq> Epoch (l_Binding lease) \<and> blob \<noteq> [] \<and> length digest = 32
      \<and> fmlookup (leaseEffects s) (l_Token lease) = None \<and> exactActiveLeaseLocked lease s = Inr stored
      \<and> \<not> fm_has (KeyID target) (current s) \<and> \<not> hasKeyGenerationLocked (KeyID target) (KeyGen target) s
      \<and> \<not> hasOtherActiveLeaseForKeyLocked (KeyID target) (l_Token lease) s
      \<and> s' = setLeaseEffect
          (generationEffect (l_Token lease) storedLeaseEffectReshareReceiverGeneration target digest)
          (installGen (firstRecord target blob metadata) (endLease (l_Token lease) stored RunLeaseCompleted s)))
    (CommitInitialGenerationFromReshareLease ctx lease target blob metadata s)"
  unfolding CommitInitialGenerationFromReshareLease_def Let_def
  by (intro step_rules; intro step_leaf exI conjI)
     (auto simp: generationEffect_def firstRecord_def installGen_def validateLifecycleBlob_def endLease_def
       setLeaseState_def intro: leaseEffectArtifactDigest_length)

lemma CommitInitialGenerationFromReshareLease_good:
  assumes i: "store_inv s"
  shows "good s (snd (CommitInitialGenerationFromReshareLease ctx lease target blob metadata s))"
proof (rule step_good [OF CommitInitialGenerationFromReshareLease_step i], elim exE conjE)
  fix s' stored digest
  let ?t = "l_Token lease" and ?b = "l_Binding lease"
    and ?e = "generationEffect (l_Token lease) storedLeaseEffectReshareReceiverGeneration target digest"
  let ?s1 = "endLease (l_Token lease) stored RunLeaseCompleted s"
  let ?s2 = "installGen (firstRecord target blob metadata) ?s1"
  assume v: "l_Kind lease = RunReshare" "GenerationBinding_Validate target"
    "KeyID target = KeyID ?b" "KeyGen target \<noteq> KeyGen ?b" "Epoch target \<noteq> Epoch ?b" "blob \<noteq> []"
    "length digest = 32" "fmlookup (leaseEffects s) ?t = None" "\<not> fm_has (KeyID target) (current s)"
    "\<not> hasKeyGenerationLocked (KeyID target) (KeyGen target) s"
    "\<not> hasOtherActiveLeaseForKeyLocked (KeyID target) ?t s"
    and x: "exactActiveLeaseLocked lease s = Inr stored" and eq: "s' = setLeaseEffect ?e ?s2"
  from x have l: "fmlookup (leasesByToken s) ?t = Some stored" "l_State stored = RunLeaseActive"
    "l_Kind stored = RunReshare" "l_Binding stored = ?b" using v(1) by (simp_all add: exactActive_iff)
  have 1: "good s ?s1" using i l by (simp add: goodI inv_endLease hist_endLease)
  have "\<not> hasActiveLeaseForKeyLocked (KeyID target) ?s1"
    using v(11) by (auto simp: hasOtherActiveLeaseForKeyLocked_def hasActiveLeaseForKeyLocked_def fm_ex_iff
        split: if_splits)
  then have 2: "good ?s1 ?s2"
    unfolding good_def using 1 v by (intro inv_install) (simp_all add: good_def firstRecord_def)
  have "good ?s2 s'"
    unfolding eq using 2 l v
    by (intro good_setLeaseEffect)
       (simp_all add: good_def generationEffect_def leaseEffectOk_def firstRecord_def)
  with good_trans [OF 1 2] show "good s s'" by (rule good_trans)
qed

end
