(* ===== verification/Lifecycle_Run.thy ===== *)
theory Lifecycle_Run
  imports Lifecycle_Steps_Cut
begin

text \<open>
  Executions of the lifecycle store: a call of one of its mutating methods is a datatype value,
  \<open>exec\<close> its effect on the store and \<open>reach n s\<close> the stores that \<open>n\<close> calls lead to from the empty one.
  The store's mutex serialises the calls of concurrent protocol runs, so every interleaving is such a
  sequence.  The two token counters are 64-bit and wrap; \<open>reach\<close> counts calls, so that a bound below
  \<open>2 ^ 64\<close> on the number of calls is what excludes the wrap-around.
\<close>

datatype call =
    Call_InstallInitialGeneration bool GenerationBinding bytes bytes
  | Call_AcquireRunLease bool GenerationBinding RunKind SessionID
  | Call_AcquireReshareReceiverLease bool ReshareReceiverAnchor
  | Call_FinishRunLease bool RunLease RunLeaseOutcome
  | Call_MarkProtocolRefreshFailed bool RunLease string
  | Call_CommitAvailablePresignFromLease bool RunLease string bytes bytes
  | Call_CommitSignAttempt bool GenerationBinding string SignAttemptIntent bytes
  | Call_MarkAttemptDelivered bool AttemptQuery bytes
  | Call_CompleteAttempt bool AttemptQuery bytes
  | Call_AbortAttempt bool AttemptQuery string
  | Call_BurnPresign bool GenerationBinding string string
  | Call_BeginCutover bool GenerationBinding GenerationBinding
  | Call_BeginCutoverFromLease bool RunLease GenerationBinding
  | Call_CommitRetirementFromLease bool RunLease GenerationBinding
  | Call_CommitCutover bool CutoverFence bytes bytes
  | Call_AbortCutover bool CutoverFence string
  | Call_CommitInitialGenerationFromLease bool RunLease GenerationBinding bytes bytes
  | Call_CommitInitialGenerationFromReshareLease bool RunLease GenerationBinding bytes bytes

fun exec :: "call \<Rightarrow> MemoryLifecycleStore \<Rightarrow> MemoryLifecycleStore" where
  "exec (Call_InstallInitialGeneration ctx b blob md) s = snd (InstallInitialGeneration ctx b blob md s)"
| "exec (Call_AcquireRunLease ctx b kind sid) s = snd (AcquireRunLease ctx b kind sid s)"
| "exec (Call_AcquireReshareReceiverLease ctx a) s = snd (AcquireReshareReceiverLease ctx a s)"
| "exec (Call_FinishRunLease ctx l outcome) s = snd (FinishRunLease ctx l outcome s)"
| "exec (Call_MarkProtocolRefreshFailed ctx l reason) s = snd (MarkProtocolRefreshFailed ctx l reason s)"
| "exec (Call_CommitAvailablePresignFromLease ctx l i blob md) s =
    snd (CommitAvailablePresignFromLease ctx l i blob md s)"
| "exec (Call_CommitSignAttempt ctx b i intent outbox) s = snd (CommitSignAttempt ctx b i intent outbox s)"
| "exec (Call_MarkAttemptDelivered ctx q v) s = snd (MarkAttemptDelivered ctx q v s)"
| "exec (Call_CompleteAttempt ctx q v) s = snd (CompleteAttempt ctx q v s)"
| "exec (Call_AbortAttempt ctx q reason) s = snd (AbortAttempt ctx q reason s)"
| "exec (Call_BurnPresign ctx b i reason) s = snd (BurnPresign ctx b i reason s)"
| "exec (Call_BeginCutover ctx source target) s = snd (BeginCutover ctx source target s)"
| "exec (Call_BeginCutoverFromLease ctx l target) s = snd (BeginCutoverFromLease ctx l target s)"
| "exec (Call_CommitRetirementFromLease ctx l target) s = snd (CommitRetirementFromLease ctx l target s)"
| "exec (Call_CommitCutover ctx fence blob md) s = snd (CommitCutover ctx fence blob md s)"
| "exec (Call_AbortCutover ctx fence reason) s = snd (AbortCutover ctx fence reason s)"
| "exec (Call_CommitInitialGenerationFromLease ctx l child blob md) s =
    snd (CommitInitialGenerationFromLease ctx l child blob md s)"
| "exec (Call_CommitInitialGenerationFromReshareLease ctx l target blob md) s =
    snd (CommitInitialGenerationFromReshareLease ctx l target blob md s)"

inductive reach_from :: "MemoryLifecycleStore \<Rightarrow> nat \<Rightarrow> MemoryLifecycleStore \<Rightarrow> bool" for s0 where
  start: "reach_from s0 0 s0"
| call: "reach_from s0 n s \<Longrightarrow> reach_from s0 (Suc n) (exec c s)"

abbreviation reach :: "nat \<Rightarrow> MemoryLifecycleStore \<Rightarrow> bool" where
  "reach \<equiv> reach_from NewMemoryLifecycleStore"

inductive_cases reach_from_SucE: "reach_from s0 (Suc n) s"

lemma reach_from_trans: "reach_from s1 m s2 \<Longrightarrow> reach_from s0 n s1 \<Longrightarrow> reach_from s0 (n + m) s2"
  by (induction rule: reach_from.induct) (auto intro: reach_from.intros)

lemma reach_from_exec: "reach_from s 1 (exec c s)"
  using reach_from.call [OF reach_from.start] by simp

section \<open>Preservation\<close>

lemma exec_good: "store_inv s \<Longrightarrow> nowrap s \<Longrightarrow> good s (exec c s)"
  by (cases c) (simp_all add: InstallInitialGeneration_good AcquireRunLease_good
      AcquireReshareReceiverLease_good FinishRunLease_good MarkProtocolRefreshFailed_good
      CommitAvailablePresignFromLease_good CommitSignAttempt_good MarkAttemptDelivered_def
      CompleteAttempt_def recordAttemptProgress_good AbortAttempt_good BurnPresign_good
      BeginCutover_good BeginCutoverFromLease_good CommitRetirementFromLease_good CommitCutover_good
      AbortCutover_good CommitInitialGenerationFromLease_good CommitInitialGenerationFromReshareLease_good)

lemma store_inv_empty: "store_inv NewMemoryLifecycleStore"
  by (simp add: store_inv_def NewMemoryLifecycleStore_def inv_gen_def inv_lease_def inv_eff_def inv_ref_def
      inv_pre_def inv_att_def inv_cut_def inv_tomb_def validateMemoryLifecycleTombstones_def)

section \<open>Token counters\<close>

definition ticks :: "MemoryLifecycleStore \<Rightarrow> MemoryLifecycleStore \<Rightarrow> bool" where
  "ticks s s' \<longleftrightarrow>
    (nextLeaseToken s' = nextLeaseToken s \<or> nextLeaseToken s' = nextLeaseToken s + 1)
    \<and> (nextCutoverToken s' = nextCutoverToken s \<or> nextCutoverToken s' = nextCutoverToken s + 1)"

lemma ticks_step: "step_or s (ticks s) r \<Longrightarrow> ticks s (snd r)"
  by (auto simp: step_or_def ticks_def)

lemmas ticks_defs = InstallInitialGeneration_def AcquireRunLease_def AcquireReshareReceiverLease_def
  FinishRunLease_def MarkProtocolRefreshFailed_def CommitAvailablePresignFromLease_def CommitSignAttempt_def
  MarkAttemptDelivered_def CompleteAttempt_def recordAttemptProgress_def AbortAttempt_def BurnPresign_def
  BeginCutover_def BeginCutoverFromLease_def CommitRetirementFromLease_def CommitCutover_def AbortCutover_def
  CommitInitialGenerationFromLease_def CommitInitialGenerationFromReshareLease_def Let_def case_prod_beta

lemma exec_ticks: "ticks s (exec c s)"
  by (cases c; simp only: exec.simps; rule ticks_step; unfold ticks_defs; intro step_rules;
      intro step_leaf; simp add: ticks_def storeLease_def setLeaseState_def setLeaseEffect_def
        openCutover_def Let_def putAttempt_def)

lemma unat_inc: "unat (w + 1) = Suc (unat w) mod 2 ^ 64" for w :: u64
  by (simp add: unat_word_ariths)

lemma unat_tick: "w' = w \<or> w' = w + 1 \<Longrightarrow> unat w \<le> n \<Longrightarrow> unat w' \<le> Suc n" for w w' :: u64
  unfolding unat_inc using mod_less_eq_dividend [of "Suc (unat w)" "2 ^ 64"]
  by (auto simp: unat_inc intro: order.trans simp del: mod_less_eq_dividend)

lemma reach_tokens:
  assumes "reach n s"
  shows "unat (nextLeaseToken s) \<le> n \<and> unat (nextCutoverToken s) \<le> n"
  using assms
proof (induction rule: reach_from.induct)
  case start
  show ?case by (simp add: NewMemoryLifecycleStore_def)
next
  case (call n s c)
  then show ?case using exec_ticks [of s c] unat_tick unfolding ticks_def by blast
qed

lemma nowrapI:
  assumes "unat (nextLeaseToken s) < 2 ^ 64 - 1" "unat (nextCutoverToken s) < 2 ^ 64 - 1"
  shows "nowrap s"
proof -
  have "w + 1 \<noteq> 0" if "unat w < 2 ^ 64 - 1" for w :: u64
  proof
    assume "w + 1 = 0"
    then have "Suc (unat w) mod 2 ^ 64 = 0" using unat_inc [of w] by simp
    with that show False by simp
  qed
  with assms show ?thesis by (simp add: nowrap_def)
qed

lemma reach_inv:
  assumes "reach n s" "n < 2 ^ 64"
  shows "store_inv s"
  using assms
proof (induction rule: reach_from.induct)
  case (call n s c)
  have "nowrap s" using reach_tokens [OF call.hyps] call.prems by (intro nowrapI) auto
  with call exec_good [of s c] show ?case by (simp add: good_def)
qed (rule store_inv_empty)

lemma reach_hist:
  assumes "reach_from s0 m s" "reach n s0" "n + m < 2 ^ 64"
  shows "hist s0 s"
  using assms
proof (induction rule: reach_from.induct)
  case (call m s c)
  have r: "reach (n + m) s" using reach_from_trans [OF call.hyps call.prems(1)] .
  with call.prems have i: "store_inv s" by (intro reach_inv) auto
  have "nowrap s" using reach_tokens [OF r] call.prems by (intro nowrapI) auto
  then have "hist s (exec c s)" using exec_good [OF i] by (simp add: good_def)
  then show ?case using call by (auto intro: hist_trans)
qed simp

section \<open>Tombstones\<close>

text \<open>Only compaction writes tombstones: a store that was never compacted has none.\<close>

lemma exec_tombstones: "tombstones (exec c s) = tombstones s"
proof -
  have "tombstones (snd r) = tombstones s" if "step_or s (\<lambda>s'. tombstones s' = tombstones s) r"
    for r :: "'a \<times> MemoryLifecycleStore" using that by (auto simp: step_or_def)
  note keep = this
  show ?thesis
    by (cases c; simp only: exec.simps; rule keep; unfold ticks_defs; intro step_rules;
        intro step_leaf; simp add: storeLease_def setLeaseState_def setLeaseEffect_def
          openCutover_def Let_def putAttempt_def)
qed

lemma reach_no_tombstones: "reach n s \<Longrightarrow> tombstones s = fmempty"
  by (induction rule: reach_from.induct) (simp_all add: exec_tombstones NewMemoryLifecycleStore_def)

end
