(* ===== verification/Lifecycle_Consistent.thy ===== *)
theory Lifecycle_Consistent
  imports Lifecycle_Run
begin

text \<open>
  The invariant implies the consistency check of the file-backed store, pass by pass.
\<close>

lemma inv_generations_ok: "inv_gen s \<Longrightarrow> validateMemoryLifecycleGenerations s = Inr ()"
proof -
  assume i: "inv_gen s"
  have gen: "genOk s b g" if "fmlookup (generations s) b = Some g" for b g
    using i that by (auto simp: inv_gen_def)
  have cur: "\<exists>g. KeyID b = k \<and> fmlookup (generations s) b = Some g \<and> g_Status g = GenerationCurrent"
    if "fmlookup (current s) k = Some b" for k b using i that by (auto simp: inv_gen_def)
  have "\<not> fm_ex (\<lambda>k b. k \<noteq> KeyID b \<or> \<not> GenerationBinding_Validate b) (current s)"
    using cur gen by (fastforce simp: fm_ex_iff genOk_def)
  moreover have "\<not> fm_ex (\<lambda>b g. \<not> GenerationBinding_Validate b \<or> g_Binding g \<noteq> b
      \<or> (if g_Status g = GenerationCurrent then fmlookup (current s) (KeyID b) \<noteq> Some b \<or> g_Blob g = []
         else g_Blob g \<noteq> [] \<or> g_Metadata g \<noteq> [])) (generations s)"
    using gen by (auto simp: fm_ex_iff genOk_def split: if_splits)
  moreover have "fm_count (\<lambda>b g. KeyID b = k \<and> g_Status g = GenerationCurrent) (generations s) = 1"
    if c: "fmlookup (current s) k = Some b" for k b
  proof -
    from cur [OF c] obtain g where g: "KeyID b = k" "fmlookup (generations s) b = Some g"
      "g_Status g = GenerationCurrent" by blast
    show ?thesis
    proof (rule fm_count_one [OF g(2)])
      fix b' g' assume "fmlookup (generations s) b' = Some g'"
        "KeyID b' = k \<and> g_Status g' = GenerationCurrent"
      then have "fmlookup (current s) k = Some b'" using gen by (metis genOk_def)
      with c show "b' = b" by simp
    qed (use g in simp)
  qed
  then have "\<not> fm_ex (\<lambda>k _. fm_count (\<lambda>b g. KeyID b = k \<and> g_Status g = GenerationCurrent)
      (generations s) \<noteq> 1) (current s)"
    unfolding fm_ex_iff by blast
  ultimately show ?thesis by (simp only: validateMemoryLifecycleGenerations_def if_False)
qed

lemma inv_leases_ok:
  assumes i: "inv_lease s" and a: "inv_att s" and c: "inv_cut s"
  shows "validateMemoryLifecycleLeases s = Inr ()"
proof -
  note l = i [unfolded inv_lease_def]
  have size: "fm_size (leasesByToken s) = fm_size (leaseBySession s)"
    by (rule fm_size_index [where f = l_SessionID]) (use l in auto)
  have entry: "\<not> leaseEntryBad s t x" if x: "fmlookup (leasesByToken s) t = Some x" for t x
  proof (cases "l_State x = RunLeaseActive")
    case True
    with l x have "validateStoredLease s t x" "activeOk s t x" by auto
    with True show ?thesis
      using nonterminal_current [OF a] fenced_current [OF c]
      by (auto simp: leaseEntryBad_def Let_def activeOk_def validateReceiverLease_def split: option.splits if_splits)
  next
    case False
    then have "\<not> fm_has t (reshareReceivers s)" using l x by (metis option.inject)
    with False l x show ?thesis by (simp add: leaseEntryBad_def Let_def)
  qed
  have recv: "fm_count (\<lambda>t x. l_State x = RunLeaseActive \<and> fm_has t (reshareReceivers s)) (leasesByToken s)
      = fm_size (reshareReceivers s)"
  proof -
    have "{t. \<exists>x. fmlookup (leasesByToken s) t = Some x \<and> l_State x = RunLeaseActive
        \<and> fm_has t (reshareReceivers s)} = {t. fmlookup (reshareReceivers s) t \<noteq> None}"
      using l unfolding fm_has_def by blast
    then show ?thesis by (simp add: fm_count_card fm_size_card)
  qed
  have excl: "activeLeaseCount s (KeyID (l_Binding x)) = 1"
    if x: "fmlookup (leasesByToken s) t = Some x" "l_State x = RunLeaseActive" "exclusiveLeaseRunKind (l_Kind x)"
    for t x
    unfolding activeLeaseCount_def
  proof (rule fm_count_one [OF x(1)])
    fix t' x' assume "fmlookup (leasesByToken s) t' = Some x'"
      "l_State x' = RunLeaseActive \<and> KeyID (l_Binding x') = KeyID (l_Binding x)"
    with l x show "t' = t" by metis
  qed (use x in simp)
  have "\<not> fm_ex (leaseEntryBad s) (leasesByToken s)" using entry by (auto simp: fm_ex_iff)
  moreover have "\<not> fm_ex (\<lambda>_ x. l_State x = RunLeaseActive \<and> exclusiveLeaseRunKind (l_Kind x)
      \<and> activeLeaseCount s (KeyID (l_Binding x)) \<noteq> 1) (leasesByToken s)"
    using excl by (auto simp: fm_ex_iff)
  ultimately show ?thesis by (simp add: validateMemoryLifecycleLeases_def size recv)
qed

lemma inv_effects_ok: "inv_eff s \<Longrightarrow> validateMemoryLifecycleLeaseEffects s = Inr ()"
  by (auto simp: validateMemoryLifecycleLeaseEffects_def inv_eff_def fm_ex_iff)

lemma inv_refresh_ok: "inv_ref s \<Longrightarrow> validateMemoryLifecycleRefreshDisabled s = Inr ()"
  by (auto simp: validateMemoryLifecycleRefreshDisabled_def inv_ref_def fm_ex_iff)

lemma inv_presigns_ok: "inv_pre s \<Longrightarrow> validateMemoryLifecyclePresigns s = Inr ()"
  unfolding validateMemoryLifecyclePresigns_def inv_pre_def fm_ex_iff by auto

lemma inv_attempts_ok: "inv_att s \<Longrightarrow> validateMemoryLifecycleAttempts s = Inr ()"
  by (auto simp: validateMemoryLifecycleAttempts_def inv_att_def fm_ex_iff)

lemma inv_cutovers_ok:
  assumes i: "inv_cut s"
  shows "validateMemoryLifecycleCutovers s = Inr ()"
proof -
  have "fm_count (\<lambda>_ c. c_state c = storedCutoverActive) (cutoversByToken s) = fm_size (cutoverByKey s)"
    by (rule fm_count_index [where f = "\<lambda>c. KeyID (f_Source (c_fence c))"])
       (use i in \<open>auto simp: inv_cut_def\<close>)
  with i show ?thesis by (auto simp: validateMemoryLifecycleCutovers_def inv_cut_def fm_ex_iff)
qed

lemma inv_validates: "store_inv s \<Longrightarrow> validateMemoryLifecycleStateForKey s fileLifecycleGlobalKeyID = Inr ()"
  by (simp add: store_inv_def validateMemoryLifecycleStateForKey_def inv_generations_ok inv_leases_ok
      inv_effects_ok inv_refresh_ok inv_presigns_ok inv_attempts_ok inv_cutovers_ok inv_tomb_def)

end
