(* ===== verification/Lifecycle_Trace.thy ===== *)
theory Lifecycle_Trace
  imports Lifecycle_Consistent
begin

text \<open>
  A concrete run of the store, used to instantiate its theorems: one key is installed, a presign is
  committed and consumed by a delivered and completed signing attempt, and the key is cut over twice.
\<close>

section \<open>Concrete arguments\<close>

definition ex_b1 :: GenerationBinding where "ex_b1 = \<lparr>KeyID = ''k'', KeyGen = ''g1'', Epoch = 1\<rparr>"
definition ex_b2 :: GenerationBinding where "ex_b2 = \<lparr>KeyID = ''k'', KeyGen = ''g2'', Epoch = 2\<rparr>"
definition ex_b3 :: GenerationBinding where "ex_b3 = \<lparr>KeyID = ''k'', KeyGen = ''g3'', Epoch = 3\<rparr>"

lemma ex_idents [simp]:
  "validateLifecycleIdentifier ''k''" "validateLifecycleIdentifier ''g1''"
  "validateLifecycleIdentifier ''g2''" "validateLifecycleIdentifier ''g3''"
  "validateLifecycleIdentifier ''p''" "validateLifecycleIdentifier ''a''"
  "validateLifecycleReason ''stop''"
  by (simp_all add: validateLifecycleIdentifier_def validateLifecycleReason_def printable_def str_bytes_def)

lemma ex_valid [simp]:
  "GenerationBinding_Validate ex_b1" "GenerationBinding_Validate ex_b2" "GenerationBinding_Validate ex_b3"
  by (simp_all add: GenerationBinding_Validate_def ex_b1_def ex_b2_def ex_b3_def EpochID_Valid_def)

lemma ex_bindings [simp]:
  "KeyID ex_b1 = ''k''" "KeyID ex_b2 = ''k''" "KeyID ex_b3 = ''k''"
  "KeyGen ex_b1 = ''g1''" "KeyGen ex_b2 = ''g2''" "KeyGen ex_b3 = ''g3''"
  "Epoch ex_b1 = 1" "Epoch ex_b2 = 2" "Epoch ex_b3 = 3"
  "ex_b1 \<noteq> ex_b2" "ex_b2 \<noteq> ex_b1" "ex_b2 \<noteq> ex_b3" "ex_b3 \<noteq> ex_b2" "ex_b1 \<noteq> ex_b3" "ex_b3 \<noteq> ex_b1"
  by (simp_all add: ex_b1_def ex_b2_def ex_b3_def)

definition ex_lease :: "u64 \<Rightarrow> RunKind \<Rightarrow> RunLeaseState \<Rightarrow> RunLease" where
  "ex_lease t kind st = \<lparr>l_Token = t, l_Binding = ex_b1, l_Kind = kind, l_SessionID = ucast t, l_State = st\<rparr>"

definition ex_intent :: SignAttemptIntent where
  "ex_intent = \<lparr>i_AttemptID = ''a'', i_SessionID = 2, i_IntentDigest = replicate 32 1\<rparr>"

definition ex_query :: AttemptQuery where
  "ex_query = \<lparr>q_Binding = ex_b1, q_PresignID = ''p'', q_AttemptID = ''a'', q_IntentDigest = replicate 32 1\<rparr>"

definition ex_fence :: "u64 \<Rightarrow> GenerationBinding \<Rightarrow> GenerationBinding \<Rightarrow> CutoverFence" where
  "ex_fence t source target = \<lparr>f_Token = t, f_Source = source, f_Target = target\<rparr>"

definition ex_digest :: bytes where
  "ex_digest = projr (leaseEffectArtifactDigest ''presign'' ex_b1 ''p'' [7] [8])"

text \<open>The artifact digest of a valid binding and identifier is always formed.\<close>

lemma tr_Appends_total:
  "list_all (\<lambda>(l, v). l \<noteq> [] \<and> fits32 (str_bytes l) \<and> (\<exists>w. tr_encode v = Inr w \<and> fits32 w)) es
    \<Longrightarrow> \<exists>b'. tr_Appends b es = Inr b'"
proof (induction es arbitrary: b)
  case (Cons e es)
  then obtain l v w where e: "e = (l, v)" "l \<noteq> []" "fits32 (str_bytes l)" "tr_encode v = Inr w" "fits32 w"
    by (cases e) auto
  then have "tr_Append b e = Inr (b @ entry (l, w))" by (simp add: tr_Append_def append_entry_iff)
  with Cons show ?case by simp
qed simp

lemma leaseEffectArtifactDigest_total:
  assumes "validateLifecycleIdentifier (KeyID b)" "validateLifecycleIdentifier (KeyGen b)"
    "validateLifecycleIdentifier i" "length label \<le> 256"
  shows "\<exists>d. leaseEffectArtifactDigest label b i blob metadata = Inr d"
proof -
  have "tr_New ''tssrun-lifecycle-lease-effect-v1'' = Inr ([] @ entry (''domain'',
      str_bytes ''tssrun-lifecycle-lease-effect-v1''))"
    by (simp add: tr_New_def append_entry_iff fits32_def)
  then have "\<exists>t. transcript ''tssrun-lifecycle-lease-effect-v1''
      [(''kind'', TString label), (''key_id'', TString (KeyID b)), (''key_generation'', TString (KeyGen b)),
       (''epoch_id'', TBytes (array32_bytes (Epoch b))), (''identifier'', TString i),
       (''blob_digest'', TBytes (sha256 blob)), (''metadata_digest'', TBytes (sha256 metadata))] = Inr t"
    unfolding transcript_def using assms
    by (simp only: sum.case, intro tr_Appends_total)
       (simp add: fits32_def validateLifecycleIdentifier_def array32_bytes_def)
  then show ?thesis by (auto simp: leaseEffectArtifactDigest_def transcript_sum_def)
qed

lemma ex_digest: "leaseEffectArtifactDigest ''presign'' ex_b1 ''p'' [7] [8] = Inr ex_digest"
  using leaseEffectArtifactDigest_total [of ex_b1 "''p''" "''presign''" "[7]" "[8]"]
  by (auto simp: ex_digest_def)

section \<open>The run\<close>

definition ex_gen :: "GenerationBinding \<Rightarrow> bytes \<Rightarrow> GenerationRecord" where
  "ex_gen b blob = \<lparr>g_Binding = b, g_Blob = blob, g_Metadata = [], g_Status = GenerationCurrent\<rparr>"

definition ex_presign :: "storedPresignState \<Rightarrow> storedPresign" where
  "ex_presign st = (if st = storedPresignAvailable then newPresign ex_b1 [7] [8]
    else (newPresign ex_b1 [7] [8])\<lparr>p_state := st, p_attemptID := ''a'', p_blob := [], p_metadata := []\<rparr>)"

definition ex_attempt :: SignAttemptRecord where
  "ex_attempt = newAttempt ex_b1 ''p'' ex_intent [8] [9]"

definition ex_done :: SignAttemptRecord where
  "ex_done = ex_attempt\<lparr>a_Delivery := [1], a_Delivered := True, a_Completion := [2], a_Completed := True,
    a_ExactOutbox := []\<rparr>"

definition ex_s1 :: MemoryLifecycleStore where
  "ex_s1 = NewMemoryLifecycleStore\<lparr>generations := fmupd ex_b1 (ex_gen ex_b1 [1]) fmempty,
    current := fmupd ''k'' ex_b1 fmempty\<rparr>"

definition ex_s2 :: MemoryLifecycleStore where
  "ex_s2 = ex_s1\<lparr>nextLeaseToken := 1, leasesByToken := fmupd 1 (ex_lease 1 RunPresign RunLeaseActive) fmempty,
    leaseBySession := fmupd 1 1 fmempty\<rparr>"

definition ex_s3 :: MemoryLifecycleStore where
  "ex_s3 = ex_s2\<lparr>presigns := fmupd ''p'' (ex_presign storedPresignAvailable) fmempty,
    leasesByToken := fmupd 1 (ex_lease 1 RunPresign RunLeaseCompleted) fmempty,
    leaseEffects := fmupd 1 (presignEffect 1 ''p'' ex_digest) fmempty\<rparr>"

definition ex_s4 :: MemoryLifecycleStore where
  "ex_s4 = ex_s3\<lparr>nextLeaseToken := 2,
    leasesByToken := fmupd 2 (ex_lease 2 RunSign RunLeaseActive) (leasesByToken ex_s3),
    leaseBySession := fmupd 2 2 (leaseBySession ex_s3)\<rparr>"

definition ex_s5 :: MemoryLifecycleStore where
  "ex_s5 = ex_s4\<lparr>attempts := fmupd ''a'' ex_attempt fmempty,
    presigns := fmupd ''p'' (ex_presign storedPresignClaimed) fmempty\<rparr>"

definition ex_s8 :: MemoryLifecycleStore where
  "ex_s8 = ex_s5\<lparr>attempts := fmupd ''a'' ex_done fmempty,
    leasesByToken := fmupd 2 (ex_lease 2 RunSign RunLeaseCompleted) (leasesByToken ex_s3)\<rparr>"

definition ex_s9 :: MemoryLifecycleStore where
  "ex_s9 = ex_s8\<lparr>nextCutoverToken := 1, cutoversByToken := fmupd 1 (newCutover (ex_fence 1 ex_b1 ex_b2)) fmempty,
    cutoverByKey := fmupd ''k'' 1 fmempty\<rparr>"

definition ex_s10 :: MemoryLifecycleStore where
  "ex_s10 = ex_s9\<lparr>generations := fmupd ex_b1 (retireRecord (ex_gen ex_b1 [1])) 
      (fmupd ex_b2 (ex_gen ex_b2 [3]) (generations ex_s9)),
    current := fmupd ''k'' ex_b2 fmempty,
    presigns := fmupd ''p'' ((ex_presign storedPresignClaimed)
      \<lparr>p_state := storedPresignBurned, p_reason := ''generation cutover''\<rparr>) fmempty,
    cutoversByToken := fmupd 1 (committedCutover (newCutover (ex_fence 1 ex_b1 ex_b2)) [3] []) fmempty,
    cutoverByKey := fmempty\<rparr>"

definition ex_s11 :: MemoryLifecycleStore where
  "ex_s11 = ex_s10\<lparr>nextCutoverToken := 2,
    cutoversByToken := fmupd 2 (newCutover (ex_fence 2 ex_b2 ex_b3)) (cutoversByToken ex_s10),
    cutoverByKey := fmupd ''k'' 2 fmempty\<rparr>"

definition ex_s12 :: MemoryLifecycleStore where
  "ex_s12 = snd (CommitCutover False (ex_fence 2 ex_b2 ex_b3) [4] [] ex_s11)"

lemmas ex_states = NewMemoryLifecycleStore_def ex_s1_def ex_s2_def ex_s3_def ex_s4_def ex_s5_def ex_s8_def
  ex_s9_def ex_s10_def ex_s11_def
lemmas ex_data = ex_lease_def ex_intent_def ex_query_def ex_fence_def ex_gen_def ex_presign_def ex_attempt_def
  ex_done_def newPresign_def presignEffect_def newAttempt_def newCutover_def committedCutover_def
lemmas ex_guards = validateLifecycleBlob_def SessionID_Valid_def validateRunLease_def
  SignAttemptIntent_Validate_def AttemptQuery_Validate_def validatePresignInput_def validateCutoverFence_def
  validateCutoverBindings_def sameAttemptQuery_def sameBaseAttempt_def Terminal_def

lemma fm_ex_upd: "fm_ex P (fmupd k v m) \<longleftrightarrow> P k v \<or> fm_ex P (fmdrop k m)"
  by (auto simp: fm_ex_iff split: if_splits)

lemma fmdrop_upd: "fmdrop k (fmupd k' v m) = (if k = k' then fmdrop k m else fmupd k' v (fmdrop k m))"
  by (rule fmap_ext) simp

lemmas ex_eval = locked hasIncompatibleLeaseLocked_def hasActiveSignLeaseLocked_def exactActiveLeaseLocked_def
  mutableAttemptLocked_def fm_ex_upd fmdrop_upd newLease_def storeLease_def setLeaseState_def setLeaseEffect_def
  openCutover_def putAttempt_def clearAttemptSecretsIfTerminalLocked_def burnEpochPresignsLocked_def
  burnEpochPresign_def fmupd_fmupd Let_def

lemma ex_run1: "InstallInitialGeneration False ex_b1 [1] [] NewMemoryLifecycleStore = (Inr (ex_gen ex_b1 [1]), ex_s1)"
  by (simp add: InstallInitialGeneration_def ex_eval ex_guards ex_states ex_data)

lemma ex_run2: "AcquireRunLease False ex_b1 RunPresign 1 ex_s1 = (Inr (ex_lease 1 RunPresign RunLeaseActive), ex_s2)"
  by (simp add: AcquireRunLease_def ex_eval ex_guards ex_states ex_data)

lemma ex_run3:
  "CommitAvailablePresignFromLease False (ex_lease 1 RunPresign RunLeaseActive) ''p'' [7] [8] ex_s2 = (Inr (), ex_s3)"
  by (simp add: CommitAvailablePresignFromLease_def ex_digest ex_eval ex_guards ex_states ex_data)

lemma ex_run4: "AcquireRunLease False ex_b1 RunSign 2 ex_s3 = (Inr (ex_lease 2 RunSign RunLeaseActive), ex_s4)"
  by (simp add: AcquireRunLease_def ex_eval ex_guards ex_states ex_data)

lemma ex_run5:
  "CommitSignAttempt False ex_b1 ''p'' ex_intent [9] ex_s4
    = (Inr \<lparr>ac_Status = AttemptCreated, ac_Record = ex_attempt\<rparr>, ex_s5)"
  by (simp add: CommitSignAttempt_def ex_eval ex_guards ex_states ex_data)

lemma ex_run678:
  "MarkAttemptDelivered False ex_query [1] ex_s5
    = (Inr (ex_attempt\<lparr>a_Delivery := [1], a_Delivered := True\<rparr>), exec (Call_MarkAttemptDelivered False ex_query [1]) ex_s5)"
  "exec (Call_FinishRunLease False (ex_lease 2 RunSign RunLeaseActive) LeaseCompleted)
    (exec (Call_CompleteAttempt False ex_query [2])
      (exec (Call_MarkAttemptDelivered False ex_query [1]) ex_s5)) = ex_s8"
  by (simp_all add: MarkAttemptDelivered_def CompleteAttempt_def recordAttemptProgress_def FinishRunLease_def
      ex_eval ex_guards ex_states ex_data)

lemma ex_run9: "BeginCutover False ex_b1 ex_b2 ex_s8 = (Inr (ex_fence 1 ex_b1 ex_b2), ex_s9)"
  by (simp add: BeginCutover_def ex_eval ex_guards ex_states ex_data)

lemma fmmap_upd: "fmmap f (fmupd k v m) = fmupd k (f v) (fmmap f m)"
  by (rule fmap_ext) simp

lemma ex_run10:
  "CommitCutover False (ex_fence 1 ex_b1 ex_b2) [3] [] ex_s9 = (Inr (ex_gen ex_b2 [3]), ex_s10)"
  by (simp add: CommitCutover_def ex_eval ex_guards ex_states ex_data fmmap_upd retireRecord_def)

lemma ex_run11: "BeginCutover False ex_b2 ex_b3 ex_s10 = (Inr (ex_fence 2 ex_b2 ex_b3), ex_s11)"
  by (simp add: BeginCutover_def ex_eval ex_guards ex_states ex_data retireRecord_def)

lemma ex_run12:
  "fst (CommitCutover False (ex_fence 2 ex_b2 ex_b3) [4] [] ex_s11) = Inr (ex_gen ex_b3 [4])"
  by (simp add: CommitCutover_def ex_eval ex_guards ex_states ex_data retireRecord_def)

lemma ex_reach:
  "reach 1 ex_s1" "reach 2 ex_s2" "reach 3 ex_s3" "reach 4 ex_s4" "reach 5 ex_s5" "reach 8 ex_s8"
  "reach 9 ex_s9" "reach 10 ex_s10" "reach 11 ex_s11" "reach 12 ex_s12"
proof -
  have next_call: "reach (Suc n) s'" if "reach n s" "s' = exec c s" for n s s' c
    using reach_from.call that by simp
  show 1: "reach 1 ex_s1"
    using next_call [OF reach_from.start, of _ "Call_InstallInitialGeneration False ex_b1 [1] []"] ex_run1 by simp
  show 2: "reach 2 ex_s2" using next_call [OF 1, of _ "Call_AcquireRunLease False ex_b1 RunPresign 1"] ex_run2 by (simp add: eval_nat_numeral)
  show 3: "reach 3 ex_s3"
    using next_call [OF 2, of _ "Call_CommitAvailablePresignFromLease False
      (ex_lease 1 RunPresign RunLeaseActive) ''p'' [7] [8]"] ex_run3 by (simp add: eval_nat_numeral)
  show 4: "reach 4 ex_s4" using next_call [OF 3, of _ "Call_AcquireRunLease False ex_b1 RunSign 2"] ex_run4 by (simp add: eval_nat_numeral)
  show 5: "reach 5 ex_s5"
    using next_call [OF 4, of _ "Call_CommitSignAttempt False ex_b1 ''p'' ex_intent [9]"] ex_run5 by (simp add: eval_nat_numeral)
  have 6: "reach 6 (exec (Call_MarkAttemptDelivered False ex_query [1]) ex_s5)"
    using next_call [OF 5 refl, of "Call_MarkAttemptDelivered False ex_query [1]"] by (simp add: eval_nat_numeral)
  have 7: "reach 7 (exec (Call_CompleteAttempt False ex_query [2])
      (exec (Call_MarkAttemptDelivered False ex_query [1]) ex_s5))" 
    using next_call [OF 6 refl, of "Call_CompleteAttempt False ex_query [2]"] by (simp add: eval_nat_numeral)
  show 8: "reach 8 ex_s8" using next_call [OF 7, of _ "Call_FinishRunLease False (ex_lease 2 RunSign RunLeaseActive) LeaseCompleted"]
      ex_run678(2) by (simp add: eval_nat_numeral)
  show 9: "reach 9 ex_s9" using next_call [OF 8, of _ "Call_BeginCutover False ex_b1 ex_b2"] ex_run9 by (simp add: eval_nat_numeral)
  show 10: "reach 10 ex_s10"
    using next_call [OF 9, of _ "Call_CommitCutover False (ex_fence 1 ex_b1 ex_b2) [3] []"] ex_run10 by (simp add: eval_nat_numeral)
  show 11: "reach 11 ex_s11" using next_call [OF 10, of _ "Call_BeginCutover False ex_b2 ex_b3"] ex_run11 by (simp add: eval_nat_numeral)
  show "reach 12 ex_s12"
    using next_call [OF 11, of _ "Call_CommitCutover False (ex_fence 2 ex_b2 ex_b3) [4] []"]
    by (simp add: ex_s12_def eval_nat_numeral)
qed

end
