(* ===== verification/Lifecycle_Props.thy ===== *)
theory Lifecycle_Props
  imports Lifecycle_Trace
begin

text \<open>
  What the lifecycle store promises, for every sequence of calls: consistency, single use of presigns
  and sessions, exclusive leases, atomic cutovers, cleared secrets and failed calls without effect.
\<close>

section \<open>Failed calls\<close>

definition err_same :: "'s \<Rightarrow> ('e + 'a) \<times> 's \<Rightarrow> bool" where
  "err_same s r \<longleftrightarrow> (\<forall>e. fst r = Inl e \<longrightarrow> snd r = s)"

lemma err_leaf: "err_same s (Inl e, s)" "err_same s (Inr x, s')"
  by (simp_all add: err_same_def)

lemma err_if: "(c \<Longrightarrow> err_same s x) \<Longrightarrow> (\<not> c \<Longrightarrow> err_same s y) \<Longrightarrow> err_same s (if c then x else y)"
  by simp

lemma err_option:
  "(m = None \<Longrightarrow> err_same s x) \<Longrightarrow> (\<And>v. m = Some v \<Longrightarrow> err_same s (f v))
    \<Longrightarrow> err_same s (case m of None \<Rightarrow> x | Some v \<Rightarrow> f v)"
  by (cases m) simp_all

lemma err_sum:
  "(\<And>e. m = Inl e \<Longrightarrow> err_same s (g e)) \<Longrightarrow> (\<And>v. m = Inr v \<Longrightarrow> err_same s (f v))
    \<Longrightarrow> err_same s (case m of Inl e \<Rightarrow> g e | Inr v \<Rightarrow> f v)"
  by (cases m) simp_all

lemma err_presign:
  "(p = storedPresignAvailable \<Longrightarrow> err_same s x) \<Longrightarrow> (p = storedPresignClaimed \<Longrightarrow> err_same s y)
    \<Longrightarrow> (p = storedPresignBurned \<Longrightarrow> err_same s z)
    \<Longrightarrow> err_same s (case p of storedPresignAvailable \<Rightarrow> x | storedPresignClaimed \<Rightarrow> y
      | storedPresignBurned \<Rightarrow> z)"
  by (cases p) simp_all

lemmas err_rules = err_leaf err_if err_option err_sum err_presign

text \<open>What a successful call returns and leaves behind.\<close>

definition ok_or :: "('a \<Rightarrow> 's \<Rightarrow> bool) \<Rightarrow> ('e + 'a) \<times> 's \<Rightarrow> bool" where
  "ok_or P r \<longleftrightarrow> (\<forall>x. fst r = Inr x \<longrightarrow> P x (snd r))"

lemma ok_orD: "ok_or P r \<Longrightarrow> r = (Inr x, s') \<Longrightarrow> P x s'"
  by (simp add: ok_or_def)

lemma ok_err: "ok_or P (Inl e, s)"
  by (simp add: ok_or_def)

lemma ok_leaf: "P x s \<Longrightarrow> ok_or P (Inr x, s)"
  by (simp add: ok_or_def)

lemma ok_if: "(c \<Longrightarrow> ok_or P x) \<Longrightarrow> (\<not> c \<Longrightarrow> ok_or P y) \<Longrightarrow> ok_or P (if c then x else y)"
  by simp

lemma ok_option:
  "(m = None \<Longrightarrow> ok_or P x) \<Longrightarrow> (\<And>v. m = Some v \<Longrightarrow> ok_or P (f v))
    \<Longrightarrow> ok_or P (case m of None \<Rightarrow> x | Some v \<Rightarrow> f v)"
  by (cases m) simp_all

lemma ok_sum:
  "(\<And>e. m = Inl e \<Longrightarrow> ok_or P (g e)) \<Longrightarrow> (\<And>v. m = Inr v \<Longrightarrow> ok_or P (f v))
    \<Longrightarrow> ok_or P (case m of Inl e \<Rightarrow> g e | Inr v \<Rightarrow> f v)"
  by (cases m) simp_all

lemma ok_presign:
  "(p = storedPresignAvailable \<Longrightarrow> ok_or P x) \<Longrightarrow> (p = storedPresignClaimed \<Longrightarrow> ok_or P y)
    \<Longrightarrow> (p = storedPresignBurned \<Longrightarrow> ok_or P z)
    \<Longrightarrow> ok_or P (case p of storedPresignAvailable \<Rightarrow> x | storedPresignClaimed \<Rightarrow> y
      | storedPresignBurned \<Rightarrow> z)"
  by (cases p) simp_all

lemmas ok_rules = ok_err ok_if ok_option ok_sum ok_presign

text \<open>The error that a call returns.\<close>

definition errOf :: "('e + 'a) \<times> 's \<Rightarrow> 'e option" where
  "errOf r = (case fst r of Inl e \<Rightarrow> Some e | Inr _ \<Rightarrow> None)"

lemma err_same_errOf: "err_same s r \<Longrightarrow> errOf r = Some e \<Longrightarrow> snd r = s"
  by (auto simp: err_same_def errOf_def split: sum.splits)

fun call_error :: "call \<Rightarrow> MemoryLifecycleStore \<Rightarrow> lerror option" where
  "call_error (Call_InstallInitialGeneration ctx b blob md) s = errOf (InstallInitialGeneration ctx b blob md s)"
| "call_error (Call_AcquireRunLease ctx b kind sid) s = errOf (AcquireRunLease ctx b kind sid s)"
| "call_error (Call_AcquireReshareReceiverLease ctx a) s = errOf (AcquireReshareReceiverLease ctx a s)"
| "call_error (Call_FinishRunLease ctx l outcome) s = errOf (FinishRunLease ctx l outcome s)"
| "call_error (Call_MarkProtocolRefreshFailed ctx l reason) s = errOf (MarkProtocolRefreshFailed ctx l reason s)"
| "call_error (Call_CommitAvailablePresignFromLease ctx l i blob md) s =
    errOf (CommitAvailablePresignFromLease ctx l i blob md s)"
| "call_error (Call_CommitSignAttempt ctx b i intent outbox) s = errOf (CommitSignAttempt ctx b i intent outbox s)"
| "call_error (Call_MarkAttemptDelivered ctx q v) s = errOf (MarkAttemptDelivered ctx q v s)"
| "call_error (Call_CompleteAttempt ctx q v) s = errOf (CompleteAttempt ctx q v s)"
| "call_error (Call_AbortAttempt ctx q reason) s = errOf (AbortAttempt ctx q reason s)"
| "call_error (Call_BurnPresign ctx b i reason) s = errOf (BurnPresign ctx b i reason s)"
| "call_error (Call_BeginCutover ctx source target) s = errOf (BeginCutover ctx source target s)"
| "call_error (Call_BeginCutoverFromLease ctx l target) s = errOf (BeginCutoverFromLease ctx l target s)"
| "call_error (Call_CommitRetirementFromLease ctx l target) s = errOf (CommitRetirementFromLease ctx l target s)"
| "call_error (Call_CommitCutover ctx fence blob md) s = errOf (CommitCutover ctx fence blob md s)"
| "call_error (Call_AbortCutover ctx fence reason) s = errOf (AbortCutover ctx fence reason s)"
| "call_error (Call_CommitInitialGenerationFromLease ctx l child blob md) s =
    errOf (CommitInitialGenerationFromLease ctx l child blob md s)"
| "call_error (Call_CommitInitialGenerationFromReshareLease ctx l target blob md) s =
    errOf (CommitInitialGenerationFromReshareLease ctx l target blob md s)"

lemma AbortAttempt_err_same: "store_inv s \<Longrightarrow> err_same s (AbortAttempt ctx q reason s)"
  unfolding AbortAttempt_def Let_def
proof (intro err_rules, goal_cases)
  case (1 r)
  then have "\<not> Terminal r" by (auto simp: Terminal_def)
  with 1 obtain p' where "fmlookup (presigns s) (a_PresignID r) = Some p'" using mutable_claimed by metis
  with 1 show ?case by (simp add: putAttempt_def)
next
  case (2 r p)
  then have "\<not> Terminal r" by (auto simp: Terminal_def)
  with 2 obtain p' where "fmlookup (presigns s) (a_PresignID r) = Some p'"
    "p_attemptID p' = q_AttemptID q" "p_state p' = storedPresignClaimed" "i_AttemptID (a_Intent r) = q_AttemptID q"
    using mutable_claimed by metis
  with 2 show ?case by (simp add: putAttempt_def)
qed

lemma ops_err_same:
  "err_same s (InstallInitialGeneration ctx b blob md s)"
  "err_same s (AcquireRunLease ctx b kind sid s)"
  "err_same s (AcquireReshareReceiverLease ctx a s)"
  "err_same s (FinishRunLease ctx l outcome s)"
  "err_same s (MarkProtocolRefreshFailed ctx l reason s)"
  "err_same s (CommitAvailablePresignFromLease ctx l i blob md s)"
  "err_same s (CommitSignAttempt ctx b i intent outbox s)"
  "err_same s (MarkAttemptDelivered ctx q v s)"
  "err_same s (CompleteAttempt ctx q v s)"
  "err_same s (BurnPresign ctx b i reason s)"
  "err_same s (BeginCutover ctx b b' s)"
  "err_same s (BeginCutoverFromLease ctx l b' s)"
  "err_same s (CommitRetirementFromLease ctx l b' s)"
  "err_same s (CommitCutover ctx fence blob md s)"
  "err_same s (AbortCutover ctx fence reason s)"
  "err_same s (CommitInitialGenerationFromLease ctx l b' blob md s)"
  "err_same s (CommitInitialGenerationFromReshareLease ctx l b' blob md s)"
  unfolding ticks_defs by (intro err_rules)+

lemma exec_err_same: "store_inv s \<Longrightarrow> call_error c s = Some e \<Longrightarrow> exec c s = s"
  by (cases c) (simp_all add: err_same_errOf [OF ops_err_same(1)] err_same_errOf [OF ops_err_same(2)]
      err_same_errOf [OF ops_err_same(3)] err_same_errOf [OF ops_err_same(4)] err_same_errOf [OF ops_err_same(5)]
      err_same_errOf [OF ops_err_same(6)] err_same_errOf [OF ops_err_same(7)] err_same_errOf [OF ops_err_same(8)]
      err_same_errOf [OF ops_err_same(9)] err_same_errOf [OF ops_err_same(10)] err_same_errOf [OF ops_err_same(11)]
      err_same_errOf [OF ops_err_same(12)] err_same_errOf [OF ops_err_same(13)] err_same_errOf [OF ops_err_same(14)]
      err_same_errOf [OF ops_err_same(15)] err_same_errOf [OF ops_err_same(16)] err_same_errOf [OF ops_err_same(17)]
      err_same_errOf [OF AbortAttempt_err_same])

section \<open>Consistency\<close>

text \<open>
  C2: after any sequence of fewer than \<open>2 ^ 64\<close> calls the store passes the full consistency check that
  the file-backed store runs on a loaded state, so no call sequence produces a state that is later
  reported as corrupt.
\<close>

theorem lifecycle_consistent:
  "reach n s \<Longrightarrow> n < 2 ^ 64 \<Longrightarrow> validateMemoryLifecycleStateForKey s fileLifecycleGlobalKeyID = Inr ()"
  by (intro inv_validates reach_inv)

theorem lifecycle_consistent_witness:
  "reach 12 ex_s12 \<and> validateMemoryLifecycleStateForKey ex_s12 fileLifecycleGlobalKeyID = Inr ()"
  using lifecycle_consistent [OF ex_reach(10)] ex_reach(10) by simp

text \<open>
  C4: a call that returns an error leaves the store exactly as it was, for each of the eighteen
  mutating calls, including \<^verbatim>\<open>AbortAttempt\<close>, which writes before its last check.
\<close>

theorem failed_call_no_effect:
  "reach n s \<Longrightarrow> n < 2 ^ 64 \<Longrightarrow> call_error c s = Some e \<Longrightarrow> exec c s = s"
  by (intro exec_err_same reach_inv)

theorem failed_call_no_effect_witness:
  "call_error (Call_BeginCutover False ex_b1 ex_b2) ex_s5 = Some ErrRunLeaseConflict
    \<and> exec (Call_BeginCutover False ex_b1 ex_b2) ex_s5 = ex_s5"
proof -
  have "call_error (Call_BeginCutover False ex_b1 ex_b2) ex_s5 = Some ErrRunLeaseConflict"
    by (simp add: errOf_def BeginCutover_def ex_eval ex_guards ex_states ex_data)
  with failed_call_no_effect [OF ex_reach(5) _ this] show ?thesis by simp
qed

section \<open>Single use\<close>

lemma CommitSignAttempt_ok:
  "ok_or (\<lambda>r s'.
      (\<exists>p. ac_Status r = AttemptCreated \<and> fmlookup (presigns s) j = Some p
        \<and> p_state p = storedPresignAvailable \<and> p_binding p = b \<and> s' = claim intent j p out s
        \<and> ac_Record r = newAttempt b j intent (p_metadata p) out
        \<and> fmlookup (attempts s) (i_AttemptID intent) = None)
      \<or> ac_Status r = AttemptExistingSame \<and> s' = s
        \<and> fmlookup (attempts s) (i_AttemptID intent) = Some (ac_Record r)
        \<and> sameBaseAttempt (ac_Record r) b j intent (sha256 out))
    (CommitSignAttempt ctx b j intent out s)"
  unfolding CommitSignAttempt_def Let_def
  by (intro ok_rules; intro ok_leaf) (auto simp: claim_def)

lemma CommitSignAttempt_outcome:
  assumes "CommitSignAttempt ctx b j intent out s = (Inr r, s')"
  obtains (created) p where "ac_Status r = AttemptCreated" "fmlookup (presigns s) j = Some p"
      "p_state p = storedPresignAvailable" "p_binding p = b" "s' = claim intent j p out s"
      "ac_Record r = newAttempt b j intent (p_metadata p) out" "fmlookup (attempts s) (i_AttemptID intent) = None"
  | (existing) "ac_Status r = AttemptExistingSame" "s' = s"
      "fmlookup (attempts s) (i_AttemptID intent) = Some (ac_Record r)"
      "sameBaseAttempt (ac_Record r) b j intent (sha256 out)"
  using ok_orD [OF CommitSignAttempt_ok assms] by blast

lemma later_inv:
  assumes "reach n s" "s1 = exec c s" "reach_from s1 m s2" "n + m + 1 < 2 ^ 64"
  shows "store_inv s2" "hist s1 s2" "reach (n + m + 1) s2"
proof -
  have 1: "reach (n + 1) s1" using reach_from_trans [OF reach_from_exec assms(1)] assms(2) by simp
  then show 2: "reach (n + m + 1) s2" using reach_from_trans [OF assms(3) 1] by (simp add: ac_simps)
  show "store_inv s2" using reach_inv [OF 2] assms(4) by simp
  show "hist s1 s2" using reach_hist [OF assms(3) 1] assms(4) by simp
qed

lemma created_attempt_later:
  assumes r: "reach n s" "CommitSignAttempt ctx b j intent out s = (Inr r, s1)"
    and later: "reach_from s1 m s2" "n + m + 1 < 2 ^ 64"
  obtains a p where "fmlookup (attempts s2) (i_AttemptID intent) = Some a" "a_Binding a = b"
    "a_PresignID a = j" "i_AttemptID (a_Intent a) = i_AttemptID intent"
    "i_SessionID (a_Intent a) = i_SessionID intent" "i_IntentDigest (a_Intent a) = i_IntentDigest intent"
    "a_OutboxDigest a = sha256 out"
    "fmlookup (presigns s2) j = Some p" "p_state p \<noteq> storedPresignAvailable" "p_attemptID p = i_AttemptID intent"
proof -
  have eq: "s1 = exec (Call_CommitSignAttempt ctx b j intent out) s" using r(2) by simp
  note l = later_inv [OF r(1) eq later]
  have "\<exists>a. fmlookup (attempts s1) (i_AttemptID intent) = Some a \<and> a_Binding a = b \<and> a_PresignID a = j
    \<and> i_AttemptID (a_Intent a) = i_AttemptID intent \<and> i_SessionID (a_Intent a) = i_SessionID intent
    \<and> i_IntentDigest (a_Intent a) = i_IntentDigest intent \<and> a_OutboxDigest a = sha256 out"
    using r(2) by (rule CommitSignAttempt_outcome) (auto simp: claim_def newAttempt_def sameBaseAttempt_def)
  then obtain a a' where a: "fmlookup (attempts s2) (i_AttemptID intent) = Some a" "attempt_le a' a"
    "a_Binding a' = b" "a_PresignID a' = j" "i_AttemptID (a_Intent a') = i_AttemptID intent"
    "i_SessionID (a_Intent a') = i_SessionID intent" "i_IntentDigest (a_Intent a') = i_IntentDigest intent"
    "a_OutboxDigest a' = sha256 out"
    using l(2) unfolding hist_def by (metis rec_leD)
  from attempt_presign [OF inv_parts(6) [OF l(1)] a(1)] obtain p where
    "fmlookup (presigns s2) (a_PresignID a) = Some p" "p_attemptID p = i_AttemptID intent"
    "p_state p \<noteq> storedPresignAvailable" by metis
  with a that show ?thesis by (simp add: attempt_le_def)
qed

text \<open>
  C1: a presign is consumed at most once.  Once a signing attempt has been committed on a presign,
  every later successful commit on that presign, however many calls later and from whichever caller,
  is a replay of the same attempt: same generation, same intent, an outbox with the same digest, and
  no change to the store.
\<close>

theorem presign_single_use:
  assumes "reach n s" "CommitSignAttempt ctx b j intent out s = (Inr r, s1)"
    and "reach_from s1 m s2" "n + m + 1 < 2 ^ 64"
    and "CommitSignAttempt ctx' b' j intent' out' s2 = (Inr r', s3)"
  shows "ac_Status r' = AttemptExistingSame \<and> s3 = s2 \<and> b' = b \<and> intent' = intent
    \<and> sha256 out' = sha256 out"
proof -
  obtain a p where a: "fmlookup (attempts s2) (i_AttemptID intent) = Some a" "a_Binding a = b"
    "i_AttemptID (a_Intent a) = i_AttemptID intent" "i_SessionID (a_Intent a) = i_SessionID intent"
    "i_IntentDigest (a_Intent a) = i_IntentDigest intent" "a_OutboxDigest a = sha256 out"
    and p: "fmlookup (presigns s2) j = Some p" "p_state p \<noteq> storedPresignAvailable"
      "p_attemptID p = i_AttemptID intent"
    using created_attempt_later [OF assms(1-4)] by metis
  have i: "store_inv s2" using later_inv(1) [OF assms(1) _ assms(3,4)] assms(2)
    by (metis exec.simps(7) snd_conv)
  from assms(5) show ?thesis
  proof (cases rule: CommitSignAttempt_outcome)
    case existing
    from attempt_presign [OF inv_parts(6) [OF i] existing(3)] existing(4) p
    have "i_AttemptID intent' = i_AttemptID intent" by (metis option.inject sameBaseAttempt_def)
    with existing a have "ac_Record r' = a" by simp
    with existing a show ?thesis by (simp add: sameBaseAttempt_def)
  qed (use p in simp)
qed

lemma ex_reach58: "reach_from ex_s5 3 ex_s8"
  using reach_from.call [OF reach_from.call [OF reach_from.call [OF reach_from.start]]] ex_run678(2)
  by (metis numeral_3_eq_3)

lemma ex_replay:
  "CommitSignAttempt False ex_b1 ''p'' ex_intent [9] ex_s8
    = (Inr \<lparr>ac_Status = AttemptExistingSame, ac_Record = ex_done\<rparr>, ex_s8)"
  by (simp add: CommitSignAttempt_def ex_eval ex_guards ex_states ex_data)

theorem presign_single_use_witness:
  "CommitSignAttempt False ex_b1 ''p'' ex_intent [9] ex_s4
      = (Inr \<lparr>ac_Status = AttemptCreated, ac_Record = ex_attempt\<rparr>, ex_s5)
    \<and> CommitSignAttempt False ex_b1 ''p'' ex_intent [9] ex_s8
      = (Inr \<lparr>ac_Status = AttemptExistingSame, ac_Record = ex_done\<rparr>, ex_s8)
    \<and> ac_Status \<lparr>ac_Status = AttemptExistingSame, ac_Record = ex_done\<rparr> = AttemptExistingSame"
  using presign_single_use [OF ex_reach(4) ex_run5 ex_reach58 _ ex_replay] ex_run5 ex_replay by simp



section \<open>Leases\<close>

lemma AcquireRunLease_ok:
  "ok_or (\<lambda>l s'. l = newLease b kind sid s \<and> s' = storeLease l s \<and> fmlookup (leaseBySession s) sid = None
        \<and> leaseFree b kind s
      \<or> s' = s \<and> (\<exists>t. fmlookup (leaseBySession s) sid = Some t \<and> fmlookup (leasesByToken s) t = Some l)
        \<and> l_Binding l = b \<and> l_Kind l = kind \<and> l_SessionID l = sid \<and> l_State l = RunLeaseActive)
    (AcquireRunLease ctx b kind sid s)"
  unfolding AcquireRunLease_def Let_def
  by (intro ok_rules; intro ok_leaf) (auto simp: leaseFree_def)


lemma ex_reacquire:
  "AcquireRunLease False ex_b1 RunSign 2 ex_s5 = (Inr (ex_lease 2 RunSign RunLeaseActive), ex_s5)"
  by (simp add: AcquireRunLease_def ex_eval ex_guards ex_states ex_data)

lemma ex_reach45: "reach_from ex_s4 1 ex_s5"
  using reach_from_exec [of ex_s4 "Call_CommitSignAttempt False ex_b1 ''p'' ex_intent [9]"] ex_run5 by simp


text \<open>
  C5: leases exclude one another as their kinds require.  Two active leases of one key are the same
  lease as soon as one of them is a keygen, child-derivation, refresh or reshare lease; and no lease
  of a key is active while a cutover fence for that key is open.
\<close>

theorem active_leases_exclusive:
  assumes "reach n s" "n < 2 ^ 64"
    and "fmlookup (leasesByToken s) t = Some l" "l_State l = RunLeaseActive"
  shows "(fmlookup (leasesByToken s) t' = Some l' \<and> l_State l' = RunLeaseActive
      \<and> KeyID (l_Binding l') = KeyID (l_Binding l) \<and> exclusiveLeaseRunKind (l_Kind l) \<longrightarrow> t' = t)
    \<and> fmlookup (cutoverByKey s) (KeyID (l_Binding l)) = None"
proof -
  note i = inv_parts [OF reach_inv [OF assms(1,2)]]
  have "\<not> fm_has (KeyID (l_Binding l)) (cutoverByKey s)"
  proof
    assume "fm_has (KeyID (l_Binding l)) (cutoverByKey s)"
    then obtain c where "fmlookup (cutoverByKey s) (KeyID (l_Binding l)) = Some c" by (auto simp: fm_has_iff)
    from inv_cut_index [OF i(7) this] obtain d where d: "fmlookup (cutoversByToken s) c = Some d"
      "c_state d = storedCutoverActive" "KeyID (f_Source (c_fence d)) = KeyID (l_Binding l)" by blast
    from inv_cutD(1) [OF i(7) d(1)] d assms(3,4) show False
      by (auto simp: cutoverEntryOk_def Let_def hasActiveLeaseForKeyLocked_def fm_ex_iff)
  qed
  moreover have "t' = t" if "fmlookup (leasesByToken s) t' = Some l'" "l_State l' = RunLeaseActive"
    "KeyID (l_Binding l') = KeyID (l_Binding l)" "exclusiveLeaseRunKind (l_Kind l)"
    using i(2) that assms(3,4) unfolding inv_lease_def by metis
  ultimately show ?thesis by (auto simp: fm_has_def)
qed

theorem active_leases_exclusive_witness:
  "fmlookup (leasesByToken ex_s5) 2 = Some (ex_lease 2 RunSign RunLeaseActive)
    \<and> fmlookup (cutoverByKey ex_s5) (KeyID (l_Binding (ex_lease 2 RunSign RunLeaseActive))) = None"
proof -
  have l: "fmlookup (leasesByToken ex_s5) 2 = Some (ex_lease 2 RunSign RunLeaseActive)"
    "l_State (ex_lease 2 RunSign RunLeaseActive) = RunLeaseActive"
    by (simp_all add: ex_states ex_data)
  show ?thesis using active_leases_exclusive [OF ex_reach(5) _ l] l by simp
qed

end
