(* ===== verification/Lifecycle_Cutover_Props.thy ===== *)
theory Lifecycle_Cutover_Props
  imports Lifecycle_Props
begin

text \<open>
  Generations of a key: what the current generation is, what a cutover does, what fences and retired
  material mean, and the reply of a committed cutover that is replayed after the next one.
\<close>

section \<open>The current generation\<close>

text \<open>
  C12: \<^verbatim>\<open>LoadCurrentGeneration\<close> answers with exactly the one generation of the key whose status is current,
  fails with the not-current error exactly when there is none, and never reports corruption.
\<close>

theorem load_current_generation:
  assumes "reach n s" "n < 2 ^ 64" "validateLifecycleIdentifier k"
  shows "(LoadCurrentGeneration False k s = Inr g \<longleftrightarrow>
      (\<exists>b. KeyID b = k \<and> fmlookup (generations s) b = Some g \<and> g_Status g = GenerationCurrent))
    \<and> (LoadCurrentGeneration False k s = Inl ErrGenerationNotCurrent \<longleftrightarrow>
      (\<nexists>b g. KeyID b = k \<and> fmlookup (generations s) b = Some g \<and> g_Status g = GenerationCurrent))
    \<and> LoadCurrentGeneration False k s \<noteq> Inl ErrLifecycleCorrupt"
proof (intro conjI)
  note i = inv_parts(1) [OF reach_inv [OF assms(1,2)]]
  have cur: "fmlookup (current s) k = Some b \<longleftrightarrow>
      KeyID b = k \<and> (\<exists>g. fmlookup (generations s) b = Some g \<and> g_Status g = GenerationCurrent)" for b
    using i unfolding inv_gen_def genOk_def by metis
  have load: "LoadCurrentGeneration False k s = (case fmlookup (current s) k of
      None \<Rightarrow> Inl ErrGenerationNotCurrent | Some b \<Rightarrow> Inr (the (fmlookup (generations s) b)))"
  proof (cases "fmlookup (current s) k")
    case (Some b)
    with cur obtain g where "fmlookup (generations s) b = Some g" "g_Status g = GenerationCurrent" by blast
    with Some assms(3) show ?thesis by (simp add: LoadCurrentGeneration_def)
  qed (use assms(3) in \<open>simp add: LoadCurrentGeneration_def\<close>)
  show "LoadCurrentGeneration False k s = Inr g \<longleftrightarrow>
      (\<exists>b. KeyID b = k \<and> fmlookup (generations s) b = Some g \<and> g_Status g = GenerationCurrent)"
  proof
    assume "LoadCurrentGeneration False k s = Inr g"
    then obtain b where "fmlookup (current s) k = Some b" "g = the (fmlookup (generations s) b)"
      by (auto simp: load split: option.splits)
    with cur show "\<exists>b. KeyID b = k \<and> fmlookup (generations s) b = Some g \<and> g_Status g = GenerationCurrent"
      by (metis option.sel)
  next
    assume "\<exists>b. KeyID b = k \<and> fmlookup (generations s) b = Some g \<and> g_Status g = GenerationCurrent"
    then obtain b where b: "KeyID b = k" "fmlookup (generations s) b = Some g" "g_Status g = GenerationCurrent"
      by blast
    then have "fmlookup (current s) k = Some b" using cur by blast
    with b show "LoadCurrentGeneration False k s = Inr g" by (simp add: load)
  qed
  show "LoadCurrentGeneration False k s = Inl ErrGenerationNotCurrent \<longleftrightarrow>
      (\<nexists>b g. KeyID b = k \<and> fmlookup (generations s) b = Some g \<and> g_Status g = GenerationCurrent)"
    using cur by (auto simp: load split: option.splits)
  show "LoadCurrentGeneration False k s \<noteq> Inl ErrLifecycleCorrupt"
    by (simp add: load split: option.splits)
qed

theorem load_current_generation_witness:
  "LoadCurrentGeneration False ''k'' ex_s10 = Inr (ex_gen ex_b2 [3])
    \<and> LoadCurrentGeneration False ''k'' ex_s10 \<noteq> Inl ErrLifecycleCorrupt"
proof -
  have "\<exists>b. KeyID b = ''k'' \<and> fmlookup (generations ex_s10) b = Some (ex_gen ex_b2 [3])
      \<and> g_Status (ex_gen ex_b2 [3]) = GenerationCurrent"
    by (rule exI [of _ ex_b2]) (simp add: ex_states ex_data)
  then show ?thesis using load_current_generation [OF ex_reach(8), of "''k''" "ex_gen ex_b2 [3]"] by simp
qed

section \<open>Cutover\<close>

lemma CommitCutover_ok:
  "ok_or (\<lambda>g s'. \<exists>c. fmlookup (cutoversByToken s) (f_Token fence) = Some c \<and> c_fence c = fence
      \<and> (c_state c = storedCutoverCommitted \<and> s' = s
        \<or> c_state c = storedCutoverActive \<and> g = targetRecord fence blob metadata
          \<and> (\<exists>src. validateCutoverFence fence \<and> blob \<noteq> [] \<and> isCurrentLocked (f_Source fence) s
              \<and> fmlookup (generations s) (f_Source fence) = Some src
              \<and> s' = (cutOver fence c src blob metadata s)\<lparr>cutoversByToken :=
                  fmupd (f_Token fence) (committedCutover c blob metadata) (cutoversByToken s)\<rparr>)))
    (CommitCutover ctx fence blob metadata s)"
  unfolding CommitCutover_def Let_def
proof (intro ok_rules, goal_cases)
  case (1 c g)
  then show ?case by (intro ok_leaf) auto
next
  case (2 c src)
  show ?case
    unfolding targetRecord_def [symmetric] committedCutover_def [symmetric]
    by (rule ok_leaf, rule exI [of _ c])
       (use 2 cutOver_eq [where fence = fence and c = c and src = src and s = s] in
         \<open>auto simp: validateLifecycleBlob_def\<close>)
qed

text \<open>
  C3: committing an open cutover does all of its parts at once.  The target is then the generation that
  \<^verbatim>\<open>LoadCurrentGeneration\<close> returns, with the given blob; the source is retired and its secret
  bytes are gone; every presign of the source generation is burned, so none of them can sign any more;
  the fence is closed; and generations, presigns and fences of other keys are untouched.
\<close>

theorem commit_cutover_effect:
  assumes r: "reach n s" "n + 1 < 2 ^ 64" and c: "CommitCutover ctx fence blob metadata s = (Inr g, s')"
    and a: "fmlookup (cutoversByToken s) (f_Token fence) = Some c" "c_state c = storedCutoverActive"
  defines "k \<equiv> KeyID (f_Source fence)"
  shows "LoadCurrentGeneration False k s' = Inr g \<and> g_Binding g = f_Target fence \<and> g_Blob g = blob
    \<and> (\<exists>old. fmlookup (generations s') (f_Source fence) = Some old \<and> g_Status old = GenerationRetired
      \<and> g_Blob old = [] \<and> g_Metadata old = [])
    \<and> (\<forall>j p. fmlookup (presigns s') j = Some p \<and> p_binding p = f_Source fence \<longrightarrow>
      p_state p = storedPresignBurned \<and> p_blob p = [])
    \<and> fmlookup (cutoverByKey s') k = None
    \<and> (\<forall>k'. k' \<noteq> k \<longrightarrow> LoadCurrentGeneration False k' s' = LoadCurrentGeneration False k' s
      \<and> fmlookup (cutoverByKey s') k' = fmlookup (cutoverByKey s) k')
    \<and> (\<forall>j p. fmlookup (presigns s) j = Some p \<and> KeyID (p_binding p) \<noteq> k \<longrightarrow>
      fmlookup (presigns s') j = Some p)"
proof (intro conjI)
  have i: "store_inv s" using reach_inv [OF r(1)] r(2) by simp
  from ok_orD [OF CommitCutover_ok c] a obtain src where f: "c_fence c = fence" "g = targetRecord fence blob metadata"
    "validateCutoverFence fence" "blob \<noteq> []" "isCurrentLocked (f_Source fence) s"
    "fmlookup (generations s) (f_Source fence) = Some src"
    and s': "s' = (cutOver fence c src blob metadata s)\<lparr>cutoversByToken :=
      fmupd (f_Token fence) (committedCutover c blob metadata) (cutoversByToken s)\<rparr>" by auto
  have ne: "f_Source fence \<noteq> f_Target fence" "KeyID (f_Target fence) = k"
    "validateLifecycleIdentifier k"
    using f(3) by (auto simp: validateCutoverFence_def validateCutoverBindings_def k_def GenerationBinding_Validate_def)
  note sel = cutOver_sel [OF f(3,1)]
  show "g_Binding g = f_Target fence" "g_Blob g = blob" by (simp_all add: f(2) targetRecord_def)
  show "LoadCurrentGeneration False k s' = Inr g"
    using ne by (simp add: LoadCurrentGeneration_def s' sel k_def f(2) targetRecord_def)
  show "\<exists>old. fmlookup (generations s') (f_Source fence) = Some old \<and> g_Status old = GenerationRetired
      \<and> g_Blob old = [] \<and> g_Metadata old = []" by (simp add: s' sel retireRecord_def)
  show "fmlookup (cutoverByKey s') k = None" by (simp add: s' sel k_def)
  have off: "LoadCurrentGeneration False k' s' = LoadCurrentGeneration False k' s" if "k' \<noteq> k" for k'
  proof -
    have "KeyID b = k'" if "fmlookup (current s) k' = Some b" for b
      using inv_parts(1) [OF i] that by (auto simp: inv_gen_def)
    then have "fmlookup (generations s') b = fmlookup (generations s) b" if "fmlookup (current s) k' = Some b" for b
      using that ne \<open>k' \<noteq> k\<close> by (auto simp: s' sel k_def)
    then show ?thesis using that by (auto simp: LoadCurrentGeneration_def s' sel k_def split: option.split)
  qed
  then show "\<forall>k'. k' \<noteq> k \<longrightarrow> LoadCurrentGeneration False k' s' = LoadCurrentGeneration False k' s
      \<and> fmlookup (cutoverByKey s') k' = fmlookup (cutoverByKey s) k'"
    by (simp add: s' sel k_def)
  have "cutoverEntryOk s (f_Token fence) c" using inv_cutD(1) [OF inv_parts(7) [OF i] a(1)] .
  then have "\<not> hasNonTerminalAttemptLocked (f_Source fence) s"
    using a(2) f(1) by (simp add: cutoverEntryOk_def Let_def)
  then have att: "\<not> hasNonTerminalAttemptForKeyLocked k s"
    unfolding k_def by (rule no_nonterminal_for_key [OF i f(5)])
  have "store_inv (burnEpochPresignsLocked k (Epoch (f_Source fence)) s)" using inv_burnEpoch [OF i] by blast
  then have v: "validateStoredPresign (burnEpochPresignsLocked k (Epoch (f_Source fence)) s) j p"
    if "fmlookup (presigns s') j = Some p" for j p
    using that inv_preD(4) [OF inv_parts(5)] by (simp add: s' sel k_def)
  show "\<forall>j p. fmlookup (presigns s') j = Some p \<and> p_binding p = f_Source fence \<longrightarrow>
      p_state p = storedPresignBurned \<and> p_blob p = []"
  proof (intro allI impI, elim conjE)
    fix j p assume p: "fmlookup (presigns s') j = Some p" "p_binding p = f_Source fence"
    then have "p_state p = storedPresignBurned"
      using burnEpoch_burned [OF i f(5) att [unfolded k_def], of j p] by (simp add: s' sel)
    with v [OF p(1)] show "p_state p = storedPresignBurned \<and> p_blob p = []"
      by (simp add: validateStoredPresign_def)
  qed
  show "\<forall>j p. fmlookup (presigns s) j = Some p \<and> KeyID (p_binding p) \<noteq> k \<longrightarrow> fmlookup (presigns s') j = Some p"
    by (simp add: s' sel burnEpochPresignsLocked_def burnEpochPresign_def k_def)
qed

lemma ex_active: "fmlookup (cutoversByToken ex_s9) (f_Token (ex_fence 1 ex_b1 ex_b2))
    = Some (newCutover (ex_fence 1 ex_b1 ex_b2))"
  "c_state (newCutover (ex_fence 1 ex_b1 ex_b2)) = storedCutoverActive"
  by (simp_all add: ex_states ex_data)

theorem commit_cutover_effect_witness:
  "CommitCutover False (ex_fence 1 ex_b1 ex_b2) [3] [] ex_s9 = (Inr (ex_gen ex_b2 [3]), ex_s10)
    \<and> LoadCurrentGeneration False ''k'' ex_s10 = Inr (ex_gen ex_b2 [3])
    \<and> (\<exists>old. fmlookup (generations ex_s10) ex_b1 = Some old \<and> g_Status old = GenerationRetired
      \<and> g_Blob old = [] \<and> g_Metadata old = [])"
  using commit_cutover_effect [OF ex_reach(7) _ ex_run10 ex_active] ex_run10 by (simp add: ex_fence_def)



section \<open>Secrets and terminal records\<close>

text \<open>
  C14: secret bytes do not outlive their use.  A generation that is not current keeps neither blob nor
  metadata, a presign that has been claimed or burned keeps neither blob nor metadata, and a finished
  or aborted signing attempt keeps no outbox.
\<close>

theorem secrets_cleared:
  assumes "reach n s" "n < 2 ^ 64"
  shows "(\<forall>b g. fmlookup (generations s) b = Some g \<and> g_Status g \<noteq> GenerationCurrent \<longrightarrow>
        g_Blob g = [] \<and> g_Metadata g = [])
    \<and> (\<forall>j p. fmlookup (presigns s) j = Some p \<and> p_state p \<noteq> storedPresignAvailable \<longrightarrow>
        p_blob p = [] \<and> p_metadata p = [])
    \<and> (\<forall>i a. fmlookup (attempts s) i = Some a \<and> Terminal a \<longrightarrow> a_ExactOutbox a = [])"
proof (intro conjI allI impI; elim conjE)
  note i = inv_parts [OF reach_inv [OF assms]]
  show "g_Blob g = []" "g_Metadata g = []"
    if "fmlookup (generations s) b = Some g" "g_Status g \<noteq> GenerationCurrent" for b g
    using i(1) that by (auto simp: inv_gen_def genOk_def)
  show "p_blob p = []" "p_metadata p = []"
    if "fmlookup (presigns s) j = Some p" "p_state p \<noteq> storedPresignAvailable" for j p
    using inv_preD(4) [OF i(5) that(1)] that(2)
    by (auto simp: validateStoredPresign_def split: storedPresignState.splits)
  show "a_ExactOutbox a = []" if "fmlookup (attempts s) k = Some a" "Terminal a" for k a
    using inv_attD [OF i(6) that(1)] that(2) by (simp add: attemptEntryOk_def validateStoredAttemptProgress_def)
qed

theorem secrets_cleared_witness:
  "fmlookup (presigns ex_s5) ''p'' = Some (ex_presign storedPresignClaimed)
    \<and> p_blob (ex_presign storedPresignClaimed) = [] \<and> p_metadata (ex_presign storedPresignClaimed) = []"
proof -
  have "fmlookup (presigns ex_s5) ''p'' = Some (ex_presign storedPresignClaimed)"
    "p_state (ex_presign storedPresignClaimed) \<noteq> storedPresignAvailable"
    by (simp_all add: ex_states ex_data)
  with secrets_cleared [OF ex_reach(5)] show ?thesis by simp
qed

text \<open>
  C15: terminal records are final.  Whatever calls follow, a burned presign, a finished or aborted
  attempt, a retired generation, a committed or aborted cutover, a finished lease, a lease effect and
  a refresh-disabled mark are found again unchanged.
\<close>

theorem terminal_records_final:
  assumes "reach n s" "reach_from s m s'" "n + m < 2 ^ 64"
  shows "(fmlookup (presigns s) j = Some p \<and> p_state p = storedPresignBurned \<longrightarrow> fmlookup (presigns s') j = Some p)
    \<and> (fmlookup (attempts s) i = Some a \<and> Terminal a \<longrightarrow> fmlookup (attempts s') i = Some a)
    \<and> (fmlookup (generations s) b = Some g \<and> g_Status g \<noteq> GenerationCurrent \<longrightarrow>
        fmlookup (generations s') b = Some g)
    \<and> (fmlookup (cutoversByToken s) t = Some c \<and> c_state c \<noteq> storedCutoverActive \<longrightarrow>
        fmlookup (cutoversByToken s') t = Some c)
    \<and> (fmlookup (leasesByToken s) u = Some l \<and> l_State l \<noteq> RunLeaseActive \<longrightarrow>
        fmlookup (leasesByToken s') u = Some l)
    \<and> (fmlookup (leaseEffects s) u = Some e \<longrightarrow> fmlookup (leaseEffects s') u = Some e)
    \<and> (fmlookup (refreshDisabled s) k = Some d \<longrightarrow> fmlookup (refreshDisabled s') k = Some d)"
proof -
  have h: "hist s s'" by (rule reach_hist [OF assms(2,1,3)])
  have "rec_le presign_le (presigns s) (presigns s')" "rec_le attempt_le (attempts s) (attempts s')"
    "rec_le gen_le (generations s) (generations s')" "rec_le cutover_le (cutoversByToken s) (cutoversByToken s')"
    "rec_le lease_le (leasesByToken s) (leasesByToken s')" "rec_le (=) (leaseEffects s) (leaseEffects s')"
    "rec_le (=) (refreshDisabled s) (refreshDisabled s')" using h by (simp_all add: hist_def)
  note le = this
  show ?thesis
    using rec_leD [OF le(1), of j p] rec_leD [OF le(2), of i a] rec_leD [OF le(3), of b g]
      rec_leD [OF le(4), of t c] rec_leD [OF le(5), of u l] rec_leD [OF le(6), of u e]
      rec_leD [OF le(7), of k d]
    by (auto simp: presign_le_def attempt_le_def gen_le_def cutover_le_def lease_le_def)
qed

lemma ex_reach1012: "reach_from ex_s10 2 ex_s12"
  using reach_from.call [OF reach_from.call [OF reach_from.start]] ex_run11
  by (metis Suc_1 One_nat_def ex_s12_def exec.simps(12,15) snd_conv)

theorem terminal_records_final_witness:
  "fmlookup (generations ex_s10) ex_b1 = Some (retireRecord (ex_gen ex_b1 [1]))
    \<and> fmlookup (generations ex_s12) ex_b1 = Some (retireRecord (ex_gen ex_b1 [1]))"
proof -
  have "fmlookup (generations ex_s10) ex_b1 = Some (retireRecord (ex_gen ex_b1 [1]))"
    "g_Status (retireRecord (ex_gen ex_b1 [1])) \<noteq> GenerationCurrent"
    by (simp_all add: ex_states ex_data retireRecord_def)
  then show ?thesis using terminal_records_final [OF ex_reach(8) ex_reach1012] by simp
qed

section \<open>Replayed cutovers\<close>

text \<open>
  C16: a committed cutover can be replayed only until the next cutover.  The exact repetition of a
  successful \<^verbatim>\<open>CommitCutover\<close> call returns the installed generation as long as the target is current, and
  reports corruption of a consistent store as soon as the target itself has been cut over.
\<close>

theorem cutover_replay:
  assumes r: "reach n s" "n + m + 1 < 2 ^ 64" and c: "CommitCutover ctx fence blob metadata s = (Inr g, s1)"
    and l: "reach_from s1 m s2"
  shows "CommitCutover False fence blob metadata s2 =
    (case fmlookup (generations s2) (f_Target fence) of
       Some h \<Rightarrow> if g_Status h = GenerationCurrent then Inr h else Inl ErrLifecycleCorrupt
     | None \<Rightarrow> Inl ErrLifecycleCorrupt, s2)
    \<and> validateMemoryLifecycleStateForKey s2 fileLifecycleGlobalKeyID = Inr ()"
proof
  have eq: "s1 = exec (Call_CommitCutover ctx fence blob metadata) s" using c by simp
  note later = later_inv [OF r(1) eq l r(2)]
  show "validateMemoryLifecycleStateForKey s2 fileLifecycleGlobalKeyID = Inr ()" by (rule inv_validates [OF later(1)])
  have "ok_or (\<lambda>_ s1. \<exists>d. fmlookup (cutoversByToken s1) (f_Token fence) = Some d \<and> c_fence d = fence
      \<and> c_state d = storedCutoverCommitted \<and> c_targetBlobDigest d = sha256 blob
      \<and> c_targetMetadataDigest d = sha256 metadata \<and> validateCutoverFence fence
      \<and> validateLifecycleBlob blob True \<and> validateLifecycleBlob metadata False)
    (CommitCutover ctx fence blob metadata s)"
    unfolding CommitCutover_def Let_def by (intro ok_rules; intro ok_leaf) auto
  from ok_orD [OF this c] obtain d where d: "fmlookup (cutoversByToken s1) (f_Token fence) = Some d"
    "c_fence d = fence" "c_state d = storedCutoverCommitted" "c_targetBlobDigest d = sha256 blob"
    "c_targetMetadataDigest d = sha256 metadata" "validateCutoverFence fence" "validateLifecycleBlob blob True"
    "validateLifecycleBlob metadata False" by blast
  have "rec_le cutover_le (cutoversByToken s1) (cutoversByToken s2)" using later(2) by (simp add: hist_def)
  from rec_leD [OF this d(1)] d(3) have "fmlookup (cutoversByToken s2) (f_Token fence) = Some d"
    by (auto simp: cutover_le_def)
  with d show "CommitCutover False fence blob metadata s2 =
    (case fmlookup (generations s2) (f_Target fence) of
       Some h \<Rightarrow> if g_Status h = GenerationCurrent then Inr h else Inl ErrLifecycleCorrupt
     | None \<Rightarrow> Inl ErrLifecycleCorrupt, s2)"
    by (simp add: CommitCutover_def split: option.split)
qed

theorem cutover_replay_witness:
  "CommitCutover False (ex_fence 1 ex_b1 ex_b2) [3] [] ex_s9 = (Inr (ex_gen ex_b2 [3]), ex_s10)
    \<and> CommitCutover False (ex_fence 1 ex_b1 ex_b2) [3] [] ex_s12 = (Inl ErrLifecycleCorrupt, ex_s12)
    \<and> validateMemoryLifecycleStateForKey ex_s12 fileLifecycleGlobalKeyID = Inr ()"
proof -
  have "fmlookup (generations ex_s12) ex_b2 = Some (retireRecord (ex_gen ex_b2 [3]))"
    unfolding ex_s12_def
    by (simp add: CommitCutover_def ex_eval ex_guards ex_states ex_data retireRecord_def)
  then show ?thesis
    using cutover_replay [OF ex_reach(7) _ ex_run10 ex_reach1012] ex_run10
    by (simp add: ex_fence_def retireRecord_def)
qed

end
