(* ===== verification/Spec2Isabelle.thy ===== *)
theory Spec2Isabelle
  imports Message_Props Transcript Curve_Scalar Lifecycle_Cutover_Props
begin

text \<open>
  Verification library for the threshold-signature framework \<^verbatim>\<open>islishude/tss\<close>.

  \<^verbatim>\<open>Prelude\<close> and \<^verbatim>\<open>Stdlib\<close> hold byte strings, finite maps and the parts of the Go library in use.
  \<^verbatim>\<open>Wire_Stream\<close>, \<^verbatim>\<open>Wire_Records\<close> and \<^verbatim>\<open>Wire_Frame\<close> model \<^verbatim>\<open>internal/wire\<close>; \<^verbatim>\<open>Transcript\<close> models
  \<^verbatim>\<open>internal/transcript\<close>.
\<close>

end
